(* ===== verification/HttpContext.thy ===== *)
theory HttpContext
  imports GoStrings
begin

text \<open>
  Package \<open>http/context\<close>: the keys under which the SDK stores per-request values, and the typed
  getters and setters. A \<open>context.Context\<close> is the finite map its chain of \<open>WithValue\<close> calls builds;
  a stored value is one of the Go types the SDK stores.
\<close>

datatype ctxval =
    CStr string
  | CBool bool
  | CStrs "string list"
  | CStrMap "(string \<times> string) list"

type_synonym ctxKey = string
type_synonym ctx = "ctxKey \<rightharpoonup> ctxval"

definition START_TIME_KEY :: ctxKey where "START_TIME_KEY = ''start_time''"
definition END_TIME_KEY :: ctxKey where "END_TIME_KEY = ''end_time''"
definition DURATION_KEY :: ctxKey where "DURATION_KEY = ''duration''"
definition VERSION_KEY :: ctxKey where "VERSION_KEY = ''version''"
definition URI_KEY :: ctxKey where "URI_KEY = ''uri''"
definition PATH_PARAMS_KEY :: ctxKey where "PATH_PARAMS_KEY = ''path_params''"
definition QUERY_PARAMS_KEY :: ctxKey where "QUERY_PARAMS_KEY = ''query_params''"
definition VALIDATION_RULE_KEY :: ctxKey where "VALIDATION_RULE_KEY = ''validation_rule''"
definition REQUEST_ID_KEY :: ctxKey where "REQUEST_ID_KEY = ''request_id''"
definition REQUEST_TIMEOUT_KEY :: ctxKey where "REQUEST_TIMEOUT_KEY = ''request_timeout''"
definition CLIENT_IP_KEY :: ctxKey where "CLIENT_IP_KEY = ''client_ip''"
definition CLIENT_TYPE_KEY :: ctxKey where "CLIENT_TYPE_KEY = ''client_type''"
definition USER_AGENT_KEY :: ctxKey where "USER_AGENT_KEY = ''user_agent''"
definition METHOD_KEY :: ctxKey where "METHOD_KEY = ''method''"
definition AUTH_VALID_KEY :: ctxKey where "AUTH_VALID_KEY = ''auth_valid''"
definition SESSION_ID_KEY :: ctxKey where "SESSION_ID_KEY = ''session_id''"
definition SESSION_VALID_KEY :: ctxKey where "SESSION_VALID_KEY = ''session_valid''"
definition USER_ID_KEY :: ctxKey where "USER_ID_KEY = ''user_id''"
definition REQUEST_TYPE_KEY :: ctxKey where "REQUEST_TYPE_KEY = ''request_type''"
definition SCOPES_KEY :: ctxKey where "SCOPES_KEY = ''scopes''"
definition IS_ADMIN_KEY :: ctxKey where "IS_ADMIN_KEY = ''is_admin''"
definition IDEMPOTENCY_KEY :: ctxKey where "IDEMPOTENCY_KEY = ''idempotency_key''"
definition IDEMPOTENCY_VALID_KEY :: ctxKey where "IDEMPOTENCY_VALID_KEY = ''idempotency_key_valid''"
definition CORRELATION_ID_KEY :: ctxKey where "CORRELATION_ID_KEY = ''correlation_id''"
definition CSRF_TOKEN_KEY :: ctxKey where "CSRF_TOKEN_KEY = ''csrf_token''"
definition CSRF_VALID_KEY :: ctxKey where "CSRF_VALID_KEY = ''csrf_token_valid''"
definition LOGGER_KEY :: ctxKey where "LOGGER_KEY = ''logger''"
definition OTEL_LOGGER_KEY :: ctxKey where "OTEL_LOGGER_KEY = ''otel_logger''"

lemmas key_defs = START_TIME_KEY_def END_TIME_KEY_def DURATION_KEY_def VERSION_KEY_def URI_KEY_def
  PATH_PARAMS_KEY_def QUERY_PARAMS_KEY_def VALIDATION_RULE_KEY_def REQUEST_ID_KEY_def
  REQUEST_TIMEOUT_KEY_def CLIENT_IP_KEY_def CLIENT_TYPE_KEY_def USER_AGENT_KEY_def METHOD_KEY_def
  AUTH_VALID_KEY_def SESSION_ID_KEY_def SESSION_VALID_KEY_def USER_ID_KEY_def REQUEST_TYPE_KEY_def
  SCOPES_KEY_def IS_ADMIN_KEY_def IDEMPOTENCY_KEY_def IDEMPOTENCY_VALID_KEY_def CORRELATION_ID_KEY_def
  CSRF_TOKEN_KEY_def CSRF_VALID_KEY_def LOGGER_KEY_def OTEL_LOGGER_KEY_def

text \<open>\<open>context.WithValue\<close>.\<close>

definition WithValue :: "ctx \<Rightarrow> ctxKey \<Rightarrow> ctxval \<Rightarrow> ctx" where
  "WithValue c k v = c(k \<mapsto> v)"

lemma WithValue_apply [simp]: "WithValue c k v k' = (if k' = k then Some v else c k')"
  by (simp add: WithValue_def)

section \<open>Getters\<close>

text \<open>A failed type assertion yields the zero value.\<close>

definition stringValue :: "ctx \<Rightarrow> ctxKey \<Rightarrow> string" where
  "stringValue c k = (case c k of Some (CStr s) \<Rightarrow> s | _ \<Rightarrow> [])"

definition boolValue :: "ctx \<Rightarrow> ctxKey \<Rightarrow> bool" where
  "boolValue c k = (case c k of Some (CBool b) \<Rightarrow> b | _ \<Rightarrow> False)"

definition GetCtxRequestID :: "ctx \<Rightarrow> string" where "GetCtxRequestID c = stringValue c REQUEST_ID_KEY"
definition GetCorrelationID :: "ctx \<Rightarrow> string" where "GetCorrelationID c = stringValue c CORRELATION_ID_KEY"
definition GetUserID :: "ctx \<Rightarrow> string" where "GetUserID c = stringValue c USER_ID_KEY"
definition GetSessionID :: "ctx \<Rightarrow> string" where "GetSessionID c = stringValue c SESSION_ID_KEY"
definition GetCtxClientType :: "ctx \<Rightarrow> string" where "GetCtxClientType c = stringValue c CLIENT_TYPE_KEY"
definition GetRequestType :: "ctx \<Rightarrow> string" where "GetRequestType c = stringValue c REQUEST_TYPE_KEY"
definition GetClientIP :: "ctx \<Rightarrow> string" where "GetClientIP c = stringValue c CLIENT_IP_KEY"
definition GetUserAgent :: "ctx \<Rightarrow> string" where "GetUserAgent c = stringValue c USER_AGENT_KEY"
definition GetMethod :: "ctx \<Rightarrow> string" where "GetMethod c = stringValue c METHOD_KEY"
definition GetURI :: "ctx \<Rightarrow> string" where "GetURI c = stringValue c URI_KEY"
definition GetVersion :: "ctx \<Rightarrow> string" where "GetVersion c = stringValue c VERSION_KEY"
definition GetCSRFToken :: "ctx \<Rightarrow> string" where "GetCSRFToken c = stringValue c CSRF_TOKEN_KEY"
definition GetIdempotencyKey :: "ctx \<Rightarrow> string" where "GetIdempotencyKey c = stringValue c IDEMPOTENCY_KEY"

definition GetScopes :: "ctx \<Rightarrow> string list" where
  "GetScopes c = (case c SCOPES_KEY of Some (CStrs ss) \<Rightarrow> ss | _ \<Rightarrow> [])"

definition GetCtxPathParams :: "ctx \<Rightarrow> (string \<times> string) list" where
  "GetCtxPathParams c = (case c PATH_PARAMS_KEY of Some (CStrMap m) \<Rightarrow> m | _ \<Rightarrow> [])"

definition GetCtxQueryParams :: "ctx \<Rightarrow> (string \<times> string) list" where
  "GetCtxQueryParams c = (case c QUERY_PARAMS_KEY of Some (CStrMap m) \<Rightarrow> m | _ \<Rightarrow> [])"

definition IsAuthValid :: "ctx \<Rightarrow> bool" where "IsAuthValid c = boolValue c AUTH_VALID_KEY"
definition IsAdmin :: "ctx \<Rightarrow> bool" where "IsAdmin c = boolValue c IS_ADMIN_KEY"
definition IsSessionValid :: "ctx \<Rightarrow> bool" where "IsSessionValid c = boolValue c SESSION_VALID_KEY"
definition IsCSRFValid :: "ctx \<Rightarrow> bool" where "IsCSRFValid c = boolValue c CSRF_VALID_KEY"
definition IsIdempotencyValid :: "ctx \<Rightarrow> bool" where "IsIdempotencyValid c = boolValue c IDEMPOTENCY_VALID_KEY"

lemmas getter_defs = GetCtxRequestID_def GetCorrelationID_def GetUserID_def GetSessionID_def
  GetCtxClientType_def GetRequestType_def GetClientIP_def GetUserAgent_def GetMethod_def GetURI_def
  GetVersion_def GetCSRFToken_def GetIdempotencyKey_def GetScopes_def GetCtxPathParams_def
  GetCtxQueryParams_def IsAuthValid_def IsAdmin_def IsSessionValid_def IsCSRFValid_def
  IsIdempotencyValid_def stringValue_def boolValue_def

section \<open>Setters\<close>

definition WithRequestID :: "ctx \<Rightarrow> string \<Rightarrow> ctx" where "WithRequestID c v = WithValue c REQUEST_ID_KEY (CStr v)"
definition WithCorrelationID :: "ctx \<Rightarrow> string \<Rightarrow> ctx" where "WithCorrelationID c v = WithValue c CORRELATION_ID_KEY (CStr v)"
definition WithUserID :: "ctx \<Rightarrow> string \<Rightarrow> ctx" where "WithUserID c v = WithValue c USER_ID_KEY (CStr v)"
definition WithSessionID :: "ctx \<Rightarrow> string \<Rightarrow> ctx" where "WithSessionID c v = WithValue c SESSION_ID_KEY (CStr v)"
definition WithClientType :: "ctx \<Rightarrow> string \<Rightarrow> ctx" where "WithClientType c v = WithValue c CLIENT_TYPE_KEY (CStr v)"
definition WithRequestType :: "ctx \<Rightarrow> string \<Rightarrow> ctx" where "WithRequestType c v = WithValue c REQUEST_TYPE_KEY (CStr v)"
definition WithClientIP :: "ctx \<Rightarrow> string \<Rightarrow> ctx" where "WithClientIP c v = WithValue c CLIENT_IP_KEY (CStr v)"
definition WithCSRFToken :: "ctx \<Rightarrow> string \<Rightarrow> ctx" where "WithCSRFToken c v = WithValue c CSRF_TOKEN_KEY (CStr v)"
definition WithScopes :: "ctx \<Rightarrow> string list \<Rightarrow> ctx" where "WithScopes c v = WithValue c SCOPES_KEY (CStrs v)"
definition WithAuthValid :: "ctx \<Rightarrow> bool \<Rightarrow> ctx" where "WithAuthValid c v = WithValue c AUTH_VALID_KEY (CBool v)"
definition WithAdmin :: "ctx \<Rightarrow> bool \<Rightarrow> ctx" where "WithAdmin c v = WithValue c IS_ADMIN_KEY (CBool v)"
definition WithCSRFValid :: "ctx \<Rightarrow> bool \<Rightarrow> ctx" where "WithCSRFValid c v = WithValue c CSRF_VALID_KEY (CBool v)"
definition WithIdempotencyValid :: "ctx \<Rightarrow> bool \<Rightarrow> ctx" where "WithIdempotencyValid c v = WithValue c IDEMPOTENCY_VALID_KEY (CBool v)"

lemmas setter_defs = WithRequestID_def WithCorrelationID_def WithUserID_def WithSessionID_def
  WithClientType_def WithRequestType_def WithClientIP_def WithCSRFToken_def WithScopes_def
  WithAuthValid_def WithAdmin_def WithCSRFValid_def WithIdempotencyValid_def

section \<open>The accessor contract\<close>

text \<open>
  What the middleware relies on: a setter writes exactly one key, and the getter of that key reads
  back what was written and looks at nothing else.
\<close>

locale ctx_accessor =
  fixes key :: ctxKey
    and getter :: "ctx \<Rightarrow> 'v"
    and setter :: "ctx \<Rightarrow> 'v \<Rightarrow> ctx"
  assumes get_set: "getter (setter c v) = v"
    and set_frame: "k \<noteq> key \<Longrightarrow> setter c v k = c k"
    and get_local: "c key = d key \<Longrightarrow> getter c = getter d"
begin

lemma set_inj: "setter c v = setter c w \<Longrightarrow> v = w"
  by (metis get_set)

lemma get_frame: "(\<And>k. k \<noteq> key' \<Longrightarrow> c' k = c k) \<Longrightarrow> key \<noteq> key' \<Longrightarrow> getter c' = getter c"
  by (rule get_local) simp

end

text \<open>Two accessors on different keys do not disturb each other.\<close>

locale ctx_accessors =
  a: ctx_accessor key getter setter + b: ctx_accessor key' getter' setter'
  for key :: ctxKey and getter :: "ctx \<Rightarrow> 'v" and setter :: "ctx \<Rightarrow> 'v \<Rightarrow> ctx"
    and key' :: ctxKey and getter' :: "ctx \<Rightarrow> 'w" and setter' :: "ctx \<Rightarrow> 'w \<Rightarrow> ctx" +
  assumes keys_differ: "key \<noteq> key'"
begin

lemma get_other: "getter (setter' c w) = getter c"
  by (rule a.get_frame [where key' = key']) (simp_all add: b.set_frame keys_differ)

lemma get_other': "getter' (setter c v) = getter' c"
  by (rule b.get_frame [where key' = key]) (simp_all add: a.set_frame keys_differ [symmetric])

end

interpretation acc_request_id: ctx_accessor REQUEST_ID_KEY GetCtxRequestID WithRequestID
  by unfold_locales (auto simp: getter_defs setter_defs)

interpretation acc_correlation: ctx_accessor CORRELATION_ID_KEY GetCorrelationID WithCorrelationID
  by unfold_locales (auto simp: getter_defs setter_defs)

interpretation acc_user: ctx_accessor USER_ID_KEY GetUserID WithUserID
  by unfold_locales (auto simp: getter_defs setter_defs)

interpretation acc_session: ctx_accessor SESSION_ID_KEY GetSessionID WithSessionID
  by unfold_locales (auto simp: getter_defs setter_defs)

interpretation acc_client_ip: ctx_accessor CLIENT_IP_KEY GetClientIP WithClientIP
  by unfold_locales (auto simp: getter_defs setter_defs)

interpretation acc_request_type: ctx_accessor REQUEST_TYPE_KEY GetRequestType WithRequestType
  by unfold_locales (auto simp: getter_defs setter_defs)

interpretation acc_auth_valid: ctx_accessor AUTH_VALID_KEY IsAuthValid WithAuthValid
  by unfold_locales (auto simp: getter_defs setter_defs)

interpretation acc_admin: ctx_accessor IS_ADMIN_KEY IsAdmin WithAdmin
  by unfold_locales (auto simp: getter_defs setter_defs)

interpretation acc_client_scopes: ctx_accessors
    CLIENT_TYPE_KEY GetCtxClientType WithClientType SCOPES_KEY GetScopes WithScopes
  by unfold_locales (auto simp: getter_defs setter_defs key_defs)

interpretation acc_csrf: ctx_accessors
    CSRF_TOKEN_KEY GetCSRFToken WithCSRFToken CSRF_VALID_KEY IsCSRFValid WithCSRFValid
  by unfold_locales (auto simp: getter_defs setter_defs key_defs)

interpretation acc_idem_client: ctx_accessors
    IDEMPOTENCY_VALID_KEY IsIdempotencyValid WithIdempotencyValid
    CLIENT_TYPE_KEY GetCtxClientType WithClientType
  by unfold_locales (auto simp: getter_defs setter_defs key_defs)

lemma ctx_keys_distinct:
  "distinct [START_TIME_KEY, END_TIME_KEY, DURATION_KEY, VERSION_KEY, URI_KEY, PATH_PARAMS_KEY,
    QUERY_PARAMS_KEY, VALIDATION_RULE_KEY, REQUEST_ID_KEY, REQUEST_TIMEOUT_KEY, CLIENT_IP_KEY,
    CLIENT_TYPE_KEY, USER_AGENT_KEY, METHOD_KEY, AUTH_VALID_KEY, SESSION_ID_KEY, SESSION_VALID_KEY,
    USER_ID_KEY, REQUEST_TYPE_KEY, SCOPES_KEY, IS_ADMIN_KEY, IDEMPOTENCY_KEY, IDEMPOTENCY_VALID_KEY,
    CORRELATION_ID_KEY, CSRF_TOKEN_KEY, CSRF_VALID_KEY, LOGGER_KEY, OTEL_LOGGER_KEY]"
  by (simp add: key_defs)

end
