(* ===== verification/Http.thy ===== *)
theory Http
  imports HttpContext
begin

text \<open>
  The parts of Go's \<open>net/http\<close>, \<open>net/url\<close> and \<open>net\<close> the SDK's HTTP packages are written against:
  headers with canonical keys, requests, response writers, cookies, query strings and
  \<open>net.SplitHostPort\<close>. A handler maps a request, the response written so far and the state of the
  process to the response and the state afterwards; middleware maps handlers to handlers.
\<close>

section \<open>Headers\<close>

type_synonym header = "string \<rightharpoonup> string list"

text \<open>\<open>textproto.CanonicalMIMEHeaderKey\<close>: unchanged unless every byte is a token byte.\<close>

definition is_alpha :: "char \<Rightarrow> bool" where
  "is_alpha c \<longleftrightarrow> (let n = (of_char c :: nat) in (65 \<le> n \<and> n \<le> 90) \<or> (97 \<le> n \<and> n \<le> 122))"

definition is_alnum :: "char \<Rightarrow> bool" where
  "is_alnum c \<longleftrightarrow> is_digit c \<or> is_alpha c"

definition is_token_byte :: "char \<Rightarrow> bool" where
  "is_token_byte c \<longleftrightarrow> is_alnum c \<or> c \<in> set ''!#$%&*+-.^_`|~'' \<or> c = CHR 0x27"

fun canon_from :: "bool \<Rightarrow> string \<Rightarrow> string" where
  "canon_from up [] = []"
| "canon_from up (c # cs) = (if up then upper c else lower c) # canon_from (c = CHR ''-'') cs"

definition CanonicalMIMEHeaderKey :: "string \<Rightarrow> string" where
  "CanonicalMIMEHeaderKey s = (if list_all is_token_byte s then canon_from True s else s)"

definition Header_Get :: "header \<Rightarrow> string \<Rightarrow> string" where
  "Header_Get h k = (case h (CanonicalMIMEHeaderKey k) of Some (v # _) \<Rightarrow> v | _ \<Rightarrow> [])"

definition Header_Set :: "header \<Rightarrow> string \<Rightarrow> string \<Rightarrow> header" where
  "Header_Set h k v = h(CanonicalMIMEHeaderKey k \<mapsto> [v])"

definition Header_Add :: "header \<Rightarrow> string \<Rightarrow> string \<Rightarrow> header" where
  "Header_Add h k v =
     (let ck = CanonicalMIMEHeaderKey k
      in h(ck \<mapsto> (case h ck of None \<Rightarrow> [] | Some vs \<Rightarrow> vs) @ [v]))"

lemma Header_Get_Set:
  "Header_Get (Header_Set h k v) k' =
     (if CanonicalMIMEHeaderKey k' = CanonicalMIMEHeaderKey k then v else Header_Get h k')"
  by (simp add: Header_Get_def Header_Set_def)

lemma Header_Get_Set_same [simp]: "Header_Get (Header_Set h k v) k = v"
  by (simp add: Header_Get_Set)

text \<open>The canonical form of every header name the SDK uses.\<close>

lemma canonical_keys [simp]:
  "CanonicalMIMEHeaderKey ''Content-Type'' = ''Content-Type''"
  "CanonicalMIMEHeaderKey ''X-Request-ID'' = ''X-Request-Id''"
  "CanonicalMIMEHeaderKey ''X-Correlation-ID'' = ''X-Correlation-Id''"
  "CanonicalMIMEHeaderKey ''X-Forwarded-For'' = ''X-Forwarded-For''"
  "CanonicalMIMEHeaderKey ''X-API-Key'' = ''X-Api-Key''"
  "CanonicalMIMEHeaderKey ''Authorization'' = ''Authorization''"
  "CanonicalMIMEHeaderKey ''Accept'' = ''Accept''"
  "CanonicalMIMEHeaderKey ''Referer'' = ''Referer''"
  "CanonicalMIMEHeaderKey ''Cookie'' = ''Cookie''"
  "CanonicalMIMEHeaderKey ''Set-Cookie'' = ''Set-Cookie''"
  "CanonicalMIMEHeaderKey ''Idempotency-Key'' = ''Idempotency-Key''"
  "CanonicalMIMEHeaderKey ''Idempotency-Replayed'' = ''Idempotency-Replayed''"
  "CanonicalMIMEHeaderKey ''Retry-After'' = ''Retry-After''"
  "CanonicalMIMEHeaderKey ''X-CSRF-Token'' = ''X-Csrf-Token''"
  "CanonicalMIMEHeaderKey ''User-Agent'' = ''User-Agent''"
  by code_simp+

section \<open>URLs and query strings\<close>

record url =
  u_path :: string
  u_rawQuery :: string
  u_host :: string

definition hex_val :: "char \<Rightarrow> nat option" where
  "hex_val c =
     (let n = (of_char c :: nat)
      in if 48 \<le> n \<and> n \<le> 57 then Some (n - 48)
         else if 65 \<le> n \<and> n \<le> 70 then Some (n - 55)
         else if 97 \<le> n \<and> n \<le> 102 then Some (n - 87)
         else None)"

text \<open>\<open>url.QueryUnescape\<close>.\<close>

fun QueryUnescape :: "string \<Rightarrow> string option" where
  "QueryUnescape [] = Some []"
| "QueryUnescape (c # cs) =
     (if c = CHR ''%'' then
        (case cs of
           a # b # rest \<Rightarrow>
             (case (hex_val a, hex_val b) of
                (Some x, Some y) \<Rightarrow> map_option (\<lambda>t. char_of (16 * x + y) # t) (QueryUnescape rest)
              | _ \<Rightarrow> None)
         | _ \<Rightarrow> None)
      else map_option (\<lambda>t. (if c = CHR ''+'' then CHR '' '' else c) # t) (QueryUnescape cs))"

text \<open>
  \<open>url.ParseQuery\<close>: the pairs in order and whether some piece was malformed (a semicolon or a bad
  escape). Malformed pieces are skipped, empty pieces ignored.
\<close>

definition cut_at :: "char \<Rightarrow> string \<Rightarrow> string \<times> string" where
  "cut_at c s = (takeWhile (\<lambda>x. x \<noteq> c) s, drop 1 (dropWhile (\<lambda>x. x \<noteq> c) s))"

fun parse_pieces :: "string list \<Rightarrow> (string \<times> string) list \<times> bool" where
  "parse_pieces [] = ([], False)"
| "parse_pieces (p # ps) =
     (let (ok, bad) = parse_pieces ps
      in if CHR '';'' \<in> set p then (ok, True)
         else if p = [] then (ok, bad)
         else (let (k, v) = cut_at CHR ''='' p
               in case (QueryUnescape k, QueryUnescape v) of
                    (Some k', Some v') \<Rightarrow> ((k', v') # ok, bad)
                  | _ \<Rightarrow> (ok, True)))"

definition ParseQuery :: "string \<Rightarrow> (string \<times> string) list \<times> bool" where
  "ParseQuery q = parse_pieces (Split q CHR ''&'')"

section \<open>Requests and responses\<close>

text \<open>A body whose reader fails delivers some bytes and then an error.\<close>

datatype body = Body string | BrokenBody string

record request =
  req_method :: string
  req_url :: "url option"
  req_header :: header
  req_body :: "body option"
  req_contentLength :: int
  req_remoteAddr :: string
  req_ctx :: ctx
  req_requestURI :: string
  req_pattern :: string \<comment> \<open>the matched pattern of the router\<close>
  req_pathValues :: "string \<Rightarrow> string"

definition WithContext :: "request \<Rightarrow> ctx \<Rightarrow> request" where
  "WithContext r c = r\<lparr>req_ctx := c\<rparr>"

lemma WithContext_fields [simp]:
  "req_ctx (WithContext r c) = c"
  "req_header (WithContext r c) = req_header r"
  "req_method (WithContext r c) = req_method r"
  "req_url (WithContext r c) = req_url r"
  "req_body (WithContext r c) = req_body r"
  "req_remoteAddr (WithContext r c) = req_remoteAddr r"
  by (simp_all add: WithContext_def)

record ErrorResponse =
  er_Status :: int
  er_Message :: string
  er_Code :: string
  er_Detail :: string
  er_RequestId :: string
  er_Timestamp :: instant

text \<open>What is written to a response body; JSON documents are kept as the value that is encoded.\<close>

datatype chunk =
    Bytes string
  | ErrorJSON ErrorResponse
  | ObjectJSON "(string \<times> string) list"
  | FailingJSON "(string \<times> string) list"

record writer =
  w_header :: header
  w_status :: "int option"
  w_body :: "chunk list"

definition fresh_writer :: writer where
  "fresh_writer = \<lparr>w_header = Map.empty, w_status = None, w_body = []\<rparr>"

definition wtr_SetHeader :: "writer \<Rightarrow> string \<Rightarrow> string \<Rightarrow> writer" where
  "wtr_SetHeader w k v = w\<lparr>w_header := Header_Set (w_header w) k v\<rparr>"

definition wtr_AddHeader :: "writer \<Rightarrow> string \<Rightarrow> string \<Rightarrow> writer" where
  "wtr_AddHeader w k v = w\<lparr>w_header := Header_Add (w_header w) k v\<rparr>"

text \<open>Only the first \<open>WriteHeader\<close> counts; the first \<open>Write\<close> implies status 200.\<close>

definition wtr_WriteHeader :: "writer \<Rightarrow> int \<Rightarrow> writer" where
  "wtr_WriteHeader w code = (case w_status w of None \<Rightarrow> w\<lparr>w_status := Some code\<rparr> | Some _ \<Rightarrow> w)"

definition wtr_Write :: "writer \<Rightarrow> chunk \<Rightarrow> writer" where
  "wtr_Write w x = (let w' = wtr_WriteHeader w 200 in w'\<lparr>w_body := w_body w' @ [x]\<rparr>)"

lemma w_status_SetHeader [simp]: "w_status (wtr_SetHeader w k v) = w_status w"
  by (simp add: wtr_SetHeader_def)

lemma w_body_SetHeader [simp]: "w_body (wtr_SetHeader w k v) = w_body w"
  by (simp add: wtr_SetHeader_def)

lemma w_header_SetHeader [simp]: "w_header (wtr_SetHeader w k v) = Header_Set (w_header w) k v"
  by (simp add: wtr_SetHeader_def)

lemma w_status_WriteHeader [simp]:
  "w_status (wtr_WriteHeader w c) = Some (case w_status w of None \<Rightarrow> c | Some d \<Rightarrow> d)"
  by (simp add: wtr_WriteHeader_def split: option.splits)

lemma w_header_WriteHeader [simp]: "w_header (wtr_WriteHeader w c) = w_header w"
  by (simp add: wtr_WriteHeader_def split: option.splits)

lemma w_body_WriteHeader [simp]: "w_body (wtr_WriteHeader w c) = w_body w"
  by (simp add: wtr_WriteHeader_def split: option.splits)

lemma wtr_Write_fields [simp]:
  "w_status (wtr_Write w x) = Some (case w_status w of None \<Rightarrow> 200 | Some d \<Rightarrow> d)"
  "w_header (wtr_Write w x) = w_header w"
  "w_body (wtr_Write w x) = w_body w @ [x]"
  by (simp_all add: wtr_Write_def Let_def)

type_synonym 'w handler = "request \<Rightarrow> writer \<Rightarrow> 'w \<Rightarrow> writer \<times> 'w"
type_synonym 'w middleware = "'w handler \<Rightarrow> 'w handler"

section \<open>Cookies\<close>

text \<open>\<open>http.readCookies\<close> and \<open>Request.Cookie\<close>: the first cookie of the given name, if any.\<close>

definition TrimString :: "string \<Rightarrow> string" where
  "TrimString s =
     (let sp = (\<lambda>c. c \<in> {CHR '' '', CHR 0x09, CHR 0x0A, CHR 0x0D})
      in rev (dropWhile sp (rev (dropWhile sp s))))"

definition isToken :: "string \<Rightarrow> bool" where
  "isToken s \<longleftrightarrow> s \<noteq> [] \<and> list_all is_token_byte s"

definition validCookieValueByte :: "char \<Rightarrow> bool" where
  "validCookieValueByte c \<longleftrightarrow>
     (let n = (of_char c :: nat) in 32 \<le> n \<and> n < 127 \<and> n \<noteq> 34 \<and> n \<noteq> 59 \<and> n \<noteq> 92)"

definition parseCookieValue :: "string \<Rightarrow> string option" where
  "parseCookieValue raw =
     (let v = (if length raw > 1 \<and> hd raw = CHR 0x22 \<and> last raw = CHR 0x22
               then butlast (tl raw) else raw)
      in if list_all validCookieValueByte v then Some v else None)"

definition parse_cookie_part :: "string \<Rightarrow> (string \<times> string) option" where
  "parse_cookie_part p =
     (let part = TrimString p; (n, v) = cut_at CHR ''='' part; name = TrimString n
      in if part = [] \<or> \<not> isToken name then None
         else map_option (Pair name) (parseCookieValue v))"

definition readCookies :: "header \<Rightarrow> (string \<times> string) list" where
  "readCookies h =
     (case h ''Cookie'' of
        None \<Rightarrow> []
      | Some lines \<Rightarrow>
          concat (map (\<lambda>line. List.map_filter parse_cookie_part (Split (TrimString line) CHR '';'')) lines))"

definition req_Cookie :: "request \<Rightarrow> string \<Rightarrow> string option" where
  "req_Cookie r name = map_of (readCookies (req_header r)) name"

section \<open>Host and port\<close>

text \<open>\<open>net.SplitHostPort\<close>: the host, or nothing when the address has no well-formed port.\<close>

definition LastIndexByte :: "string \<Rightarrow> char \<Rightarrow> nat option" where
  "LastIndexByte s c =
     (if c \<in> set s then Some (length s - 1 - length (takeWhile (\<lambda>x. x \<noteq> c) (rev s))) else None)"

definition SplitHostPort :: "string \<Rightarrow> (string \<times> string) option" where
  "SplitHostPort hp =
     (case LastIndexByte hp CHR '':'' of
        None \<Rightarrow> None
      | Some i \<Rightarrow>
          if hd hp = CHR ''['' then
            (case IndexByte hp CHR '']'' of
               None \<Rightarrow> None
             | Some e \<Rightarrow>
                 if e + 1 \<noteq> i then None
                 else if CHR ''['' \<in> set (drop 1 hp) \<or> CHR '']'' \<in> set (drop (e + 1) hp) then None
                 else Some (take (e - 1) (drop 1 hp), drop (i + 1) hp))
          else if CHR '':'' \<in> set (take i hp) then None
          else if CHR ''['' \<in> set hp \<or> CHR '']'' \<in> set hp then None
          else Some (take i hp, drop (i + 1) hp))"

lemma SplitHostPort_examples:
  "SplitHostPort ''10.0.0.1:4321'' = Some (''10.0.0.1'', ''4321'')"
  "SplitHostPort ''[::1]:80'' = Some (''::1'', ''80'')"
  "SplitHostPort ''10.0.0.1'' = None"
  "SplitHostPort ''::1'' = None"
  by code_simp+

end
