(* ===== verification/Request.thy ===== *)
theory Request
  imports Http
begin

text \<open>
  Package \<open>api/request\<close>: API version and route of a request, its query parameters, the client key
  used for rate limiting and IP access control, request IDs, the request builder and the two
  middlewares of the package. The process state a handler sees is the record \<open>proc\<close>: the clock,
  the environment and the source of randomness; \<open>sdk\<close> (theory \<open>Middleware\<close>) extends it with the
  package-level variables.
\<close>

section \<open>The process: clock, environment, randomness\<close>

record proc =
  p_now :: instant
  p_env :: "string \<Rightarrow> string"
  p_rand :: "nat \<Rightarrow> nat \<Rightarrow> string option" \<comment> \<open>result of the k-th read of n random bytes\<close>
  p_draws :: nat

definition rand_Read :: "nat \<Rightarrow> 'a proc_scheme \<Rightarrow> string option \<times> 'a proc_scheme" where
  "rand_Read n p = (p_rand p (p_draws p) n, p\<lparr>p_draws := Suc (p_draws p)\<rparr>)"

definition hex_digit :: "nat \<Rightarrow> char" where
  "hex_digit n = (if n < 10 then char_of (48 + n) else char_of (87 + n))"

definition hex_EncodeToString :: "string \<Rightarrow> string" where
  "hex_EncodeToString bs =
     concat (map (\<lambda>c. [hex_digit (of_char c div 16), hex_digit (of_char c mod 16)]) bs)"

lemma length_hex_EncodeToString [simp]: "length (hex_EncodeToString bs) = 2 * length bs"
  by (induction bs) (simp_all add: hex_EncodeToString_def)

section \<open>Request IDs\<close>

definition GetRequestID :: "request \<Rightarrow> string" where
  "GetRequestID req =
     (let rid = stringValue (req_ctx req) REQUEST_ID_KEY
      in if rid \<noteq> [] then rid
         else (let hid = Header_Get (req_header req) ''X-Request-ID''
               in if hid \<noteq> [] then hid else ''unknown''))"

definition GenerateRequestId :: "'a proc_scheme \<Rightarrow> string \<times> 'a proc_scheme" where
  "GenerateRequestId p =
     (case rand_Read 12 p of
        (None, p') \<Rightarrow> (Itoa (p_now p'), p')
      | (Some bs, p') \<Rightarrow> (hex_EncodeToString bs, p'))"

definition RequestIDMiddleware :: "('a proc_scheme) handler \<Rightarrow> ('a proc_scheme) handler" where
  "RequestIDMiddleware nxt req w p =
     (let rid = Header_Get (req_header req) ''X-Request-ID'';
          (reqID, p') =
            (if rid \<noteq> [] then (rid, p)
             else if stringValue (req_ctx req) REQUEST_ID_KEY \<noteq> []
                  then (stringValue (req_ctx req) REQUEST_ID_KEY, p)
                  else GenerateRequestId p);
          req1 = req\<lparr>req_header := Header_Set (req_header req) ''X-Request-ID'' reqID\<rparr>;
          w1 = wtr_SetHeader w ''X-Request-ID'' reqID;
          ctx1 = WithValue (req_ctx req1) REQUEST_ID_KEY (CStr reqID);
          cid = Header_Get (req_header req1) ''X-Correlation-ID''
      in if cid \<noteq> []
         then nxt (WithContext req1 (WithValue ctx1 CORRELATION_ID_KEY (CStr cid)))
                (wtr_SetHeader w1 ''X-Correlation-ID'' cid) p'
         else nxt (WithContext req1 ctx1) w1 p')"

definition ClientTypeAPI :: string where "ClientTypeAPI = ''api''"
definition ClientTypeBrowser :: string where "ClientTypeBrowser = ''browser''"

definition ClientSourceMiddleware :: "'w handler \<Rightarrow> 'w handler" where
  "ClientSourceMiddleware nxt req w s =
     (let authHeader = Header_Get (req_header req) ''Authorization'';
          hasReferer = Header_Get (req_header req) ''Referer'' \<noteq> [];
          hasCookie = Header_Get (req_header req) ''Cookie'' \<noteq> [];
          clientType = (if authHeader \<noteq> [] \<and> \<not> hasReferer \<and> \<not> hasCookie
                        then ClientTypeAPI else ClientTypeBrowser)
      in nxt (WithContext req (WithValue (req_ctx req) CLIENT_TYPE_KEY (CStr clientType))) w s)"

section \<open>API version and route\<close>

fun version_param :: "string list \<Rightarrow> string" where
  "version_param [] = []"
| "version_param (part # parts) =
     (let param = TrimSpace part
      in case CutPrefix param ''v='' of
           Some version \<Rightarrow> ''/v'' @ TrimSpace version
         | None \<Rightarrow>
             (case CutPrefix param ''version='' of
                Some version \<Rightarrow> ''/v'' @ TrimSpace version
              | None \<Rightarrow> version_param parts))"

definition extractVersionFromMediaType :: "string \<Rightarrow> string" where
  "extractVersionFromMediaType mediaType =
     (let parts = Split mediaType CHR '';''
      in if length parts < 2 then [] else version_param (tl parts))"

definition starts_with_v :: "string list \<Rightarrow> bool" where
  "starts_with_v segs \<longleftrightarrow> (case segs of (c # _) # _ \<Rightarrow> c = CHR ''v'' | _ \<Rightarrow> False)"

definition GetAPIVersion :: "request option \<Rightarrow> string" where
  "GetAPIVersion r =
     (case r of
        None \<Rightarrow> []
      | Some req \<Rightarrow>
          (let accept = Header_Get (req_header req) ''Accept'';
               v1 = (if accept \<noteq> [] then extractVersionFromMediaType accept else []);
               ct = Header_Get (req_header req) ''Content-Type'';
               v2 = (if ct \<noteq> [] then extractVersionFromMediaType ct else [])
           in if v1 \<noteq> [] then v1
              else if v2 \<noteq> [] then v2
              else (case req_url req of
                      None \<Rightarrow> []
                    | Some u \<Rightarrow>
                        (let segments = Split (TrimPrefix (u_path u) ''/'') CHR ''/''
                         in if starts_with_v segments then ''/'' @ hd segments else []))))"

definition GetAPIRoute :: "request option \<Rightarrow> string" where
  "GetAPIRoute r =
     (case r of
        None \<Rightarrow> []
      | Some req \<Rightarrow>
          (case req_url req of
             None \<Rightarrow> []
           | Some u \<Rightarrow>
               (let base = (case IndexByte (u_path u) CHR ''?'' of
                              None \<Rightarrow> u_path u
                            | Some idx \<Rightarrow> take idx (u_path u));
                    segments = Split (TrimPrefix base ''/'') CHR ''/'';
                    pathSegments = (if starts_with_v segments then tl segments else segments);
                    route = ''/'' @ Join pathSegments ''/''
                in if route = ''//'' then ''/'' else route)))"

definition GetPathParams :: "request \<Rightarrow> (string \<rightharpoonup> string)" where
  "GetPathParams req = Map.empty"

text \<open>The first value of every query parameter; nothing at all when the query is malformed.\<close>

definition GetQueryParams :: "request option \<Rightarrow> (string \<rightharpoonup> string)" where
  "GetQueryParams r =
     (case r of
        None \<Rightarrow> Map.empty
      | Some req \<Rightarrow>
          (case req_url req of
             None \<Rightarrow> Map.empty
           | Some u \<Rightarrow>
               (let (vals, bad) = ParseQuery (u_rawQuery u)
                in if bad then Map.empty else map_of vals)))"

section \<open>Client type and client key\<close>

definition IsValidAPIKey :: "string \<Rightarrow> bool" where
  "IsValidAPIKey apiKey = False"

definition GetClientType :: "request \<Rightarrow> string" where
  "GetClientType req =
     (let apiKey = Header_Get (req_header req) ''X-API-Key''
      in if apiKey \<noteq> [] \<and> IsValidAPIKey apiKey then ''api'' else ''browser'')"

text \<open>The package variables \<open>proxyDepthLoadOnce\<close> and \<open>trustedProxyDepth\<close> (an \<open>int32\<close>).\<close>

record proxy_state =
  depthLoaded :: bool
  trustedProxyDepth :: int

definition SetTrustedProxyDepth :: "int \<Rightarrow> proxy_state \<Rightarrow> proxy_state" where
  "SetTrustedProxyDepth n st =
     st\<lparr>depthLoaded := True, trustedProxyDepth := wrap32 (if n < 0 then 0 else n)\<rparr>"

definition clientTrustDepth :: "(string \<Rightarrow> string) \<Rightarrow> proxy_state \<Rightarrow> int \<times> proxy_state" where
  "clientTrustDepth env st =
     (let st' =
        (if depthLoaded st then st
         else (let v = TrimSpace (env ''TRUSTED_PROXY_DEPTH'');
                   st1 = st\<lparr>depthLoaded := True\<rparr>
               in if v = [] then st1
                  else (case Atoi v of
                          None \<Rightarrow> st1
                        | Some n \<Rightarrow> if n > 0 then st1\<lparr>trustedProxyDepth := wrap32 n\<rparr> else st1)))
      in (trustedProxyDepth st', st'))"

definition peer_host :: "request \<Rightarrow> string" where
  "peer_host req =
     (case SplitHostPort (req_remoteAddr req) of
        Some (host, port) \<Rightarrow> if host \<noteq> [] then host else req_remoteAddr req
      | None \<Rightarrow> req_remoteAddr req)"

definition forwarded_client :: "int \<Rightarrow> string \<Rightarrow> string" where
  "forwarded_client depth xf =
     (let parts = Split xf CHR '','';
          idx = int (length parts) - depth
      in if 0 \<le> idx \<and> idx < int (length parts) then TrimSpace (parts ! nat idx) else [])"

definition GetClientKey :: "(string \<Rightarrow> string) \<Rightarrow> proxy_state \<Rightarrow> request \<Rightarrow> string \<times> proxy_state" where
  "GetClientKey env st req =
     (let (depth, st') = clientTrustDepth env st;
          xf = Header_Get (req_header req) ''X-Forwarded-For'';
          ip = (if depth > 0 \<and> xf \<noteq> [] then forwarded_client depth xf else [])
      in (if ip \<noteq> [] then ip else peer_host req, st'))"

section \<open>Building requests\<close>

text \<open>
  \<open>NewRequest\<close> can also panic: for the methods without a body it hands a nil \<open>*strings.Reader\<close> to
  \<open>http.NewRequestWithContext\<close>, which (once the URL has parsed) asks that reader for its length.
  \<open>json.Marshal\<close> and \<open>url.Parse\<close> are arguments of the model.
\<close>

datatype 'a outcome = Returns 'a | Fails | Panics

datatype 'v any_body = BodyString string | BodyValue 'v

definition std_NewRequest ::
  "(string \<Rightarrow> url option) \<Rightarrow> string \<Rightarrow> string \<Rightarrow> string option \<Rightarrow> request outcome" where
  "std_NewRequest parse_url method u reader =
     (case parse_url u of
        None \<Rightarrow> Fails
      | Some u' \<Rightarrow>
          (case reader of
             None \<Rightarrow> Panics
           | Some content \<Rightarrow>
               Returns \<lparr>req_method = method, req_url = Some u', req_header = Map.empty,
                        req_body = Some (Body content), req_contentLength = int (length content),
                        req_remoteAddr = [], req_ctx = Map.empty,
       req_requestURI = [], req_pattern = [], req_pathValues = (\<lambda>_. [])\<rparr>))"

fun set_headers :: "(string \<times> string) list \<Rightarrow> header \<Rightarrow> header" where
  "set_headers [] h = h"
| "set_headers ((k, v) # kvs) h = set_headers kvs (Header_Set h k v)"

definition NewRequest ::
  "(string \<Rightarrow> url option) \<Rightarrow> ('v \<Rightarrow> string option) \<Rightarrow> string \<Rightarrow> string \<Rightarrow> 'v any_body
   \<Rightarrow> (string \<times> string) list \<Rightarrow> ctx \<Rightarrow> request outcome" where
  "NewRequest parse_url json_Marshal method u bdy headers c =
     (if u = [] then Fails
      else
        (let m = ToUpper method;
             build = (\<lambda>reader.
               (case std_NewRequest parse_url m u reader of
                  Fails \<Rightarrow> Fails
                | Panics \<Rightarrow> Panics
                | Returns r \<Rightarrow> Returns (r\<lparr>req_ctx := c, req_header := set_headers headers (req_header r)\<rparr>)))
         in if m \<in> set [''POST'', ''PUT'', ''PATCH''] then
              (case bdy of
                 BodyString str \<Rightarrow> build (Some str)
               | BodyValue v \<Rightarrow>
                   (case json_Marshal v of None \<Rightarrow> Fails | Some js \<Rightarrow> build (Some js)))
            else if m \<in> set [''GET'', ''DELETE'', ''HEAD'', ''OPTIONS'', ''TRACE'', ''CONNECT'']
            then build None
            else Fails))"

text \<open>
  \<open>FromRequest\<close> rebuilds a request from the method, URL, body and context of another one; the
  headers are not copied, and the length of a body of unknown type is not known.
\<close>

definition FromRequest ::
  "(string \<Rightarrow> url option) \<Rightarrow> (url \<Rightarrow> string) \<Rightarrow> request option \<Rightarrow> request outcome" where
  "FromRequest parse_url url_String r =
     (case r of
        None \<Rightarrow> Fails
      | Some req \<Rightarrow>
          (case req_url req of
             None \<Rightarrow> Panics
           | Some u \<Rightarrow>
               (case parse_url (url_String u) of
                  None \<Rightarrow> Fails
                | Some u' \<Rightarrow>
                    Returns \<lparr>req_method = req_method req, req_url = Some u', req_header = Map.empty,
                             req_body = req_body req, req_contentLength = 0, req_remoteAddr = [],
                             req_ctx = req_ctx req,
       req_requestURI = [], req_pattern = [], req_pathValues = (\<lambda>_. [])\<rparr>)))"

section \<open>Lemmas\<close>

lemma clientTrustDepth_loaded [simp]:
  "depthLoaded st \<Longrightarrow> clientTrustDepth env st = (trustedProxyDepth st, st)"
  by (simp add: clientTrustDepth_def)

lemma clientTrustDepth_stable:
  "clientTrustDepth env st = (d, st') \<Longrightarrow> clientTrustDepth env' st' = (d, st')"
  by (auto simp: clientTrustDepth_def Let_def split: if_splits option.splits)

lemma Split_append: "Split (xs @ c # ys) c = Split xs c @ Split ys c"
proof (induction xs)
  case Nil
  then show ?case by simp
next
  case (Cons x xs)
  obtain z zs where "Split xs c = z # zs" by (cases "Split xs c") auto
  with Cons show ?case by simp
qed

lemma forwarded_client_append:
  assumes "0 < depth" and "depth \<le> int (length (Split real_hops CHR '',''))"
  shows "forwarded_client depth (spoofed @ CHR '','' # real_hops) = forwarded_client depth real_hops"
proof -
  let ?s = "Split spoofed CHR '',''" and ?r = "Split real_hops CHR '',''"
  define k where "k = length ?r - nat depth"
  have k: "int k = int (length ?r) - depth" "k < length ?r"
    using assms by (auto simp: k_def)
  have "nat (int (length (?s @ ?r)) - depth) = length ?s + k"
    using k by simp
  moreover have "(?s @ ?r) ! (length ?s + k) = ?r ! k"
    by (simp add: nth_append)
  moreover have "nat (int (length ?r) - depth) = k" using k by simp
  ultimately show ?thesis
    using k assms by (simp add: forwarded_client_def Split_append Let_def)
qed

lemma GenerateRequestId_nonempty:
  assumes "\<And>k bs. p_rand p k 12 = Some bs \<Longrightarrow> bs \<noteq> []"
  shows "fst (GenerateRequestId p) \<noteq> []"
proof -
  have "hex_EncodeToString bs \<noteq> []" if "bs \<noteq> []" for bs
    using that length_hex_EncodeToString [of bs] by (metis length_0_conv mult_is_0 zero_neq_numeral)
  moreover have "Itoa n \<noteq> []" for n
    by (subst Itoa_def, subst (1 2) nat_digits.simps) simp
  ultimately show ?thesis
    using assms by (auto simp: GenerateRequestId_def rand_Read_def split: option.splits)
qed

section \<open>Properties\<close>

text \<open>
  C17: What a client puts in front of the \<open>X-Forwarded-For\<close> header cannot change its client key: when the
  trusted proxies have appended at least as many hops as the configured depth, any prefix the client invents
  is ignored (with depth 0 the whole header is), so rate limits and IP rules cannot be evaded that way.
\<close>
theorem client_key_spoof_proof:
  assumes "depthLoaded st" and "0 \<le> trustedProxyDepth st"
    and "trustedProxyDepth st \<le> int (length (Split real_hops CHR '',''))" and "real_hops \<noteq> []"
    and "Header_Get (req_header spoofing) ''X-Forwarded-For'' = spoofed @ CHR '','' # real_hops"
    and "Header_Get (req_header honest) ''X-Forwarded-For'' = real_hops"
    and "req_remoteAddr spoofing = req_remoteAddr honest"
  shows "GetClientKey env st spoofing = GetClientKey env st honest"
proof -
  have "peer_host spoofing = peer_host honest" unfolding peer_host_def assms(7) ..
  then show ?thesis
    using assms forwarded_client_append [of "trustedProxyDepth st" real_hops spoofed]
    by (cases "trustedProxyDepth st = 0") (simp_all add: GetClientKey_def Let_def)
qed

definition sample_request :: request where
  "sample_request = \<lparr>req_method = ''GET'', req_url = None, req_header = Map.empty, req_body = None,
     req_contentLength = 0, req_remoteAddr = ''10.0.0.1:99'', req_ctx = Map.empty,
       req_requestURI = [], req_pattern = [], req_pathValues = (\<lambda>_. [])\<rparr>"

theorem client_key_spoof_proof_witness:
  "GetClientKey (\<lambda>_. []) \<lparr>depthLoaded = True, trustedProxyDepth = 1\<rparr>
     (sample_request\<lparr>req_header := [''X-Forwarded-For'' \<mapsto> [''6.6.6.6,1.2.3.4'']]\<rparr>) =
   GetClientKey (\<lambda>_. []) \<lparr>depthLoaded = True, trustedProxyDepth = 1\<rparr>
     (sample_request\<lparr>req_header := [''X-Forwarded-For'' \<mapsto> [''1.2.3.4'']]\<rparr>)"
  by (rule client_key_spoof_proof [where spoofed = "''6.6.6.6''" and real_hops = "''1.2.3.4''"])
    (simp_all add: Header_Get_def)

text \<open>
  Every request that passes \<open>RequestIDMiddleware\<close> reaches the next handler with one non-empty request ID,
  the same in its context, its \<open>X-Request-ID\<close> header and the response's header; an ID supplied by the caller is
  kept.
\<close>
theorem request_id_propagated:
  assumes "\<And>k bs. p_rand p k 12 = Some bs \<Longrightarrow> bs \<noteq> []"
  shows "\<exists>req' w' p' rid. RequestIDMiddleware nxt req w p = nxt req' w' p' \<and> rid \<noteq> [] \<and>
    stringValue (req_ctx req') REQUEST_ID_KEY = rid \<and> Header_Get (req_header req') ''X-Request-ID'' = rid \<and>
    Header_Get (w_header w') ''X-Request-ID'' = rid \<and>
    (Header_Get (req_header req) ''X-Request-ID'' \<noteq> [] \<longrightarrow> rid = Header_Get (req_header req) ''X-Request-ID'')"
proof -
  let ?hid = "Header_Get (req_header req) ''X-Request-ID''" and ?cid = "stringValue (req_ctx req) REQUEST_ID_KEY"
  obtain rid p' where r: "(if ?hid \<noteq> [] then (?hid, p) else if ?cid \<noteq> [] then (?cid, p) else GenerateRequestId p) = (rid, p')"
    by fastforce
  then have "rid \<noteq> []" and "?hid \<noteq> [] \<longrightarrow> rid = ?hid"
    using GenerateRequestId_nonempty [of p] assms by (auto split: if_splits)
  let ?h = "Header_Set (req_header req) ''X-Request-ID'' rid"
  let ?x = "Header_Get ?h ''X-Correlation-ID''"
  define c1 where "c1 = WithValue (req_ctx req) REQUEST_ID_KEY (CStr rid)"
  define c2 where "c2 = (if ?x \<noteq> [] then WithValue c1 CORRELATION_ID_KEY (CStr ?x) else c1)"
  define w1 where "w1 = wtr_SetHeader w ''X-Request-ID'' rid"
  define w2 where "w2 = (if ?x \<noteq> [] then wtr_SetHeader w1 ''X-Correlation-ID'' ?x else w1)"
  have "RequestIDMiddleware nxt req w p = nxt (WithContext (req\<lparr>req_header := ?h\<rparr>) c2) w2 p'"
    by (simp add: RequestIDMiddleware_def r Let_def c1_def c2_def w1_def w2_def)
  moreover have "stringValue c2 REQUEST_ID_KEY = rid"
    by (simp add: c2_def c1_def WithValue_def stringValue_def key_defs)
  moreover have "Header_Get (w_header w2) ''X-Request-ID'' = rid"
    by (simp add: w2_def w1_def Header_Get_Set)
  moreover note \<open>rid \<noteq> []\<close> \<open>?hid \<noteq> [] \<longrightarrow> rid = ?hid\<close>
  ultimately show ?thesis
    by (intro exI [of _ "WithContext (req\<lparr>req_header := ?h\<rparr>) c2"] exI [of _ w2] exI [of _ p'] exI [of _ rid]) simp
qed

theorem request_id_propagated_witness:
  "Header_Get (w_header (fst (RequestIDMiddleware (\<lambda>r w p. (w, p)) sample_request fresh_writer
     \<lparr>p_now = 0, p_env = (\<lambda>_. []), p_rand = (\<lambda>k n. Some (replicate n CHR ''a'')), p_draws = 0\<rparr>))) ''X-Request-ID'' \<noteq> []"
  using request_id_propagated [of "\<lparr>p_now = 0, p_env = (\<lambda>_. []), p_rand = (\<lambda>k n. Some (replicate n CHR ''a'')), p_draws = 0\<rparr>"
      "\<lambda>r w p. (w, p)" sample_request fresh_writer] by auto

text \<open>
  \<open>NewRequest\<close> panics for every method that carries no body (GET, DELETE, HEAD, OPTIONS, TRACE, CONNECT, in any
  letter case) whenever the URL is well formed: a nil \<open>*strings.Reader\<close> is passed as a non-nil \<open>io.Reader\<close>.
\<close>
theorem NewRequest_bodyless_panics:
  assumes "ToUpper method \<in> set [''GET'', ''DELETE'', ''HEAD'', ''OPTIONS'', ''TRACE'', ''CONNECT'']"
    and "u \<noteq> []" and "parse_url u = Some u'"
  shows "NewRequest parse_url marshal method u bdy headers c = Panics"
  using assms by (auto simp: NewRequest_def std_NewRequest_def Let_def)

theorem NewRequest_bodyless_panics_witness:
  "NewRequest (\<lambda>_. Some \<lparr>u_path = ''/'', u_rawQuery = [], u_host = ''h''\<rparr>) (\<lambda>_. None) ''get'' ''http://h/''
     (BodyValue ()) [] Map.empty = Panics"
  by (rule NewRequest_bodyless_panics, code_simp) simp_all

end
