(* ===== verification/HttpErrors.thy ===== *)
theory HttpErrors
  imports Request
begin

text \<open>
  Package \<open>api/errors\<close>: the registered error codes, the code ranges, and \<open>SendError\<close>, which every
  middleware uses to answer a request it rejects.
\<close>

section \<open>Error codes\<close>

record ErrorCode =
  ec_ID :: string
  ec_Status :: int
  ec_Message :: string

definition mk_code :: "string \<Rightarrow> int \<Rightarrow> string \<Rightarrow> ErrorCode" where
  "mk_code i st msg = \<lparr>ec_ID = i, ec_Status = st, ec_Message = msg\<rparr>"

definition Global_BadRequest :: ErrorCode where "Global_BadRequest = mk_code ''10001'' 400 ''Bad request''"
definition Global_Unauthorized :: ErrorCode where "Global_Unauthorized = mk_code ''10002'' 401 ''Unauthorized''"
definition Global_PaymentRequired :: ErrorCode where "Global_PaymentRequired = mk_code ''10003'' 402 ''Payment required''"
definition Global_Forbidden :: ErrorCode where "Global_Forbidden = mk_code ''10004'' 403 ''Forbidden''"
definition Global_NotFound :: ErrorCode where "Global_NotFound = mk_code ''10005'' 404 ''Not found''"
definition Global_MethodNotAllowed :: ErrorCode where "Global_MethodNotAllowed = mk_code ''10006'' 405 ''Method not allowed''"
definition Global_Conflict :: ErrorCode where "Global_Conflict = mk_code ''10007'' 409 ''Conflict''"
definition Global_UnprocessableEntity :: ErrorCode where "Global_UnprocessableEntity = mk_code ''10008'' 422 ''Unprocessable entity''"
definition Global_TooManyRequests :: ErrorCode where "Global_TooManyRequests = mk_code ''10009'' 429 ''Too many requests''"
definition Global_Internal :: ErrorCode where "Global_Internal = mk_code ''10010'' 500 ''Internal server error''"
definition Global_NotImplemented :: ErrorCode where "Global_NotImplemented = mk_code ''10011'' 501 ''Not implemented''"
definition Global_BadGateway :: ErrorCode where "Global_BadGateway = mk_code ''10012'' 502 ''Bad gateway''"
definition Global_ServiceUnavailable :: ErrorCode where "Global_ServiceUnavailable = mk_code ''10013'' 503 ''Service unavailable''"
definition Global_GatewayTimeout :: ErrorCode where "Global_GatewayTimeout = mk_code ''10014'' 504 ''Gateway timeout''"

definition GlobalErrors :: "ErrorCode list" where
  "GlobalErrors = [Global_BadRequest, Global_Unauthorized, Global_PaymentRequired, Global_Forbidden,
     Global_NotFound, Global_MethodNotAllowed, Global_Conflict, Global_UnprocessableEntity,
     Global_TooManyRequests, Global_Internal, Global_NotImplemented, Global_BadGateway,
     Global_ServiceUnavailable, Global_GatewayTimeout]"

definition DBErrors :: "ErrorCode list" where
  "DBErrors =
    [mk_code ''11001'' 500 ''Database connection failed'',
     mk_code ''11002'' 500 ''Database query failed'',
     mk_code ''11003'' 500 ''Database transaction failed'',
     mk_code ''11004'' 404 ''Record not found'',
     mk_code ''11005'' 409 ''Duplicate entry'']"

definition Auth_InvalidClientCredentials :: ErrorCode where "Auth_InvalidClientCredentials = mk_code ''20001'' 401 ''Invalid client credentials''"
definition Auth_InvalidGrantType :: ErrorCode where "Auth_InvalidGrantType = mk_code ''20002'' 400 ''Invalid grant type''"
definition Auth_InvalidScope :: ErrorCode where "Auth_InvalidScope = mk_code ''20003'' 400 ''Invalid scope''"
definition Auth_InvalidToken :: ErrorCode where "Auth_InvalidToken = mk_code ''20004'' 401 ''Invalid token''"
definition Auth_InvalidKey :: ErrorCode where "Auth_InvalidKey = mk_code ''20005'' 401 ''Invalid auth key''"
definition Auth_ExpiredToken :: ErrorCode where "Auth_ExpiredToken = mk_code ''20006'' 401 ''Token expired''"
definition Auth_UnauthorizedClient :: ErrorCode where "Auth_UnauthorizedClient = mk_code ''20007'' 401 ''Unauthorized client''"
definition Auth_UnsupportedGrantType :: ErrorCode where "Auth_UnsupportedGrantType = mk_code ''20008'' 400 ''Unsupported grant type''"
definition Auth_UnsupportedResponseType :: ErrorCode where "Auth_UnsupportedResponseType = mk_code ''20009'' 400 ''Unsupported response type''"
definition Auth_InvalidRedirectURI :: ErrorCode where "Auth_InvalidRedirectURI = mk_code ''20010'' 400 ''Invalid redirect URI''"
definition Auth_AccessDenied :: ErrorCode where "Auth_AccessDenied = mk_code ''20011'' 403 ''Access denied''"
definition Auth_InsufficientScope :: ErrorCode where "Auth_InsufficientScope = mk_code ''20012'' 403 ''Insufficient scope''"

definition AuthErrors :: "ErrorCode list" where
  "AuthErrors = [Auth_InvalidClientCredentials, Auth_InvalidGrantType, Auth_InvalidScope,
     Auth_InvalidToken, Auth_InvalidKey, Auth_ExpiredToken, Auth_UnauthorizedClient,
     Auth_UnsupportedGrantType, Auth_UnsupportedResponseType, Auth_InvalidRedirectURI,
     Auth_AccessDenied, Auth_InsufficientScope]"

lemmas code_defs = GlobalErrors_def DBErrors_def AuthErrors_def mk_code_def Global_BadRequest_def
  Global_Unauthorized_def Global_PaymentRequired_def Global_Forbidden_def Global_NotFound_def
  Global_MethodNotAllowed_def Global_Conflict_def Global_UnprocessableEntity_def
  Global_TooManyRequests_def Global_Internal_def Global_NotImplemented_def Global_BadGateway_def
  Global_ServiceUnavailable_def Global_GatewayTimeout_def Auth_InvalidClientCredentials_def
  Auth_InvalidGrantType_def Auth_InvalidScope_def Auth_InvalidToken_def Auth_InvalidKey_def
  Auth_ExpiredToken_def Auth_UnauthorizedClient_def Auth_UnsupportedGrantType_def
  Auth_UnsupportedResponseType_def Auth_InvalidRedirectURI_def Auth_AccessDenied_def
  Auth_InsufficientScope_def

section \<open>Code ranges\<close>

definition code_ranges :: "(string \<times> nat) list" where
  "code_ranges =
    [(''RangeGlobal'', 10), (''RangeDB'', 11), (''RangeAuth'', 20), (''RangeEntitlements'', 21),
     (''RangeFeatures'', 22), (''RangeUser'', 30), (''RangeAddress'', 31), (''RangeOrder'', 40),
     (''RangeOrderItem'', 41), (''RangeReturns'', 42), (''RangeCart'', 43), (''RangeInventory'', 44),
     (''RangeShipping'', 45), (''RangePayment'', 50), (''RangeShopItem'', 60), (''RangeSearch'', 61),
     (''RangeCommunications'', 70), (''RangeEvents'', 71), (''RangeAnalytics'', 80),
     (''RangeSupport'', 81), (''RangeLoyalty'', 90), (''RangeReviews'', 91)]"

text \<open>\<open>fmt.Sprintf("%d%03d", rangeRoot, offset)\<close> for the non-negative arguments it is used with.\<close>

definition CodeID :: "nat \<Rightarrow> nat \<Rightarrow> string" where
  "CodeID rangeRoot offset = nat_digits rangeRoot @ pad3 offset"

lemma CodeID_inj_small:
  assumes "o1 < 1000" and "o2 < 1000"
  shows "CodeID r1 o1 = CodeID r2 o2 \<longleftrightarrow> r1 = r2 \<and> o1 = o2"
proof
  assume eq: "CodeID r1 o1 = CodeID r2 o2"
  from assms have "length (pad3 o1) = length (pad3 o2)" by (simp add: length_pad3)
  with eq have "nat_digits r1 = nat_digits r2 \<and> pad3 o1 = pad3 o2"
    by (simp add: CodeID_def)
  then show "r1 = r2 \<and> o1 = o2" by (simp add: nat_digits_inj pad3_inj)
qed simp

lemma registered_ids:
  "map ec_ID GlobalErrors = map (CodeID 10) [1..<15]"
  "map ec_ID DBErrors = map (CodeID 11) [1..<6]"
  "map ec_ID AuthErrors = map (CodeID 20) [1..<13]"
  by code_simp+

section \<open>Sending an error\<close>

record ErrorOverride =
  ov_Message :: "string option"
  ov_Detail :: "string option"
  ov_Status :: "int option"

definition WithMessage :: "string \<Rightarrow> ErrorOverride" where
  "WithMessage m = \<lparr>ov_Message = Some m, ov_Detail = None, ov_Status = None\<rparr>"

definition WithDetail :: "string \<Rightarrow> ErrorOverride" where
  "WithDetail d = \<lparr>ov_Message = None, ov_Detail = Some d, ov_Status = None\<rparr>"

definition WithStatus :: "int \<Rightarrow> ErrorOverride" where
  "WithStatus s = \<lparr>ov_Message = None, ov_Detail = None, ov_Status = Some s\<rparr>"

definition WithOverrides :: "string \<Rightarrow> string \<Rightarrow> int \<Rightarrow> ErrorOverride" where
  "WithOverrides m d s = \<lparr>ov_Message = Some m, ov_Detail = Some d, ov_Status = Some s\<rparr>"

lemmas override_defs = WithMessage_def WithDetail_def WithStatus_def WithOverrides_def

definition SendError :: "instant \<Rightarrow> writer \<Rightarrow> request \<Rightarrow> ErrorCode \<Rightarrow> ErrorOverride list \<Rightarrow> writer" where
  "SendError now wtr req errCode overrides =
     (let w1 = wtr_SetHeader wtr ''Content-Type'' ''application/json'';
          (status, message, detail) =
            (case overrides of
               [] \<Rightarrow> (ec_Status errCode, ec_Message errCode, [])
             | ov # _ \<Rightarrow>
                 (case ov_Status ov of None \<Rightarrow> ec_Status errCode | Some s \<Rightarrow> s,
                  case ov_Message ov of None \<Rightarrow> ec_Message errCode | Some m \<Rightarrow> m,
                  case ov_Detail ov of None \<Rightarrow> [] | Some d \<Rightarrow> d))
      in wtr_Write (wtr_WriteHeader w1 status)
           (ErrorJSON \<lparr>er_Status = status, er_Message = message, er_Code = ec_ID errCode,
                       er_Detail = detail, er_RequestId = GetRequestID req, er_Timestamp = now\<rparr>))"

definition SendCustomError ::
  "instant \<Rightarrow> writer \<Rightarrow> request \<Rightarrow> int \<Rightarrow> string \<Rightarrow> string \<Rightarrow> string \<Rightarrow> writer" where
  "SendCustomError now wtr req status message detail code =
     SendError now wtr req \<lparr>ec_ID = code, ec_Status = status, ec_Message = message\<rparr> [WithDetail detail]"

text \<open>A response that is an error answer and nothing else.\<close>

definition is_error_response :: "writer \<Rightarrow> int \<Rightarrow> string \<Rightarrow> bool" where
  "is_error_response w st code \<longleftrightarrow>
     w_status w = Some st \<and>
     (\<exists>er. w_body w = [ErrorJSON er] \<and> er_Status er = st \<and> er_Code er = code)"

lemma SendError_fresh:
  assumes "w_status w = None" and "w_body w = []"
    and "case overrides of [] \<Rightarrow> True | ov # _ \<Rightarrow> ov_Status ov = None"
  shows "is_error_response (SendError now w req ec overrides) (ec_Status ec) (ec_ID ec)"
  using assms by (auto simp: is_error_response_def SendError_def Let_def split: list.splits)

lemma WithDetail_status [simp]: "ov_Status (WithDetail d) = None"
  by (simp add: WithDetail_def)

section \<open>Errors of remote services\<close>

record APIError =
  ae_Service :: string
  ae_Status :: int
  ae_Code :: string
  ae_Message :: string
  ae_Detail :: string
  ae_RequestID :: string

definition APIError_Error :: "APIError \<Rightarrow> string" where
  "APIError_Error e =
     (if ae_Detail e \<noteq> []
      then ae_Service e @ '' ['' @ ae_Code e @ ''] '' @ ae_Message e @ '': '' @ ae_Detail e
      else ae_Service e @ '' ['' @ ae_Code e @ ''] '' @ ae_Message e)"

section \<open>Properties\<close>

text \<open>the registered error codes are \<open>CodeID\<close> of their package's range root and consecutive
  offsets, the range roots are pairwise different, and \<open>CodeID\<close> is injective on offsets below 1000;
  hence no two registered codes of the SDK, nor codes a service builds from another registered
  range, collide.\<close>

theorem error_codes_unique:
  "map ec_ID GlobalErrors = map (CodeID 10) [1..<15] \<and>
   map ec_ID DBErrors = map (CodeID 11) [1..<6] \<and>
   map ec_ID AuthErrors = map (CodeID 20) [1..<13] \<and>
   distinct (map snd code_ranges) \<and>
   distinct (map ec_ID (GlobalErrors @ DBErrors @ AuthErrors)) \<and>
   inj_on (\<lambda>(r, off). CodeID r off) {(r, off). off < 1000}"
proof (intro conjI)
  show "inj_on (\<lambda>(r, off). CodeID r off) {(r, off). off < 1000}"
    by (auto simp: inj_on_def CodeID_inj_small)
  show "distinct (map ec_ID (GlobalErrors @ DBErrors @ AuthErrors))"
    by (simp add: code_defs)
qed (simp_all add: registered_ids code_ranges_def)

text \<open>on a response nothing has been written to, \<open>SendError\<close> sets the JSON content type, sends the
  status of the code (or of the first override) exactly once, and its body repeats that status with
  the code's ID and the request's ID; overrides after the first are ignored.\<close>

theorem SendError_response:
  assumes "w_status w = None" and "w_body w = []"
  shows "Header_Get (w_header (SendError now w req ec (ov # ovs))) ''Content-Type'' = ''application/json'' \<and>
    w_status (SendError now w req ec (ov # ovs)) =
      Some (case ov_Status ov of None \<Rightarrow> ec_Status ec | Some s \<Rightarrow> s) \<and>
    (\<exists>er. w_body (SendError now w req ec (ov # ovs)) = [ErrorJSON er] \<and>
       Some (er_Status er) = w_status (SendError now w req ec (ov # ovs)) \<and>
       er_Code er = ec_ID ec \<and> er_RequestId er = GetRequestID req) \<and>
    SendError now w req ec (ov # ovs) = SendError now w req ec [ov]"
  using assms by (auto simp: SendError_def Let_def Header_Get_Set)

theorem SendError_response_witness:
  "w_status (SendError 7 fresh_writer
      \<lparr>req_method = ''GET'', req_url = None, req_header = Map.empty, req_body = None,
       req_contentLength = 0, req_remoteAddr = [], req_ctx = Map.empty,
       req_requestURI = [], req_pattern = [], req_pathValues = (\<lambda>_. [])\<rparr>
      Global_BadRequest [WithStatus 413]) = Some 413"
  using SendError_response [of fresh_writer 7 _ Global_BadRequest "WithStatus 413" "[]"]
  by (simp add: fresh_writer_def WithStatus_def)

end
