(* ===== verification/Headers.thy ===== *)
theory Headers
  imports HttpErrors
begin

text \<open>
  Package \<open>api/headers\<close> (validation of header values, the content-length limit) and the token extraction of
  \<open>security/jwt\<close>. The regular expressions are written out as functions on the string; the JWT client is an
  argument.
\<close>

section \<open>Constants\<close>

definition HEADER_IDEMPOTENCY :: string where "HEADER_IDEMPOTENCY = ''Idempotency-Key''"
definition HEADER_X_CSRF_TOKEN :: string where "HEADER_X_CSRF_TOKEN = ''X-CSRF-Token''"
definition COOKIE_CSRF_TOKEN :: string where "COOKIE_CSRF_TOKEN = ''csrf_token''"
definition DEFAULT_MAX_CONTENT_LENGTH :: int where "DEFAULT_MAX_CONTENT_LENGTH = 4096"

section \<open>Bearer tokens\<close>

definition ExtractTokenFromRequest :: "request \<Rightarrow> string option" where
  "ExtractTokenFromRequest req =
     (let auth = TrimSpace (Header_Get (req_header req) ''Authorization'')
      in if length auth < 7 \<or> \<not> EqualFold (take 7 auth) ''bearer '' then None
         else Some (TrimSpace (drop 7 auth)))"

section \<open>Header values\<close>

definition userAgentRE :: "string \<Rightarrow> bool" where
  "userAgentRE s \<longleftrightarrow> s \<noteq> [] \<and> list_all (\<lambda>c. is_alnum c \<or> c \<in> set ''-._ /(),:;'') s"

text \<open>Scheme, host characters, an optional port of up to five digits, an optional path without newline.\<close>

definition url_tail :: "string \<Rightarrow> bool" where
  "url_tail s \<longleftrightarrow> (case s of [] \<Rightarrow> True | c # cs \<Rightarrow> c = CHR ''/'' \<and> CHR 0x0A \<notin> set cs)"

definition urlOriginRE :: "string \<Rightarrow> bool" where
  "urlOriginRE s \<longleftrightarrow>
     (case (case CutPrefix s ''http://'' of Some r \<Rightarrow> Some r | None \<Rightarrow> CutPrefix s ''https://'') of
        None \<Rightarrow> False
      | Some r \<Rightarrow>
          (let hostc = (\<lambda>c. is_alnum c \<or> c \<in> set ''-.%''); rest = dropWhile hostc r
           in takeWhile hostc r \<noteq> [] \<and>
              (url_tail rest \<or>
               (case rest of
                  c # cs \<Rightarrow>
                    c = CHR '':'' \<and> (let ds = takeWhile is_digit cs in 1 \<le> length ds \<and> length ds \<le> 5 \<and> url_tail (dropWhile is_digit cs))
                | [] \<Rightarrow> False))))"

definition requestedByRE :: "string \<Rightarrow> bool" where
  "requestedByRE s \<longleftrightarrow> s \<noteq> [] \<and> list_all (\<lambda>c. is_alnum c \<or> c \<in> set ''_-/'') s"

definition idempotencyKeyRE :: "string \<Rightarrow> bool" where
  "idempotencyKeyRE s \<longleftrightarrow> 8 \<le> length s \<and> length s \<le> 64 \<and> list_all (\<lambda>c. is_alnum c \<or> c \<in> set ''_-'') s"

definition isValidContentAcceptType :: "string \<Rightarrow> bool" where
  "isValidContentAcceptType s \<longleftrightarrow>
     HasPrefix s ''application/json'' \<or> HasPrefix s ''application/x-www-form-urlencoded'' \<or>
     HasPrefix s ''multipart/form-data''"

definition isValidContentLength :: "(string \<Rightarrow> string) \<Rightarrow> string \<Rightarrow> bool" where
  "isValidContentLength env s \<longleftrightarrow>
     (if s = [] then False
      else (case Atoi s of
              None \<Rightarrow> False
            | Some val \<Rightarrow>
                (let v = env ''MAX_CONTENT_LENGTH'';
                     mx = (case Atoi v of Some num \<Rightarrow> if v = [] then DEFAULT_MAX_CONTENT_LENGTH else num
                                        | None \<Rightarrow> DEFAULT_MAX_CONTENT_LENGTH)
                 in val > 0 \<and> val \<le> mx)))"

definition isValidCookie :: "string \<Rightarrow> bool" where
  "isValidCookie s \<longleftrightarrow> s \<noteq> []"

definition isValidUserAgent :: "string \<Rightarrow> bool" where
  "isValidUserAgent s \<longleftrightarrow>
     (if s = [] then False
      else (let t = TrimSpace s in if length t > 256 then False else userAgentRE t))"

definition isValidReferer :: "string \<Rightarrow> bool" where
  "isValidReferer s \<longleftrightarrow> urlOriginRE (TrimSpace s)"

definition isValidCacheControl :: "string \<Rightarrow> bool" where
  "isValidCacheControl s \<longleftrightarrow> s = ''no-cache'' \<or> s = ''no-store'' \<or> s = ''must-revalidate''"

definition isValidRequestedBy :: "string \<Rightarrow> bool" where
  "isValidRequestedBy s \<longleftrightarrow> s \<noteq> [] \<and> length s \<le> 64 \<and> requestedByRE s"

definition isValidIdempotencyKey :: "string \<Rightarrow> bool" where
  "isValidIdempotencyKey s \<longleftrightarrow> idempotencyKeyRE s"

text \<open>\<open>subtle.ConstantTimeCompare\<close> is 1 exactly on equal strings.\<close>

definition isValidCSRF :: "request \<Rightarrow> string \<Rightarrow> bool" where
  "isValidCSRF req headerVal \<longleftrightarrow>
     (if headerVal = [] then False
      else (case req_Cookie req COOKIE_CSRF_TOKEN of
              None \<Rightarrow> False
            | Some v \<Rightarrow> if v = [] then False else headerVal = v))"

definition isValidCORS :: "string \<Rightarrow> bool" where
  "isValidCORS s \<longleftrightarrow> (if s = [] then False else if s = ''*'' then True else urlOriginRE (TrimSpace s))"

text \<open>The result is an error, or whether the value is valid; \<open>jwtClient\<close> is nil until \<open>SetJWTClient\<close>.\<close>

definition ValidateHeaderValue ::
  "(string \<Rightarrow> string) \<Rightarrow> (string \<Rightarrow> (string, bool) res) option \<Rightarrow> string \<Rightarrow> request \<Rightarrow> (string, bool) res" where
  "ValidateHeaderValue env jwtClient hdr req =
     (let val = Header_Get (req_header req) hdr; name = ToLower hdr
      in if name = ''access-control-allow-origin'' then Inr (isValidCORS val)
         else if name = ''authorization'' then
           (case ExtractTokenFromRequest req of
              None \<Rightarrow> Inr False
            | Some token \<Rightarrow>
                (case jwtClient of None \<Rightarrow> Inl ''jwt client not configured'' | Some validate \<Rightarrow> validate token))
         else if name = ''cache-control'' then Inr (isValidCacheControl val)
         else if name = ''cookie'' then Inr (isValidCookie val)
         else if name = ''content-type'' \<or> name = ''accept'' then Inr (isValidContentAcceptType val)
         else if name = ''content-length'' then Inr (isValidContentLength env val)
         else if name = ''idempotency-key'' then Inr (isValidIdempotencyKey val)
         else if name = ''referer'' \<or> name = ''referrer'' then Inr (isValidReferer val)
         else if name = ''user-agent'' then Inr (isValidUserAgent val)
         else if name = ''x-csrf-token'' then Inr (isValidCSRF req val)
         else if name = ''x-requested-by'' then Inr (isValidRequestedBy val)
         else Inr (val \<noteq> []))"

lemma header_names [simp]:
  "ToLower HEADER_IDEMPOTENCY = ''idempotency-key''" "ToLower HEADER_X_CSRF_TOKEN = ''x-csrf-token''"
  by code_simp+

lemma ValidateHeaderValue_csrf [simp]:
  "ValidateHeaderValue env j HEADER_X_CSRF_TOKEN req = Inr (isValidCSRF req (Header_Get (req_header req) HEADER_X_CSRF_TOKEN))"
  by (simp add: ValidateHeaderValue_def)

lemma ValidateHeaderValue_idempotency [simp]:
  "ValidateHeaderValue env j HEADER_IDEMPOTENCY req = Inr (isValidIdempotencyKey (Header_Get (req_header req) HEADER_IDEMPOTENCY))"
  by (simp add: ValidateHeaderValue_def)

section \<open>Middlewares of the package\<close>

text \<open>\<open>http.MaxBytesReader\<close>: at most \<open>limit\<close> bytes are delivered, then an error.\<close>

definition MaxBytesReader :: "body option \<Rightarrow> int \<Rightarrow> body option" where
  "MaxBytesReader b limit =
     map_option (\<lambda>x. case x of
        Body s \<Rightarrow> if int (length s) \<le> limit then Body s else BrokenBody (take (nat limit) s)
      | BrokenBody s \<Rightarrow> BrokenBody (take (nat limit) s)) b"

definition content_limit :: "(string \<Rightarrow> string) \<Rightarrow> int \<Rightarrow> int" where
  "content_limit env maxBytes =
     (if maxBytes \<le> 0 then
        (let v = env ''MAX_CONTENT_LENGTH''
         in if v \<noteq> [] then
              (case Atoi v of Some n \<Rightarrow> if n > 0 then n else DEFAULT_MAX_CONTENT_LENGTH | None \<Rightarrow> DEFAULT_MAX_CONTENT_LENGTH)
            else DEFAULT_MAX_CONTENT_LENGTH)
      else maxBytes)"

end
