(* ===== verification/Float64.thy ===== *)
theory Float64
  imports Complex_Main Prelude "HOL-Library.Log_Nat"
begin

text \<open>
  Go's \<open>float64\<close>: a finite value is a rational number, and every operation rounds its exact result
  to the nearest multiple of the unit in the last place (ties to even), with 53 significant bits and
  the exponent range of subnormal numbers. Overflow to infinity and NaN are outside the model: every
  value the SDK computes with floating point (token counts, rates, seconds) stays far below \<open>2 ^ 1023\<close>.
\<close>

section \<open>Rounding to nearest even\<close>

definition rne :: "rat \<Rightarrow> int" where
  "rne x = (let f = \<lfloor>x\<rfloor>; r = x - of_int f
            in if r < 1 / 2 then f else if r > 1 / 2 then f + 1 else if even f then f else f + 1)"

lemma rne_of_int [simp]: "rne (of_int n) = n"
  by (simp add: rne_def)

lemma rne_bounds: "of_int (rne x) \<le> x + 1 / 2" "x - 1 / 2 \<le> of_int (rne x)"
  unfolding rne_def Let_def by (auto split: if_splits) linarith+

lemma rne_floor: "\<lfloor>x\<rfloor> \<le> rne x" "rne x \<le> \<lfloor>x\<rfloor> + 1"
  by (simp_all add: rne_def Let_def)

lemma rne_mono: "x \<le> y \<Longrightarrow> rne x \<le> rne y"
proof -
  assume le: "x \<le> y"
  then have fl: "\<lfloor>x\<rfloor> \<le> \<lfloor>y\<rfloor>" by (rule floor_mono)
  show ?thesis
  proof (cases "\<lfloor>x\<rfloor> = \<lfloor>y\<rfloor>")
    case True
    with le show ?thesis by (auto simp: rne_def Let_def)
  next
    case False
    with fl have "\<lfloor>x\<rfloor> + 1 \<le> \<lfloor>y\<rfloor>" by simp
    with rne_floor [of x] rne_floor [of y] show ?thesis by linarith
  qed
qed

lemma rne_nonneg: "0 \<le> x \<Longrightarrow> 0 \<le> rne x"
  using rne_mono [of 0 x] rne_of_int [of 0] by simp

section \<open>Powers of two and the binary exponent\<close>

lemma of_int_pow_iff:
  "(of_int n :: rat) \<le> 2 ^ k \<longleftrightarrow> n \<le> 2 ^ k"
  "(of_int n :: rat) < 2 ^ k \<longleftrightarrow> n < 2 ^ k"
  "(2 ^ k :: rat) \<le> of_int n \<longleftrightarrow> 2 ^ k \<le> n"
  by (metis of_int_le_iff of_int_numeral of_int_power, metis of_int_less_iff of_int_numeral of_int_power,
      metis of_int_le_iff of_int_numeral of_int_power)

definition pow2 :: "int \<Rightarrow> rat" where
  "pow2 k = 2 powi k"

lemma pow2_pos [simp]: "0 < pow2 k"
  by (simp add: pow2_def)

lemma pow2_ge0 [simp]: "0 \<le> pow2 k"
  by (simp add: less_imp_le)

lemma pow2_ne0 [simp]: "pow2 k \<noteq> 0"
  by (metis less_irrefl pow2_pos)

lemma pow2_add: "pow2 (a + b) = pow2 a * pow2 b"
  by (simp add: pow2_def power_int_add)

lemma pow2_nat: "pow2 (int n) = 2 ^ n"
  by (simp add: pow2_def)

lemma pow2_minus: "pow2 (- k) * pow2 k = 1"
  by (simp add: pow2_def power_int_minus)

lemma pow2_mono: "a \<le> b \<Longrightarrow> pow2 a \<le> pow2 b"
  by (simp add: pow2_def power_int_increasing)

lemma pow2_less: "pow2 a < pow2 b \<Longrightarrow> a < b"
  by (metis linorder_not_less pow2_mono)

lemma pow2_step: "a < b \<Longrightarrow> 2 * pow2 a \<le> pow2 b"
proof -
  assume "a < b"
  then have "pow2 (1 + a) \<le> pow2 b" by (intro pow2_mono) simp
  then show ?thesis by (simp add: pow2_add) (simp add: pow2_def)
qed

text \<open>\<open>lg x\<close> is the exponent of the leading bit of a positive rational.\<close>

definition lg :: "rat \<Rightarrow> int" where
  "lg x = (let (n, d) = quotient_of x; k = bitlen n - bitlen d
           in if pow2 k \<le> x then k else k - 1)"

lemma bitlen_rat_bounds:
  assumes "0 < n"
  shows "pow2 (bitlen n - 1) \<le> of_int n" "of_int n < pow2 (bitlen n)"
proof -
  from assms have b: "0 < bitlen n" using bitlen_eq_zero_iff [of n] bitlen_nonneg [of n] by linarith
  have "2 ^ nat (bitlen n - 1) \<le> n \<and> n < 2 ^ nat (bitlen n)"
    using assms by (rule bitlen_bounds)
  then have "(2 ^ nat (bitlen n - 1) :: rat) \<le> of_int n" "(of_int n :: rat) < 2 ^ nat (bitlen n)"
    by (simp_all add: of_int_pow_iff)
  with b show "pow2 (bitlen n - 1) \<le> of_int n" "of_int n < pow2 (bitlen n)"
    using pow2_nat [of "nat (bitlen n - 1)"] pow2_nat [of "nat (bitlen n)"] by simp_all
qed

lemma lg_bounds:
  assumes "0 < x"
  shows "pow2 (lg x) \<le> x" "x < pow2 (lg x + 1)"
proof -
  obtain n d where nd: "quotient_of x = (n, d)" by force
  from nd have x: "x = of_int n / of_int d" and d: "0 < d"
    by (rule quotient_of_div, rule quotient_of_denom_pos)
  from assms x d have n: "0 < n" by (simp add: zero_less_divide_iff)
  let ?k = "bitlen n - bitlen d"
  note bn = bitlen_rat_bounds [OF n] and bd = bitlen_rat_bounds [OF d]
  have dpos: "(0 :: rat) < of_int d" using d by simp
  have "x * of_int d < pow2 (bitlen n)" using bn x dpos by simp
  also have "pow2 (bitlen n) = pow2 (?k + 1) * pow2 (bitlen d - 1)"
    by (simp flip: pow2_add)
  also have "\<dots> \<le> pow2 (?k + 1) * of_int d"
    by (intro mult_left_mono) (use bd in auto)
  finally have up: "x < pow2 (?k + 1)" using dpos by simp
  have "pow2 (?k - 1) * of_int d \<le> pow2 (?k - 1) * pow2 (bitlen d)"
    by (intro mult_left_mono) (use bd in auto)
  also have "\<dots> = pow2 (bitlen n - 1)" by (simp flip: pow2_add)
  also have "\<dots> \<le> x * of_int d" using bn x dpos by simp
  finally have lo: "pow2 (?k - 1) \<le> x" using dpos by simp
  have lgx: "lg x = (if pow2 ?k \<le> x then ?k else ?k - 1)"
    by (simp add: lg_def nd Let_def)
  show "pow2 (lg x) \<le> x" using lgx lo by simp
  show "x < pow2 (lg x + 1)" using lgx up by (simp split: if_splits)
qed

lemma lg_less: "0 < x \<Longrightarrow> x < pow2 k \<Longrightarrow> lg x < k"
  using lg_bounds(1) [of x] by (meson order_le_less_trans pow2_less)

lemma lg_mono: "0 < x \<Longrightarrow> x \<le> y \<Longrightarrow> lg x \<le> lg y"
  using lg_bounds(1) [of x] lg_bounds(2) [of y] pow2_less [of "lg x" "lg y + 1"] by force

section \<open>Rounding to float64\<close>

definition ulp_exp :: "rat \<Rightarrow> int" where
  "ulp_exp x = max (lg x - 52) (- 1074)"

definition fl_pos :: "rat \<Rightarrow> rat" where
  "fl_pos x = of_int (rne (x / pow2 (ulp_exp x))) * pow2 (ulp_exp x)"

definition fl :: "rat \<Rightarrow> rat" where
  "fl x = (if x = 0 then 0 else if x < 0 then - fl_pos (- x) else fl_pos x)"

lemma fl_0 [simp]: "fl 0 = 0"
  by (simp add: fl_def)

lemma fl_pos_nonneg: "0 < x \<Longrightarrow> 0 \<le> fl_pos x"
  by (simp add: fl_pos_def rne_nonneg less_imp_le)

lemma fl_nonneg: "0 \<le> x \<Longrightarrow> 0 \<le> fl x"
  by (auto simp: fl_def fl_pos_nonneg)

lemma fl_pos_mono:
  assumes x: "0 < x" and xy: "x \<le> y"
  shows "fl_pos x \<le> fl_pos y"
proof -
  let ?a = "ulp_exp x" and ?b = "ulp_exp y"
  from x xy have y: "0 < y" by simp
  have ab: "?a \<le> ?b" using lg_mono [OF x xy] by (simp add: ulp_exp_def)
  show ?thesis
  proof (cases "?a = ?b")
    case True
    have "rne (x / pow2 ?b) \<le> rne (y / pow2 ?b)"
      by (intro rne_mono divide_right_mono) (use xy in \<open>auto simp: less_imp_le\<close>)
    with True show ?thesis
      by (simp add: fl_pos_def mult_right_mono less_imp_le)
  next
    case False
    with ab have lt: "?a < ?b" by simp
    have "x < pow2 (lg x + 1)" by (rule lg_bounds [OF x])
    also have "\<dots> \<le> pow2 (53 + ?a)" by (intro pow2_mono) (simp add: ulp_exp_def)
    finally have "x \<le> 2 ^ 53 * pow2 ?a" using pow2_nat [of 53] by (simp add: pow2_add)
    then have "x / pow2 ?a \<le> of_int (2 ^ 53)" by (simp add: divide_le_eq)
    then have "rne (x / pow2 ?a) \<le> 2 ^ 53" by (metis rne_mono rne_of_int)
    then have 1: "fl_pos x \<le> 2 ^ 53 * pow2 ?a"
      unfolding fl_pos_def by (intro mult_right_mono) (simp_all only: of_int_pow_iff pow2_ge0)
    from lt have "?b = lg y - 52" by (auto simp: ulp_exp_def split: if_splits)
    then have "pow2 (52 + ?b) \<le> y" using lg_bounds(1) [OF y] by simp
    then have "2 ^ 52 * pow2 ?b \<le> y" using pow2_nat [of 52] by (simp add: pow2_add)
    then have "of_int (2 ^ 52) \<le> y / pow2 ?b" by (simp add: le_divide_eq)
    then have "2 ^ 52 \<le> rne (y / pow2 ?b)" by (metis rne_mono rne_of_int)
    then have 2: "2 ^ 52 * pow2 ?b \<le> fl_pos y"
      unfolding fl_pos_def by (intro mult_right_mono) (simp_all only: of_int_pow_iff pow2_ge0)
    have "2 ^ 53 * pow2 ?a = 2 ^ 52 * (2 * pow2 ?a)" by simp
    also have "\<dots> \<le> 2 ^ 52 * pow2 ?b" by (intro mult_left_mono pow2_step lt) simp
    finally show ?thesis using 1 2 by simp
  qed
qed

lemma fl_mono: "x \<le> y \<Longrightarrow> fl x \<le> fl y"
proof (cases "x < 0"; cases "y < 0")
  assume "x \<le> y" "x < 0" "y < 0"
  then show ?thesis using fl_pos_mono [of "- y" "- x"] by (simp add: fl_def)
next
  assume "x \<le> y" "x < 0" "\<not> y < 0"
  then have "fl x \<le> 0" using fl_pos_nonneg [of "- x"] by (simp add: fl_def)
  also have "0 \<le> fl y" using \<open>\<not> y < 0\<close> by (simp add: fl_nonneg)
  finally show ?thesis .
next
  assume "x \<le> y" "\<not> x < 0" "\<not> y < 0"
  then show ?thesis using fl_pos_mono [of x y] fl_nonneg [of y] by (cases "x = 0") (auto simp: fl_def)
qed simp

section \<open>Values that are exact\<close>

text \<open>A float64 is \<open>m * 2 ^ e\<close> with \<open>|m| < 2 ^ 53\<close>.\<close>

definition is_f64 :: "rat \<Rightarrow> bool" where
  "is_f64 x \<longleftrightarrow> fl x = x"

lemma fl_pos_exact:
  assumes m: "0 < m" "m < 2 ^ 53" and e: "- 1074 \<le> e"
  shows "fl_pos (of_int m * pow2 e) = of_int m * pow2 e"
proof -
  let ?x = "of_int m * pow2 e"
  have x: "0 < ?x" using m by simp
  have "?x < pow2 (53 + e)"
    unfolding pow2_add by (intro mult_strict_right_mono) (use m of_int_pow_iff(2) [of m 53] pow2_nat [of 53] in simp_all)
  then have "lg ?x < 53 + e" by (rule lg_less [OF x])
  with e have le: "ulp_exp ?x \<le> e" by (simp add: ulp_exp_def)
  define j where "j = nat (e - ulp_exp ?x)"
  with le have "e = int j + ulp_exp ?x" by simp
  then have "pow2 e = 2 ^ j * pow2 (ulp_exp ?x)" by (metis pow2_add pow2_nat)
  then have "?x / pow2 (ulp_exp ?x) = of_int (m * 2 ^ j)"
    using pow2_pos [of "ulp_exp ?x"] by (simp add: field_simps)
  then have "rne (?x / pow2 (ulp_exp ?x)) = m * 2 ^ j" by (metis rne_of_int)
  then show ?thesis
    using \<open>pow2 e = 2 ^ j * pow2 (ulp_exp ?x)\<close> by (simp add: fl_pos_def)
qed

lemma fl_exact:
  assumes "\<bar>m\<bar> < 2 ^ 53" and "- 1074 \<le> e"
  shows "fl (of_int m * pow2 e) = of_int m * pow2 e"
proof -
  consider "m = 0" | "0 < m" | "m < 0" by linarith
  then show ?thesis
  proof cases
    case 2
    then have "\<not> of_int m * pow2 e < 0" using pow2_pos [of e] by (metis mult_pos_pos not_less_iff_gr_or_eq of_int_0_less_iff)
    with 2 assms show ?thesis using fl_pos_exact [of m e] by (simp add: fl_def)
  next
    case 3
    then have "of_int m * pow2 e < 0" by (simp add: mult_less_0_iff)
    with 3 assms show ?thesis using fl_pos_exact [of "- m" e] by (simp add: fl_def)
  qed simp
qed

lemma fl_of_int: "\<bar>n\<bar> < 2 ^ 53 \<Longrightarrow> fl (of_int n) = of_int n"
  using fl_exact [of n 0] by (simp add: pow2_def)

lemma fl_1 [simp]: "fl 1 = 1"
  using fl_of_int [of 1] by simp

text \<open>Subtracting 1 from a float64 between 1 and \<open>2 ^ 52\<close> is exact.\<close>

lemma fl_pred_exact:
  assumes x: "is_f64 x" "1 \<le> x" "x < 2 ^ 52"
  shows "fl (x - 1) = x - 1"
proof -
  have xpos: "0 < x" using x by simp
  let ?e = "ulp_exp x"
  have lgx: "0 \<le> lg x" using lg_bounds(2) [OF xpos] x pow2_less [of 0 "lg x + 1"]
 by (simp add: pow2_def)
  then have e: "?e = lg x - 52" by (simp add: ulp_exp_def)
  have "lg x < 52" by (rule lg_less [OF xpos]) (use x in \<open>simp add: pow2_def\<close>)
  with e have e0: "?e < 0" by simp
  define m where "m = rne (x / pow2 ?e)"
  have xm: "x = of_int m * pow2 ?e"
    using x xpos by (simp add: is_f64_def fl_def fl_pos_def m_def)
  define j where "j = nat (- ?e)"
  have one: "1 = 2 ^ j * pow2 ?e"
    using pow2_minus [of ?e] pow2_nat [of j] e0 by (simp add: j_def)
  have "x - 1 = of_int (m - 2 ^ j) * pow2 ?e"
    using xm one by (simp add: algebra_simps)
  moreover have "\<bar>m - 2 ^ j\<bar> < 2 ^ 53"
  proof -
    have "x < pow2 (lg x + 1)" by (rule lg_bounds [OF xpos])
    also have "\<dots> = pow2 (int 53 + ?e)" using e by (simp add: add.commute)
    also have "\<dots> = 2 ^ 53 * pow2 ?e" by (simp only: pow2_add pow2_nat)
    finally have "of_int m * pow2 ?e < 2 ^ 53 * pow2 ?e" using xm by (simp only: xm [symmetric])
    then have "(of_int m :: rat) < 2 ^ 53" using pow2_pos [of ?e] by (simp only: mult_less_cancel_right_pos)
    moreover have "(2 ^ j :: rat) * pow2 ?e \<le> of_int m * pow2 ?e" using one xm x by simp
    then have "(2 ^ j :: rat) \<le> of_int m" by simp
    ultimately have "m < 2 ^ 53" "2 ^ j \<le> m"
      by (simp_all only: of_int_pow_iff)
    moreover have "(0 :: int) \<le> 2 ^ j" by simp
    ultimately show ?thesis by linarith
  qed
  moreover have "- 1074 \<le> ?e" by (simp add: ulp_exp_def)
  ultimately show ?thesis using fl_exact [of "m - 2 ^ j" ?e] by simp
qed

text \<open>Rounding is idempotent: its result is a float64.\<close>

lemma fl_fl_pos:
  assumes "0 < x"
  shows "fl (fl_pos x) = fl_pos x"
proof -
  let ?e = "ulp_exp x"
  define m where "m = rne (x / pow2 ?e)"
  have eq: "fl_pos x = of_int m * pow2 ?e" by (simp add: fl_pos_def m_def)
  have e: "- 1074 \<le> ?e" by (simp add: ulp_exp_def)
  have "x < pow2 (lg x + 1)" by (rule lg_bounds [OF assms])
  also have "\<dots> \<le> pow2 (53 + ?e)" by (intro pow2_mono) (simp add: ulp_exp_def)
  finally have "x / pow2 ?e \<le> of_int (2 ^ 53)" using pow2_nat [of 53] by (simp add: divide_le_eq pow2_add)
  then have "m \<le> 2 ^ 53" unfolding m_def by (metis rne_mono rne_of_int)
  moreover have "0 \<le> m" using assms by (simp add: m_def rne_nonneg less_imp_le)
  ultimately consider "\<bar>m\<bar> < 2 ^ 53" | "m = 2 ^ 53" by fastforce
  then show ?thesis
  proof cases
    case 1
    then show ?thesis unfolding eq by (rule fl_exact [OF _ e])
  next
    case 2
    then have "fl_pos x = of_int (2 ^ 52) * pow2 (1 + ?e)"
      using pow2_nat [of 1] by (simp add: eq pow2_add)
    then show ?thesis using fl_exact [of "2 ^ 52" "1 + ?e"] e by simp
  qed
qed

lemma is_f64_fl [simp]: "is_f64 (fl x)"
proof (cases "x < 0")
  case True
  then have "fl (fl_pos (- x)) = fl_pos (- x)" by (intro fl_fl_pos) simp
  then have "fl (- fl_pos (- x)) = - fl_pos (- x)" by (auto simp: fl_def split: if_splits)
  with True show ?thesis by (simp add: is_f64_def fl_def)
next
  case False
  then show ?thesis by (cases "x = 0") (simp_all add: is_f64_def fl_def [of x] fl_fl_pos)
qed

lemma fl_le_f64: "x \<le> y \<Longrightarrow> is_f64 y \<Longrightarrow> fl x \<le> y"
  by (metis fl_mono is_f64_def)

lemma is_f64_numerals [simp]: "is_f64 0" "is_f64 1" "is_f64 10" "is_f64 20"
  using fl_of_int [of 10] fl_of_int [of 20] by (simp_all add: is_f64_def)

section \<open>Conversions\<close>

text \<open>
  \<open>int(x)\<close> and \<open>time.Duration(x)\<close> truncate towards zero; outside the 64-bit range the result is the
  value amd64 produces.
\<close>

definition trunc :: "rat \<Rightarrow> int" where
  "trunc x = (let n = (if 0 \<le> x then \<lfloor>x\<rfloor> else - \<lfloor>- x\<rfloor>) in if in_int64 n then n else - (2 ^ 63))"

lemma trunc_nonneg: "0 \<le> x \<Longrightarrow> x < 2 ^ 63 \<Longrightarrow> trunc x = \<lfloor>x\<rfloor>"
proof -
  assume x: "0 \<le> x" "x < 2 ^ 63"
  then have "\<lfloor>x\<rfloor> < 2 ^ 63" by (simp add: floor_less_iff)
  moreover have "0 \<le> \<lfloor>x\<rfloor>" using x by simp
  ultimately show ?thesis using x by (simp add: trunc_def in_int64_def)
qed

text \<open>\<open>Duration.Seconds\<close>: whole seconds plus the fraction, each a float64.\<close>

definition Seconds :: "duration \<Rightarrow> rat" where
  "Seconds d = fl (fl (of_int (quot d Second)) + fl (of_int (rem_trunc d Second) / 1000000000))"

lemma Seconds_nonneg: "0 \<le> d \<Longrightarrow> 0 \<le> Seconds d"
  unfolding Seconds_def
  by (intro fl_nonneg add_nonneg_nonneg divide_nonneg_nonneg)
    (simp_all add: rem_trunc_def Second_def minus_mult_div_eq_mod)

end
