(* ===== verification/RateLimit.thy ===== *)
theory RateLimit
  imports Float64 GoStrings
begin

text \<open>
  Package \<open>api/ratelimit\<close> (\<open>ratelimiter.go\<close>): the token buckets, the lazily loaded configuration and
  environment, the evictor and the package functions. The package variables are the record
  \<open>rl_state\<close>; a \<open>sync.Once\<close> is the flag that it has run. Arithmetic on tokens is float64
  (theory \<open>Float64\<close>). \<open>strconv.ParseFloat\<close> is an argument that returns the finite float64 a string
  denotes. The distributed store is the interface value installed by \<open>SetRedisClient\<close>.
\<close>

section \<open>State\<close>

record bucket =
  b_tokens :: rat
  b_last :: "instant option"
  b_created :: instant

record Config =
  RPS :: rat
  Burst :: rat
  BucketTTLSecond :: int
  FailOpen :: "bool option"

record rlCfg =
  rps :: rat
  burst :: rat

record envCfg =
  ec_env :: string
  ec_ttlSec :: int

datatype rl_error = NoDistributedClient string | StoreError string

type_synonym allow_result = "bool \<times> duration \<times> rl_error option"
type_synonym AllowDistributed = "string \<Rightarrow> rat \<Rightarrow> rat \<Rightarrow> int \<Rightarrow> allow_result"

record rl_state =
  cfgPtr :: "rlCfg option"
  cfgOnce :: bool
  envPtr :: envCfg
  envOnce :: bool
  buckets :: "string \<rightharpoonup> bucket"
  evictTtl :: "duration option" \<comment> \<open>the evictor's TTL, once it has been started\<close>
  redisClient :: "AllowDistributed option"
  failOpenVal :: int
  failOnce :: bool

definition rl_init :: rl_state where
  "rl_init = \<lparr>cfgPtr = None, cfgOnce = False, envPtr = \<lparr>ec_env = [], ec_ttlSec = 0\<rparr>, envOnce = False,
              buckets = Map.empty, evictTtl = None, redisClient = None, failOpenVal = 0,
              failOnce = False\<rparr>"

section \<open>Configuration\<close>

definition env_float :: "(string \<Rightarrow> rat option) \<Rightarrow> (string \<Rightarrow> string) \<Rightarrow> string \<Rightarrow> rat \<Rightarrow> rat" where
  "env_float ParseFloat env k dflt =
     (let val = TrimSpace (env k)
      in if val \<noteq> [] then
           (case ParseFloat val of Some f \<Rightarrow> if f > 0 then f else dflt | None \<Rightarrow> dflt)
         else dflt)"

definition loadCfg ::
  "(string \<Rightarrow> rat option) \<Rightarrow> (string \<Rightarrow> string) \<Rightarrow> rl_state \<Rightarrow> rlCfg \<times> rl_state" where
  "loadCfg ParseFloat env st =
     (let st' =
        (if cfgOnce st then st
         else (case cfgPtr st of
                 Some _ \<Rightarrow> st\<lparr>cfgOnce := True\<rparr>
               | None \<Rightarrow>
                   (let r = env_float ParseFloat env ''RATE_LIMIT_RPS'' 10;
                        b = env_float ParseFloat env ''RATE_LIMIT_BURST'' 20
                    in st\<lparr>cfgOnce := True,
                          cfgPtr := Some \<lparr>rps = r, burst = (if b < 1 then 20 else b)\<rparr>\<rparr>)))
      in (case cfgPtr st' of Some c \<Rightarrow> c | None \<Rightarrow> \<lparr>rps = 10, burst = 20\<rparr>, st'))"

definition LoadConfig ::
  "(string \<Rightarrow> rat option) \<Rightarrow> (string \<Rightarrow> string) \<Rightarrow> Config \<Rightarrow> rl_state \<Rightarrow> rl_state" where
  "LoadConfig ParseFloat env cfg st =
     (let (current, st') = loadCfg ParseFloat env st
      in st'\<lparr>cfgPtr := Some \<lparr>rps = (if RPS cfg > 0 then RPS cfg else rps current),
                             burst = (if Burst cfg > 0 then Burst cfg else burst current)\<rparr>\<rparr>)"

definition loadEnv :: "(string \<Rightarrow> string) \<Rightarrow> rl_state \<Rightarrow> envCfg \<times> rl_state" where
  "loadEnv env st =
     (let st' =
        (if envOnce st then st
         else (let val = TrimSpace (env ''RATE_LIMIT_BUCKET_TTL_SEC'')
               in st\<lparr>envOnce := True,
                     envPtr := \<lparr>ec_env = ToLower (TrimSpace (env ''ENV'')),
                                ec_ttlSec = (if val \<noteq> [] then
                                               (case Atoi val of Some i \<Rightarrow> i | None \<Rightarrow> 0)
                                             else 0)\<rparr>\<rparr>))
      in (envPtr st', st'))"

definition SetRedisClient :: "AllowDistributed \<Rightarrow> rl_state \<Rightarrow> rl_state" where
  "SetRedisClient c st = st\<lparr>redisClient := Some c\<rparr>"

definition ShouldFailOpen :: "(string \<Rightarrow> string) \<Rightarrow> rl_state \<Rightarrow> bool \<times> rl_state" where
  "ShouldFailOpen env st =
     (let st' =
        (if failOnce st then st
         else (let v = ToLower (TrimSpace (env ''RATE_LIMIT_FAIL_OPEN''));
                   open = (v = [] \<or> v = ''true'' \<or> v = ''1'' \<or> v = ''yes'')
               in st\<lparr>failOnce := True, failOpenVal := (if open then 1 else 2)\<rparr>))
      in (failOpenVal st' = 1, st'))"

section \<open>Buckets\<close>

text \<open>\<open>bucket.allow\<close>: refill, take a token if there is one, else say how long to wait.\<close>

definition refill :: "rlCfg \<Rightarrow> instant \<Rightarrow> bucket \<Rightarrow> rat" where
  "refill cfg now bkt =
     (case b_last bkt of
        None \<Rightarrow> burst cfg
      | Some l \<Rightarrow>
          (let elapsed = Seconds (Sub now l)
           in if elapsed > 0 then
                (let t = fl (b_tokens bkt + fl (elapsed * rps cfg))
                 in if t > burst cfg then burst cfg else t)
              else b_tokens bkt))"

definition wait_for :: "rat \<Rightarrow> rat \<Rightarrow> duration" where
  "wait_for deficit r = trunc (fl (fl (deficit / r) * of_int Second))"

definition bucket_allow :: "rlCfg \<Rightarrow> instant \<Rightarrow> bucket \<Rightarrow> (bool \<times> duration) \<times> bucket" where
  "bucket_allow cfg now bkt =
     (let t = refill cfg now bkt
      in if t \<ge> 1 then ((True, 0), bkt\<lparr>b_tokens := fl (t - 1), b_last := Some now\<rparr>)
         else (let deficit = fl (1 - t)
               in ((False, if deficit \<le> 0 \<or> rps cfg \<le> 0 then Second else wait_for deficit (rps cfg)),
                   bkt\<lparr>b_tokens := t, b_last := Some now\<rparr>)))"

definition retryAfter :: "rlCfg \<Rightarrow> bucket \<Rightarrow> duration" where
  "retryAfter cfg bkt =
     (if rps cfg \<le> 0 then Second
      else (let deficit = fl (1 - b_tokens bkt)
            in if deficit \<le> 0 then 0 else wait_for deficit (rps cfg)))"

definition startBucketEvictor :: "(string \<Rightarrow> string) \<Rightarrow> rl_state \<Rightarrow> rl_state" where
  "startBucketEvictor env st =
     (let (ec, st') = loadEnv env st;
          ttlSec = (if ec_ttlSec ec \<le> 0 then 300 else ec_ttlSec ec)
      in st'\<lparr>evictTtl := Some (wrap64 (ttlSec * Second))\<rparr>)"

text \<open>One tick of the evictor's ticker: every bucket idle for longer than the TTL is deleted.\<close>

definition evict_tick :: "instant \<Rightarrow> rl_state \<Rightarrow> rl_state" where
  "evict_tick now st =
     (case evictTtl st of
        None \<Rightarrow> st
      | Some ttl \<Rightarrow>
          st\<lparr>buckets := map_sweep
               (\<lambda>b. Sub now (case b_last b of None \<Rightarrow> b_created b | Some l \<Rightarrow> l) > ttl) (buckets st)\<rparr>)"

definition getBucket :: "(string \<Rightarrow> string) \<Rightarrow> instant \<Rightarrow> string \<Rightarrow> rl_state \<Rightarrow> bucket \<times> rl_state" where
  "getBucket env now k st =
     (let st' = (case evictTtl st of None \<Rightarrow> startBucketEvictor env st | Some _ \<Rightarrow> st)
      in case buckets st' k of
           Some b \<Rightarrow> (b, st')
         | None \<Rightarrow>
             (let b = \<lparr>b_tokens = 0, b_last = None, b_created = now\<rparr>
              in (b, st'\<lparr>buckets := (buckets st')(k \<mapsto> b)\<rparr>)))"

section \<open>The package functions\<close>

definition Allow ::
  "(string \<Rightarrow> rat option) \<Rightarrow> (string \<Rightarrow> string) \<Rightarrow> instant \<Rightarrow> string \<Rightarrow> rl_state
     \<Rightarrow> allow_result \<times> rl_state" where
  "Allow ParseFloat env now k st =
     (let (ec, st1) = loadEnv env st
      in if ec_env ec = ''prod'' \<or> ec_env ec = ''staging'' then
           (case redisClient st1 of
              None \<Rightarrow> ((False, 0, Some (NoDistributedClient (ec_env ec))), st1)
            | Some rc \<Rightarrow>
                (let (cfg, st2) = loadCfg ParseFloat env st1
                 in (rc k (rps cfg) (burst cfg) (ec_ttlSec ec), st2)))
         else
           (let (b, st2) = getBucket env now k st1;
                (cfg, st3) = loadCfg ParseFloat env st2;
                ((ok, wait), b') = bucket_allow cfg now b;
                st4 = st3\<lparr>buckets := (buckets st3)(k \<mapsto> b')\<rparr>
            in if \<not> ok then ((False, wait, None), st4) else ((True, 0, None), st4)))"

definition GetUsage ::
  "(string \<Rightarrow> rat option) \<Rightarrow> (string \<Rightarrow> string) \<Rightarrow> instant \<Rightarrow> string \<Rightarrow> rl_state
     \<Rightarrow> (int \<times> int \<times> instant) \<times> rl_state" where
  "GetUsage ParseFloat env now k st =
     (let (bkt, st1) = getBucket env now k st;
          (cfg, st2) = loadCfg ParseFloat env st1;
          usedF = fl (burst cfg - b_tokens bkt)
      in ((trunc (if usedF < 0 then 0 else usedF), trunc (b_tokens bkt), now + retryAfter cfg bkt), st2))"

definition Reset :: "string \<Rightarrow> rl_state \<Rightarrow> rl_state" where
  "Reset k st = st\<lparr>buckets := map_del k (buckets st)\<rparr>"

text \<open>The operations a process can perform on the package, in any order.\<close>

datatype rl_op =
    OpAllow instant string
  | OpUsage instant string
  | OpReset string
  | OpTick instant
  | OpLoadConfig Config
  | OpFailOpen

fun rl_step :: "(string \<Rightarrow> rat option) \<Rightarrow> (string \<Rightarrow> string) \<Rightarrow> rl_op \<Rightarrow> rl_state \<Rightarrow> rl_state" where
  "rl_step pf env (OpAllow now k) st = snd (Allow pf env now k st)"
| "rl_step pf env (OpUsage now k) st = snd (GetUsage pf env now k st)"
| "rl_step pf env (OpReset k) st = Reset k st"
| "rl_step pf env (OpTick now) st = evict_tick now st"
| "rl_step pf env (OpLoadConfig c) st = LoadConfig pf env c st"
| "rl_step pf env OpFailOpen st = snd (ShouldFailOpen env st)"

section \<open>Lemmas\<close>

definition cfg_ok :: "rat \<Rightarrow> rlCfg \<Rightarrow> bool" where
  "cfg_ok M c \<longleftrightarrow> 0 < rps c \<and> 0 < burst c \<and> burst c \<le> M \<and> is_f64 (burst c)"

definition bucket_ok :: "rat \<Rightarrow> bucket \<Rightarrow> bool" where
  "bucket_ok M b \<longleftrightarrow> 0 \<le> b_tokens b \<and> b_tokens b \<le> M \<and> is_f64 (b_tokens b)"

definition rl_inv :: "rat \<Rightarrow> rl_state \<Rightarrow> bool" where
  "rl_inv M st \<longleftrightarrow> pred_option (cfg_ok M) (cfgPtr st) \<and> (\<forall>k. pred_option (bucket_ok M) (buckets st k))"

lemma refill_ok:
  assumes "cfg_ok M c" and "bucket_ok M b"
  shows "0 \<le> refill c now b" and "refill c now b \<le> M" and "is_f64 (refill c now b)"
  using assms
  by (auto simp: refill_def cfg_ok_def bucket_ok_def Let_def intro!: fl_nonneg add_nonneg_nonneg
      split: option.splits)

lemma bucket_allow_ok:
  assumes "cfg_ok M c" and "bucket_ok M b"
  shows "bucket_ok M (snd (bucket_allow c now b))"
proof -
  let ?t = "refill c now b"
  note t = refill_ok [OF assms, of now]
  have "fl (?t - 1) \<le> ?t" by (rule fl_le_f64) (simp_all add: t)
  with t show ?thesis
    by (auto simp: bucket_allow_def Let_def bucket_ok_def intro: fl_nonneg)
qed

text \<open>What the lazy loaders leave of the state.\<close>

lemma loadEnv_fields [simp]:
  "cfgPtr (snd (loadEnv env st)) = cfgPtr st" "cfgOnce (snd (loadEnv env st)) = cfgOnce st"
  "buckets (snd (loadEnv env st)) = buckets st" "redisClient (snd (loadEnv env st)) = redisClient st"
  "evictTtl (snd (loadEnv env st)) = evictTtl st"
  "envOnce (snd (loadEnv env st))" "fst (loadEnv env st) = envPtr (snd (loadEnv env st))"
  by (simp_all add: loadEnv_def Let_def)

lemma loadCfg_fields [simp]:
  "buckets (snd (loadCfg pf env st)) = buckets st" "envPtr (snd (loadCfg pf env st)) = envPtr st"
  "envOnce (snd (loadCfg pf env st)) = envOnce st" "evictTtl (snd (loadCfg pf env st)) = evictTtl st"
  "redisClient (snd (loadCfg pf env st)) = redisClient st"
  by (simp_all add: loadCfg_def Let_def split: option.splits)

lemma startBucketEvictor_fields [simp]:
  "cfgPtr (startBucketEvictor env st) = cfgPtr st" "cfgOnce (startBucketEvictor env st) = cfgOnce st"
  "buckets (startBucketEvictor env st) = buckets st"
  by (simp_all add: startBucketEvictor_def split_beta Let_def)

lemma getBucket_fields [simp]:
  "cfgPtr (snd (getBucket env now k st)) = cfgPtr st" "cfgOnce (snd (getBucket env now k st)) = cfgOnce st"
  by (simp_all add: getBucket_def Let_def split: option.splits)

lemma loadEnv_loaded [simp]: "envOnce st \<Longrightarrow> loadEnv env st = (envPtr st, st)"
  by (simp add: loadEnv_def)

lemma getBucket_buckets:
  "buckets (snd (getBucket env now k st)) = (buckets st)(k \<mapsto> fst (getBucket env now k st))"
  by (auto simp: getBucket_def Let_def split: option.splits)

lemma fst_getBucket:
  "fst (getBucket env now k st) =
     (case buckets st k of Some b \<Rightarrow> b | None \<Rightarrow> \<lparr>b_tokens = 0, b_last = None, b_created = now\<rparr>)"
  by (auto simp: getBucket_def Let_def split: option.splits)

text \<open>\<open>ParseFloat\<close> returns float64 values, and those in the environment are at most \<open>M\<close>.\<close>

definition floats_upto :: "rat \<Rightarrow> (string \<Rightarrow> rat option) \<Rightarrow> bool" where
  "floats_upto M pf \<longleftrightarrow> (\<forall>s. pred_option (\<lambda>f. is_f64 f \<and> f \<le> M) (pf s))"

lemma loadCfg_ok:
  assumes "20 \<le> M" and "floats_upto M pf"
    and "pred_option (cfg_ok M) (cfgPtr st)"
  shows "cfg_ok M (fst (loadCfg pf env st))" and "pred_option (cfg_ok M) (cfgPtr (snd (loadCfg pf env st)))"
  using assms
  by (auto simp: loadCfg_def Let_def cfg_ok_def env_float_def floats_upto_def pred_option_def split: option.splits)

lemma rl_inv_update:
  assumes "rl_inv M st" and "bucket_ok M b"
  shows "rl_inv M (st\<lparr>buckets := (buckets st)(k \<mapsto> b)\<rparr>)"
  using assms by (simp add: rl_inv_def)

lemma getBucket_inv:
  assumes "rl_inv M st" and "20 \<le> M"
  shows "rl_inv M (snd (getBucket env now k st))" and "bucket_ok M (fst (getBucket env now k st))"
proof -
  show b: "bucket_ok M (fst (getBucket env now k st))"
    using assms by (auto simp: fst_getBucket rl_inv_def bucket_ok_def pred_option_def split: option.splits)
  with assms show "rl_inv M (snd (getBucket env now k st))"
    by (simp add: rl_inv_def getBucket_buckets)
qed

lemma loadCfg_inv:
  assumes "rl_inv M st" and "20 \<le> M" and "floats_upto M pf"
  shows "rl_inv M (snd (loadCfg pf env st))" and "cfg_ok M (fst (loadCfg pf env st))"
  using assms loadCfg_ok [of M pf st env] by (simp_all add: rl_inv_def)

lemma Allow_local:
  assumes "ec_env (fst (loadEnv env st)) \<notin> {''prod'', ''staging''}"
  shows "Allow pf env now k st =
    (let st2 = snd (getBucket env now k (snd (loadEnv env st)));
         st3 = snd (loadCfg pf env st2);
         r = bucket_allow (fst (loadCfg pf env st2)) now
               (fst (getBucket env now k (snd (loadEnv env st))))
     in ((fst (fst r), if fst (fst r) then 0 else snd (fst r), None),
         st3\<lparr>buckets := (buckets st3)(k \<mapsto> snd r)\<rparr>))"
  using assms by (simp add: Allow_def split_beta Let_def)

fun op_ok :: "rat \<Rightarrow> rl_op \<Rightarrow> bool" where
  "op_ok M (OpLoadConfig c) \<longleftrightarrow> is_f64 (Burst c) \<and> Burst c \<le> M"
| "op_ok M _ \<longleftrightarrow> True"

lemma Allow_inv:
  assumes inv: "rl_inv M st" and M: "20 \<le> M" and pf: "floats_upto M pf"
  shows "rl_inv M (snd (Allow pf env now k st))"
proof (cases "ec_env (fst (loadEnv env st)) \<in> {''prod'', ''staging''}")
  case True
  have "rl_inv M (snd (loadEnv env st))" using inv by (simp add: rl_inv_def)
  with True show ?thesis using loadCfg_inv(1) [OF _ M pf]
    by (simp add: Allow_def split_beta Let_def split: option.splits)
next
  case False
  let ?g = "getBucket env now k (snd (loadEnv env st))"
  have "rl_inv M (snd (loadEnv env st))" using inv by (simp add: rl_inv_def)
  then have g: "rl_inv M (snd ?g)" "bucket_ok M (fst ?g)"
    using getBucket_inv M by blast+
  then have l: "rl_inv M (snd (loadCfg pf env (snd ?g)))" "cfg_ok M (fst (loadCfg pf env (snd ?g)))"
    using loadCfg_inv [OF _ M pf] by blast+
  show ?thesis
    unfolding Allow_local [OF False] Let_def snd_conv
    by (rule rl_inv_update [OF l(1) bucket_allow_ok [OF l(2) g(2)]])
qed

lemma rl_step_inv:
  assumes inv: "rl_inv M st" and M: "20 \<le> M" and pf: "floats_upto M pf"
    and op: "op_ok M opn"
  shows "rl_inv M (rl_step pf env opn st)"
proof (cases opn)
  case (OpAllow now k)
  then show ?thesis using Allow_inv [OF inv M pf] by simp
next
  case (OpUsage now k)
  then show ?thesis
    using loadCfg_inv(1) [OF getBucket_inv(1) [OF inv M] M pf] by (simp add: GetUsage_def split_beta Let_def)
next
  case (OpReset k)
  then show ?thesis using inv by (simp add: Reset_def rl_inv_def)
next
  case (OpTick now)
  have "pred_option (bucket_ok M) (map_sweep d (buckets st) k)" for d k
    using inv by (auto simp: rl_inv_def pred_option_def)
  with OpTick inv show ?thesis by (simp add: evict_tick_def rl_inv_def split: option.splits)
next
  case (OpLoadConfig c)
  then show ?thesis
    using op loadCfg_inv [OF inv M pf, of env]
    by (auto simp: LoadConfig_def split_beta Let_def rl_inv_def cfg_ok_def)
next
  case OpFailOpen
  then show ?thesis using inv by (simp add: ShouldFailOpen_def Let_def rl_inv_def)
qed

lemma rl_run_inv:
  assumes "rl_inv M st" and "20 \<le> M" and "floats_upto M pf"
    and "list_all (op_ok M) ops"
  shows "rl_inv M (fold (rl_step pf env) ops st)"
  using assms by (induction ops arbitrary: st) (simp_all add: rl_step_inv)

text \<open>A run of \<open>n\<close> calls of \<open>Allow\<close> for one key at one instant.\<close>

primrec allows ::
  "(string \<Rightarrow> rat option) \<Rightarrow> (string \<Rightarrow> string) \<Rightarrow> instant \<Rightarrow> string \<Rightarrow> nat \<Rightarrow> rl_state \<Rightarrow> bool list" where
  "allows pf env now k 0 st = []"
| "allows pf env now k (Suc n) st =
     (let (r, st') = Allow pf env now k st in fst r # allows pf env now k n st')"

definition local_env :: "(string \<Rightarrow> string) \<Rightarrow> rl_state \<Rightarrow> bool" where
  "local_env env st \<longleftrightarrow> ec_env (fst (loadEnv env st)) \<notin> {''prod'', ''staging''}"

lemma fst_loadCfg_cong:
  "cfgOnce st' = cfgOnce st \<Longrightarrow> cfgPtr st' = cfgPtr st \<Longrightarrow> fst (loadCfg pf env st') = fst (loadCfg pf env st)"
  by (simp add: loadCfg_def Let_def split: option.splits)

lemma loadCfg_stable: "fst (loadCfg pf env (snd (loadCfg pf env st))) = fst (loadCfg pf env st)"
  by (simp add: loadCfg_def Let_def split: option.splits)

lemma getBucket_env [simp]:
  "envOnce st \<Longrightarrow> envOnce (snd (getBucket env now k st)) \<and> envPtr (snd (getBucket env now k st)) = envPtr st"
  by (simp add: getBucket_def startBucketEvictor_def Let_def split: option.splits)

lemma Allow_local_step:
  fixes pf and now :: instant and k :: string
  assumes "local_env env st"
  defines "c \<equiv> fst (loadCfg pf env st)"
    and "r \<equiv> bucket_allow (fst (loadCfg pf env st)) now (fst (getBucket env now k st))"
    and "st' \<equiv> snd (Allow pf env now k st)"
  shows "fst (Allow pf env now k st) = (fst (fst r), if fst (fst r) then 0 else snd (fst r), None)"
    and "local_env env st'" and "fst (loadCfg pf env st') = c" and "buckets st' k = Some (snd r)"
    and "\<And>k'. k' \<noteq> k \<Longrightarrow> buckets st' k' = buckets st k'"
proof -
  have l: "ec_env (fst (loadEnv env st)) \<notin> {''prod'', ''staging''}"
    using assms(1) by (simp add: local_env_def)
  let ?st2 = "snd (getBucket env now k (snd (loadEnv env st)))"
  have c: "fst (loadCfg pf env ?st2) = c" unfolding c_def by (rule fst_loadCfg_cong) simp_all
  have g: "fst (getBucket env now k (snd (loadEnv env st))) = fst (getBucket env now k st)"
    by (simp add: fst_getBucket)
  note eq = Allow_local [OF l, of pf now k, unfolded Let_def g c]
  show "fst (Allow pf env now k st) = (fst (fst r), if fst (fst r) then 0 else snd (fst r), None)"
    and "buckets st' k = Some (snd r)" and "\<And>k'. k' \<noteq> k \<Longrightarrow> buckets st' k' = buckets st k'"
    by (simp_all add: r_def st'_def eq c_def getBucket_buckets)
  show "local_env env st'" using l by (simp add: st'_def local_env_def eq)
  have "fst (loadCfg pf env st') = fst (loadCfg pf env (snd (loadCfg pf env ?st2)))"
    unfolding st'_def eq by (rule fst_loadCfg_cong) simp_all
  then show "fst (loadCfg pf env st') = c" by (simp add: loadCfg_stable c)
qed

lemma refill_same_instant [simp]: "b_last b = Some now \<Longrightarrow> refill c now b = b_tokens b"
  by (simp add: refill_def Seconds_def rem_trunc_def quot_def)

lemma bucket_allow_tokens:
  assumes "is_f64 t" and "t = refill c now b" and "0 \<le> t" and "t < 2 ^ 52"
  shows "fst (fst (bucket_allow c now b)) = (1 \<le> t)"
    and "b_tokens (snd (bucket_allow c now b)) = (if 1 \<le> t then t - 1 else t)"
    and "b_last (snd (bucket_allow c now b)) = Some now"
  using assms fl_pred_exact [of t] by (simp_all add: bucket_allow_def Let_def)

lemma floor_pred: "1 \<le> (t :: rat) \<Longrightarrow> nat \<lfloor>t\<rfloor> = Suc (nat \<lfloor>t - 1\<rfloor>)"
  by (simp add: nat_eq_iff)

lemma f64_pred: "is_f64 t \<Longrightarrow> 1 \<le> t \<Longrightarrow> t < 2 ^ 52 \<Longrightarrow> is_f64 (t - 1)"
  by (metis fl_pred_exact is_f64_fl)

lemma allows_count:
  assumes "local_env env st" and "t = refill (fst (loadCfg pf env st)) now (fst (getBucket env now k st))"
    and "is_f64 t" and "0 \<le> t" and "t < 2 ^ 52"
  shows "length (filter id (allows pf env now k n st)) = min n (nat \<lfloor>t\<rfloor>)"
  using assms
proof (induction n arbitrary: st t)
  case 0
  then show ?case by simp
next
  case (Suc n)
  let ?st' = "snd (Allow pf env now k st)"
  let ?b = "fst (getBucket env now k st)" and ?c = "fst (loadCfg pf env st)"
  note step = Allow_local_step [OF Suc.prems(1), where pf = pf and now = now and k = k]
  note bt = bucket_allow_tokens [OF Suc.prems(3,2,4,5)]
  have b': "refill (fst (loadCfg pf env ?st')) now (fst (getBucket env now k ?st')) =
      (if 1 \<le> t then t - 1 else t)"
    using step(4) bt by (simp add: fst_getBucket)
  have t': "is_f64 (if 1 \<le> t then t - 1 else t)" using Suc.prems f64_pred by simp
  have IH: "length (filter id (allows pf env now k n ?st')) = min n (nat \<lfloor>if 1 \<le> t then t - 1 else t\<rfloor>)"
    by (rule Suc.IH [OF step(2) b'[symmetric] t']) (use Suc.prems in auto)
  have "nat \<lfloor>t\<rfloor> = 0" if "\<not> 1 \<le> t" using that by (simp add: floor_less_iff not_le)
  then show ?case using IH step(1) bt(1) floor_pred [of t] by (auto simp: split_beta id_def)
qed

text \<open>The results of \<open>Allow\<close> for a sequence of instants and keys.\<close>

primrec allow_seq ::
  "(string \<Rightarrow> rat option) \<Rightarrow> (string \<Rightarrow> string) \<Rightarrow> (instant \<times> string) list \<Rightarrow> rl_state \<Rightarrow> bool list" where
  "allow_seq pf env [] st = []"
| "allow_seq pf env (c # cs) st =
     (let (r, st') = Allow pf env (fst c) (snd c) st in fst r # allow_seq pf env cs st')"

lemma small_burst_denied:
  assumes "local_env env st" and "burst (fst (loadCfg pf env st)) < 1"
    and "\<forall>k b. buckets st k = Some b \<longrightarrow> b_tokens b < 1"
  shows "list_all Not (allow_seq pf env cs st)"
  using assms
proof (induction cs arbitrary: st)
  case Nil
  then show ?case by simp
next
  case (Cons c cs)
  obtain now k where c: "c = (now, k)" by (cases c)
  let ?st' = "snd (Allow pf env now k st)"
  note step = Allow_local_step [OF Cons.prems(1), where pf = pf and now = now and k = k]
  let ?r = "bucket_allow (fst (loadCfg pf env st)) now (fst (getBucket env now k st))"
  have "refill (fst (loadCfg pf env st)) now (fst (getBucket env now k st)) < 1"
    using Cons.prems by (auto simp: refill_def Let_def fst_getBucket split: option.splits)
  then have r: "\<not> fst (fst ?r)" "b_tokens (snd ?r) < 1" by (simp_all add: bucket_allow_def Let_def)
  have "list_all Not (allow_seq pf env cs ?st')"
  proof (rule Cons.IH [OF step(2)])
    show "\<forall>k' b. buckets ?st' k' = Some b \<longrightarrow> b_tokens b < 1"
    proof (intro allI impI)
      fix k' b
      assume "buckets ?st' k' = Some b"
      then show "b_tokens b < 1" using step(4,5) r Cons.prems(3) by (cases "k' = k") auto
    qed
  qed (use step(3) Cons.prems(2) in simp)
  with step(1) r c show ?case by (simp add: split_beta)
qed

lemma LoadConfig_cfg: "fst (loadCfg pf env (LoadConfig pf env c st)) =
   \<lparr>rps = (if RPS c > 0 then RPS c else rps (fst (loadCfg pf env st))),
    burst = (if Burst c > 0 then Burst c else burst (fst (loadCfg pf env st)))\<rparr>"
  by (simp add: LoadConfig_def split_beta loadCfg_def Let_def split: option.splits)

section \<open>Properties\<close>

text \<open>
  Whatever sequence of Allow, GetUsage, Reset, LoadConfig, ShouldFailOpen calls and evictor ticks the
  process performs from its initial state, every bucket holds between 0 and \<open>M\<close> tokens, where \<open>M\<close> is the
  largest burst ever configured (at least the default 20): float rounding never makes a bucket negative
  and never lets it exceed its capacity.
\<close>
theorem tokens_bounded:
  assumes "20 \<le> M" and "floats_upto M pf"
    and "list_all (op_ok M) ops"
    and "buckets (fold (rl_step pf env) ops rl_init) k = Some b"
  shows "0 \<le> b_tokens b \<and> b_tokens b \<le> M"
proof -
  have "rl_inv M rl_init" by (simp add: rl_inv_def rl_init_def)
  then have "rl_inv M (fold (rl_step pf env) ops rl_init)" by (rule rl_run_inv) (use assms in auto)
  with assms(4) show ?thesis unfolding rl_inv_def bucket_ok_def by (metis option.pred_inject(2))
qed

lemma local_env_init [simp]: "local_env (\<lambda>_. []) rl_init"
  by (simp add: local_env_def rl_init_def loadEnv_def TrimSpace_def ToLower_def)

theorem tokens_bounded_witness:
  "\<exists>b. buckets (fold (rl_step (\<lambda>_. None) (\<lambda>_. [])) [OpTick 5, OpAllow 7 ''a''] rl_init) ''a'' = Some b
     \<and> 0 \<le> b_tokens b \<and> b_tokens b \<le> 20"
proof -
  have "rl_step (\<lambda>_. None) (\<lambda>_. []) (OpTick 5) rl_init = rl_init"
    by (simp add: evict_tick_def rl_init_def)
  then obtain b where b: "buckets (fold (rl_step (\<lambda>_. None) (\<lambda>_. [])) [OpTick 5, OpAllow 7 ''a''] rl_init) ''a'' = Some b"
    using Allow_local_step(4) [OF local_env_init] by simp
  have "0 \<le> b_tokens b \<and> b_tokens b \<le> 20"
    by (rule tokens_bounded [OF _ _ _ b]) (simp_all add: floats_upto_def)
  with b show ?thesis by blast
qed



text \<open>
  \<open>LoadConfig\<close> accepts a burst between 0 and 1 (the environment loader rejects one), and from then on
  the in-process limiter refuses every request of every client, for ever: no bucket can hold a token.
\<close>
theorem LoadConfig_small_burst:
  assumes "local_env env rl_init" and "0 < Burst c" and "Burst c < 1"
  shows "list_all Not (allow_seq pf env cs (LoadConfig pf env c rl_init))"
proof (rule small_burst_denied)
  let ?st = "LoadConfig pf env c rl_init"
  have e: "envOnce ?st = envOnce rl_init" "envPtr ?st = envPtr rl_init" "buckets ?st = Map.empty"
    by (simp_all add: LoadConfig_def split_beta Let_def) (simp add: rl_init_def)
  then show "local_env env ?st" using assms(1) by (auto simp: local_env_def loadEnv_def Let_def split: if_splits)
  show "burst (fst (loadCfg pf env ?st)) < 1" using assms by (simp add: LoadConfig_cfg)
  show "\<forall>k b. buckets ?st k = Some b \<longrightarrow> b_tokens b < 1" using e by simp
qed

theorem LoadConfig_small_burst_witness:
  "list_all Not (allow_seq (\<lambda>_. None) (\<lambda>_. []) [(0, ''a''), (9000000000, ''a'')]
     (LoadConfig (\<lambda>_. None) (\<lambda>_. []) \<lparr>RPS = 5, Burst = 1 / 2, BucketTTLSecond = 0, FailOpen = None\<rparr> rl_init))"
  by (rule LoadConfig_small_burst) simp_all

end
