(* ===== verification/Redis.thy ===== *)
theory Redis
  imports Float64 GoStrings
begin

text \<open>
  Package \<open>db/redis\<close>: the client over go-redis and the token-bucket Lua script of the distributed rate
  limiter. The server is reached through the commands of the record \<open>redis\<close>, each a function of the time,
  its operands and the server's state; a command may fail. What the SDK relies on is stated by the
  locales \<open>redis_keys\<close> and \<open>redis_hashes\<close>, and \<open>mem_redis\<close> is a server that satisfies them. Lua's
  \<open>tonumber\<close> and \<open>tostring\<close> are arguments; Lua numbers are float64.
\<close>

section \<open>The commands\<close>

type_synonym ('a, 'r) cmd = "'r \<Rightarrow> (string, 'a) res \<times> 'r"

record 'r redis =
  rc_GET :: "instant \<Rightarrow> string \<Rightarrow> (string option, 'r) cmd"
  rc_GETDEL :: "instant \<Rightarrow> string \<Rightarrow> (string option, 'r) cmd"
  rc_MGET :: "instant \<Rightarrow> string list \<Rightarrow> (string option list, 'r) cmd"
  rc_SET :: "instant \<Rightarrow> string \<Rightarrow> string \<Rightarrow> duration \<Rightarrow> (unit, 'r) cmd"
  rc_INCR :: "instant \<Rightarrow> string \<Rightarrow> (int, 'r) cmd"
  rc_SETNX :: "instant \<Rightarrow> string \<Rightarrow> string \<Rightarrow> duration \<Rightarrow> (bool, 'r) cmd"
  rc_PING :: "instant \<Rightarrow> (unit, 'r) cmd"
  rc_EXISTS :: "instant \<Rightarrow> string \<Rightarrow> (int, 'r) cmd"
  rc_DEL :: "instant \<Rightarrow> string \<Rightarrow> (int, 'r) cmd"
  rc_EXPIRE :: "instant \<Rightarrow> string \<Rightarrow> duration \<Rightarrow> (bool, 'r) cmd"
  rc_HMGET :: "instant \<Rightarrow> string \<Rightarrow> (string option \<times> string option, 'r) cmd" \<comment> \<open>fields tokens and ts\<close>
  rc_HMSET :: "instant \<Rightarrow> string \<Rightarrow> string \<Rightarrow> string \<Rightarrow> (unit, 'r) cmd"

definition map_cmd :: "('a \<Rightarrow> 'b) \<Rightarrow> (string, 'a) res \<times> 'r \<Rightarrow> (string, 'b) res \<times> 'r" where
  "map_cmd f x = (map_sum id f (fst x), snd x)"

section \<open>The client\<close>

definition withTimeout :: "duration option \<Rightarrow> duration \<Rightarrow> duration" where
  "withTimeout deadline opTimeout =
     (case deadline of Some d \<Rightarrow> d | None \<Rightarrow> if opTimeout = 0 then 2 * Second else opTimeout)"

definition redis_Get :: "'r redis \<Rightarrow> instant \<Rightarrow> string \<Rightarrow> (string, 'r) cmd" where
  "redis_Get rc now k s = map_cmd (\<lambda>v. case v of None \<Rightarrow> [] | Some x \<Rightarrow> x) (rc_GET rc now k s)"

definition redis_GetDel :: "'r redis \<Rightarrow> instant \<Rightarrow> string \<Rightarrow> (string, 'r) cmd" where
  "redis_GetDel rc now k s = map_cmd (\<lambda>v. case v of None \<Rightarrow> [] | Some x \<Rightarrow> x) (rc_GETDEL rc now k s)"

definition redis_MGet :: "'r redis \<Rightarrow> instant \<Rightarrow> string list \<Rightarrow> (string list, 'r) cmd" where
  "redis_MGet rc now ks s =
     (if ks = [] then (Inr [], s)
      else map_cmd (map (\<lambda>v. case v of None \<Rightarrow> [] | Some x \<Rightarrow> x)) (rc_MGET rc now ks s))"

definition ttl_duration :: "int \<Rightarrow> duration" where
  "ttl_duration ttl = (if ttl > 0 then wrap64 (ttl * Second) else 0)"

definition redis_Set :: "'r redis \<Rightarrow> instant \<Rightarrow> string \<Rightarrow> string \<Rightarrow> int \<Rightarrow> (unit, 'r) cmd" where
  "redis_Set rc now k v ttl s = rc_SET rc now k v (ttl_duration ttl) s"

definition redis_Incr :: "'r redis \<Rightarrow> instant \<Rightarrow> string \<Rightarrow> (int, 'r) cmd" where
  "redis_Incr rc now k s = rc_INCR rc now k s"

definition redis_SetNX :: "'r redis \<Rightarrow> instant \<Rightarrow> string \<Rightarrow> string \<Rightarrow> int \<Rightarrow> (bool, 'r) cmd" where
  "redis_SetNX rc now k v ttl s = rc_SETNX rc now k v (ttl_duration ttl) s"

definition redis_Ping :: "'r redis \<Rightarrow> instant \<Rightarrow> (unit, 'r) cmd" where
  "redis_Ping rc now s = rc_PING rc now s"

definition redis_Exists :: "'r redis \<Rightarrow> instant \<Rightarrow> string \<Rightarrow> (bool, 'r) cmd" where
  "redis_Exists rc now k s = map_cmd (\<lambda>n. n > 0) (rc_EXISTS rc now k s)"

definition redis_Delete :: "'r redis \<Rightarrow> instant \<Rightarrow> string \<Rightarrow> (unit, 'r) cmd" where
  "redis_Delete rc now k s = map_cmd (\<lambda>_. ()) (rc_DEL rc now k s)"

definition redis_Expire :: "'r redis \<Rightarrow> instant \<Rightarrow> string \<Rightarrow> int \<Rightarrow> (unit, 'r) cmd" where
  "redis_Expire rc now k ttl s =
     (if ttl \<le> 0 then (Inr (), s)
      else map_cmd (\<lambda>_. ()) (rc_EXPIRE rc now k (wrap64 (ttl * Second)) s))"

text \<open>\<open>New\<close> and its variants: what they refuse before and after the ping; \<open>parseURL\<close> is go-redis's.\<close>

record redisConfig =
  rcfg_Addr :: string
  rcfg_Password :: string
  rcfg_DB :: int
  rcfg_DialTimeout :: duration
  rcfg_OpTimeout :: duration

datatype redis_new_error = MissingAddr | PingFailed string | BadConnString | BadDBString string

definition dial_timeout :: "redisConfig \<Rightarrow> duration" where
  "dial_timeout cfg = (if rcfg_DialTimeout cfg = 0 then 3 * Second else rcfg_DialTimeout cfg)"

definition redis_New :: "'r redis \<Rightarrow> instant \<Rightarrow> redisConfig \<Rightarrow> 'r \<Rightarrow> (redis_new_error, duration) res \<times> 'r" where
  "redis_New rc now cfg s =
     (if rcfg_Addr cfg = [] then (Inl MissingAddr, s)
      else (case rc_PING rc now s of
              (Inl e, s') \<Rightarrow> (Inl (PingFailed e), s')
            | (Inr _, s') \<Rightarrow> (Inr (rcfg_OpTimeout cfg), s')))"

definition redis_NewFromString ::
  "(string \<Rightarrow> bool) \<Rightarrow> 'r redis \<Rightarrow> instant \<Rightarrow> string \<Rightarrow> 'r \<Rightarrow> (redis_new_error, duration) res \<times> 'r" where
  "redis_NewFromString parseURL_ok rc now connStr s =
     (if \<not> parseURL_ok connStr then (Inl BadConnString, s)
      else (case rc_PING rc now s of
              (Inl e, s') \<Rightarrow> (Inl (PingFailed e), s')
            | (Inr _, s') \<Rightarrow> (Inr 0, s')))"

definition redis_NewFromDBString ::
  "'r redis \<Rightarrow> instant \<Rightarrow> string \<Rightarrow> string \<Rightarrow> string \<Rightarrow> 'r \<Rightarrow> (redis_new_error, duration) res \<times> 'r" where
  "redis_NewFromDBString rc now addr password dbStr s =
     (case Atoi dbStr of
        None \<Rightarrow> (Inl (BadDBString dbStr), s)
      | Some db \<Rightarrow>
          redis_New rc now
            \<lparr>rcfg_Addr = addr, rcfg_Password = password, rcfg_DB = db, rcfg_DialTimeout = 0, rcfg_OpTimeout = 0\<rparr> s)"

section \<open>The token-bucket script\<close>

record lua =
  tonumber :: "string \<Rightarrow> rat option"
  tostring :: "rat \<Rightarrow> string"

datatype reply = RInt int | RBulk string

text \<open>The bucket after the refill and the debit, and the milliseconds to wait.\<close>

definition script_step :: "rat \<Rightarrow> rat \<Rightarrow> rat \<Rightarrow> rat \<Rightarrow> rat \<Rightarrow> rat \<Rightarrow> rat \<times> int \<times> rat" where
  "script_step now rate bst requested tokens ts =
     (let e = fl (fl (now - ts) / 1000);
          elapsed = (if e < 0 then 0 else e);
          n = fl (tokens + fl (elapsed * rate));
          new_tokens = (if n > bst then bst else n)
      in if new_tokens \<ge> requested then (fl (new_tokens - requested), 1, 0)
         else (let deficit = fl (requested - new_tokens)
               in (new_tokens, 0, if rate > 0 then of_int \<lceil>fl (fl (deficit / rate) * 1000)\<rceil> else 0)))"

definition tokenBucketScript ::
  "'r redis \<Rightarrow> lua \<Rightarrow> instant \<Rightarrow> string \<Rightarrow> rat \<Rightarrow> rat \<Rightarrow> rat \<Rightarrow> rat \<Rightarrow> int \<Rightarrow> (reply list, 'r) cmd" where
  "tokenBucketScript rc l t k now rate bst requested ttl s =
     (case rc_HMGET rc t k s of
        (Inl e, s1) \<Rightarrow> (Inl e, s1)
      | (Inr (tok, stamp), s1) \<Rightarrow>
          (case (case Option.bind tok (tonumber l) of
                   None \<Rightarrow> Some (bst, now)
                 | Some tokens \<Rightarrow> map_option (Pair tokens) (Option.bind stamp (tonumber l))) of
             None \<Rightarrow> (Inl ''attempt to perform arithmetic on a nil value'', s1)
           | Some (tokens, ts) \<Rightarrow>
               (let (new_tokens, allowed, wait_ms) = script_step now rate bst requested tokens ts
                in case rc_HMSET rc t k (tostring l new_tokens) (tostring l now) s1 of
                     (Inl e, s2) \<Rightarrow> (Inl e, s2)
                   | (Inr _, s2) \<Rightarrow>
                       (case rc_EXPIRE rc t k (ttl * Second) s2 of
                          (Inl e, s3) \<Rightarrow> (Inl e, s3)
                        | (Inr _, s3) \<Rightarrow> (Inr [RInt allowed, RBulk (tostring l wait_ms)], s3)))))"

definition parse_reply :: "reply list \<Rightarrow> (string, bool \<times> duration) res" where
  "parse_reply arr =
     (if length arr < 2 then Inl ''unexpected script result''
      else (let allowed = (case arr ! 0 of RInt v \<Rightarrow> v = 1 | RBulk v \<Rightarrow> v = ''1'');
                waitMs = (case arr ! 1 of
                            RInt v \<Rightarrow> v
                          | RBulk v \<Rightarrow> (case Atoi v of Some n \<Rightarrow> n | None \<Rightarrow> 0))
            in Inr (allowed, wrap64 (waitMs * Millisecond))))"

definition AllowDistributed_redis ::
  "'r redis \<Rightarrow> lua \<Rightarrow> instant \<Rightarrow> string \<Rightarrow> rat \<Rightarrow> rat \<Rightarrow> int \<Rightarrow> (bool \<times> duration, 'r) cmd" where
  "AllowDistributed_redis rc l now k rate bst ttlSec s =
     (case tokenBucketScript rc l now k (of_int (UnixMilli now)) rate bst 1 ttlSec s of
        (Inl e, s') \<Rightarrow> (Inl e, s')
      | (Inr arr, s') \<Rightarrow> (parse_reply arr, s'))"

section \<open>What the SDK relies on\<close>

text \<open>
  \<open>SETNX\<close> creates a key only if it does not exist; a key set with a positive expiry exists until that much
  time has passed, one set without expiry until it is deleted.
\<close>

locale redis_keys =
  fixes rc :: "'r redis" and exists :: "'r \<Rightarrow> instant \<Rightarrow> string \<Rightarrow> bool"
  assumes setnx_new: "rc_SETNX rc t k v d s = (Inr True, s') \<Longrightarrow> \<not> exists s t k"
    and setnx_kept: "rc_SETNX rc t k v d s = (Inr True, s') \<Longrightarrow> t \<le> t' \<Longrightarrow> d = 0 \<or> 0 < d \<and> t' < t + d \<Longrightarrow> exists s' t' k"
    and setnx_old: "rc_SETNX rc t k v d s = (Inr False, s') \<Longrightarrow> exists s t k"
    and setnx_others: "rc_SETNX rc t k v d s = (r, s') \<Longrightarrow> t \<le> t' \<Longrightarrow> exists s t' k' \<Longrightarrow> exists s' t' k'"
    and exists_iff: "rc_EXISTS rc t k s = (Inr n, s') \<Longrightarrow> 0 < n \<longleftrightarrow> exists s t k"

text \<open>\<open>EXPIRE\<close> with a timeout that is not positive deletes the key; the fields of a missing hash are nil.\<close>

locale redis_hashes =
  fixes rc :: "'r redis" and gone :: "'r \<Rightarrow> string \<Rightarrow> bool"
  assumes hmget_gone: "gone s k \<Longrightarrow> rc_HMGET rc t k s = (Inr x, s') \<Longrightarrow> x = (None, None)"
    and expire_nonpos: "d \<le> 0 \<Longrightarrow> rc_EXPIRE rc t k d s = (Inr b, s') \<Longrightarrow> gone s' k"
begin

text \<open>With such a TTL the script always starts from a full bucket and throws the bucket away again.\<close>

lemma script_forgets:
  assumes "gone s k" and "ttl \<le> 0" and "1 \<le> bst"
    and run: "tokenBucketScript rc l t k now rate bst 1 ttl s = (Inr arr, s')"
  shows "gone s' k" and "\<exists>w. arr = [RInt 1, RBulk (tostring l w)] \<and> w = 0"
proof -
  obtain x s1 where h: "rc_HMGET rc t k s = (Inr x, s1)"
    using run by (auto simp: tokenBucketScript_def split: sum.splits prod.splits)
  with hmget_gone [OF assms(1)] have x: "x = (None, None)" by blast
  have "\<exists>n. script_step now rate bst 1 bst now = (n, 1, 0)"
    using assms(3) by (simp add: script_step_def Let_def fl_mono is_f64_def) (metis fl_1 fl_mono)
  then obtain n where n: "script_step now rate bst 1 bst now = (n, 1, 0)" ..
  obtain s2 where m: "rc_HMSET rc t k (tostring l n) (tostring l now) s1 = (Inr (), s2)"
    using run h x n by (auto simp: tokenBucketScript_def split: sum.splits prod.splits)
  obtain b where e: "rc_EXPIRE rc t k (ttl * Second) s2 = (Inr b, s')" and arr: "arr = [RInt 1, RBulk (tostring l 0)]"
    using run h x n m by (auto simp: tokenBucketScript_def split: sum.splits prod.splits)
  have "ttl * Second \<le> 0" using assms(2) by (simp add: Second_def)
  from expire_nonpos [OF this e] show "gone s' k" .
  from arr show "\<exists>w. arr = [RInt 1, RBulk (tostring l w)] \<and> w = 0" by simp
qed

end

section \<open>A server with these properties\<close>

datatype rvalue = RStr string | RHash "string \<times> string"

type_synonym mem = "string \<rightharpoonup> rvalue \<times> instant option"

definition mem_live :: "mem \<Rightarrow> instant \<Rightarrow> string \<Rightarrow> rvalue option" where
  "mem_live s t k =
     (case s k of
        None \<Rightarrow> None
      | Some (v, None) \<Rightarrow> Some v
      | Some (v, Some e) \<Rightarrow> if t < e then Some v else None)"

definition mem_str :: "mem \<Rightarrow> instant \<Rightarrow> string \<Rightarrow> (string, string option) res" where
  "mem_str s t k =
     (case mem_live s t k of
        None \<Rightarrow> Inr None
      | Some (RStr v) \<Rightarrow> Inr (Some v)
      | Some (RHash _) \<Rightarrow> Inl ''WRONGTYPE'')"

definition mem_expiry :: "instant \<Rightarrow> duration \<Rightarrow> instant option" where
  "mem_expiry t d = (if d > 0 then Some (t + d) else None)"

definition mem_redis :: "mem redis" where
  "mem_redis =
     \<lparr>rc_GET = (\<lambda>t k s. (mem_str s t k, s)),
      rc_GETDEL = (\<lambda>t k s. (mem_str s t k, if isl (mem_str s t k) then s else map_del k s)),
      rc_MGET = (\<lambda>t ks s. (Inr (map (\<lambda>k. case mem_str s t k of Inr v \<Rightarrow> v | Inl _ \<Rightarrow> None) ks), s)),
      rc_SET = (\<lambda>t k v d s. (Inr (), s(k \<mapsto> (RStr v, mem_expiry t d)))),
      rc_INCR = (\<lambda>t k s.
        case mem_str s t k of
          Inl e \<Rightarrow> (Inl e, s)
        | Inr v \<Rightarrow>
            (case Atoi (case v of None \<Rightarrow> ''0'' | Some x \<Rightarrow> x) of
               None \<Rightarrow> (Inl ''ERR value is not an integer'', s)
             | Some n \<Rightarrow>
                 (Inr (n + 1), s(k \<mapsto> (RStr (Itoa (n + 1)), if v = None then None else Option.bind (s k) snd))))),
      rc_SETNX = (\<lambda>t k v d s.
        if mem_live s t k \<noteq> None then (Inr False, s) else (Inr True, s(k \<mapsto> (RStr v, mem_expiry t d)))),
      rc_PING = (\<lambda>t s. (Inr (), s)),
      rc_EXISTS = (\<lambda>t k s. (Inr (if mem_live s t k \<noteq> None then 1 else 0), s)),
      rc_DEL = (\<lambda>t k s. (Inr (if mem_live s t k \<noteq> None then 1 else 0), map_del k s)),
      rc_EXPIRE = (\<lambda>t k d s.
        case mem_live s t k of
          None \<Rightarrow> (Inr False, map_del k s)
        | Some v \<Rightarrow> (Inr True, if d \<le> 0 then map_del k s else s(k \<mapsto> (v, Some (t + d))))),
      rc_HMGET = (\<lambda>t k s.
        case mem_live s t k of
          None \<Rightarrow> (Inr (None, None), s)
        | Some (RHash (a, b)) \<Rightarrow> (Inr (Some a, Some b), s)
        | Some (RStr _) \<Rightarrow> (Inl ''WRONGTYPE'', s)),
      rc_HMSET = (\<lambda>t k a b s.
        case mem_live s t k of
          Some (RStr _) \<Rightarrow> (Inl ''WRONGTYPE'', s)
        | Some (RHash _) \<Rightarrow> (Inr (), s(k \<mapsto> (RHash (a, b), Option.bind (s k) snd)))
        | None \<Rightarrow> (Inr (), s(k \<mapsto> (RHash (a, b), None))))\<rparr>"

interpretation mem: redis_keys mem_redis "\<lambda>s t k. mem_live s t k \<noteq> None"
  by unfold_locales
    (auto simp: mem_redis_def mem_live_def mem_expiry_def split: if_splits option.splits prod.splits)

interpretation memh: redis_hashes mem_redis "\<lambda>s k. s k = None"
  by unfold_locales
    (auto simp: mem_redis_def mem_live_def split: if_splits option.splits prod.splits rvalue.splits)

section \<open>A bucket without TTL\<close>

text \<open>
  With a bucket TTL that is not positive the script's \<open>EXPIRE\<close> deletes the bucket at the end of every call, so
  the next call finds a full one.
\<close>

lemma AllowDistributed_no_ttl:
  assumes "redis_hashes rc gone" and "gone s k" and "ttlSec \<le> 0" and "1 \<le> bst" and "tostring l 0 = ''0''"
    and "AllowDistributed_redis rc l now k rate bst ttlSec s = (Inr r, s')"
  shows "r = (True, 0) \<and> gone s' k"
proof -
  from assms(6) obtain arr where
    script: "tokenBucketScript rc l now k (of_int (UnixMilli now)) rate bst 1 ttlSec s = (Inr arr, s')"
    and r: "parse_reply arr = Inr r"
    by (auto simp: AllowDistributed_redis_def split: sum.splits prod.splits)
  note f = redis_hashes.script_forgets [OF assms(1-4) script]
  then have "arr = [RInt 1, RBulk ''0'']" using assms(5) by blast
  moreover have "Atoi ''0'' = Some 0" by code_simp
  ultimately show ?thesis using r f(1) by (simp add: parse_reply_def in_int64_def)
qed

end
