(* ===== verification/Idempotency.thy ===== *)
theory Idempotency
  imports Redis
begin

text \<open>
  Package \<open>api/idempotency\<close> (\<open>idempotency.go\<close>): the local and the distributed cache of idempotency keys
  and the store over them. The first part gives every operation as it runs without interference; the
  second part is the interleaving of concurrent \<open>CheckAndSet\<close> calls on a local cache with the evictor
  goroutine, one step per atomic operation of the \<open>sync.Map\<close>.
\<close>

section \<open>Caches\<close>

text \<open>Values of type \<open>any\<close> that occur in a cache: an \<open>int64\<close> expiry, the sentinel \<open>true\<close>, other values.\<close>

datatype anyval = AnyInt int | AnyBool bool | AnyStr string

datatype 'r cache = LocalCache "string \<rightharpoonup> anyval" | DistributedCache 'r

fun Sprint :: "anyval \<Rightarrow> string" where
  "Sprint (AnyInt n) = Itoa n"
| "Sprint (AnyBool b) = (if b then ''true'' else ''false'')"
| "Sprint (AnyStr s) = s"

text \<open>The test \<open>until, ok := v.(int64); ok && until > time.Now().Unix()\<close>.\<close>

fun live_until :: "instant \<Rightarrow> anyval \<Rightarrow> bool" where
  "live_until now (AnyInt until) \<longleftrightarrow> until > Unix now"
| "live_until now _ \<longleftrightarrow> False"

definition evictor_tick :: "instant \<Rightarrow> (string \<rightharpoonup> anyval) \<Rightarrow> (string \<rightharpoonup> anyval)" where
  "evictor_tick now m = map_sweep (\<lambda>v. case v of AnyInt until \<Rightarrow> until \<le> Unix now | _ \<Rightarrow> False) m"

definition Local_StoreIfAbsent ::
  "instant \<Rightarrow> string \<Rightarrow> anyval \<Rightarrow> (string \<rightharpoonup> anyval) \<Rightarrow> bool \<times> (string \<rightharpoonup> anyval)" where
  "Local_StoreIfAbsent now k v m =
     (case m k of
        None \<Rightarrow> (True, m(k \<mapsto> v))
      | Some actual \<Rightarrow> if live_until now actual then (False, m) else (True, m(k \<mapsto> v)))"

definition Distributed_Load :: "'r redis \<Rightarrow> instant \<Rightarrow> string \<Rightarrow> 'r \<Rightarrow> anyval option \<times> 'r" where
  "Distributed_Load rc now k r =
     (case redis_Exists rc now k r of
        (Inl e, r') \<Rightarrow> (None, r')
      | (Inr ex, r') \<Rightarrow> (if \<not> ex then None else Some (AnyBool True), r'))"

definition cache_Load :: "'r redis \<Rightarrow> instant \<Rightarrow> string \<Rightarrow> 'r cache \<Rightarrow> anyval option \<times> 'r cache" where
  "cache_Load rc now k c =
     (case c of
        LocalCache m \<Rightarrow> (m k, c)
      | DistributedCache r \<Rightarrow> (let (x, r') = Distributed_Load rc now k r in (x, DistributedCache r')))"

definition cache_Store ::
  "'r redis \<Rightarrow> instant \<Rightarrow> string \<Rightarrow> anyval \<Rightarrow> int \<Rightarrow> 'r cache \<Rightarrow> (string, unit) res \<times> 'r cache" where
  "cache_Store rc now k v ttl c =
     (case c of
        LocalCache m \<Rightarrow> (Inr (), LocalCache (m(k \<mapsto> v)))
      | DistributedCache r \<Rightarrow>
          (let (x, r') = redis_Set rc now k (Sprint v) ttl r in (x, DistributedCache r')))"

definition cache_StoreIfAbsent ::
  "'r redis \<Rightarrow> instant \<Rightarrow> string \<Rightarrow> anyval \<Rightarrow> int \<Rightarrow> 'r cache \<Rightarrow> (string, bool) res \<times> 'r cache" where
  "cache_StoreIfAbsent rc now k v ttl c =
     (case c of
        LocalCache m \<Rightarrow> (let (b, m') = Local_StoreIfAbsent now k v m in (Inr b, LocalCache m'))
      | DistributedCache r \<Rightarrow>
          (let (x, r') = redis_SetNX rc now k (Sprint v) ttl r in (x, DistributedCache r')))"

definition cache_Delete :: "'r redis \<Rightarrow> instant \<Rightarrow> string \<Rightarrow> 'r cache \<Rightarrow> 'r cache" where
  "cache_Delete rc now k c =
     (case c of
        LocalCache m \<Rightarrow> LocalCache (map_del k m)
      | DistributedCache r \<Rightarrow> DistributedCache (snd (redis_Delete rc now k r)))"

section \<open>The store\<close>

record 'r Store =
  s_cache :: "'r cache"
  s_ttl :: int

definition DEFAULT_IDEM_TTL_SEC :: int where "DEFAULT_IDEM_TTL_SEC = 300"

text \<open>\<open>time.ParseDuration\<close> is the first argument.\<close>

definition getIdemTTL :: "(string \<Rightarrow> duration option) \<Rightarrow> (string \<Rightarrow> string) \<Rightarrow> int" where
  "getIdemTTL ParseDuration env =
     (let ttl = env ''IDEMPOTENCY_TTL_SEC''
      in if ttl \<noteq> [] then
           (case ParseDuration (ttl @ ''s'') of
              Some dur \<Rightarrow> if dur \<le> 0 then DEFAULT_IDEM_TTL_SEC else trunc (Seconds dur)
            | None \<Rightarrow> DEFAULT_IDEM_TTL_SEC)
         else DEFAULT_IDEM_TTL_SEC)"

definition NewStore :: "(string \<Rightarrow> duration option) \<Rightarrow> (string \<Rightarrow> string) \<Rightarrow> string \<Rightarrow> int \<Rightarrow> 'r Store" where
  "NewStore ParseDuration env mode ttl =
     \<lparr>s_cache = LocalCache Map.empty, s_ttl = (if ttl = 0 then getIdemTTL ParseDuration env else ttl)\<rparr>"

definition NewDistributedStore ::
  "(string \<Rightarrow> duration option) \<Rightarrow> (string \<Rightarrow> string) \<Rightarrow> 'r \<Rightarrow> int \<Rightarrow> 'r Store" where
  "NewDistributedStore ParseDuration env client ttl =
     \<lparr>s_cache = DistributedCache client, s_ttl = (if ttl = 0 then getIdemTTL ParseDuration env else ttl)\<rparr>"

definition Store_Check :: "'r redis \<Rightarrow> instant \<Rightarrow> string \<Rightarrow> 'r Store \<Rightarrow> (string, bool) res \<times> 'r Store" where
  "Store_Check rc now k st =
     (case cache_Load rc now k (s_cache st) of
        (Some v, c) \<Rightarrow>
          if live_until now v then (Inr False, st\<lparr>s_cache := c\<rparr>)
          else (Inr True, st\<lparr>s_cache := cache_Delete rc now k c\<rparr>)
      | (None, c) \<Rightarrow> (Inr True, st\<lparr>s_cache := c\<rparr>))"

definition Store_Set :: "'r redis \<Rightarrow> instant \<Rightarrow> string \<Rightarrow> 'r Store \<Rightarrow> (string, unit) res \<times> 'r Store" where
  "Store_Set rc now k st =
     (let (x, c) = cache_Store rc now k (AnyInt (wrap64 (Unix now + s_ttl st))) (s_ttl st) (s_cache st)
      in (x, st\<lparr>s_cache := c\<rparr>))"

definition Store_CheckAndSet ::
  "'r redis \<Rightarrow> instant \<Rightarrow> string \<Rightarrow> 'r Store \<Rightarrow> (string, bool) res \<times> 'r Store" where
  "Store_CheckAndSet rc now k st =
     (let (x, c) = cache_StoreIfAbsent rc now k (AnyInt (wrap64 (Unix now + s_ttl st))) (s_ttl st) (s_cache st)
      in (x, st\<lparr>s_cache := c\<rparr>))"

definition Store_Delete :: "'r redis \<Rightarrow> instant \<Rightarrow> string \<Rightarrow> 'r Store \<Rightarrow> 'r Store" where
  "Store_Delete rc now k st = st\<lparr>s_cache := cache_Delete rc now k (s_cache st)\<rparr>"

section \<open>The contract of a store of idempotency keys\<close>

text \<open>One pass of the evictor; keys in Redis expire by themselves.\<close>

definition Store_evict :: "instant \<Rightarrow> 'r Store \<Rightarrow> 'r Store" where
  "Store_evict now st =
     (case s_cache st of LocalCache m \<Rightarrow> st\<lparr>s_cache := LocalCache (evictor_tick now m)\<rparr> | DistributedCache _ \<Rightarrow> st)"

text \<open>
  Events are requests for a key and passes of the evictor, at their times. The times and keys of the requests that were
  accepted, in order:
\<close>

primrec accepted ::
  "(instant \<Rightarrow> string \<Rightarrow> 's \<Rightarrow> (string, bool) res \<times> 's) \<Rightarrow> (instant \<Rightarrow> 's \<Rightarrow> 's) \<Rightarrow> (instant \<times> string option) list \<Rightarrow> 's
     \<Rightarrow> (instant \<times> string) list" where
  "accepted check evict [] s = []"
| "accepted check evict (x # xs) s =
     (case snd x of
        None \<Rightarrow> accepted check evict xs (evict (fst x) s)
      | Some k \<Rightarrow>
          (case check (fst x) k s of
             (r, s') \<Rightarrow> if r = Inr True then (fst x, k) # accepted check evict xs s' else accepted check evict xs s'))"

text \<open>
  \<open>reserved s t k\<close> says that key \<open>k\<close> is taken at time \<open>t\<close>, \<open>holds s t t'\<close> that a reservation made at \<open>t\<close>
  still holds at \<open>t'\<close>.
\<close>

locale reservations =
  fixes CheckAndSet :: "instant \<Rightarrow> string \<Rightarrow> 's \<Rightarrow> (string, bool) res \<times> 's"
    and Evict :: "instant \<Rightarrow> 's \<Rightarrow> 's"
    and reserved :: "'s \<Rightarrow> instant \<Rightarrow> string \<Rightarrow> bool"
    and holds :: "'s \<Rightarrow> instant \<Rightarrow> instant \<Rightarrow> bool"
  assumes accept_free: "CheckAndSet t k s = (Inr True, s') \<Longrightarrow> \<not> reserved s t k"
    and accept_reserves: "CheckAndSet t k s = (Inr True, s') \<Longrightarrow> t \<le> t' \<Longrightarrow> holds s t t' \<Longrightarrow> reserved s' t' k"
    and keeps_reserved: "CheckAndSet t k s = (r, s') \<Longrightarrow> t \<le> t' \<Longrightarrow> reserved s t' k' \<Longrightarrow> reserved s' t' k'"
    and keeps_window: "CheckAndSet t k s = (r, s') \<Longrightarrow> holds s' = holds s"
    and evict_reserved: "t \<le> t' \<Longrightarrow> reserved s t' k \<Longrightarrow> reserved (Evict t s) t' k"
    and evict_window: "holds (Evict t s) = holds s"
begin

lemma reserved_not_accepted:
  assumes "sorted (map fst xs)"
    and "\<And>x. x \<in> set xs \<Longrightarrow> P (fst x) \<Longrightarrow> reserved s (fst x) k"
    and "x \<in> set (accepted CheckAndSet Evict xs s)" and "snd x = k"
  shows "\<not> P (fst x)"
  using assms
proof (induction xs arbitrary: s)
  case Nil
  then show ?case by simp
next
  case (Cons y ys)
  show ?case
  proof (cases "snd y")
    case None
    have "reserved (Evict (fst y) s) (fst z) k" if "z \<in> set ys" "P (fst z)" for z
      using evict_reserved Cons.prems(1,2) that by simp
    with Cons.IH [of "Evict (fst y) s"] Cons.prems None show ?thesis by simp
  next
    case (Some k')
    obtain r s' where r: "CheckAndSet (fst y) k' s = (r, s')" by fastforce
    have keep: "reserved s' (fst z) k" if "z \<in> set ys" "P (fst z)" for z
      using keeps_reserved [OF r] Cons.prems(1,2) that by simp
    show ?thesis
    proof (cases "x = (fst y, k') \<and> r = Inr True")
      case True
      then show ?thesis using accept_free [of "fst y" k' s s'] r Cons.prems(2) [of y] Cons.prems(4) by auto
    next
      case False
      then have "x \<in> set (accepted CheckAndSet Evict ys s')" using Cons.prems(3) r Some by (auto split: if_splits)
      then show ?thesis using Cons.IH [of s'] Cons.prems keep by simp
    qed
  qed
qed

text \<open>Two requests with one key are never both accepted within the window of the first.\<close>

lemma accepted_once:
  assumes "sorted (map fst xs)"
  shows "sorted_wrt (\<lambda>x y. snd x = snd y \<longrightarrow> \<not> holds s (fst x) (fst y)) (accepted CheckAndSet Evict xs s)"
  using assms
proof (induction xs arbitrary: s)
  case Nil
  then show ?case by simp
next
  case (Cons x xs)
  show ?case
  proof (cases "snd x")
    case None
    then show ?thesis using Cons.IH [of "Evict (fst x) s"] Cons.prems evict_window by simp
  next
    case (Some k)
    obtain r s' where r: "CheckAndSet (fst x) k s = (r, s')" by fastforce
    have w: "holds s' = holds s" by (rule keeps_window [OF r])
    have IH: "sorted_wrt (\<lambda>x y. snd x = snd y \<longrightarrow> \<not> holds s (fst x) (fst y)) (accepted CheckAndSet Evict xs s')"
      using Cons.IH [of s'] Cons.prems w by simp
    have "\<not> holds s (fst x) (fst y)" if "r = Inr True" "y \<in> set (accepted CheckAndSet Evict xs s')" "snd y = k" for y
    proof (rule reserved_not_accepted [where k = k and P = "holds s (fst x)"])
      fix z assume "z \<in> set xs" "holds s (fst x) (fst z)"
      then show "reserved s' (fst z) k"
        using accept_reserves [of "fst x" k s s'] r that(1) Cons.prems by auto
    qed (use Cons.prems that in auto)
    with IH r Some show ?thesis by (auto split: if_splits)
  qed
qed

end

text \<open>Both kinds of store keep the contract; the distributed one because of the laws of \<open>SETNX\<close>.\<close>

definition store_reserved ::
  "('r \<Rightarrow> instant \<Rightarrow> string \<Rightarrow> bool) \<Rightarrow> 'r Store \<Rightarrow> instant \<Rightarrow> string \<Rightarrow> bool" where
  "store_reserved ex st t k =
     (case s_cache st of
        LocalCache m \<Rightarrow> (case m k of Some v \<Rightarrow> live_until t v | None \<Rightarrow> False)
      | DistributedCache r \<Rightarrow> ex r t k)"

definition store_holds :: "'r Store \<Rightarrow> instant \<Rightarrow> instant \<Rightarrow> bool" where
  "store_holds st t t' =
     (case s_cache st of
        LocalCache m \<Rightarrow> Unix t' < wrap64 (Unix t + s_ttl st)
      | DistributedCache r \<Rightarrow>
          (let d = ttl_duration (s_ttl st) in d = 0 \<or> 0 < d \<and> t' < t + d))"

lemma live_until_mono: "t \<le> t' \<Longrightarrow> live_until t' v \<Longrightarrow> live_until t v"
  using Unix_mono [of t t'] by (cases v) auto

lemma evictor_kept: "t \<le> t' \<Longrightarrow> m k = Some v \<Longrightarrow> live_until t' v \<Longrightarrow> evictor_tick t m k = Some v"
  using Unix_mono [of t t'] by (cases v) (auto simp: evictor_tick_def map_sweep_def)

lemma Local_StoreIfAbsent_cases:
  assumes "Local_StoreIfAbsent t k v m = (b, m')"
  shows "b \<longleftrightarrow> \<not> (case m k of Some w \<Rightarrow> live_until t w | None \<Rightarrow> False)"
    and "m' = (if b then m(k \<mapsto> v) else m)"
  using assms by (auto simp: Local_StoreIfAbsent_def split: option.splits if_splits)

lemma Store_CheckAndSet_Local:
  assumes "s_cache st = LocalCache m" and "Store_CheckAndSet rc t k st = (r, st')"
  shows "\<exists>b. r = Inr b \<and> b = (\<not> store_reserved ex st t k) \<and>
    st' = st\<lparr>s_cache := LocalCache (if b then m(k \<mapsto> AnyInt (wrap64 (Unix t + s_ttl st))) else m)\<rparr>"
  using assms Local_StoreIfAbsent_cases [of t k "AnyInt (wrap64 (Unix t + s_ttl st))" m]
  by (auto simp: Store_CheckAndSet_def cache_StoreIfAbsent_def store_reserved_def split: prod.splits)

lemma Store_CheckAndSet_Distributed:
  assumes "s_cache st = DistributedCache r" and "Store_CheckAndSet rc t k st = (x, st')"
  obtains r' where "rc_SETNX rc t k (Itoa (wrap64 (Unix t + s_ttl st))) (ttl_duration (s_ttl st)) r = (x, r')"
    and "st' = st\<lparr>s_cache := DistributedCache r'\<rparr>"
  using assms by (auto simp: Store_CheckAndSet_def cache_StoreIfAbsent_def redis_SetNX_def split: prod.splits)

sublocale redis_keys \<subseteq> store: reservations "Store_CheckAndSet rc" Store_evict "store_reserved exists" store_holds
proof
  fix t k st st' t' k' r
  show "\<not> store_reserved exists st t k" if *: "Store_CheckAndSet rc t k st = (Inr True, st')"
  proof (cases "s_cache st")
    case (LocalCache m)
    then show ?thesis using Store_CheckAndSet_Local [OF LocalCache *, of exists] by simp
  next
    case (DistributedCache r)
    from Store_CheckAndSet_Distributed [OF this *] show ?thesis
      using setnx_new DistributedCache by (metis cache.simps(6) store_reserved_def)
  qed
  show "store_reserved exists st' t' k"
    if *: "Store_CheckAndSet rc t k st = (Inr True, st')" and "t \<le> t'" "store_holds st t t'"
  proof (cases "s_cache st")
    case (LocalCache m)
    then show ?thesis using Store_CheckAndSet_Local [OF LocalCache *, of exists] that
      by (simp add: store_reserved_def store_holds_def)
  next
    case (DistributedCache r)
    from Store_CheckAndSet_Distributed [OF this *] obtain r'
      where "rc_SETNX rc t k (Itoa (wrap64 (Unix t + s_ttl st))) (ttl_duration (s_ttl st)) r = (Inr True, r')"
        and "st' = st\<lparr>s_cache := DistributedCache r'\<rparr>" by blast
    then show ?thesis using setnx_kept that DistributedCache
      by (simp add: store_reserved_def store_holds_def Let_def)
  qed
  show "store_reserved exists st' t' k'"
    if *: "Store_CheckAndSet rc t k st = (r, st')" and "t \<le> t'" "store_reserved exists st t' k'"
  proof (cases "s_cache st")
    case (LocalCache m)
    then show ?thesis
      using Store_CheckAndSet_Local [OF LocalCache *, of exists] that live_until_mono [OF \<open>t \<le> t'\<close>]
      by (auto simp: store_reserved_def split: option.splits)
  next
    case (DistributedCache q)
    from Store_CheckAndSet_Distributed [OF this *] obtain r'
      where "rc_SETNX rc t k (Itoa (wrap64 (Unix t + s_ttl st))) (ttl_duration (s_ttl st)) q = (r, r')"
        and "st' = st\<lparr>s_cache := DistributedCache r'\<rparr>" by blast
    then show ?thesis using setnx_others that DistributedCache by (auto simp: store_reserved_def)
  qed
  show "store_holds st' = store_holds st" if *: "Store_CheckAndSet rc t k st = (r, st')"
    using * by (auto simp: Store_CheckAndSet_def cache_StoreIfAbsent_def store_holds_def fun_eq_iff
        split: prod.splits cache.splits)
  show "store_reserved exists (Store_evict t st) t' k" if "t \<le> t'" "store_reserved exists st t' k"
    using that by (auto simp: store_reserved_def Store_evict_def evictor_kept split: cache.splits option.splits)
  show "store_holds (Store_evict t st) = store_holds st"
    by (auto simp: Store_evict_def store_holds_def fun_eq_iff split: cache.splits)
qed

context redis_keys
begin

lemma store_once:
  "sorted (map fst xs) \<Longrightarrow>
   sorted_wrt (\<lambda>x y. snd x = snd y \<longrightarrow> \<not> store_holds st (fst x) (fst y)) (accepted (Store_CheckAndSet rc) Store_evict xs st)"
  by (rule store.accepted_once)

end

section \<open>Concurrent reservations on a local cache\<close>

text \<open>
  Callers of \<open>CheckAndSet\<close> on one \<open>LocalCache\<close>, identified by numbers. A caller computes its expiry, then
  loops over \<open>LoadOrStore\<close>, the expiry test and \<open>CompareAndSwap\<close>; each is one step, and the clock (in
  seconds) may advance between any two. \<open>wins\<close> records caller, key, stored expiry and time of each
  \<open>true\<close> result.
\<close>

datatype pc =
    Idle
  | AtLoadOrStore string int
  | AtCheck string int int
  | AtCAS string int int
  | Finished bool

record win =
  win_caller :: nat
  win_key :: string
  win_until :: int
  win_at :: int

record idem_sys =
  clock :: int
  kv :: "string \<rightharpoonup> int"
  pcs :: "nat \<Rightarrow> pc"
  evictor :: "string option" \<comment> \<open>the key the evictor has found expired and is about to delete\<close>
  wins :: "win list"

definition idem_start :: "int \<Rightarrow> idem_sys" where
  "idem_start t = \<lparr>clock = t, kv = Map.empty, pcs = (\<lambda>_. Idle), evictor = None, wins = []\<rparr>"

definition record_win :: "nat \<Rightarrow> string \<Rightarrow> int \<Rightarrow> idem_sys \<Rightarrow> idem_sys" where
  "record_win i k v s =
     s\<lparr>kv := (kv s)(k \<mapsto> v), pcs := (pcs s)(i := Finished True),
       wins := wins s @ [\<lparr>win_caller = i, win_key = k, win_until = v, win_at = clock s\<rparr>]\<rparr>"

inductive caller_step :: "idem_sys \<Rightarrow> idem_sys \<Rightarrow> bool" where
  tick: "clock s \<le> t \<Longrightarrow> caller_step s (s\<lparr>clock := t\<rparr>)"
| call: "pcs s i \<in> {Idle, Finished True, Finished False} \<Longrightarrow>
    caller_step s (s\<lparr>pcs := (pcs s)(i := AtLoadOrStore k (clock s + ttl))\<rparr>)"
| stored: "pcs s i = AtLoadOrStore k v \<Longrightarrow> kv s k = None \<Longrightarrow> caller_step s (record_win i k v s)"
| loaded: "pcs s i = AtLoadOrStore k v \<Longrightarrow> kv s k = Some a \<Longrightarrow>
    caller_step s (s\<lparr>pcs := (pcs s)(i := AtCheck k v a)\<rparr>)"
| duplicate: "pcs s i = AtCheck k v a \<Longrightarrow> a > clock s \<Longrightarrow>
    caller_step s (s\<lparr>pcs := (pcs s)(i := Finished False)\<rparr>)"
| expired: "pcs s i = AtCheck k v a \<Longrightarrow> a \<le> clock s \<Longrightarrow>
    caller_step s (s\<lparr>pcs := (pcs s)(i := AtCAS k v a)\<rparr>)"
| swapped: "pcs s i = AtCAS k v a \<Longrightarrow> kv s k = Some a \<Longrightarrow> caller_step s (record_win i k v s)"
| lost: "pcs s i = AtCAS k v a \<Longrightarrow> kv s k \<noteq> Some a \<Longrightarrow>
    caller_step s (s\<lparr>pcs := (pcs s)(i := AtLoadOrStore k v)\<rparr>)"

inductive_cases caller_stepE [consumes 1, case_names tick call stored loaded duplicate expired swapped lost]: "caller_step s s'"

text \<open>The evictor reads an entry and, if it has expired, deletes the key in a second step.\<close>

inductive evictor_step :: "idem_sys \<Rightarrow> idem_sys \<Rightarrow> bool" where
  found: "evictor s = None \<Longrightarrow> kv s k = Some u \<Longrightarrow> u \<le> clock s \<Longrightarrow> evictor_step s (s\<lparr>evictor := Some k\<rparr>)"
| deleted: "evictor s = Some k \<Longrightarrow> evictor_step s (s\<lparr>evictor := None, kv := map_del k (kv s)\<rparr>)"

definition idem_step :: "idem_sys \<Rightarrow> idem_sys \<Rightarrow> bool" where
  "idem_step s s' \<longleftrightarrow> caller_step s s' \<or> evictor_step s s'"

text \<open>A recorded win is current, or its expiry has passed; a swap is only attempted on an expired value.\<close>

definition idem_inv :: "idem_sys \<Rightarrow> bool" where
  "idem_inv s \<longleftrightarrow>
     (\<forall>w \<in> set (wins s). kv s (win_key w) = Some (win_until w) \<or>
        win_until w \<le> clock s \<and> kv s (win_key w) \<noteq> None) \<and>
     (\<forall>i k v a. pcs s i = AtCAS k v a \<longrightarrow> a \<le> clock s) \<and>
     sorted_wrt (\<lambda>x y. win_key x = win_key y \<longrightarrow> win_until x \<le> win_at y) (wins s)"

lemma idem_inv_start: "idem_inv (idem_start t)"
  by (simp add: idem_inv_def idem_start_def)

lemma idem_inv_win:
  assumes "idem_inv s" and "kv s k = None \<or> (\<exists>a. kv s k = Some a \<and> a \<le> clock s)"
  shows "idem_inv (record_win i k v s)"
proof -
  have old: "win_until w \<le> clock s" if "w \<in> set (wins s)" "win_key w = k" for w
    using assms that by (auto simp: idem_inv_def)
  then show ?thesis
    using assms(1) by (auto simp: idem_inv_def record_win_def sorted_wrt_append split: if_splits)
qed

lemma idem_inv_step:
  assumes "caller_step s s'" and "idem_inv s"
  shows "idem_inv s'"
  using assms
proof (cases rule: caller_stepE)
  case (stored i k v)
  then show ?thesis using idem_inv_win assms(2) by blast
next
  case (swapped i k v a)
  then show ?thesis using idem_inv_win [OF assms(2), of k] assms(2) by (auto simp: idem_inv_def)
qed (use assms(2) in \<open>(fastforce simp: idem_inv_def)+\<close>)

lemma idem_inv_reachable: "caller_step\<^sup>*\<^sup>* (idem_start t) s \<Longrightarrow> idem_inv s"
  by (induction rule: rtranclp_induct) (simp_all add: idem_inv_start idem_inv_step)

section \<open>Properties\<close>

text \<open>
  C5: However many concurrent \<open>CheckAndSet\<close> calls race on a local cache, however their atomic operations
  interleave and whenever the clock advances, two calls with the same key never both return true while the
  first one's reservation is live: a later success on a key happens only after the earlier expiry.
\<close>
theorem concurrent_at_most_one:
  assumes "caller_step\<^sup>*\<^sup>* (idem_start t) s" and "i < j" and "j < length (wins s)"
    and "win_key (wins s ! i) = win_key (wins s ! j)"
  shows "win_until (wins s ! i) \<le> win_at (wins s ! j)"
  using idem_inv_reachable [OF assms(1)] assms(2-4)
  by (simp add: idem_inv_def sorted_wrt_iff_nth_less)

text \<open>A run of three calls: one reserves, one is refused, one takes over after the expiry.\<close>

lemma three_calls:
  "\<exists>s. caller_step\<^sup>*\<^sup>* (idem_start 0) s \<and>
     wins s = [\<lparr>win_caller = 0, win_key = ''k'', win_until = 5, win_at = 0\<rparr>,
               \<lparr>win_caller = 1, win_key = ''k'', win_until = 12, win_at = 7\<rparr>]"
proof -
  let ?s0 = "idem_start 0"
  let ?s1 = "?s0\<lparr>pcs := (pcs ?s0)(0 := AtLoadOrStore ''k'' (clock ?s0 + 5))\<rparr>"
  let ?s2 = "record_win 0 ''k'' 5 ?s1"
  let ?s3 = "?s2\<lparr>clock := 7\<rparr>"
  let ?s4 = "?s3\<lparr>pcs := (pcs ?s3)(1 := AtLoadOrStore ''k'' (clock ?s3 + 5))\<rparr>"
  let ?s5 = "?s4\<lparr>pcs := (pcs ?s4)(1 := AtCheck ''k'' 12 5)\<rparr>"
  let ?s6 = "?s5\<lparr>pcs := (pcs ?s5)(1 := AtCAS ''k'' 12 5)\<rparr>"
  let ?s7 = "record_win 1 ''k'' 12 ?s6"
  have "caller_step ?s0 ?s1" by (rule call) (simp add: idem_start_def)
  moreover have "caller_step ?s1 ?s2" by (rule stored) (simp_all add: idem_start_def)
  moreover have "caller_step ?s2 ?s3" by (rule tick) (simp add: idem_start_def record_win_def)
  moreover have "caller_step ?s3 ?s4" by (rule call) (simp add: idem_start_def record_win_def)
  moreover have "caller_step ?s4 ?s5" by (rule loaded) (simp_all add: idem_start_def record_win_def)
  moreover have "caller_step ?s5 ?s6" by (rule expired) (simp_all add: idem_start_def record_win_def)
  moreover have "caller_step ?s6 ?s7" by (rule swapped) (simp_all add: idem_start_def record_win_def)
  ultimately have "caller_step\<^sup>*\<^sup>* ?s0 ?s7" by (meson rtranclp.rtrancl_into_rtrancl rtranclp.rtrancl_refl)
  moreover have "wins ?s7 = [\<lparr>win_caller = 0, win_key = ''k'', win_until = 5, win_at = 0\<rparr>,
               \<lparr>win_caller = 1, win_key = ''k'', win_until = 12, win_at = 7\<rparr>]"
    by (simp add: idem_start_def record_win_def)
  ultimately show ?thesis by blast
qed

theorem concurrent_at_most_one_witness:
  "\<exists>s. caller_step\<^sup>*\<^sup>* (idem_start 0) s \<and> length (wins s) = 2 \<and> win_until (wins s ! 0) \<le> win_at (wins s ! 1)"
proof -
  obtain s where s: "caller_step\<^sup>*\<^sup>* (idem_start 0) s"
    and w: "wins s = [\<lparr>win_caller = 0, win_key = ''k'', win_until = 5, win_at = 0\<rparr>,
               \<lparr>win_caller = 1, win_key = ''k'', win_until = 12, win_at = 7\<rparr>]"
    using three_calls by blast
  have "win_until (wins s ! 0) \<le> win_at (wins s ! 1)"
    by (rule concurrent_at_most_one [OF s]) (simp_all add: w)
  with s w show ?thesis by auto
qed

text \<open>
  C38: The evictor breaks that guarantee: it reads an expired entry and deletes the key afterwards without
  comparing, so it can delete the fresh reservation of a caller that took the key over in between, and a
  further call with the same key succeeds while that reservation is still live.
\<close>
theorem evictor_race:
  "\<exists>s. idem_step\<^sup>*\<^sup>* (idem_start 0) s \<and>
     (\<exists>i j. i < j \<and> j < length (wins s) \<and> win_key (wins s ! i) = win_key (wins s ! j) \<and>
        win_at (wins s ! j) < win_until (wins s ! i))"
proof -
  let ?s0 = "idem_start 0"
  let ?s1 = "?s0\<lparr>pcs := (pcs ?s0)(0 := AtLoadOrStore ''k'' (clock ?s0 + 5))\<rparr>"
  let ?s2 = "record_win 0 ''k'' 5 ?s1"
  let ?s3 = "?s2\<lparr>clock := 7\<rparr>"
  let ?s4 = "?s3\<lparr>pcs := (pcs ?s3)(1 := AtLoadOrStore ''k'' (clock ?s3 + 5))\<rparr>"
  let ?s5 = "?s4\<lparr>pcs := (pcs ?s4)(1 := AtCheck ''k'' 12 5)\<rparr>"
  let ?s6 = "?s5\<lparr>pcs := (pcs ?s5)(1 := AtCAS ''k'' 12 5)\<rparr>"
  let ?s7 = "?s6\<lparr>evictor := Some ''k''\<rparr>"
  let ?s8 = "record_win 1 ''k'' 12 ?s7"
  let ?s9 = "?s8\<lparr>evictor := None, kv := map_del ''k'' (kv ?s8)\<rparr>"
  let ?s10 = "?s9\<lparr>pcs := (pcs ?s9)(2 := AtLoadOrStore ''k'' (clock ?s9 + 5))\<rparr>"
  let ?s11 = "record_win 2 ''k'' 12 ?s10"
  note d = idem_step_def idem_start_def record_win_def
  have "idem_step ?s0 ?s1" unfolding idem_step_def by (rule disjI1, rule call) (simp add: d)
  moreover have "idem_step ?s1 ?s2" unfolding idem_step_def by (rule disjI1, rule stored) (simp_all add: d)
  moreover have "idem_step ?s2 ?s3" unfolding idem_step_def by (rule disjI1, rule tick) (simp add: d)
  moreover have "idem_step ?s3 ?s4" unfolding idem_step_def by (rule disjI1, rule call) (simp add: d)
  moreover have "idem_step ?s4 ?s5" unfolding idem_step_def by (rule disjI1, rule loaded) (simp_all add: d)
  moreover have "idem_step ?s5 ?s6" unfolding idem_step_def by (rule disjI1, rule expired) (simp_all add: d)
  moreover have "idem_step ?s6 ?s7" unfolding idem_step_def
    by (rule disjI2, rule found [where u = 5]) (simp_all add: d)
  moreover have "idem_step ?s7 ?s8" unfolding idem_step_def by (rule disjI1, rule swapped) (simp_all add: d)
  moreover have "idem_step ?s8 ?s9" unfolding idem_step_def by (rule disjI2, rule deleted) (simp add: d)
  moreover have "idem_step ?s9 ?s10" unfolding idem_step_def by (rule disjI1, rule call) (simp add: d)
  moreover have "idem_step ?s10 ?s11" unfolding idem_step_def by (rule disjI1, rule stored) (simp_all add: d)
  ultimately have "idem_step\<^sup>*\<^sup>* ?s0 ?s11" by (meson rtranclp.rtrancl_into_rtrancl rtranclp.rtrancl_refl)
  moreover have "wins ?s11 ! 1 = \<lparr>win_caller = 1, win_key = ''k'', win_until = 12, win_at = 7\<rparr>"
    "wins ?s11 ! 2 = \<lparr>win_caller = 2, win_key = ''k'', win_until = 12, win_at = 7\<rparr>" "length (wins ?s11) = 3"
    by (simp_all add: d)
  ultimately show ?thesis by (intro exI [of _ ?s11] conjI exI [of _ "1 :: nat"] exI [of _ "2 :: nat"]) simp_all
qed

text \<open>
  \<open>Check\<close> on a distributed store answers "new" for every key, reserved or not, and when the key is
  there it deletes it: \<open>DistributedCache.Load\<close> returns the sentinel \<open>true\<close>, which is never an \<open>int64\<close> expiry.
\<close>
theorem Check_distributed_forgets:
  "Store_Check rc now k \<lparr>s_cache = DistributedCache r, s_ttl = ttl\<rparr> =
     (Inr True,
      \<lparr>s_cache = DistributedCache
         (case redis_Exists rc now k r of
            (Inr True, r') \<Rightarrow> snd (redis_Delete rc now k r')
          | (_, r') \<Rightarrow> r'), s_ttl = ttl\<rparr>)"
  by (simp add: Store_Check_def cache_Load_def Distributed_Load_def cache_Delete_def split_beta
      split: sum.splits bool.splits prod.splits)

end
