(* ===== verification/IpAccess.thy ===== *)
theory IpAccess
  imports Http
begin

text \<open>
  Package \<open>api/ipaccess\<close> (\<open>ipaccess.go\<close>): allow and deny lists of addresses and networks, with the parts of
  package \<open>net\<close> they use. A \<open>net.IP\<close> is its 16-byte value as a number; IPv4 addresses are the IPv4-mapped ones,
  which is how \<open>net.IP\<close> compares them.
\<close>

section \<open>Addresses\<close>

type_synonym ip = int

definition is_v4 :: "ip \<Rightarrow> bool" where
  "is_v4 a \<longleftrightarrow> a div 2 ^ 32 = 65535"

definition of_v4 :: "int \<Rightarrow> ip" where
  "of_v4 n = 65535 * 2 ^ 32 + n"

text \<open>A decimal field of an IPv4 address: one to three digits, no leading zero, at most 255.\<close>

definition octet :: "string \<Rightarrow> int option" where
  "octet s =
     (if s = [] \<or> length s > 3 \<or> \<not> list_all is_digit s \<or> (length s > 1 \<and> hd s = CHR ''0'') then None
      else (let n = int (digits_val s) in if n > 255 then None else Some n))"

definition parseIPv4 :: "string \<Rightarrow> int option" where
  "parseIPv4 s =
     (case map octet (Split s CHR ''.'') of
        [Some a, Some b, Some c, Some d] \<Rightarrow> Some (((a * 256 + b) * 256 + c) * 256 + d)
      | _ \<Rightarrow> None)"

fun hex_acc :: "string \<Rightarrow> int \<Rightarrow> int option" where
  "hex_acc [] n = Some n"
| "hex_acc (c # cs) n = (case hex_val c of None \<Rightarrow> None | Some d \<Rightarrow> hex_acc cs (n * 16 + int d))"

definition hextet :: "string \<Rightarrow> int option" where
  "hextet s = (if s = [] \<or> length s > 4 then None else hex_acc s 0)"

text \<open>Colon-separated groups, the last of which may be an IPv4 address if \<open>v4\<close> is set.\<close>

fun groups6 :: "bool \<Rightarrow> string list \<Rightarrow> int list option" where
  "groups6 v4 [] = Some []"
| "groups6 v4 (g # gs) =
     (if v4 \<and> gs = [] \<and> CHR ''.'' \<in> set g
      then map_option (\<lambda>n. [n div 65536, n mod 65536]) (parseIPv4 g)
      else (case hextet g of None \<Rightarrow> None | Some h \<Rightarrow> map_option ((#) h) (groups6 v4 gs)))"

definition field_groups :: "bool \<Rightarrow> string \<Rightarrow> int list option" where
  "field_groups v4 s = (if s = [] then Some [] else groups6 v4 (Split s CHR '':''))"

definition value6 :: "int list \<Rightarrow> int" where
  "value6 gs = fold (\<lambda>g n. n * 65536 + g) gs 0"

fun cut_ellipsis :: "string \<Rightarrow> (string \<times> string) option" where
  "cut_ellipsis (a # b # cs) =
     (if a = CHR '':'' \<and> b = CHR '':'' then Some ([], cs)
      else map_option (\<lambda>(l, r). (a # l, r)) (cut_ellipsis (b # cs)))"
| "cut_ellipsis _ = None"

definition parseIPv6 :: "string \<Rightarrow> int option" where
  "parseIPv6 s =
     (case cut_ellipsis s of
        None \<Rightarrow>
          (case groups6 True (Split s CHR '':'') of
             Some gs \<Rightarrow> if length gs = 8 then Some (value6 gs) else None
           | None \<Rightarrow> None)
      | Some (l, r) \<Rightarrow>
          (case (field_groups False l, field_groups True r) of
             (Some gl, Some gr) \<Rightarrow>
               if length gl + length gr < 8
               then Some (value6 (gl @ replicate (8 - length gl - length gr) 0 @ gr)) else None
           | _ \<Rightarrow> None))"

text \<open>\<open>net.ParseIP\<close>: the first of dot, colon and percent sign decides; zones are refused.\<close>

definition parse_addr :: "string \<Rightarrow> (bool \<times> ip) option" where
  "parse_addr s =
     (case dropWhile (\<lambda>c. c \<notin> {CHR ''.'', CHR '':'', CHR ''%''}) s of
        c # _ \<Rightarrow>
          if c = CHR ''.'' then map_option (\<lambda>n. (True, of_v4 n)) (parseIPv4 s)
          else if c = CHR '':'' \<and> CHR ''%'' \<notin> set s then map_option (\<lambda>n. (False, n)) (parseIPv6 s)
          else None
      | [] \<Rightarrow> None)"

definition ParseIP :: "string \<Rightarrow> ip option" where
  "ParseIP s = map_option snd (parse_addr s)"

record ipnet =
  net_ip :: ip
  net_bits :: nat \<comment> \<open>length of the prefix of the 16-byte address\<close>

text \<open>
  \<open>net.ParseCIDR\<close>: the mask of an IPv4 address counts from the last 32 bits. \<open>Contains\<close> compares an IPv4
  address only with networks that are IPv4 after masking.
\<close>

definition mask_ip :: "nat \<Rightarrow> ip \<Rightarrow> ip" where
  "mask_ip bits a = (a div 2 ^ (128 - bits)) * 2 ^ (128 - bits)"

definition ParseCIDR :: "string \<Rightarrow> ipnet option" where
  "ParseCIDR s =
     (if CHR ''/'' \<notin> set s then None
      else (let (addr, mask) = cut_at CHR ''/'' s
            in case parse_addr addr of
                 None \<Rightarrow> None
               | Some (v4, a) \<Rightarrow>
                   if mask = [] \<or> \<not> list_all is_digit mask then None
                   else (let n = digits_val mask
                         in if n > (if v4 then 32 else 128) then None
                            else (let bits = (if v4 then 96 + n else n)
                                  in Some \<lparr>net_ip = mask_ip bits a, net_bits = bits\<rparr>))))"

definition net_Contains :: "ipnet \<Rightarrow> ip \<Rightarrow> bool" where
  "net_Contains n a \<longleftrightarrow> is_v4 (net_ip n) = is_v4 a \<and> mask_ip (net_bits n) a = net_ip n"

section \<open>Lists\<close>

record Lists =
  WhitelistIPs :: "ip list"
  WhitelistNets :: "ipnet list"
  BlacklistIPs :: "ip list"
  BlacklistNets :: "ipnet list"

definition ipInList :: "ip \<Rightarrow> ip list \<Rightarrow> ipnet list \<Rightarrow> bool" where
  "ipInList a ips nets \<longleftrightarrow> list_ex (\<lambda>b. b = a) ips \<or> list_ex (\<lambda>n. net_Contains n a) nets"

definition Evaluate :: "ip \<Rightarrow> Lists option \<Rightarrow> bool" where
  "Evaluate a ls \<longleftrightarrow>
     (case ls of
        None \<Rightarrow> True
      | Some l \<Rightarrow>
          if length (WhitelistIPs l) > 0 \<or> length (WhitelistNets l) > 0
          then ipInList a (WhitelistIPs l) (WhitelistNets l)
          else if ipInList a (BlacklistIPs l) (BlacklistNets l) then False else True)"

text \<open>The accumulators are the addresses, the networks and the invalid entries, in order.\<close>

fun parse_entries ::
  "string list \<Rightarrow> ip list \<Rightarrow> ipnet list \<Rightarrow> string list \<Rightarrow> ip list \<times> ipnet list \<times> string list" where
  "parse_entries [] ips nets invalid = (ips, nets, invalid)"
| "parse_entries (e # es) ips nets invalid =
     (let p = TrimSpace e
      in if p = [] then parse_entries es ips nets invalid
         else (case (if CHR ''/'' \<in> set p then ParseCIDR p else None) of
                 Some n \<Rightarrow> parse_entries es ips (nets @ [n]) invalid
               | None \<Rightarrow>
                   (case ParseIP p of
                      Some a \<Rightarrow> parse_entries es (ips @ [a]) nets invalid
                    | None \<Rightarrow> parse_entries es ips nets (invalid @ [p]))))"

definition ParseListStrict :: "string \<Rightarrow> ip list \<times> ipnet list \<times> string list" where
  "ParseListStrict raw = parse_entries (Split raw CHR '','') [] [] []"

definition ParseList :: "string \<Rightarrow> ip list \<times> ipnet list" where
  "ParseList raw = (case ParseListStrict raw of (ips, nets, invalid) \<Rightarrow> (ips, nets))"

definition ParseLists :: "string \<Rightarrow> string \<Rightarrow> Lists" where
  "ParseLists whitelistRaw blacklistRaw =
     (let (wlIPs, wlNets, wlErr) = ParseListStrict whitelistRaw;
          (blIPs, blNets, blErr) = ParseListStrict blacklistRaw
      in \<lparr>WhitelistIPs = wlIPs, WhitelistNets = wlNets, BlacklistIPs = blIPs, BlacklistNets = blNets\<rparr>)"

lemma ParseIP_examples:
  "ParseIP ''10.1.2.3'' = Some (of_v4 167838211)"
  "ParseIP ''::1'' = Some 1"
  "ParseIP ''::ffff:10.1.2.3'' = ParseIP ''10.1.2.3''"
  "ParseIP ''010.1.2.3'' = None" "ParseIP ''1:2:3'' = None" "ParseIP ''fe80::1%eth0'' = None"
  "ParseIP ''1::2::3'' = None" "ParseIP ''1.2.3.4:80'' = None"
  by code_simp+

section \<open>Lemmas\<close>

text \<open>What one entry of a list denotes: a network, an address, or nothing.\<close>

datatype ip_entry = NetEntry ipnet | IPEntry ip | BadEntry

definition entry_of :: "string \<Rightarrow> ip_entry" where
  "entry_of p =
     (case (if CHR ''/'' \<in> set p then ParseCIDR p else None) of
        Some n \<Rightarrow> NetEntry n
      | None \<Rightarrow> (case ParseIP p of Some a \<Rightarrow> IPEntry a | None \<Rightarrow> BadEntry))"

fun entry_matches :: "ip \<Rightarrow> ip_entry \<Rightarrow> bool" where
  "entry_matches a (NetEntry n) \<longleftrightarrow> net_Contains n a"
| "entry_matches a (IPEntry b) \<longleftrightarrow> b = a"
| "entry_matches a BadEntry \<longleftrightarrow> False"

definition list_entries :: "string \<Rightarrow> ip_entry list" where
  "list_entries raw = map entry_of (filter (\<lambda>p. p \<noteq> []) (map TrimSpace (Split raw CHR '','')))"

definition ips_of :: "ip_entry list \<Rightarrow> ip list" where
  "ips_of es = List.map_filter (\<lambda>e. case e of IPEntry a \<Rightarrow> Some a | _ \<Rightarrow> None) es"

definition nets_of :: "ip_entry list \<Rightarrow> ipnet list" where
  "nets_of es = List.map_filter (\<lambda>e. case e of NetEntry n \<Rightarrow> Some n | _ \<Rightarrow> None) es"

lemma entry_lists_simps [simp]:
  "ips_of [] = []" "nets_of [] = []"
  "ips_of (IPEntry a # es) = a # ips_of es" "nets_of (IPEntry a # es) = nets_of es"
  "ips_of (NetEntry n # es) = ips_of es" "nets_of (NetEntry n # es) = n # nets_of es"
  "ips_of (BadEntry # es) = ips_of es" "nets_of (BadEntry # es) = nets_of es"
  by (simp_all add: ips_of_def nets_of_def map_filter_simps)

lemma parse_entries_eq:
  "\<exists>bad. parse_entries es ips nets invalid =
     (ips @ ips_of (map entry_of (filter (\<lambda>p. p \<noteq> []) (map TrimSpace es))),
      nets @ nets_of (map entry_of (filter (\<lambda>p. p \<noteq> []) (map TrimSpace es))), invalid @ bad)"
proof (induction es arbitrary: ips nets invalid)
  case Nil
  then show ?case by simp
next
  case (Cons e es)
  let ?p = "TrimSpace e"
  show ?case
  proof (cases "?p = []")
    case True
    then show ?thesis using Cons.IH by simp
  next
    case False
    then show ?thesis
      using Cons.IH [of ips "nets @ [n]" invalid for n] Cons.IH [of "ips @ [a]" nets invalid for a]
        Cons.IH [of ips nets "invalid @ [?p]"]
      by (cases "entry_of ?p") (auto simp: entry_of_def split: option.splits if_splits)
  qed
qed

lemma ParseListStrict_entries:
  "\<exists>bad. ParseListStrict raw = (ips_of (list_entries raw), nets_of (list_entries raw), bad)"
  using parse_entries_eq [of "Split raw CHR '',''" "[]" "[]" "[]"] by (simp add: ParseListStrict_def list_entries_def)

lemma ipInList_entries: "ipInList a (ips_of es) (nets_of es) \<longleftrightarrow> (\<exists>e \<in> set es. entry_matches a e)"
proof (induction es)
  case Nil
  then show ?case by (simp add: ipInList_def)
next
  case (Cons e es)
  then show ?case by (cases e) (auto simp: ipInList_def)
qed

lemma entries_present: "ips_of es \<noteq> [] \<or> nets_of es \<noteq> [] \<longleftrightarrow> (\<exists>e \<in> set es. e \<noteq> BadEntry)"
proof (induction es)
  case Nil
  then show ?case by simp
next
  case (Cons e es)
  then show ?case by (cases e) auto
qed

section \<open>Properties\<close>

text \<open>
  C18: The meaning of the two lists, from the raw configuration strings: when the whitelist has at least one
  well-formed entry, exactly the addresses that match one of its entries are allowed; otherwise exactly the
  addresses that match no entry of the blacklist.
\<close>
theorem Evaluate_lists:
  "Evaluate a (Some (ParseLists wl bl)) \<longleftrightarrow>
     (if \<exists>e \<in> set (list_entries wl). e \<noteq> BadEntry
      then \<exists>e \<in> set (list_entries wl). entry_matches a e
      else \<not> (\<exists>e \<in> set (list_entries bl). entry_matches a e))"
proof -
  obtain b1 b2 where "ParseListStrict wl = (ips_of (list_entries wl), nets_of (list_entries wl), b1)"
    "ParseListStrict bl = (ips_of (list_entries bl), nets_of (list_entries bl), b2)"
    using ParseListStrict_entries by blast
  then show ?thesis
    using entries_present [of "list_entries wl"] ipInList_entries [of a "list_entries wl"]
      ipInList_entries [of a "list_entries bl"]
    by (simp add: Evaluate_def ParseLists_def)
qed

theorem Evaluate_lists_witness:
  "Evaluate (of_v4 167838211) (Some (ParseLists ''10.0.0.0/8, 192.168.1.1'' ''10.1.2.3'')) \<longleftrightarrow> True"
proof -
  have "\<exists>e \<in> set (list_entries ''10.0.0.0/8, 192.168.1.1''). e \<noteq> BadEntry"
    "\<exists>e \<in> set (list_entries ''10.0.0.0/8, 192.168.1.1''). entry_matches (of_v4 167838211) e" by code_simp+
  then show ?thesis
    using Evaluate_lists [of "of_v4 167838211" "''10.0.0.0/8, 192.168.1.1''" "''10.1.2.3''"] by simp
qed

text \<open>
  A whitelist whose entries are all malformed fails open: although the configured string is not empty, no
  address is required to match it, and only the blacklist applies.
\<close>
theorem malformed_whitelist_fails_open:
  assumes "\<forall>e \<in> set (list_entries wl). e = BadEntry" and "list_entries bl = []"
  shows "case (ParseList wl, ParseList bl) of ((wi, wn), (bi, bn)) \<Rightarrow>
     Evaluate a (Some \<lparr>WhitelistIPs = wi, WhitelistNets = wn, BlacklistIPs = bi, BlacklistNets = bn\<rparr>)"
proof -
  obtain b1 b2 where "ParseListStrict wl = (ips_of (list_entries wl), nets_of (list_entries wl), b1)"
    "ParseListStrict bl = (ips_of (list_entries bl), nets_of (list_entries bl), b2)"
    using ParseListStrict_entries by blast
  then show ?thesis
    using entries_present [of "list_entries wl"] assms
    by (simp add: ParseList_def Evaluate_def ipInList_def)
qed

theorem malformed_whitelist_fails_open_witness:
  "case (ParseList ''10.0.0.0/40'', ParseList '''') of ((wi, wn), (bi, bn)) \<Rightarrow>
     Evaluate 7 (Some \<lparr>WhitelistIPs = wi, WhitelistNets = wn, BlacklistIPs = bi, BlacklistNets = bn\<rparr>)"
proof (rule malformed_whitelist_fails_open)
  show "\<forall>e \<in> set (list_entries ''10.0.0.0/40''). e = BadEntry" by code_simp
  show "list_entries '''' = []" by code_simp
qed

end
