(* ===== verification/Base64.thy ===== *)
theory Base64
  imports GoStrings
begin

text \<open>
  Package \<open>encoding/base64\<close> without padding (\<open>RawStdEncoding\<close>, \<open>RawURLEncoding\<close>), as used for the keys of a
  JWKS document and for encoded password hashes. Bytes are numbers below 256. Decoding skips carriage
  returns and newlines, as Go's decoder does, and does not insist on zero trailing bits.
\<close>

section \<open>Sextets\<close>

lemma of_char_less_256: "(of_char c :: nat) < 256"
  by (metis mod_less_divisor of_char_mod_256 zero_less_numeral)

fun to_sextets :: "nat list \<Rightarrow> nat list" where
  "to_sextets [] = []"
| "to_sextets [a] = [a div 4, (a mod 4) * 16]"
| "to_sextets [a, b] = [a div 4, (a mod 4) * 16 + b div 16, (b mod 16) * 4]"
| "to_sextets (a # b # c # r) =
     a div 4 # ((a mod 4) * 16 + b div 16) # ((b mod 16) * 4 + c div 64) # (c mod 64) # to_sextets r"

fun of_sextets :: "nat list \<Rightarrow> nat list option" where
  "of_sextets [] = Some []"
| "of_sextets [x] = None"
| "of_sextets [x, y] = Some [x * 4 + y div 16]"
| "of_sextets [x, y, z] = Some [x * 4 + y div 16, (y mod 16) * 16 + z div 4]"
| "of_sextets (x # y # z # w # r) =
     map_option (\<lambda>t. (x * 4 + y div 16) # ((y mod 16) * 16 + z div 4) # ((z mod 4) * 64 + w) # t) (of_sextets r)"

lemma to_sextets_bound: "\<forall>b \<in> set bs. b < 256 \<Longrightarrow> \<forall>s \<in> set (to_sextets bs). s < 64"
  by (induction bs rule: to_sextets.induct) auto

lemma sextet_arith:
  fixes a b c :: nat
  assumes "a < 256" and "b < 256" and "c < 256"
  shows "(a div 4) * 4 + ((a mod 4) * 16 + b div 16) div 16 = a"
    and "((a mod 4) * 16 + b div 16) mod 16 * 16 + ((b mod 16) * 4 + c div 64) div 4 = b"
    and "((b mod 16) * 4 + c div 64) mod 4 * 64 + c mod 64 = c"
proof -
  have "b div 16 < 16" "c div 64 < 4" using assms by auto
  then have "((a mod 4) * 16 + b div 16) div 16 = a mod 4" "((a mod 4) * 16 + b div 16) mod 16 = b div 16"
    "((b mod 16) * 4 + c div 64) div 4 = b mod 16" "((b mod 16) * 4 + c div 64) mod 4 = c div 64"
    by (simp_all add: div_add1_eq mod_add_eq)
  then show "(a div 4) * 4 + ((a mod 4) * 16 + b div 16) div 16 = a"
    "((a mod 4) * 16 + b div 16) mod 16 * 16 + ((b mod 16) * 4 + c div 64) div 4 = b"
    "((b mod 16) * 4 + c div 64) mod 4 * 64 + c mod 64 = c"
    by (simp_all add: div_mult_mod_eq)
qed

lemma of_to_sextets: "\<forall>b \<in> set bs. b < 256 \<Longrightarrow> of_sextets (to_sextets bs) = Some bs"
proof (induction bs rule: to_sextets.induct)
  case (2 a)
  then show ?case using sextet_arith [of a 0 0] by simp
next
  case (3 a b)
  then show ?case using sextet_arith [of a b 0] by simp
next
  case (4 a b c r)
  then show ?case using sextet_arith [of a b c] by simp
qed simp

section \<open>Alphabets\<close>

definition alnum62 :: string where
  "alnum62 = ''ABCDEFGHIJKLMNOPQRSTUVWXYZabcdefghijklmnopqrstuvwxyz0123456789''"

definition std_alphabet :: string where "std_alphabet = alnum62 @ ''+/''"
definition url_alphabet :: string where "url_alphabet = alnum62 @ ''-_''"

definition sextet_of :: "string \<Rightarrow> char \<Rightarrow> nat option" where
  "sextet_of alphabet c = map_of (zip alphabet [0..<64]) c"

primrec sextets :: "string \<Rightarrow> string \<Rightarrow> nat list option" where
  "sextets alphabet [] = Some []"
| "sextets alphabet (c # cs) =
     (case sextet_of alphabet c of None \<Rightarrow> None | Some x \<Rightarrow> map_option ((#) x) (sextets alphabet cs))"

definition EncodeToString :: "string \<Rightarrow> string \<Rightarrow> string" where
  "EncodeToString alphabet bs = map (\<lambda>x. alphabet ! x) (to_sextets (map of_char bs))"

definition DecodeString :: "string \<Rightarrow> string \<Rightarrow> string option" where
  "DecodeString alphabet s =
     map_option (map char_of)
       (Option.bind (sextets alphabet (filter (\<lambda>c. c \<noteq> CHR 0x0A \<and> c \<noteq> CHR 0x0D) s)) of_sextets)"

lemma alphabet_ok:
  "length std_alphabet = 64" "distinct std_alphabet" "CHR 0x0A \<notin> set std_alphabet" "CHR 0x0D \<notin> set std_alphabet"
  "length url_alphabet = 64" "distinct url_alphabet" "CHR 0x0A \<notin> set url_alphabet" "CHR 0x0D \<notin> set url_alphabet"
  by code_simp+

lemma sextets_map:
  assumes "length al = 64" and "distinct al" and "\<forall>x \<in> set xs. x < 64"
  shows "sextets al (map (\<lambda>x. al ! x) xs) = Some xs"
  using assms(3)
proof (induction xs)
  case Nil
  then show ?case by simp
next
  case (Cons x xs)
  have "map_of (zip al [0..<64]) (al ! x) = Some ([0..<64] ! x)"
    by (rule map_of_zip_nth) (use assms Cons.prems in auto)
  then show ?case using Cons by (simp add: sextet_of_def)
qed

lemma Decode_Encode:
  assumes "length al = 64" and "distinct al" and "CHR 0x0A \<notin> set al" and "CHR 0x0D \<notin> set al"
  shows "DecodeString al (EncodeToString al bs) = Some bs"
proof -
  let ?bs = "map of_char bs :: nat list"
  have b: "\<forall>x \<in> set ?bs. x < 256" by (simp add: of_char_less_256)
  note s = to_sextets_bound [OF b]
  have "al ! x \<in> set al" if "x \<in> set (to_sextets ?bs)" for x
    using that s assms(1) by (intro nth_mem) auto
  then have f: "filter (\<lambda>c. c \<noteq> CHR 0x0A \<and> c \<noteq> CHR 0x0D) (EncodeToString al bs) = EncodeToString al bs"
    using assms(3,4) by (auto simp: EncodeToString_def intro!: filter_True)
  have "sextets al (EncodeToString al bs) = Some (to_sextets ?bs)"
    unfolding EncodeToString_def by (rule sextets_map [OF assms(1,2) s])
  then show ?thesis by (simp add: DecodeString_def f of_to_sextets [OF b] comp_def)
qed

lemma EncodeToString_chars: "set (EncodeToString al bs) \<subseteq> set al" if "length al = 64"
  using to_sextets_bound [of "map of_char bs"] that
  by (auto simp: EncodeToString_def of_char_less_256 intro!: nth_mem)

text \<open>\<open>big.Int.SetBytes\<close>: the bytes as a big-endian number.\<close>

definition SetBytes :: "string \<Rightarrow> int" where
  "SetBytes bs = fold (\<lambda>c n. n * 256 + of_char c) bs 0"

end
