(* ===== verification/Jwks.thy ===== *)
theory Jwks
  imports Base64
begin

text \<open>
  Package \<open>auth\<close> (\<open>jwks.go\<close>, \<open>verifier.go\<close>): verification of RS256 tokens against a remote JWKS endpoint.
  The endpoint answers the k-th fetch; decoding its JSON and the golang-jwt parser are arguments. The
  parser is given the key, the expected audience and issuer and the current time, as in the call of
  \<open>ParseWithClaims\<close>; what the SDK relies on it for is the locale \<open>jwt_parser\<close>.
\<close>

section \<open>Data\<close>

datatype verify_error = ErrExpired | ErrInvalidSignature | ErrInvalidToken | FetchError string

record Claims =
  cl_Subject :: string
  cl_Audience :: "string list"
  cl_Scopes :: "string list"
  cl_JTI :: string
  cl_IsAdmin :: bool
  cl_IssuedAt :: "instant option"
  cl_ExpiresAt :: "instant option"
  cl_Issuer :: string

record jwtClaims =
  jc_Scopes :: "string list"
  jc_IsAdmin :: bool
  jc_Subject :: string
  jc_Audience :: "string list"
  jc_Issuer :: string
  jc_ID :: string
  jc_IssuedAt :: "instant option"
  jc_ExpiresAt :: "instant option"

record jwk =
  Kty :: string
  Use :: string
  Kid :: string
  Alg :: string
  N64 :: string
  E64 :: string

record rsa_key =
  rsa_N :: int
  rsa_E :: int

record jwksConfig =
  JWKSURL :: string
  ExpectedAudience :: string
  ExpectedIssuer :: string
  jw_CacheTTL :: duration

definition negCacheTTL :: duration where "negCacheTTL = 30 * Second"

record JWKSVerifier =
  v_cfg :: jwksConfig
  v_cache :: "string \<rightharpoonup> rsa_key"
  v_negCache :: "string \<rightharpoonup> instant"
  v_lastRefresh :: "instant option"
  v_fetches :: nat

datatype new_error = MissingJWKSURL | MissingAudience | MissingIssuer

definition NewJWKSVerifier :: "jwksConfig \<Rightarrow> (new_error, JWKSVerifier) res" where
  "NewJWKSVerifier cfg =
     (if JWKSURL cfg = [] then Inl MissingJWKSURL
      else if ExpectedAudience cfg = [] then Inl MissingAudience
      else if ExpectedIssuer cfg = [] then Inl MissingIssuer
      else Inr \<lparr>v_cfg = (if jw_CacheTTL cfg = 0 then cfg\<lparr>jw_CacheTTL := 5 * Minute\<rparr> else cfg),
                v_cache = Map.empty, v_negCache = Map.empty, v_lastRefresh = None, v_fetches = 0\<rparr>)"

section \<open>Keys\<close>

definition parseRSAPublicKey :: "string \<Rightarrow> string \<Rightarrow> rsa_key option" where
  "parseRSAPublicKey n e =
     (case DecodeString url_alphabet n of
        None \<Rightarrow> None
      | Some nBytes \<Rightarrow>
          (case DecodeString url_alphabet e of
             None \<Rightarrow> None
           | Some eBytes \<Rightarrow> Some \<lparr>rsa_N = SetBytes nBytes, rsa_E = wrap64 (SetBytes eBytes)\<rparr>))"

text \<open>The loop over the keys of a document: foreign keys are skipped, a malformed one fails the refresh.\<close>

primrec build_cache :: "jwk list \<Rightarrow> (string \<rightharpoonup> rsa_key) \<Rightarrow> (string \<rightharpoonup> rsa_key) option" where
  "build_cache [] m = Some m"
| "build_cache (k # ks) m =
     (if Kty k \<noteq> ''RSA'' \<or> Use k \<noteq> ''sig'' then build_cache ks m
      else (case parseRSAPublicKey (N64 k) (E64 k) of
              None \<Rightarrow> None
            | Some pub \<Rightarrow> build_cache ks (m(Kid k \<mapsto> pub))))"

text \<open>The endpoint: the k-th fetch yields a status and a body, or fails.\<close>

type_synonym endpoint = "nat \<Rightarrow> (string, int \<times> string) res"

definition fetchAndStore ::
  "endpoint \<Rightarrow> (string \<Rightarrow> jwk list option) \<Rightarrow> instant \<Rightarrow> JWKSVerifier \<Rightarrow> (verify_error, unit) res \<times> JWKSVerifier" where
  "fetchAndStore net decode now v =
     (let v1 = v\<lparr>v_fetches := Suc (v_fetches v)\<rparr>
      in case net (v_fetches v) of
           Inl e \<Rightarrow> (Inl (FetchError e), v1)
         | Inr (status, body) \<Rightarrow>
             if status \<noteq> 200 then (Inl (FetchError ''unexpected status''), v1)
             else (case decode body of
                     None \<Rightarrow> (Inl (FetchError ''parse''), v1)
                   | Some ks \<Rightarrow>
                       (case build_cache ks Map.empty of
                          None \<Rightarrow> (Inl (FetchError ''public key''), v1)
                        | Some newCache \<Rightarrow>
                            (Inr (), v1\<lparr>v_cache := newCache, v_lastRefresh := Some now,
                                        v_negCache := Map.empty\<rparr>))))"

definition refreshCache ::
  "endpoint \<Rightarrow> (string \<Rightarrow> jwk list option) \<Rightarrow> instant \<Rightarrow> JWKSVerifier \<Rightarrow> (verify_error, unit) res \<times> JWKSVerifier" where
  "refreshCache net decode now v = fetchAndStore net decode now v"

text \<open>\<open>resolveKey\<close>, with \<open>now\<close> the time of the lookups and \<open>now'\<close> that after the fetch.\<close>

definition resolveKey ::
  "endpoint \<Rightarrow> (string \<Rightarrow> jwk list option) \<Rightarrow> instant \<Rightarrow> instant \<Rightarrow> string \<Rightarrow> JWKSVerifier
     \<Rightarrow> (verify_error, rsa_key) res \<times> JWKSVerifier" where
  "resolveKey net decode now now' kid v =
     (let key = v_cache v kid;
          fresh = (case v_lastRefresh v of None \<Rightarrow> False | Some l \<Rightarrow> Sub now l \<le> jw_CacheTTL (v_cfg v));
          negative = (case v_negCache v kid of None \<Rightarrow> False | Some negAt \<Rightarrow> Sub now negAt < negCacheTTL)
      in if key \<noteq> None \<and> fresh then (Inr (the key), v)
         else if key = None \<and> negative then (Inl ErrInvalidToken, v)
         else (case refreshCache net decode now' v of
                 (Inl e, v1) \<Rightarrow> (case key of Some k \<Rightarrow> (Inr k, v1) | None \<Rightarrow> (Inl e, v1))
               | (Inr _, v1) \<Rightarrow>
                   (case v_cache v1 kid of
                      Some k \<Rightarrow> (Inr k, v1)
                    | None \<Rightarrow> (Inl ErrInvalidToken, v1\<lparr>v_negCache := (v_negCache v1)(kid \<mapsto> now')\<rparr>))))"

section \<open>Tokens\<close>

datatype jwt_error = TokenExpired | SignatureInvalid | OtherJwtError

text \<open>
  The golang-jwt operations: the unverified header's \<open>kid\<close>, and \<open>ParseWithClaims\<close> with its key function, which sees
  whether the token's method is an RSA method and the method's name, and its options: audience, issuer, valid methods.
\<close>

record jwt_lib =
  ParseUnverified_kid :: "string \<Rightarrow> string option option" \<comment> \<open>error, no string kid, or the kid\<close>
  ParseWithClaims :: "string \<Rightarrow> (bool \<times> string \<Rightarrow> rsa_key option) \<Rightarrow> string \<Rightarrow> string \<Rightarrow> string list \<Rightarrow> instant
    \<Rightarrow> (jwt_error, bool \<times> jwtClaims) res"

definition extractKID :: "jwt_lib \<Rightarrow> string \<Rightarrow> string option" where
  "extractKID lib token =
     (case ParseUnverified_kid lib token of
        None \<Rightarrow> None
      | Some k \<Rightarrow> Some (case k of None \<Rightarrow> [] | Some kid \<Rightarrow> kid))"

definition mapClaims :: "jwtClaims \<Rightarrow> Claims" where
  "mapClaims c =
     \<lparr>cl_Subject = jc_Subject c, cl_Audience = jc_Audience c, cl_Scopes = jc_Scopes c, cl_JTI = jc_ID c,
      cl_IsAdmin = jc_IsAdmin c, cl_IssuedAt = jc_IssuedAt c, cl_ExpiresAt = jc_ExpiresAt c,
      cl_Issuer = jc_Issuer c\<rparr>"

definition key_func :: "rsa_key \<Rightarrow> bool \<times> string \<Rightarrow> rsa_key option" where
  "key_func key m = (if \<not> fst m then None else Some key)"

definition verifyWithKey ::
  "jwt_lib \<Rightarrow> instant \<Rightarrow> jwksConfig \<Rightarrow> string \<Rightarrow> rsa_key \<Rightarrow> (verify_error, Claims) res" where
  "verifyWithKey lib now cfg token key =
     (case ParseWithClaims lib token (key_func key) (ExpectedAudience cfg) (ExpectedIssuer cfg) [''RS256''] now of
        Inl TokenExpired \<Rightarrow> Inl ErrExpired
      | Inl SignatureInvalid \<Rightarrow> Inl ErrInvalidSignature
      | Inl OtherJwtError \<Rightarrow> Inl ErrInvalidToken
      | Inr (valid, c) \<Rightarrow> if \<not> valid then Inl ErrInvalidToken else Inr (mapClaims c))"

definition Verify ::
  "jwt_lib \<Rightarrow> endpoint \<Rightarrow> (string \<Rightarrow> jwk list option) \<Rightarrow> instant \<Rightarrow> instant \<Rightarrow> string \<Rightarrow> JWKSVerifier
     \<Rightarrow> (verify_error, Claims) res \<times> JWKSVerifier" where
  "Verify lib net decode now now' token v =
     (case extractKID lib token of
        None \<Rightarrow> (Inl ErrInvalidToken, v)
      | Some kid \<Rightarrow>
          (case resolveKey net decode now now' kid v of
             (Inl e, v1) \<Rightarrow> (Inl e, v1)
           | (Inr key, v1) \<Rightarrow> (verifyWithKey lib now' (v_cfg v1) token key, v1)))"

section \<open>Keys come from the endpoint\<close>

text \<open>Key \<open>k\<close> was published under \<open>kid\<close> by one of the first \<open>n\<close> fetches.\<close>

definition publishes ::
  "endpoint \<Rightarrow> (string \<Rightarrow> jwk list option) \<Rightarrow> nat \<Rightarrow> string \<Rightarrow> rsa_key \<Rightarrow> bool" where
  "publishes net decode i kid k \<longleftrightarrow>
     (\<exists>body ks j. net i = Inr (200, body) \<and> decode body = Some ks \<and> j \<in> set ks \<and> Kty j = ''RSA'' \<and>
        Use j = ''sig'' \<and> Kid j = kid \<and> parseRSAPublicKey (N64 j) (E64 j) = Some k)"

definition published ::
  "endpoint \<Rightarrow> (string \<Rightarrow> jwk list option) \<Rightarrow> nat \<Rightarrow> string \<Rightarrow> rsa_key \<Rightarrow> bool" where
  "published net decode n kid k \<longleftrightarrow> (\<exists>i < n. publishes net decode i kid k)"

definition keys_published :: "endpoint \<Rightarrow> (string \<Rightarrow> jwk list option) \<Rightarrow> JWKSVerifier \<Rightarrow> bool" where
  "keys_published net decode v \<longleftrightarrow>
     (\<forall>kid k. v_cache v kid = Some k \<longrightarrow> published net decode (v_fetches v) kid k)"

lemma published_mono: "published net decode n kid k \<Longrightarrow> n \<le> m \<Longrightarrow> published net decode m kid k"
  by (auto simp: published_def dest: order_less_le_trans)

lemma build_cache_origin:
  assumes "build_cache ks m = Some m'" and "m' kid = Some k"
  shows "m kid = Some k \<or> (\<exists>j \<in> set ks. Kty j = ''RSA'' \<and> Use j = ''sig'' \<and> Kid j = kid \<and>
     parseRSAPublicKey (N64 j) (E64 j) = Some k)"
  using assms
proof (induction ks arbitrary: m)
  case Nil
  then show ?case by simp
next
  case (Cons j ks)
  then show ?case by (fastforce split: if_splits option.splits)
qed

lemma fetch_keys_published:
  assumes "keys_published net decode v" and "fetchAndStore net decode now v = (r, v')"
  shows "keys_published net decode v'"
proof (cases r)
  case (Inl e)
  then have "v_cache v' = v_cache v" "v_fetches v' = Suc (v_fetches v)"
    using assms(2) by (auto simp: fetchAndStore_def Let_def split: sum.splits if_splits option.splits)
  then show ?thesis using assms(1) by (auto simp: keys_published_def intro: published_mono [where n = "v_fetches v"])
next
  case (Inr u)
  then obtain body ks where n: "net (v_fetches v) = Inr (200, body)" "decode body = Some ks"
    "build_cache ks Map.empty = Some (v_cache v')" "v_fetches v' = Suc (v_fetches v)"
    using assms(2) by (auto simp: fetchAndStore_def Let_def split: sum.splits if_splits option.splits)
  then show ?thesis
    using build_cache_origin [OF n(3)] by (fastforce simp: keys_published_def published_def publishes_def)
qed

lemma resolveKey_published:
  assumes "keys_published net decode v" and "resolveKey net decode now now' kid v = (r, v')"
  shows "keys_published net decode v'" and "r = Inr k \<Longrightarrow> published net decode (v_fetches v') kid k"
proof -
  obtain x v1 where f: "fetchAndStore net decode now' v = (x, v1)" by fastforce
  note p1 = fetch_keys_published [OF assms(1) f]
  have "v_fetches v \<le> v_fetches v1"
    using f by (auto simp: fetchAndStore_def Let_def split: sum.splits if_splits option.splits)
  then have mono: "v_cache v kid = Some k \<Longrightarrow> published net decode (v_fetches v1) kid k" for k
    using assms(1) published_mono unfolding keys_published_def by blast
  show "keys_published net decode v'"
    using assms p1 f
    by (auto simp: resolveKey_def refreshCache_def Let_def keys_published_def
        split: if_splits sum.splits option.splits)
  show "r = Inr k \<Longrightarrow> published net decode (v_fetches v') kid k"
    using assms p1 f mono
    by (auto simp: resolveKey_def refreshCache_def Let_def keys_published_def
        split: if_splits sum.splits option.splits)
qed

lemma resolveKey_cfg: "resolveKey net decode now now' kid v = (r, v') \<Longrightarrow> v_cfg v' = v_cfg v"
  by (auto simp: resolveKey_def refreshCache_def fetchAndStore_def Let_def
      split: if_splits sum.splits option.splits)

lemma Verify_keeps:
  assumes "Verify lib net decode now now' token v = (r, v')"
  shows "keys_published net decode v \<Longrightarrow> keys_published net decode v'" and "v_cfg v' = v_cfg v"
  using assms resolveKey_published(1) resolveKey_cfg
  by (fastforce simp: Verify_def split: option.splits sum.splits prod.splits)+

text \<open>The verifier after a sequence of verifications (lookup time, fetch time, token).\<close>

definition verify_all ::
  "jwt_lib \<Rightarrow> endpoint \<Rightarrow> (string \<Rightarrow> jwk list option) \<Rightarrow> (instant \<times> instant \<times> string) list \<Rightarrow> JWKSVerifier \<Rightarrow> JWKSVerifier" where
  "verify_all lib net decode xs v =
     fold (\<lambda>(now, now', token) v. snd (Verify lib net decode now now' token v)) xs v"

lemma verify_all_keeps:
  "keys_published net decode v \<Longrightarrow> keys_published net decode (verify_all lib net decode xs v) \<and>
     v_cfg (verify_all lib net decode xs v) = v_cfg v"
proof (induction xs arbitrary: v)
  case Nil
  then show ?case by (simp add: verify_all_def)
next
  case (Cons x xs)
  obtain now now' token where x: "x = (now, now', token)" by (cases x)
  have "Verify lib net decode now now' token v =
      (fst (Verify lib net decode now now' token v), snd (Verify lib net decode now now' token v))" by simp
  note k = Verify_keeps [OF this]
  show ?case using Cons.IH [OF k(1) [OF Cons.prems]] k(2) by (simp add: verify_all_def x)
qed

lemma NewJWKSVerifier_ok:
  assumes "NewJWKSVerifier cfg = Inr v"
  shows "keys_published net decode v" and "ExpectedAudience (v_cfg v) = ExpectedAudience cfg"
    and "ExpectedIssuer (v_cfg v) = ExpectedIssuer cfg" and "ExpectedAudience cfg \<noteq> []" and "ExpectedIssuer cfg \<noteq> []"
  using assms by (auto simp: NewJWKSVerifier_def keys_published_def split: if_splits)

section \<open>Unknown key IDs\<close>

text \<open>An endpoint that always answers with one well-formed document.\<close>

definition steady :: "endpoint \<Rightarrow> (string \<Rightarrow> jwk list option) \<Rightarrow> (string \<rightharpoonup> rsa_key) \<Rightarrow> bool" where
  "steady net decode m \<longleftrightarrow> (\<forall>i. \<exists>body ks. net i = Inr (200, body) \<and> decode body = Some ks \<and> build_cache ks Map.empty = Some m)"

lemma fetch_steady:
  assumes "steady net decode m"
  shows "fetchAndStore net decode now v =
    (Inr (), v\<lparr>v_fetches := Suc (v_fetches v), v_cache := m, v_lastRefresh := Some now, v_negCache := Map.empty\<rparr>)"
proof -
  obtain body ks where "net (v_fetches v) = Inr (200, body)" "decode body = Some ks" "build_cache ks Map.empty = Some m"
    using assms unfolding steady_def by meson
  then show ?thesis by (simp add: fetchAndStore_def Let_def)
qed

lemma resolve_unknown:
  assumes "steady net decode m" and "m kid = None" and "v_cache v kid = None" and "v_negCache v kid = None"
  shows "resolveKey net decode now now' kid v =
    (Inl ErrInvalidToken, v\<lparr>v_fetches := Suc (v_fetches v), v_cache := m, v_lastRefresh := Some now',
                            v_negCache := [kid \<mapsto> now']\<rparr>)"
  using assms by (simp add: resolveKey_def refreshCache_def fetch_steady Let_def)

lemma resolve_all_unknown:
  assumes "steady net decode m" and "\<forall>x \<in> set xs. m (snd (snd x)) = None \<and> v_cache v (snd (snd x)) = None"
    and "distinct_adj (map (\<lambda>x. snd (snd x)) xs)" and "xs = [] \<or> v_negCache v (snd (snd (hd xs))) = None"
  shows "v_fetches (fold (\<lambda>(now, now', kid) v. snd (resolveKey net decode now now' kid v)) xs v) = v_fetches v + length xs"
  using assms(2-4)
proof (induction xs arbitrary: v)
  case Nil
  then show ?case by simp
next
  case (Cons x xs)
  obtain now now' kid where x: "x = (now, now', kid)" by (cases x)
  let ?v = "v\<lparr>v_fetches := Suc (v_fetches v), v_cache := m, v_lastRefresh := Some now', v_negCache := [kid \<mapsto> now']\<rparr>"
  have r: "resolveKey net decode now now' kid v = (Inl ErrInvalidToken, ?v)"
    by (rule resolve_unknown [OF assms(1)]) (use Cons.prems x in auto)
  have "xs = [] \<or> v_negCache ?v (snd (snd (hd xs))) = None"
    using Cons.prems(2) x by (cases xs) auto
  moreover have "distinct_adj (map (\<lambda>x. snd (snd x)) xs)" using Cons.prems(2) by (cases xs) auto
  ultimately show ?case using Cons.IH [of ?v] Cons.prems(1) r by (simp add: x)
qed

section \<open>What the SDK relies on in golang-jwt\<close>

text \<open>
  \<open>sig_ok t k\<close> says that the token's signature verifies under \<open>k\<close>. A token that parses without error is of one of the
  valid methods and signed with the key the key function gives for its method, carries the required audience and issuer, and its expiry, if it has one, has not passed.
\<close>

locale jwt_parser =
  fixes lib :: jwt_lib and sig_ok :: "string \<Rightarrow> rsa_key \<Rightarrow> bool"
  assumes parse_signed: "ParseWithClaims lib t kf aud iss methods now = Inr (True, c) \<Longrightarrow>
      \<exists>rsa alg k. alg \<in> set methods \<and> kf (rsa, alg) = Some k \<and> sig_ok t k"
    and parse_audience: "ParseWithClaims lib t kf aud iss methods now = Inr (True, c) \<Longrightarrow> aud \<noteq> [] \<Longrightarrow> aud \<in> set (jc_Audience c)"
    and parse_issuer: "ParseWithClaims lib t kf aud iss methods now = Inr (True, c) \<Longrightarrow> iss \<noteq> [] \<Longrightarrow> jc_Issuer c = iss"
    and parse_expiry: "ParseWithClaims lib t kf aud iss methods now = Inr (True, c) \<Longrightarrow> jc_ExpiresAt c = Some e \<Longrightarrow> now < e"
begin

lemma verifyWithKey_sound:
  assumes "verifyWithKey lib now cfg t k = Inr cl" and "ExpectedAudience cfg \<noteq> []" and "ExpectedIssuer cfg \<noteq> []"
  shows "sig_ok t k" "ExpectedAudience cfg \<in> set (cl_Audience cl)" "cl_Issuer cl = ExpectedIssuer cfg"
    "\<And>e. cl_ExpiresAt cl = Some e \<Longrightarrow> now < e"
proof -
  obtain c where c: "ParseWithClaims lib t (key_func k) (ExpectedAudience cfg) (ExpectedIssuer cfg) [''RS256''] now = Inr (True, c)"
    and cl: "cl = mapClaims c"
    using assms(1) by (auto simp: verifyWithKey_def split: sum.splits jwt_error.splits if_splits)
  show "sig_ok t k" using parse_signed [OF c] by (auto simp: key_func_def split: if_splits)
  show "ExpectedAudience cfg \<in> set (cl_Audience cl)" "cl_Issuer cl = ExpectedIssuer cfg"
    "\<And>e. cl_ExpiresAt cl = Some e \<Longrightarrow> now < e"
    using assms(2,3) parse_audience [OF c] parse_issuer [OF c] parse_expiry [OF c] by (simp_all add: cl mapClaims_def)
qed

end

text \<open>A parser with these properties: it knows one token, signed by one key.\<close>

definition one_token_lib :: "string \<Rightarrow> string \<Rightarrow> rsa_key \<Rightarrow> jwtClaims \<Rightarrow> jwt_lib" where
  "one_token_lib tok kid key c =
     \<lparr>ParseUnverified_kid = (\<lambda>t. if t = tok then Some (Some kid) else None),
      ParseWithClaims = (\<lambda>t kf aud iss methods now.
        if t \<noteq> tok \<or> ''RS256'' \<notin> set methods then Inl OtherJwtError
        else if kf (True, ''RS256'') \<noteq> Some key then Inl SignatureInvalid
        else if pred_option (\<lambda>e. e \<le> now) (jc_ExpiresAt c) \<and> jc_ExpiresAt c \<noteq> None then Inl TokenExpired
        else if aud \<notin> set (jc_Audience c) \<or> iss \<noteq> jc_Issuer c then Inl OtherJwtError
        else Inr (True, c))\<rparr>"

interpretation one_token: jwt_parser "one_token_lib tok kid key c" "\<lambda>t k. t = tok \<and> k = key" for tok kid key c
  by unfold_locales (auto simp: one_token_lib_def split: if_splits)

lemma Verify_claims:
  assumes "jwt_parser lib sig_ok" and "NewJWKSVerifier cfg = Inr v0"
    and "Verify lib net decode now now' token (verify_all lib net decode earlier v0) = (Inr cl, v')"
  shows "(\<exists>kid k. extractKID lib token = Some kid \<and> published net decode (v_fetches v') kid k \<and> sig_ok token k) \<and>
    ExpectedAudience cfg \<in> set (cl_Audience cl) \<and> cl_Issuer cl = ExpectedIssuer cfg \<and>
    (\<forall>e. cl_ExpiresAt cl = Some e \<longrightarrow> now' < e)"
proof -
  let ?v = "verify_all lib net decode earlier v0"
  note new = NewJWKSVerifier_ok [OF assms(2)]
  have kp: "keys_published net decode ?v" and c0: "v_cfg ?v = v_cfg v0"
    using verify_all_keeps [OF new(1)] by blast+
  obtain kid where kid: "extractKID lib token = Some kid"
    using assms(3) by (auto simp: Verify_def split: option.splits)
  obtain k where r: "resolveKey net decode now now' kid ?v = (Inr k, v')"
    and w: "verifyWithKey lib now' (v_cfg v') token k = Inr cl"
    using assms(3) kid by (auto simp: Verify_def split: sum.splits prod.splits)
  have cfg: "v_cfg v' = v_cfg v0" using resolveKey_cfg [OF r] c0 by simp
  have ne: "ExpectedAudience (v_cfg v') \<noteq> []" "ExpectedIssuer (v_cfg v') \<noteq> []" using new cfg by simp_all
  show ?thesis
    using resolveKey_published(2) [OF kp r refl] kid jwt_parser.verifyWithKey_sound [OF assms(1) w ne] cfg new(2,3)
    by auto
qed

section \<open>Properties\<close>

text \<open>
  Whenever \<open>Verify\<close> of a verifier built by \<open>NewJWKSVerifier\<close> accepts a token, after any earlier
  verifications, the token's signature verifies under an RSA signing key that the JWKS endpoint published for
  the token's key ID in one of its answers, the claims carry the configured audience and issuer, and an expiry
  claim lies in the future.
\<close>
theorem Verify_sound:
  assumes "jwt_parser lib sig_ok" and "NewJWKSVerifier cfg = Inr v0"
    and "Verify lib net decode now now' token (verify_all lib net decode earlier v0) = (Inr cl, v')"
  shows "(\<exists>kid k. extractKID lib token = Some kid \<and> published net decode (v_fetches v') kid k \<and> sig_ok token k) \<and>
    ExpectedAudience cfg \<in> set (cl_Audience cl) \<and> cl_Issuer cl = ExpectedIssuer cfg \<and>
    (\<forall>e. cl_ExpiresAt cl = Some e \<longrightarrow> now' < e)"
  by (rule Verify_claims [OF assms])

definition sample_claims :: jwtClaims where
  "sample_claims = \<lparr>jc_Scopes = [''svc:a''], jc_IsAdmin = False, jc_Subject = ''s'', jc_Audience = [''api''],
     jc_Issuer = ''auth'', jc_ID = ''1'', jc_IssuedAt = None, jc_ExpiresAt = Some 100\<rparr>"

definition sample_jwks :: "jwk list" where
  "sample_jwks = [\<lparr>Kty = ''RSA'', Use = ''sig'', Kid = ''k1'', Alg = ''RS256'', N64 = [], E64 = []\<rparr>]"

definition sample_jwks_cfg :: jwksConfig where
  "sample_jwks_cfg = \<lparr>JWKSURL = ''u'', ExpectedAudience = ''api'', ExpectedIssuer = ''auth'', jw_CacheTTL = 5\<rparr>"

definition sample_verifier :: JWKSVerifier where
  "sample_verifier = \<lparr>v_cfg = sample_jwks_cfg, v_cache = Map.empty, v_negCache = Map.empty, v_lastRefresh = None,
     v_fetches = 0\<rparr>"

definition sample_lib :: jwt_lib where
  "sample_lib = one_token_lib ''tok'' ''k1'' \<lparr>rsa_N = 0, rsa_E = 0\<rparr> sample_claims"

lemma sample_verifier_new: "NewJWKSVerifier sample_jwks_cfg = Inr sample_verifier"
  by (simp add: NewJWKSVerifier_def sample_jwks_cfg_def sample_verifier_def)

lemma sample_parser: "jwt_parser sample_lib (\<lambda>t k. t = ''tok'' \<and> k = \<lparr>rsa_N = 0, rsa_E = 0\<rparr>)"
  unfolding sample_lib_def by (rule one_token.jwt_parser_axioms)

lemma sample_Verify:
  "\<exists>v'. Verify sample_lib (\<lambda>_. Inr (200, ''{}'')) (\<lambda>_. Some sample_jwks) 0 1 ''tok'' sample_verifier
     = (Inr (mapClaims sample_claims), v')"
proof -
  have k0: "parseRSAPublicKey [] [] = Some \<lparr>rsa_N = 0, rsa_E = 0\<rparr>"
    by (simp add: parseRSAPublicKey_def DecodeString_def SetBytes_def in_int64_def)
  show ?thesis
    by (simp add: Verify_def extractKID_def sample_lib_def one_token_lib_def resolveKey_def refreshCache_def
        fetchAndStore_def sample_verifier_def sample_jwks_def sample_jwks_cfg_def k0 verifyWithKey_def key_func_def sample_claims_def)
qed

theorem Verify_sound_witness:
  "\<exists>v'. Verify sample_lib (\<lambda>_. Inr (200, ''{}'')) (\<lambda>_. Some sample_jwks) 0 1 ''tok'' sample_verifier =
     (Inr (mapClaims sample_claims), v') \<and>
     published (\<lambda>_. Inr (200, ''{}'')) (\<lambda>_. Some sample_jwks) (v_fetches v') ''k1'' \<lparr>rsa_N = 0, rsa_E = 0\<rparr>"
proof -
  obtain v' where ver: "Verify sample_lib (\<lambda>_. Inr (200, ''{}'')) (\<lambda>_. Some sample_jwks) 0 1 ''tok'' sample_verifier
      = (Inr (mapClaims sample_claims), v')"
    using sample_Verify by blast
  then have "Verify sample_lib (\<lambda>_. Inr (200, ''{}'')) (\<lambda>_. Some sample_jwks) 0 1 ''tok''
      (verify_all sample_lib (\<lambda>_. Inr (200, ''{}'')) (\<lambda>_. Some sample_jwks) [] sample_verifier) =
      (Inr (mapClaims sample_claims), v')"
    by (simp add: verify_all_def)
  from Verify_sound [OF sample_parser sample_verifier_new this] ver show ?thesis
    by (auto simp: extractKID_def sample_lib_def one_token_lib_def)
qed

text \<open>
  An unknown key ID that was looked up in vain is refused for the next 30 seconds without any fetch and
  without any change of the verifier, so a flood of tokens with that key ID does not reach the endpoint.
\<close>
theorem unknown_kid_remembered:
  assumes "steady net decode m" and "m kid = None" and "v_cache v kid = None" and "v_negCache v kid = None"
    and "resolveKey net decode now now' kid v = (r, v')" and "now' \<le> t" and "t < now' + negCacheTTL"
  shows "resolveKey net' decode' t t' kid v' = (Inl ErrInvalidToken, v')"
proof -
  have v': "v_cache v' kid = None" "v_negCache v' kid = Some now'"
    using assms(5) resolve_unknown [OF assms(1-4), of now now'] assms(2) by auto
  have "Sub t now' < negCacheTTL" using assms(6,7) by (simp add: Sub_def negCacheTTL_def Second_def)
  with v' show ?thesis by (simp add: resolveKey_def)
qed

lemma steady_sample: "steady (\<lambda>_. Inr (200, ''{}'')) (\<lambda>_. Some []) Map.empty"
  by (simp add: steady_def)

theorem unknown_kid_remembered_witness:
  "\<exists>v'. resolveKey (\<lambda>_. Inr (200, ''{}'')) (\<lambda>_. Some []) 0 1 ''x'' sample_verifier = (Inl ErrInvalidToken, v') \<and>
     resolveKey (\<lambda>_. Inl ''down'') (\<lambda>_. None) 1000 1001 ''x'' v' = (Inl ErrInvalidToken, v')"
proof -
  have s: "v_cache sample_verifier ''x'' = None" "v_negCache sample_verifier ''x'' = None"
    by (simp_all add: sample_verifier_def)
  obtain v' where r: "resolveKey (\<lambda>_. Inr (200, ''{}'')) (\<lambda>_. Some []) 0 1 ''x'' sample_verifier = (Inl ErrInvalidToken, v')"
    using resolve_unknown [OF steady_sample _ s] by simp
  have "resolveKey (\<lambda>_. Inl ''down'') (\<lambda>_. None) 1000 1001 ''x'' v' = (Inl ErrInvalidToken, v')"
    by (rule unknown_kid_remembered [OF steady_sample _ s r]) (simp_all add: negCacheTTL_def Second_def)
  with r show ?thesis by blast
qed

text \<open>
  Only the most recent unknown key ID is remembered: each successful fetch discards the negative cache, so
  requests that alternate between two (or more) unknown key IDs reach the endpoint every single time, within
  the 30 seconds too.
\<close>
theorem alternating_kids_always_fetch:
  assumes "steady net decode m" and "\<forall>x \<in> set xs. m (snd (snd x)) = None" and "distinct_adj (map (\<lambda>x. snd (snd x)) xs)"
    and "NewJWKSVerifier cfg = Inr v"
  shows "v_fetches (fold (\<lambda>(now, now', kid) v. snd (resolveKey net decode now now' kid v)) xs v) = length xs"
proof -
  have "v_cache v = Map.empty" "v_negCache v = Map.empty" "v_fetches v = 0"
    using assms(4) by (auto simp: NewJWKSVerifier_def split: if_splits)
  then show ?thesis using resolve_all_unknown [OF assms(1), of xs v] assms(2,3) by simp
qed

theorem alternating_kids_always_fetch_witness:
  "\<exists>v. NewJWKSVerifier sample_jwks_cfg = Inr v \<and>
     v_fetches (fold (\<lambda>(now, now', kid) v. snd (resolveKey (\<lambda>_. Inr (200, ''{}'')) (\<lambda>_. Some []) now now' kid v))
       [(0, 0, ''a''), (1, 1, ''b''), (2, 2, ''a''), (3, 3, ''b'')] v) = 4"
proof -
  obtain v where v: "NewJWKSVerifier sample_jwks_cfg = Inr v"
    by (simp add: NewJWKSVerifier_def sample_jwks_cfg_def)
  have "v_fetches (fold (\<lambda>(now, now', kid) v. snd (resolveKey (\<lambda>_. Inr (200, ''{}'')) (\<lambda>_. Some []) now now' kid v))
       [(0, 0, ''a''), (1, 1, ''b''), (2, 2, ''a''), (3, 3, ''b'')] v)
     = length [(0 :: int, 0 :: int, ''a''), (1, 1, ''b''), (2, 2, ''a''), (3, 3, ''b'')]"
    by (rule alternating_kids_always_fetch [OF steady_sample _ _ v]) simp_all
  with v show ?thesis by simp
qed

end
