(* ===== verification/Middleware.thy ===== *)
theory Middleware
  imports Headers Request RateLimit Idempotency IpAccess Jwks
begin

text \<open>
  The HTTP middlewares of the SDK and their composition (\<open>api/middleware/chain\<close>, \<open>auth/middleware.go\<close>,
  \<open>api/ratelimit/middleware.go\<close>, \<open>api/idempotency/middleware.go\<close>, \<open>api/csrf\<close>, \<open>api/ipaccess/middleware.go\<close>,
  \<open>api/headers\<close>). The process a request runs in is the record \<open>sdk\<close>: the clock, environment and random
  source of \<open>proc\<close> with the package-level variables of the middlewares. A middleware looks at the request
  and either answers it or passes it on, once, possibly changed; the body of each handler is its decision
  function, and \<open>middleware_of\<close> calls the next handler.
\<close>

section \<open>The process and the shape of a middleware\<close>

record 'r sdk = proc +
  sdk_proxy :: proxy_state
  sdk_rl :: rl_state
  sdk_store :: "'r Store"
  sdk_ip :: "Lists option" \<comment> \<open>the parsed lists, once \<open>ipOnce\<close> has run\<close>
  sdk_verifier :: JWKSVerifier

datatype 's verdict = Respond writer 's | Continue request writer 's

type_synonym 's decision = "request \<Rightarrow> writer \<Rightarrow> 's \<Rightarrow> 's verdict"

definition middleware_of :: "'s decision \<Rightarrow> 's middleware" where
  "middleware_of decide nxt req w s =
     (case decide req w s of
        Respond w' s' \<Rightarrow> (w', s')
      | Continue req' w' s' \<Rightarrow> nxt req' w' s')"

text \<open>\<open>Chain\<close>: the loop wraps from the last middleware to the first.\<close>

primrec wrap_all :: "'s handler \<Rightarrow> 's middleware list \<Rightarrow> 's handler" where
  "wrap_all c [] = c"
| "wrap_all c (mw # mws) = wrap_all (mw c) mws"

definition Chain :: "'s handler \<Rightarrow> 's middleware list \<Rightarrow> 's handler" where
  "Chain f mws = wrap_all f (rev mws)"

text \<open>The specification: the decisions in the listed order, stopping at the first answer.\<close>

primrec chain_decide :: "'s decision list \<Rightarrow> 's decision" where
  "chain_decide [] req w s = Continue req w s"
| "chain_decide (d # ds) req w s =
     (case d req w s of
        Respond w' s' \<Rightarrow> Respond w' s'
      | Continue req' w' s' \<Rightarrow> chain_decide ds req' w' s')"

section \<open>Authentication\<close>

text \<open>A verifier acts on the process (it may fetch keys).\<close>

type_synonym 's verifier = "string \<Rightarrow> 's \<Rightarrow> (verify_error, Claims) res \<times> 's"

definition set_if :: "bool \<Rightarrow> ctxKey \<Rightarrow> ctxval \<Rightarrow> ctx \<Rightarrow> ctx" where
  "set_if b k v c = (if b then WithValue c k v else c)"

definition claims_ctx :: "Claims \<Rightarrow> ctx \<Rightarrow> ctx" where
  "claims_ctx cl c0 =
     (let c1 = WithValue c0 AUTH_VALID_KEY (CBool True);
          c2 = set_if (cl_Subject cl \<noteq> []) USER_ID_KEY (CStr (cl_Subject cl)) c1;
          c3 = set_if (cl_JTI cl \<noteq> []) SESSION_ID_KEY (CStr (cl_JTI cl)) c2;
          isUIRequest = (length (cl_Scopes cl) = 0 \<or> cl_IsAdmin cl);
          isAPIRequest = (length (cl_Scopes cl) > 0);
          c4 = set_if isUIRequest CLIENT_TYPE_KEY (CStr ''browser'')
                 (set_if isUIRequest REQUEST_TYPE_KEY (CStr ''ui'') c3);
          c5 = set_if isAPIRequest CLIENT_TYPE_KEY (CStr ''api'')
                 (set_if isAPIRequest SCOPES_KEY (CStrs (cl_Scopes cl))
                   (set_if isAPIRequest REQUEST_TYPE_KEY (CStr ''api'') c4))
      in set_if (cl_IsAdmin cl) IS_ADMIN_KEY (CBool True) c5)"

definition auth_decide :: "('a proc_scheme) verifier \<Rightarrow> ('a proc_scheme) decision" where
  "auth_decide verify req w s =
     (case ExtractTokenFromRequest req of
        None \<Rightarrow>
          Respond (SendError (p_now s) w req Auth_InvalidToken
            [WithDetail ''missing or malformed authorization header'']) s
      | Some token \<Rightarrow>
          (case verify token s of
             (Inl e, s') \<Rightarrow>
               Respond (SendError (p_now s') w req (if e = ErrExpired then Auth_ExpiredToken else Auth_InvalidToken)
                 [WithDetail ''token verification failed'']) s'
           | (Inr cl, s') \<Rightarrow> Continue (WithContext req (claims_ctx cl (req_ctx req))) w s'))"

definition auth_Middleware :: "('a proc_scheme) verifier \<Rightarrow> ('a proc_scheme) middleware" where
  "auth_Middleware verify = middleware_of (auth_decide verify)"

text \<open>
  The deprecated \<open>AuthMiddleware\<close> validates with a \<open>jwt.Client\<close> (the argument) and leaves the client type alone.
\<close>

definition jwt_claims_ctx :: "Claims \<Rightarrow> ctx \<Rightarrow> ctx" where
  "jwt_claims_ctx cl c0 =
     (let c1 = WithValue c0 AUTH_VALID_KEY (CBool True);
          c2 = set_if (cl_Subject cl \<noteq> []) USER_ID_KEY (CStr (cl_Subject cl)) c1;
          c3 = set_if (cl_JTI cl \<noteq> []) SESSION_ID_KEY (CStr (cl_JTI cl)) c2;
          c4 = set_if (length (cl_Scopes cl) = 0 \<or> cl_IsAdmin cl) REQUEST_TYPE_KEY (CStr ''ui'') c3;
          c5 = set_if (length (cl_Scopes cl) > 0) SCOPES_KEY (CStrs (cl_Scopes cl))
                 (set_if (length (cl_Scopes cl) > 0) REQUEST_TYPE_KEY (CStr ''api'') c4)
      in set_if (cl_IsAdmin cl) IS_ADMIN_KEY (CBool True) c5)"

definition AuthMiddleware_decide :: "(string \<Rightarrow> Claims option) \<Rightarrow> ('a proc_scheme) decision" where
  "AuthMiddleware_decide validate req w s =
     (case ExtractTokenFromRequest req of
        None \<Rightarrow>
          Respond (SendError (p_now s) w req Auth_InvalidToken
            [WithDetail ''missing or malformed authorization header'']) s
      | Some token \<Rightarrow>
          (case validate token of
             None \<Rightarrow> Respond (SendError (p_now s) w req Auth_InvalidToken [WithDetail ''token validation failed'']) s
           | Some cl \<Rightarrow> Continue (WithContext req (jwt_claims_ctx cl (req_ctx req))) w s))"

definition AuthMiddleware :: "(string \<Rightarrow> Claims option) \<Rightarrow> ('a proc_scheme) middleware" where
  "AuthMiddleware validate = middleware_of (AuthMiddleware_decide validate)"

definition RequireServiceScope_decide :: "('a proc_scheme) decision" where
  "RequireServiceScope_decide req w s =
     (case req_ctx req SCOPES_KEY of
        Some (CStrs scopes) \<Rightarrow>
          if list_ex (\<lambda>x. HasPrefix x ''svc:'') scopes then Continue req w s
          else Respond (SendError (p_now s) w req Auth_InsufficientScope []) s
      | _ \<Rightarrow> Respond (SendError (p_now s) w req Auth_InsufficientScope []) s)"

definition RequireServiceScope :: "('a proc_scheme) middleware" where
  "RequireServiceScope = middleware_of RequireServiceScope_decide"

text \<open>\<open>RequireAnyScope\<close> panics when it is given no scope.\<close>

definition RequireAnyScope_decide :: "string list \<Rightarrow> ('a proc_scheme) decision" where
  "RequireAnyScope_decide scopes req w s =
     (if list_ex (\<lambda>have. have \<in> set scopes) (GetScopes (req_ctx req)) then Continue req w s
      else Respond (SendError (p_now s) w req Auth_InsufficientScope
             [WithDetail (''requires '' @ Join scopes '' or '')]) s)"

definition RequireAnyScope :: "string list \<Rightarrow> ('a proc_scheme) middleware option" where
  "RequireAnyScope scopes =
     (if length scopes = 0 then None else Some (middleware_of (RequireAnyScope_decide scopes)))"

section \<open>Rate limiting, IP access and idempotency\<close>

definition RateLimiter_decide :: "(string \<Rightarrow> rat option) \<Rightarrow> ('r, 'a) sdk_scheme decision" where
  "RateLimiter_decide ParseFloat req w s =
     (let (key, px) = GetClientKey (p_env s) (sdk_proxy s) req;
          ((allowed, wait, err), rl1) = Allow ParseFloat (p_env s) (p_now s) key (sdk_rl s);
          s1 = s\<lparr>sdk_proxy := px, sdk_rl := rl1\<rparr>
      in if err \<noteq> None then
           (let (failOpen, rl2) = ShouldFailOpen (p_env s) rl1; s2 = s1\<lparr>sdk_rl := rl2\<rparr>
            in if failOpen then Continue req w s2
               else Respond (SendError (p_now s) w req Global_Internal [WithDetail ''internal rate limiter error'']) s2)
         else if \<not> allowed then
           (let w1 = (if wait > 0 then wtr_SetHeader w ''Retry-After'' (Itoa (trunc (fl (Seconds wait + 1 / 2)))) else w)
            in Respond (SendError (p_now s) w1 req Global_TooManyRequests [WithDetail ''rate limit exceeded'']) s1)
         else Continue req w s1)"

definition RateLimiterMiddleware :: "(string \<Rightarrow> rat option) \<Rightarrow> ('r, 'a) sdk_scheme middleware" where
  "RateLimiterMiddleware ParseFloat = middleware_of (RateLimiter_decide ParseFloat)"

text \<open>\<open>IPAccessMiddleware\<close>: the lists are parsed when the first such middleware is built.\<close>

definition ip_load :: "('r, 'a) sdk_scheme \<Rightarrow> ('r, 'a) sdk_scheme" where
  "ip_load s =
     (case sdk_ip s of
        Some _ \<Rightarrow> s
      | None \<Rightarrow>
          (let (wlIPs, wlNets) = ParseList (p_env s ''IP_WHITELIST'');
               (blIPs, blNets) = ParseList (p_env s ''IP_BLACKLIST'')
           in s\<lparr>sdk_ip := Some \<lparr>WhitelistIPs = wlIPs, WhitelistNets = wlNets,
                                 BlacklistIPs = blIPs, BlacklistNets = blNets\<rparr>\<rparr>))"

definition client_ip :: "string \<Rightarrow> ip option" where
  "client_ip client =
     (case ParseIP client of
        Some a \<Rightarrow> Some a
      | None \<Rightarrow> (case SplitHostPort client of Some (host, _) \<Rightarrow> ParseIP host | None \<Rightarrow> None))"

definition IPAccess_decide :: "('r, 'a) sdk_scheme decision" where
  "IPAccess_decide req w s =
     (let (client, px) = GetClientKey (p_env s) (sdk_proxy s) req; s1 = s\<lparr>sdk_proxy := px\<rparr>
      in if client = [] then
           Respond (SendError (p_now s) w req Global_Forbidden [WithDetail ''unable to determine client IP'']) s1
         else (case client_ip client of
                 None \<Rightarrow> Respond (SendError (p_now s) w req Global_Forbidden [WithDetail ''invalid client IP'']) s1
               | Some a \<Rightarrow>
                   if \<not> Evaluate a (sdk_ip s) then
                     Respond (SendError (p_now s) w req Global_Forbidden [WithDetail ''access denied for client IP'']) s1
                   else Continue req w s1))"

definition IPAccessMiddleware :: "('r, 'a) sdk_scheme middleware" where
  "IPAccessMiddleware = middleware_of IPAccess_decide"

definition Idempotency_decide ::
  "'r redis \<Rightarrow> (string \<Rightarrow> (string, bool) res) option \<Rightarrow> ('r, 'a) sdk_scheme decision" where
  "Idempotency_decide rc jwtClient req w s =
     (if req_method req \<in> {''GET'', ''HEAD'', ''OPTIONS''} then Continue req w s
      else if req_ctx req CLIENT_TYPE_KEY = Some (CStr ''api'') then
        Continue (WithContext req (WithValue (req_ctx req) IDEMPOTENCY_VALID_KEY (CBool True))) w s
      else
        (let key = Header_Get (req_header req) ''Idempotency-Key''
         in if ValidateHeaderValue (p_env s) jwtClient HEADER_IDEMPOTENCY req \<noteq> Inr True then
              Respond (SendError (p_now s) w req Global_BadRequest [WithDetail ''invalid idempotency key'']) s
            else
              (case Store_CheckAndSet rc (p_now s) key (sdk_store s) of
                 (Inl e, st) \<Rightarrow>
                   Respond (SendError (p_now s) w req Global_Internal [WithDetail ''idempotency check failed''])
                     (s\<lparr>sdk_store := st\<rparr>)
               | (Inr allowed, st) \<Rightarrow>
                   if \<not> allowed then
                     Respond (SendError (p_now s) (wtr_SetHeader w ''Idempotency-Replayed'' ''true'') req Global_Conflict
                       [WithDetail ''duplicate request'']) (s\<lparr>sdk_store := st\<rparr>)
                   else Continue (WithContext req (WithValue (req_ctx req) IDEMPOTENCY_VALID_KEY (CBool True))) w
                          (s\<lparr>sdk_store := st\<rparr>))))"

definition IdempotencyMiddleware ::
  "'r redis \<Rightarrow> (string \<Rightarrow> (string, bool) res) option \<Rightarrow> ('r, 'a) sdk_scheme middleware" where
  "IdempotencyMiddleware rc jwtClient = middleware_of (Idempotency_decide rc jwtClient)"

section \<open>CSRF and headers\<close>

definition token_Bytes :: "int \<Rightarrow> 'a proc_scheme \<Rightarrow> string option \<times> 'a proc_scheme" where
  "token_Bytes n p = (if n \<le> 0 then (None, p) else rand_Read (nat n) p)"

definition token_Hex :: "int \<Rightarrow> 'a proc_scheme \<Rightarrow> string option \<times> 'a proc_scheme" where
  "token_Hex n p = (let (b, p') = token_Bytes n p in (map_option hex_EncodeToString b, p'))"

definition token_URLSafe :: "int \<Rightarrow> 'a proc_scheme \<Rightarrow> string option \<times> 'a proc_scheme" where
  "token_URLSafe n p = (let (b, p') = token_Bytes n p in (map_option (EncodeToString url_alphabet) b, p'))"

definition token_APIKey :: "string \<Rightarrow> 'a proc_scheme \<Rightarrow> string option \<times> 'a proc_scheme" where
  "token_APIKey prefix p =
     (let (s, p') = token_URLSafe 32 p
      in (map_option (\<lambda>t. if prefix = [] then t else prefix @ ''_'' @ t) s, p'))"

definition csrf_GenerateToken :: "'a proc_scheme \<Rightarrow> string option \<times> 'a proc_scheme" where
  "csrf_GenerateToken p = token_Hex 32 p"

definition csrf_setCookie :: "writer \<Rightarrow> string \<Rightarrow> writer" where
  "csrf_setCookie w token =
     wtr_AddHeader w ''Set-Cookie'' (COOKIE_CSRF_TOKEN @ ''='' @ token @ ''; Path=/; Secure; SameSite=Strict'')"

definition csrf_ensureToken ::
  "writer \<Rightarrow> request \<Rightarrow> 'a proc_scheme \<Rightarrow> (string option \<times> writer) \<times> 'a proc_scheme" where
  "csrf_ensureToken w req p =
     (case req_Cookie req COOKIE_CSRF_TOKEN of
        Some v \<Rightarrow>
          if v \<noteq> [] then ((Some v, w), p)
          else (case csrf_GenerateToken p of
                  (None, p') \<Rightarrow> ((None, w), p')
                | (Some t, p') \<Rightarrow> ((Some t, csrf_setCookie w t), p'))
      | None \<Rightarrow>
          (case csrf_GenerateToken p of
             (None, p') \<Rightarrow> ((None, w), p')
           | (Some t, p') \<Rightarrow> ((Some t, csrf_setCookie w t), p')))"

definition CSRF_decide :: "(string \<Rightarrow> (string, bool) res) option \<Rightarrow> ('a proc_scheme) decision" where
  "CSRF_decide jwtClient req w s =
     (case csrf_ensureToken w req s of
        ((None, w1), s1) \<Rightarrow>
          Respond (SendError (p_now s1) w1 req Global_Internal [WithDetail ''failed to issue csrf token'']) s1
      | ((Some token, w1), s1) \<Rightarrow>
          (let proceed = (\<lambda>t. Continue (WithContext req
                 (WithValue (WithValue (req_ctx req) CSRF_TOKEN_KEY (CStr t)) CSRF_VALID_KEY (CBool True))) w1 s1)
           in if req_method req \<in> {''POST'', ''PUT'', ''PATCH'', ''DELETE''} then
                (if req_ctx req CLIENT_TYPE_KEY = Some (CStr ''api'') then proceed ''api-client-exempt''
                 else if ValidateHeaderValue (p_env s1) jwtClient HEADER_X_CSRF_TOKEN req \<noteq> Inr True then
                   Respond (SendError (p_now s1) w1 req Global_BadRequest [WithDetail ''invalid CSRF token'']) s1
                 else proceed token)
              else proceed token))"

definition CSRFMiddleware :: "(string \<Rightarrow> (string, bool) res) option \<Rightarrow> ('a proc_scheme) middleware" where
  "CSRFMiddleware jwtClient = middleware_of (CSRF_decide jwtClient)"

definition MaxContentLength_decide :: "int \<Rightarrow> ('a proc_scheme) decision" where
  "MaxContentLength_decide limit req w s =
     (if req_contentLength req > limit then
        Respond (SendError (p_now s) w req Global_BadRequest
          [WithStatus 413, WithMessage ''Request entity too large'',
           WithDetail ''request body exceeds maximum allowed size'']) s
      else Continue (req\<lparr>req_body := MaxBytesReader (req_body req) limit\<rparr>) w s)"

definition MaxContentLengthMiddleware :: "(string \<Rightarrow> string) \<Rightarrow> int \<Rightarrow> ('a proc_scheme) middleware" where
  "MaxContentLengthMiddleware env maxBytes = middleware_of (MaxContentLength_decide (content_limit env maxBytes))"

definition security_headers :: "(string \<times> string) list" where
  "security_headers =
     [(''Strict-Transport-Security'', ''max-age=31536000; includeSubDomains; preload''),
      (''X-Content-Type-Options'', ''nosniff''), (''X-Frame-Options'', ''DENY''),
      (''Referrer-Policy'', ''no-referrer''), (''Permissions-Policy'', ''geolocation=(), camera=()''),
      (''Cache-Control'', ''no-store'')]"

definition SecurityHeaders_decide :: "'s decision" where
  "SecurityHeaders_decide req w s =
     Continue req (fold (\<lambda>(k, v) w. wtr_SetHeader w k v) security_headers w) s"

definition SecurityHeadersMiddleware :: "'s middleware" where
  "SecurityHeadersMiddleware = middleware_of SecurityHeaders_decide"

definition CORSMiddleware :: "'s middleware" where
  "CORSMiddleware nxt req w s = nxt req w s"

text \<open>The two middlewares of \<open>api/request\<close> as decisions.\<close>

definition RequestID_decide :: "('a proc_scheme) decision" where
  "RequestID_decide req w p =
     (let rid = Header_Get (req_header req) ''X-Request-ID'';
          (reqID, p') =
            (if rid \<noteq> [] then (rid, p)
             else if stringValue (req_ctx req) REQUEST_ID_KEY \<noteq> []
                  then (stringValue (req_ctx req) REQUEST_ID_KEY, p)
                  else GenerateRequestId p);
          req1 = req\<lparr>req_header := Header_Set (req_header req) ''X-Request-ID'' reqID\<rparr>;
          w1 = wtr_SetHeader w ''X-Request-ID'' reqID;
          ctx1 = WithValue (req_ctx req1) REQUEST_ID_KEY (CStr reqID);
          cid = Header_Get (req_header req1) ''X-Correlation-ID''
      in if cid \<noteq> []
         then Continue (WithContext req1 (WithValue ctx1 CORRELATION_ID_KEY (CStr cid)))
                (wtr_SetHeader w1 ''X-Correlation-ID'' cid) p'
         else Continue (WithContext req1 ctx1) w1 p')"

definition ClientSource_decide :: "'s decision" where
  "ClientSource_decide req w s =
     (let clientType = (if Header_Get (req_header req) ''Authorization'' \<noteq> [] \<and>
                           Header_Get (req_header req) ''Referer'' = [] \<and> Header_Get (req_header req) ''Cookie'' = []
                        then ClientTypeAPI else ClientTypeBrowser)
      in Continue (WithContext req (WithValue (req_ctx req) CLIENT_TYPE_KEY (CStr clientType))) w s)"

section \<open>Guards\<close>

text \<open>A middleware that decides and then calls the next handler exactly once, or answers itself.\<close>

locale guard =
  fixes mw :: "'s middleware" and decide :: "'s decision"
  assumes mw_decides: "mw nxt req w s = middleware_of decide nxt req w s"
begin

lemma mw_eq: "mw = middleware_of decide"
  by (simp add: fun_eq_iff mw_decides)

lemma answers_alone: "decide req w s = Respond w' s' \<Longrightarrow> mw nxt req w s = (w', s')"
  by (simp add: mw_decides middleware_of_def)

lemma passes_on: "decide req w s = Continue r' w' s' \<Longrightarrow> mw nxt req w s = nxt r' w' s'"
  by (simp add: mw_decides middleware_of_def)

end

text \<open>
  A guard that leaves what authentication put into the context, the method and the headers other than
  \<open>X-Request-Id\<close> as they are.
\<close>

definition same_identity :: "request \<Rightarrow> request \<Rightarrow> bool" where
  "same_identity r r' \<longleftrightarrow>
     (\<forall>k \<in> {AUTH_VALID_KEY, SCOPES_KEY, CLIENT_TYPE_KEY, USER_ID_KEY, IS_ADMIN_KEY}. req_ctx r' k = req_ctx r k) \<and>
     req_method r' = req_method r \<and> (\<forall>k. k \<noteq> ''X-Request-Id'' \<longrightarrow> req_header r' k = req_header r k)"

lemma same_identity_refl [simp]: "same_identity r r"
  by (simp add: same_identity_def)

lemma same_identity_trans: "same_identity r r' \<Longrightarrow> same_identity r' r'' \<Longrightarrow> same_identity r r''"
  by (auto simp: same_identity_def)

locale identity_guard = guard mw decide for mw :: "'s middleware" and decide +
  assumes keeps_identity: "decide req w s = Continue r' w' s' \<Longrightarrow> same_identity req r'"

lemma CtxSet_identity:
  "k \<notin> {AUTH_VALID_KEY, SCOPES_KEY, CLIENT_TYPE_KEY, USER_ID_KEY, IS_ADMIN_KEY} \<Longrightarrow>
   same_identity r (WithContext r (WithValue (req_ctx r) k v))"
  by (auto simp: same_identity_def WithValue_def)

lemmas [handler_defs] = Let_def
  RequireServiceScope_def RequireServiceScope_decide_def RequireAnyScope_decide_def RateLimiterMiddleware_def
  RateLimiter_decide_def IPAccessMiddleware_def IPAccess_decide_def IdempotencyMiddleware_def Idempotency_decide_def
  CSRFMiddleware_def CSRF_decide_def MaxContentLengthMiddleware_def MaxContentLength_decide_def
  SecurityHeadersMiddleware_def SecurityHeaders_decide_def ClientSourceMiddleware_def ClientSource_decide_def
  auth_Middleware_def AuthMiddleware_def

interpretation scope_guard: identity_guard RequireServiceScope RequireServiceScope_decide
  by unfold_locales
    (auto simp: handler_defs split: option.splits ctxval.splits if_splits)

interpretation any_scope_guard: identity_guard "middleware_of (RequireAnyScope_decide scopes)" "RequireAnyScope_decide scopes"
  for scopes
  by unfold_locales (auto simp: handler_defs split: if_splits)

interpretation limiter_guard: identity_guard "RateLimiterMiddleware pf" "RateLimiter_decide pf" for pf
  by unfold_locales
    (auto simp: handler_defs split: if_splits prod.splits)

interpretation ip_guard: identity_guard IPAccessMiddleware IPAccess_decide
  by unfold_locales
    (auto simp: handler_defs split: if_splits prod.splits option.splits)

lemma identity_keys:
  "IDEMPOTENCY_VALID_KEY \<notin> {AUTH_VALID_KEY, SCOPES_KEY, CLIENT_TYPE_KEY, USER_ID_KEY, IS_ADMIN_KEY}"
  "CSRF_TOKEN_KEY \<notin> {AUTH_VALID_KEY, SCOPES_KEY, CLIENT_TYPE_KEY, USER_ID_KEY, IS_ADMIN_KEY}"
  "CSRF_VALID_KEY \<notin> {AUTH_VALID_KEY, SCOPES_KEY, CLIENT_TYPE_KEY, USER_ID_KEY, IS_ADMIN_KEY}"
  "REQUEST_ID_KEY \<notin> {AUTH_VALID_KEY, SCOPES_KEY, CLIENT_TYPE_KEY, USER_ID_KEY, IS_ADMIN_KEY}"
  "CORRELATION_ID_KEY \<notin> {AUTH_VALID_KEY, SCOPES_KEY, CLIENT_TYPE_KEY, USER_ID_KEY, IS_ADMIN_KEY}"
  by (simp_all add: key_defs)

interpretation idem_guard: identity_guard "IdempotencyMiddleware rc j" "Idempotency_decide rc j" for rc j
  by unfold_locales
    (auto simp: handler_defs CtxSet_identity [OF identity_keys(1)]
      split: if_splits prod.splits sum.splits)

lemma csrf_ctx_identity:
  "same_identity r (WithContext r (WithValue (WithValue (req_ctx r) CSRF_TOKEN_KEY v) CSRF_VALID_KEY u))"
  using identity_keys(2,3) by (auto simp: same_identity_def WithValue_def)

interpretation csrf_guard: identity_guard "CSRFMiddleware j" "CSRF_decide j" for j
  by unfold_locales
    (auto simp: handler_defs csrf_ctx_identity split: if_splits prod.splits option.splits)

interpretation length_guard: identity_guard "MaxContentLengthMiddleware env n" "MaxContentLength_decide (content_limit env n)"
  for env n
  by unfold_locales
    (auto simp: handler_defs same_identity_def split: if_splits)

interpretation headers_guard: identity_guard SecurityHeadersMiddleware SecurityHeaders_decide
  by unfold_locales (auto simp: handler_defs)

interpretation request_id_guard: identity_guard RequestIDMiddleware RequestID_decide
proof
  fix nxt :: "('a proc_scheme) handler" and req w s r' w' s'
  show "RequestIDMiddleware nxt req w s = middleware_of RequestID_decide nxt req w s"
    by (simp add: RequestIDMiddleware_def RequestID_decide_def middleware_of_def Let_def split_beta)
  show "same_identity req r'" if "RequestID_decide req w (s :: 'a proc_scheme) = Continue r' w' s'"
    using that by (auto simp: RequestID_decide_def Let_def split_beta same_identity_def WithValue_def Header_Set_def
        key_defs split: if_splits)
qed

interpretation source_guard: guard ClientSourceMiddleware ClientSource_decide
  by unfold_locales (simp add: handler_defs middleware_of_def)

interpretation auth_guard: guard "auth_Middleware v" "auth_decide v" for v
  by unfold_locales (simp add: handler_defs)

interpretation old_auth_guard: guard "AuthMiddleware v" "AuthMiddleware_decide v" for v
  by unfold_locales (simp add: handler_defs)

section \<open>Chains\<close>

lemma wrap_all_append: "wrap_all c (xs @ ys) = wrap_all (wrap_all c xs) ys"
  by (induction xs arbitrary: c) simp_all

lemma Chain_Nil [simp]: "Chain f [] = f"
  by (simp add: Chain_def)

lemma Chain_Cons: "Chain f (mw # mws) = mw (Chain f mws)"
  by (simp add: Chain_def wrap_all_append)

lemma Chain_append: "Chain f (xs @ ys) = Chain (Chain f ys) xs"
  by (induction xs) (simp_all add: Chain_Cons)

lemma middleware_of_cong: "decide req w s = Respond w' s' \<Longrightarrow> middleware_of decide f req w s = middleware_of decide g req w s"
  by (simp add: middleware_of_def)

lemma chain_decided: "Chain f (map middleware_of ds) req w s =
    (case chain_decide ds req w s of Respond w' s' \<Rightarrow> (w', s') | Continue req' w' s' \<Rightarrow> f req' w' s')"
  by (induction ds arbitrary: req w s) (simp_all add: Chain_Cons middleware_of_def split: verdict.splits)

text \<open>The handler behind a chain matters only when every decision passes the request on.\<close>

lemma Chain_differs:
  assumes "Chain f (map middleware_of ds) req w s \<noteq> Chain g (map middleware_of ds) req w s"
  obtains req' w' s' where "chain_decide ds req w s = Continue req' w' s'"
  using assms by (auto simp: chain_decided split: verdict.splits)

definition keeps_identity :: "'s decision \<Rightarrow> bool" where
  "keeps_identity d \<longleftrightarrow> (\<forall>req w s r' w' s'. d req w s = Continue r' w' s' \<longrightarrow> same_identity req r')"

lemma chain_keeps_identity:
  "\<forall>d \<in> set ds. keeps_identity d \<Longrightarrow> chain_decide ds req w s = Continue r' w' s' \<Longrightarrow> same_identity req r'"
proof (induction ds arbitrary: req w s)
  case Nil
  then show ?case by simp
next
  case (Cons d ds)
  then obtain r1 w1 s1 where "d req w s = Continue r1 w1 s1" "chain_decide ds r1 w1 s1 = Continue r' w' s'"
    by (auto split: verdict.splits)
  moreover have "same_identity req r1" using Cons.prems(1) calculation(1) by (simp add: keeps_identity_def) blast
  moreover have "same_identity r1 r'" using Cons.IH [OF _ calculation(2)] Cons.prems(1) by simp
  ultimately show ?case by (blast intro: same_identity_trans)
qed

lemma chain_decide_append:
  "chain_decide (xs @ ys) req w s =
     (case chain_decide xs req w s of Respond w' s' \<Rightarrow> Respond w' s' | Continue r' w' s' \<Rightarrow> chain_decide ys r' w' s')"
  by (induction xs arbitrary: req w s) (auto split: verdict.splits)

text \<open>Every guard of the SDK keeps the identity, so a chain of them does.\<close>

lemma sdk_guards_keep_identity:
  "keeps_identity RequireServiceScope_decide" "keeps_identity (RequireAnyScope_decide scopes)"
  "keeps_identity (RateLimiter_decide pf)" "keeps_identity IPAccess_decide" "keeps_identity (Idempotency_decide rc j)"
  "keeps_identity (CSRF_decide j)" "keeps_identity (MaxContentLength_decide (content_limit env n))"
  "keeps_identity SecurityHeaders_decide" "keeps_identity RequestID_decide"
  by (simp_all only: keeps_identity_def, meson scope_guard.keeps_identity, meson any_scope_guard.keeps_identity,
      meson limiter_guard.keeps_identity, meson ip_guard.keeps_identity, meson idem_guard.keeps_identity,
      meson csrf_guard.keeps_identity, meson length_guard.keeps_identity, meson headers_guard.keeps_identity,
      meson request_id_guard.keeps_identity)

lemma auth_decide_Continue:
  assumes "auth_decide verify req w s = Continue r' w' s'"
  obtains token cl where "ExtractTokenFromRequest req = Some token" "verify token s = (Inr cl, s')"
    "r' = WithContext req (claims_ctx cl (req_ctx req))"
  using assms by (auto simp: auth_decide_def split: option.splits prod.splits sum.splits)

lemma claims_ctx_scopes:
  "claims_ctx cl c SCOPES_KEY = (if cl_Scopes cl = [] then c SCOPES_KEY else Some (CStrs (cl_Scopes cl)))"
  by (auto simp: claims_ctx_def set_if_def WithValue_def key_defs Let_def)

lemma RequireServiceScope_Continue:
  assumes "RequireServiceScope_decide req w s = Continue r' w' s'"
  obtains scopes where "req_ctx req SCOPES_KEY = Some (CStrs scopes)" "\<exists>x \<in> set scopes. HasPrefix x ''svc:''"
  using assms by (auto simp: RequireServiceScope_decide_def list_ex_iff split: option.splits ctxval.splits if_splits)

text \<open>What it takes to get through authentication, identity-keeping guards and the service scope.\<close>

lemma service_route_token:
  assumes "\<forall>d \<in> set ds. keeps_identity d" and "req_ctx req SCOPES_KEY = None"
    and "chain_decide (auth_decide verify # ds @ [RequireServiceScope_decide]) req w s = Continue r' w' s'"
  obtains token cl s1 where "ExtractTokenFromRequest req = Some token" "verify token s = (Inr cl, s1)"
    "\<exists>x \<in> set (cl_Scopes cl). HasPrefix x ''svc:''"
proof -
  obtain r1 w1 s1 where a: "auth_decide verify req w s = Continue r1 w1 s1"
    and rest: "chain_decide (ds @ [RequireServiceScope_decide]) r1 w1 s1 = Continue r' w' s'"
    using assms(3) by (auto split: verdict.splits)
  then obtain r2 w2 s2 where m: "chain_decide ds r1 w1 s1 = Continue r2 w2 s2"
    and sc: "RequireServiceScope_decide r2 w2 s2 = Continue r' w' s'"
    by (auto simp: chain_decide_append split: verdict.splits)
  obtain token cl where t: "ExtractTokenFromRequest req = Some token" "verify token s = (Inr cl, s1)"
    "r1 = WithContext req (claims_ctx cl (req_ctx req))" by (rule auth_decide_Continue [OF a])
  obtain scopes where s: "req_ctx r2 SCOPES_KEY = Some (CStrs scopes)" "\<exists>x \<in> set scopes. HasPrefix x ''svc:''"
    by (rule RequireServiceScope_Continue [OF sc])
  have "req_ctx r2 SCOPES_KEY = req_ctx r1 SCOPES_KEY"
    using chain_keeps_identity [OF assms(1) m] by (simp add: same_identity_def)
  then have "cl_Scopes cl = scopes" using s t(3) assms(2) by (simp add: claims_ctx_scopes split: if_splits)
  with that t s show thesis by blast
qed

text \<open>The verifier of the process; a fetch of keys takes \<open>d\<close>.\<close>

definition jwks_verifier ::
  "jwt_lib \<Rightarrow> endpoint \<Rightarrow> (string \<Rightarrow> jwk list option) \<Rightarrow> duration \<Rightarrow> ('r, 'a) sdk_scheme verifier" where
  "jwks_verifier lib net decode d token s =
     (case Verify lib net decode (p_now s) (p_now s + d) token (sdk_verifier s) of
        (r, v) \<Rightarrow> (r, s\<lparr>sdk_verifier := v\<rparr>))"

section \<open>Properties\<close>

text \<open>
  C13: A chain built by \<open>Chain\<close> applies its middlewares in the order they are listed: their decisions are taken
  one after the other on what the previous one passed on, the first answer ends the request, and the handler
  runs, once, on what the last one passed on, exactly when all of them pass it on.
\<close>
theorem Chain_in_order:
  "Chain f (map middleware_of ds) req w s =
     (case chain_decide ds req w s of Respond w' s' \<Rightarrow> (w', s') | Continue req' w' s' \<Rightarrow> f req' w' s')"
  by (rule chain_decided)

text \<open>
  C12: A state-changing request reaches the handler behind \<open>CSRFMiddleware\<close> only if the context names it an API
  client or its \<open>X-CSRF-Token\<close> header repeats a non-empty \<open>csrf_token\<close> cookie (double submit): otherwise the
  answer does not depend on the handler. It is 500 when the request has no token in its cookie and none could be issued
  (the random source failed), and 400 in every other case. The writer is one on which nothing has been written yet.
\<close>
theorem CSRF_double_submit:
  assumes "req_method req \<in> {''POST'', ''PUT'', ''PATCH'', ''DELETE''}"
    and "req_ctx req CLIENT_TYPE_KEY \<noteq> Some (CStr ''api'')"
    and "\<not> (\<exists>v. v \<noteq> [] \<and> req_Cookie req COOKIE_CSRF_TOKEN = Some v \<and>
               Header_Get (req_header req) HEADER_X_CSRF_TOKEN = v)"
    and "w_status w = None" and "w_body w = []"
  shows "\<exists>w' s'. (\<forall>nxt. CSRFMiddleware j nxt req w s = (w', s')) \<and>
    (if req_Cookie req COOKIE_CSRF_TOKEN \<in> {None, Some []} \<and> fst (csrf_GenerateToken s) = None
     then is_error_response w' 500 (ec_ID Global_Internal) else is_error_response w' 400 (ec_ID Global_BadRequest))"
proof -
  obtain t w1 s1 where e: "csrf_ensureToken w req s = ((t, w1), s1)" by (metis prod.exhaust)
  have w1: "w_status w1 = None" "w_body w1 = []"
    using e assms(4,5) by (auto simp: csrf_ensureToken_def csrf_setCookie_def wtr_AddHeader_def
        split: option.splits if_splits prod.splits)
  have invalid: "\<not> isValidCSRF req (Header_Get (req_header req) HEADER_X_CSRF_TOKEN)"
    using assms(3) by (auto simp: isValidCSRF_def split: option.splits)
  let ?ec = "case t of None \<Rightarrow> Global_Internal | Some _ \<Rightarrow> Global_BadRequest"
  let ?d = "case t of None \<Rightarrow> ''failed to issue csrf token'' | Some _ \<Rightarrow> ''invalid CSRF token''"
  have d: "CSRF_decide j req w s = Respond (SendError (p_now s1) w1 req ?ec [WithDetail ?d]) s1"
    using assms(1,2) invalid by (auto simp: CSRF_decide_def e split: option.splits)
  have "is_error_response (SendError (p_now s1) w1 req ?ec [WithDetail ?d]) (ec_Status ?ec) (ec_ID ?ec)"
    by (rule SendError_fresh) (simp_all add: w1)
  moreover have "t = None \<longleftrightarrow> req_Cookie req COOKIE_CSRF_TOKEN \<in> {None, Some []} \<and> fst (csrf_GenerateToken s) = None"
  proof (cases "req_Cookie req COOKIE_CSRF_TOKEN")
    case None
    with e show ?thesis by (auto simp: csrf_ensureToken_def split: option.splits prod.splits)
  next
    case (Some v)
    show ?thesis
    proof (cases "v = []")
      case True
      with e Some show ?thesis by (auto simp: csrf_ensureToken_def split: option.splits prod.splits)
    next
      case False
      then have "t = Some v" using e Some by (simp add: csrf_ensureToken_def)
      with Some False show ?thesis by simp
    qed
  qed
  ultimately show ?thesis
    using csrf_guard.answers_alone [OF d]
    by (auto simp: Global_Internal_def Global_BadRequest_def mk_code_def split: option.splits if_splits)
qed

definition sample_sdk :: "unit sdk" where
  "sample_sdk = \<lparr>p_now = 0, p_env = (\<lambda>_. []), p_rand = (\<lambda>_ n. Some (replicate n CHR ''x'')), p_draws = 0,
     sdk_proxy = \<lparr>depthLoaded = True, trustedProxyDepth = 0\<rparr>, sdk_rl = rl_init,
     sdk_store = \<lparr>s_cache = LocalCache Map.empty, s_ttl = 300\<rparr>, sdk_ip = None, sdk_verifier = sample_verifier\<rparr>"

theorem CSRF_double_submit_witness:
  "\<exists>w' s'. \<forall>nxt. CSRFMiddleware None nxt (sample_request\<lparr>req_method := ''POST''\<rparr>) fresh_writer sample_sdk = (w', s')"
  using CSRF_double_submit [of "sample_request\<lparr>req_method := ''POST''\<rparr>" fresh_writer None sample_sdk]
  by (auto simp: sample_request_def fresh_writer_def req_Cookie_def readCookies_def)

text \<open>
  Behind \<open>ClientSourceMiddleware\<close> the exemption rests on unverified headers: a state-changing request with
  any \<open>Authorization\<close> value and neither \<open>Referer\<close> nor \<open>Cookie\<close> passes \<open>CSRFMiddleware\<close> without a token.
\<close>
theorem CSRF_exempts_unverified:
  assumes "req_method req \<in> {''POST'', ''PUT'', ''PATCH'', ''DELETE''}"
    and "Header_Get (req_header req) ''Authorization'' \<noteq> []"
    and "Header_Get (req_header req) ''Referer'' = []" and "Header_Get (req_header req) ''Cookie'' = []"
    and "csrf_ensureToken w req s = ((Some t, w1), s1)"
  shows "\<exists>req'. Chain f [ClientSourceMiddleware, CSRFMiddleware j] req w s = f req' w1 s1 \<and>
    req_ctx req' CSRF_VALID_KEY = Some (CBool True)"
proof -
  define r where "r = WithContext req (WithValue (req_ctx req) CLIENT_TYPE_KEY (CStr ClientTypeAPI))"
  have cs: "ClientSource_decide req w s = Continue r w s"
    using assms(2-4) by (simp add: ClientSource_decide_def r_def)
  have e: "csrf_ensureToken w r s = ((Some t, w1), s1)"
    using assms(5) by (simp add: csrf_ensureToken_def req_Cookie_def r_def)
  have c: "req_ctx r CLIENT_TYPE_KEY = Some (CStr ''api'')" "req_method r = req_method req"
    by (simp_all add: r_def ClientTypeAPI_def)
  obtain r' where "CSRF_decide j r w s = Continue r' w1 s1" "req_ctx r' CSRF_VALID_KEY = Some (CBool True)"
    using assms(1) c by (simp add: CSRF_decide_def e)
  then show ?thesis
    by (auto simp: Chain_Cons source_guard.passes_on [OF cs] csrf_guard.passes_on)
qed

theorem CSRF_exempts_unverified_witness:
  "\<exists>w1 s1. Chain (\<lambda>req w s. (wtr_WriteHeader w 200, s)) [ClientSourceMiddleware, CSRFMiddleware None]
     (sample_request\<lparr>req_method := ''POST'', req_header := [''Authorization'' \<mapsto> [''junk'']]\<rparr>) fresh_writer sample_sdk =
     (wtr_WriteHeader w1 200, s1)"
proof -
  let ?r = "sample_request\<lparr>req_method := ''POST'', req_header := [''Authorization'' \<mapsto> [''junk'']]\<rparr>"
  have h: "Header_Get (req_header ?r) ''Authorization'' \<noteq> []" "Header_Get (req_header ?r) ''Referer'' = []"
    "Header_Get (req_header ?r) ''Cookie'' = []"
    by (simp_all add: Header_Get_def)
  obtain t w1 s1 where "csrf_ensureToken fresh_writer ?r sample_sdk = ((Some t, w1), s1)"
    by (simp add: csrf_ensureToken_def req_Cookie_def readCookies_def csrf_GenerateToken_def token_Hex_def token_Bytes_def
        rand_Read_def sample_sdk_def)
  from CSRF_exempts_unverified [OF _ h this, of "\<lambda>req w s. (wtr_WriteHeader w 200, s)" None] show ?thesis
    by auto
qed

text \<open>
  \<open>MaxContentLengthMiddleware\<close> answers a request whose declared length is over the limit with status 413,
  but only the first of its three overrides takes effect: the message is that of the 400 code and the detail is
  empty. A body that is passed on delivers at most the limit.
\<close>
theorem MaxContentLength_response:
  assumes "w_status w = None" and "w_body w = []"
  shows "if content_limit env n < req_contentLength req
    then \<exists>w' er. (\<forall>nxt. MaxContentLengthMiddleware env n nxt req w s = (w', s)) \<and> w_status w' = Some 413 \<and>
           w_body w' = [ErrorJSON er] \<and> er_Message er = ec_Message Global_BadRequest \<and> er_Detail er = []
    else \<exists>req'. (\<forall>nxt. MaxContentLengthMiddleware env n nxt req w s = nxt req' w s) \<and>
           (\<forall>b. req_body req' = Some b \<longrightarrow>
              (case b of Body t \<Rightarrow> req_body req = Some (Body t) \<and> int (length t) \<le> content_limit env n
                       | BrokenBody t \<Rightarrow> int (length t) \<le> max 0 (content_limit env n)))"
proof (cases "content_limit env n < req_contentLength req")
  case True
  with assms show ?thesis
    by (simp add: MaxContentLengthMiddleware_def MaxContentLength_decide_def middleware_of_def SendError_def Let_def
        override_defs)
next
  case False
  let ?r = "req\<lparr>req_body := MaxBytesReader (req_body req) (content_limit env n)\<rparr>"
  have "MaxContentLengthMiddleware env n nxt req w s = nxt ?r w s" for nxt
    using False by (simp add: MaxContentLengthMiddleware_def MaxContentLength_decide_def middleware_of_def)
  moreover have "case b of Body t \<Rightarrow> req_body req = Some (Body t) \<and> int (length t) \<le> content_limit env n
      | BrokenBody t \<Rightarrow> int (length t) \<le> max 0 (content_limit env n)" if "req_body ?r = Some b" for b
    using that by (cases "req_body req"; cases "the (req_body req)") (auto simp: MaxBytesReader_def split: if_splits)
  ultimately show ?thesis unfolding if_not_P [OF False] by blast
qed

theorem MaxContentLength_response_witness:
  "\<exists>w'. \<forall>nxt. MaxContentLengthMiddleware (\<lambda>_. []) 10 nxt (sample_request\<lparr>req_contentLength := 11\<rparr>) fresh_writer sample_sdk =
     (w', sample_sdk)"
  using MaxContentLength_response [of fresh_writer "\<lambda>_. []" 10 "sample_request\<lparr>req_contentLength := 11\<rparr>" sample_sdk]
  by (auto simp: fresh_writer_def content_limit_def)

text \<open>
  A request over the rate limit is answered with 429 and never reaches the handler, but a wait of at most a quarter of a
  second (under the default 10 requests per second every wait) is advertised as \<open>Retry-After: 0\<close>.
\<close>
theorem RateLimiter_retry_after_zero:
  assumes "Allow pf (p_env s) (p_now s) (fst (GetClientKey (p_env s) (sdk_proxy s) req)) (sdk_rl s) = ((False, wait, None), rl')"
    and "0 < wait" and "4 * wait \<le> Second" and "w_status w = None" and "w_body w = []"
  shows "\<exists>w' s'. (\<forall>nxt. RateLimiterMiddleware pf nxt req w s = (w', s')) \<and> sdk_rl s' = rl' \<and>
    is_error_response w' 429 (ec_ID Global_TooManyRequests) \<and> Header_Get (w_header w') ''Retry-After'' = ''0''"
proof -
  have quarter: "is_f64 (1 / 4)" "is_f64 (3 / 4)" using fl_exact [of 1 "-2"] fl_exact [of 3 "-2"]
    by (simp_all add: is_f64_def pow2_def)
  have "(of_int wait :: rat) / 1000000000 \<le> 1 / 4" using assms(3) by (simp add: Second_def)
  moreover have q: "quot wait Second = 0" "rem_trunc wait Second = wait"
    using assms(2,3) by (simp_all add: quot_def rem_trunc_def Second_def)
  ultimately have "Seconds wait \<le> 1 / 4"
    using fl_le_f64 [OF _ quarter(1)] by (simp add: Seconds_def)
  then have "fl (Seconds wait + 1 / 2) \<le> 3 / 4" by (intro fl_le_f64 [OF _ quarter(2)]) simp
  moreover have "0 \<le> fl (Seconds wait + 1 / 2)" using Seconds_nonneg [of wait] assms(2) by (intro fl_nonneg) simp
  ultimately have z: "trunc (fl (Seconds wait + 1 / 2)) = 0" by (subst trunc_nonneg) (simp_all add: floor_eq_iff)
  have i0: "Itoa 0 = ''0''" by code_simp
  obtain k px where g: "GetClientKey (p_env s) (sdk_proxy s) req = (k, px)" by fastforce
  let ?w = "wtr_SetHeader w ''Retry-After'' ''0''"
  let ?r = "SendError (p_now s) ?w req Global_TooManyRequests [WithDetail ''rate limit exceeded'']"
  have d: "RateLimiter_decide pf req w s = Respond ?r (s\<lparr>sdk_proxy := px, sdk_rl := rl'\<rparr>)"
    using assms(1,2) by (simp add: RateLimiter_decide_def g z i0)
  have "is_error_response ?r (ec_Status Global_TooManyRequests) (ec_ID Global_TooManyRequests)"
    by (rule SendError_fresh) (simp_all add: assms(4,5))
  moreover have "Header_Get (w_header ?r) ''Retry-After'' = ''0''"
    by (simp add: SendError_def Let_def Header_Get_Set)
  ultimately show ?thesis
    using limiter_guard.answers_alone [OF d] by (auto simp: Global_TooManyRequests_def mk_code_def)
qed

theorem RateLimiter_retry_after_zero_witness:
  "\<exists>w' s'. (\<forall>nxt. RateLimiterMiddleware (\<lambda>_. None) nxt sample_request fresh_writer
       (sample_sdk\<lparr>sdk_rl := rl_init\<lparr>buckets := [''10.0.0.1'' \<mapsto> \<lparr>b_tokens = 0, b_last = Some 0, b_created = 0\<rparr>]\<rparr>\<rparr>) = (w', s')) \<and>
     Header_Get (w_header w') ''Retry-After'' = ''0''"
proof -
  let ?rl = "rl_init\<lparr>buckets := [''10.0.0.1'' \<mapsto> \<lparr>b_tokens = 0, b_last = Some 0, b_created = 0\<rparr>]\<rparr>"
  let ?s = "sample_sdk\<lparr>sdk_rl := ?rl\<rparr>"
  have k: "fst (GetClientKey (p_env ?s) (sdk_proxy ?s) sample_request) = ''10.0.0.1''"
    by (simp add: sample_sdk_def) code_simp
  have wf: "wait_for 1 10 = 100000000" by code_simp
  have "fst (Allow (\<lambda>_. None) (p_env ?s) 0 ''10.0.0.1'' ?rl) = (False, 100000000, None)"
    by (simp add: Allow_def loadEnv_def loadCfg_def Let_def sample_sdk_def rl_init_def TrimSpace_def env_float_def getBucket_def
       startBucketEvictor_def bucket_allow_def refill_def Seconds_def quot_def rem_trunc_def wf ToLower_def)
  then obtain rl' where "Allow (\<lambda>_. None) (p_env ?s) (p_now ?s)
      (fst (GetClientKey (p_env ?s) (sdk_proxy ?s) sample_request)) (sdk_rl ?s) = ((False, 100000000, None), rl')"
    unfolding k by (cases "Allow (\<lambda>_. None) (p_env ?s) 0 ''10.0.0.1'' ?rl") (simp add: sample_sdk_def)
  from RateLimiter_retry_after_zero [OF this, of fresh_writer] show ?thesis
    by (auto simp: Second_def fresh_writer_def)
qed

end
