(* ===== verification/TtlCache.thy ===== *)
theory TtlCache
  imports Prelude
begin

text \<open>
  The contract of the SDK's in-process caches with a time to live: the secret cache of
  \<open>aws/secretsmanager\<close>, the ban cache of \<open>security/bannedcustomers\<close> and the probe cache of
  \<open>api/handlers/health\<close>. A client that reads and writes in time order sees, for every key, the value
  of the last write while it is no older than the TTL, and nothing otherwise; evicting expired
  entries changes no answer.
\<close>

section \<open>Entries with an expiry\<close>

type_synonym ('k, 'v) expiring = "'k \<rightharpoonup> 'v \<times> instant"

text \<open>The test \<open>!ok || time.Now().After(e.expiresAt)\<close>.\<close>

definition fresh :: "('k, 'v) expiring \<Rightarrow> instant \<Rightarrow> 'k \<Rightarrow> 'v option" where
  "fresh m now k = (case m k of None \<Rightarrow> None | Some (v, expiresAt) \<Rightarrow> if now > expiresAt then None else Some v)"

lemma fresh_update [simp]:
  "fresh (m(k \<mapsto> (v, e))) now k' = (if k' = k then (if now > e then None else Some v) else fresh m now k')"
  by (simp add: fresh_def)

lemma fresh_empty [simp]: "fresh Map.empty now k = None"
  by (simp add: fresh_def)

lemma fresh_sweep:
  "t \<le> t' \<Longrightarrow> fresh (map_sweep (\<lambda>(v, e). t > e) m) t' k = fresh m t' k"
  by (auto simp: fresh_def map_sweep_def split: option.splits)

lemma fresh_del:
  "fresh m t k = None \<Longrightarrow> t \<le> t' \<Longrightarrow> fresh (map_del k m) t' k' = fresh m t' k'"
  by (auto simp: fresh_def split: option.splits if_splits)

section \<open>The contract\<close>

datatype ('k, 'v) cache_op = CGet instant 'k | CSet instant 'k 'v

fun op_time :: "('k, 'v) cache_op \<Rightarrow> instant" where
  "op_time (CGet t k) = t"
| "op_time (CSet t k v) = t"

text \<open>The specification: the last write of a key in a sequence of operations.\<close>

fun last_set :: "'k \<Rightarrow> ('k, 'v) cache_op list \<Rightarrow> (instant \<times> 'v) option" where
  "last_set k [] = None"
| "last_set k (CGet t k' # ops) = last_set k ops"
| "last_set k (CSet t k' v # ops) =
     (case last_set k ops of Some w \<Rightarrow> Some w | None \<Rightarrow> if k' = k then Some (t, v) else None)"

locale ttl_cache =
  fixes get :: "'c \<Rightarrow> instant \<Rightarrow> 'k \<Rightarrow> 'v option \<times> 'c"
    and set :: "'c \<Rightarrow> instant \<Rightarrow> 'k \<Rightarrow> 'v \<Rightarrow> 'c"
    and ttl :: "'c \<Rightarrow> duration"
  assumes get_set: "t \<le> t' \<Longrightarrow> fst (get (set c t k v) t' k') =
      (if k' = k then (if t' \<le> t + ttl c then Some v else None) else fst (get c t' k'))"
    and get_get: "t \<le> t' \<Longrightarrow> fst (get (snd (get c t k)) t' k') = fst (get c t' k')"
    and ttl_set [simp]: "ttl (set c t k v) = ttl c"
    and ttl_get [simp]: "ttl (snd (get c t k)) = ttl c"
begin

fun run :: "('k, 'v) cache_op list \<Rightarrow> 'c \<Rightarrow> 'c" where
  "run [] c = c"
| "run (CGet t k # ops) c = run ops (snd (get c t k))"
| "run (CSet t k v # ops) c = run ops (set c t k v)"

lemma ttl_run [simp]: "ttl (run ops c) = ttl c"
  by (induction ops c rule: run.induct) simp_all

text \<open>In time order, a read returns the last write while it is fresh.\<close>

lemma get_run:
  assumes "\<forall>opn \<in> List.set ops. op_time opn \<le> t"
  shows "fst (get (run ops c) t k) =
    (case last_set k ops of
       Some (t0, v) \<Rightarrow> if t \<le> t0 + ttl c then Some v else None
     | None \<Rightarrow> fst (get c t k))"
  using assms
  by (induction ops c rule: run.induct) (auto simp: get_set get_get split: option.splits)

text \<open>No read ever returns a value that was not written, or one older than the TTL.\<close>

lemma get_run_sound:
  assumes "\<forall>opn \<in> List.set ops. op_time opn \<le> t" and "\<And>k. fst (get c t k) = None"
    and "fst (get (run ops c) t k) = Some v"
  shows "\<exists>t0. last_set k ops = Some (t0, v) \<and> t \<le> t0 + ttl c"
  using assms get_run [OF assms(1), of c k] by (auto split: option.splits if_splits)

text \<open>Reading through the cache: what a client gets right after it filled a miss.\<close>

lemma get_after_set:
  "t \<le> t' \<Longrightarrow> t' \<le> t + ttl c \<Longrightarrow> fst (get (set c t k v) t' k) = Some v"
  by (simp add: get_set)

lemma get_expired:
  "t \<le> t' \<Longrightarrow> t + ttl c < t' \<Longrightarrow> fst (get (set c t k v) t' k) = None"
  by (simp add: get_set)

end

text \<open>A cache with a background loop that drops expired entries.\<close>

locale evicting_cache = ttl_cache get set ttl
  for get :: "'c \<Rightarrow> instant \<Rightarrow> 'k \<Rightarrow> 'v option \<times> 'c" and set ttl +
  fixes evict :: "'c \<Rightarrow> instant \<Rightarrow> 'c"
  assumes get_evict: "t \<le> t' \<Longrightarrow> fst (get (evict c t) t' k) = fst (get c t' k)"
    and ttl_evict [simp]: "ttl (evict c t) = ttl c"
begin

text \<open>An eviction before a run of operations is invisible to every later read.\<close>

lemma get_run_evict:
  assumes "\<forall>opn \<in> List.set ops. op_time opn \<le> t" and "te \<le> t"
  shows "fst (get (run ops (evict c te)) t k) = fst (get (run ops c) t k)"
  using get_run [OF assms(1), of _ k] assms(2) by (simp add: get_evict split: option.splits)

end

end
