(* ===== verification/Secrets.thy ===== *)
theory Secrets
  imports TtlCache GoStrings "HOL-Library.AList"
begin

text \<open>
  Package \<open>aws/secretsmanager\<close>: the secret cache, \<open>GetSecret\<close>, \<open>GetSecrets\<close> and the watch loop. The AWS
  API is an argument \<open>sm\<close> that maps the number of the call and the secret name to the answer, and
  \<open>unmarshal\<close> stands for \<open>json.Unmarshal\<close> into a \<open>map[string]string\<close>. Go maps that are ranged over or
  counted are association lists with distinct keys. The client records the calls it makes;
  \<open>singleflight\<close> runs its function for a single caller, so a sequential run calls it directly.
\<close>

section \<open>The cache\<close>

type_synonym strmap = "(string \<times> string) list"

record secretCache =
  entries :: "(string, string) expiring"
  parsedEntries :: "(string, strmap) expiring"
  sc_ttl :: duration

definition newCache :: "duration \<Rightarrow> secretCache" where
  "newCache ttl = \<lparr>entries = Map.empty, parsedEntries = Map.empty,
                   sc_ttl = (if ttl = 0 then 5 * Minute else ttl)\<rparr>"

definition evict_interval :: "secretCache \<Rightarrow> duration" where
  "evict_interval c = max (quot (sc_ttl c) 2) (30 * Second)"

definition evict :: "secretCache \<Rightarrow> instant \<Rightarrow> secretCache" where
  "evict c now =
     c\<lparr>entries := map_sweep (\<lambda>(v, e). now > e) (entries c),
       parsedEntries := map_sweep (\<lambda>(v, e). now > e) (parsedEntries c)\<rparr>"

definition cache_get :: "secretCache \<Rightarrow> instant \<Rightarrow> string \<Rightarrow> string option" where
  "cache_get c now k = (if sc_ttl c < 0 then None else fresh (entries c) now k)"

definition cache_set :: "secretCache \<Rightarrow> instant \<Rightarrow> string \<Rightarrow> string \<Rightarrow> secretCache" where
  "cache_set c now k v =
     (if sc_ttl c < 0 then c else c\<lparr>entries := (entries c)(k \<mapsto> (v, now + sc_ttl c))\<rparr>)"

definition getParsed :: "secretCache \<Rightarrow> instant \<Rightarrow> string \<Rightarrow> strmap option" where
  "getParsed c now k = (if sc_ttl c < 0 then None else fresh (parsedEntries c) now k)"

definition setParsed :: "secretCache \<Rightarrow> instant \<Rightarrow> string \<Rightarrow> strmap \<Rightarrow> secretCache" where
  "setParsed c now k v =
     (if sc_ttl c < 0 then c else c\<lparr>parsedEntries := (parsedEntries c)(k \<mapsto> (v, now + sc_ttl c))\<rparr>)"

interpretation sec: evicting_cache "\<lambda>c now k. (cache_get c now k, c)" cache_set sc_ttl evict
  by unfold_locales (auto simp: cache_get_def cache_set_def evict_def fresh_sweep)

interpretation par: evicting_cache "\<lambda>c now k. (getParsed c now k, c)" setParsed sc_ttl evict
  by unfold_locales (auto simp: getParsed_def setParsed_def evict_def fresh_sweep)

section \<open>The client\<close>

datatype sm_error =
    InvalidSecretName | NoKeys | InvalidSecretPath | ApiError string | NoStringValue | BadJSON | InvalidRegion
  | AwsConfigError string | InitialLoad sm_error

type_synonym sm_api = "nat \<Rightarrow> string \<Rightarrow> (string, string option) res"

record smClient =
  secretPath :: string
  sm_cache :: secretCache
  sm_calls :: "string list"

record smConfig =
  cfg_Region :: string
  cfg_Endpoint :: string
  cfg_SecretPath :: string
  cfg_Keys :: "string list"
  cfg_CacheTTL :: duration

definition newWithAPI :: "string \<Rightarrow> smClient" where
  "newWithAPI path = \<lparr>secretPath = path, sm_cache = newCache 0, sm_calls = []\<rparr>"

definition GetSecretValue ::
  "sm_api \<Rightarrow> string \<Rightarrow> smClient \<Rightarrow> (sm_error, string) res \<times> smClient" where
  "GetSecretValue sm name c =
     (let c' = c\<lparr>sm_calls := sm_calls c @ [name]\<rparr>
      in (case sm (length (sm_calls c)) name of
            Inl e \<Rightarrow> Inl (ApiError e)
          | Inr None \<Rightarrow> Inl NoStringValue
          | Inr (Some s) \<Rightarrow> Inr s, c'))"

text \<open>\<open>now\<close> is the time of the cache lookup and \<open>now'\<close> that of the answer.\<close>

definition GetSecret ::
  "sm_api \<Rightarrow> instant \<Rightarrow> instant \<Rightarrow> string \<Rightarrow> smClient \<Rightarrow> (sm_error, string) res \<times> smClient" where
  "GetSecret sm now now' name c =
     (if name = [] then (Inl InvalidSecretName, c)
      else (case cache_get (sm_cache c) now name of
              Some v \<Rightarrow> (Inr v, c)
            | None \<Rightarrow>
                (case GetSecretValue sm name c of
                   (Inl e, c') \<Rightarrow> (Inl e, c')
                 | (Inr v, c') \<Rightarrow> (Inr v, c'\<lparr>sm_cache := cache_set (sm_cache c') now' name v\<rparr>))))"

primrec extractKeys :: "strmap \<Rightarrow> string list \<Rightarrow> strmap \<Rightarrow> strmap" where
  "extractKeys al [] result = result"
| "extractKeys al (k # ks) result =
     (case map_of al k of
        Some v \<Rightarrow> extractKeys al ks (AList.update k v result)
      | None \<Rightarrow> extractKeys al ks result)"

definition fetchParsed ::
  "sm_api \<Rightarrow> (string \<Rightarrow> strmap option) \<Rightarrow> instant \<Rightarrow> smClient \<Rightarrow> (sm_error, strmap) res \<times> smClient" where
  "fetchParsed sm unmarshal now' c =
     (case GetSecretValue sm (secretPath c) c of
        (Inl e, c') \<Rightarrow> (Inl e, c')
      | (Inr s, c') \<Rightarrow>
          (case unmarshal s of
             None \<Rightarrow> (Inl BadJSON, c')
           | Some al \<Rightarrow>
               (Inr al, c'\<lparr>sm_cache := setParsed (sm_cache c') now' (secretPath c') al\<rparr>)))"

definition GetSecrets ::
  "sm_api \<Rightarrow> (string \<Rightarrow> strmap option) \<Rightarrow> instant \<Rightarrow> instant \<Rightarrow> string list \<Rightarrow> smClient
     \<Rightarrow> (sm_error, strmap) res \<times> smClient" where
  "GetSecrets sm unmarshal now now' ks c =
     (if ks = [] then (Inl NoKeys, c)
      else if secretPath c = [] then (Inl InvalidSecretPath, c)
      else (case getParsed (sm_cache c) now (secretPath c) of
              Some al \<Rightarrow> (Inr (extractKeys al ks []), c)
            | None \<Rightarrow>
                (case fetchParsed sm unmarshal now' c of
                   (Inl e, c') \<Rightarrow> (Inl e, c')
                 | (Inr al, c') \<Rightarrow> (Inr (extractKeys al ks []), c'))))"

text \<open>\<open>LoadDefaultConfig\<close> of the AWS SDK is the argument \<open>load\<close>: the error it returns, if any.\<close>

definition sm_New ::
  "(string \<Rightarrow> string option) \<Rightarrow> sm_api \<Rightarrow> (string \<Rightarrow> strmap option) \<Rightarrow> instant \<Rightarrow> instant \<Rightarrow> smConfig
     \<Rightarrow> (sm_error, smClient) res" where
  "sm_New load sm unmarshal now now' cfg =
     (if cfg_Region cfg = [] then Inl InvalidRegion
      else (case load (cfg_Region cfg) of
              Some e \<Rightarrow> Inl (AwsConfigError e)
            | None \<Rightarrow>
                (let c = \<lparr>secretPath = cfg_SecretPath cfg, sm_cache = newCache (cfg_CacheTTL cfg), sm_calls = []\<rparr>
                 in if length (cfg_Keys cfg) > 0 then
                      (case GetSecrets sm unmarshal now now' (cfg_Keys cfg) c of
                         (Inl e, _) \<Rightarrow> Inl (InitialLoad e)
                       | (Inr _, c') \<Rightarrow> Inr c')
                    else Inr c)))"

section \<open>The watch loop\<close>

definition pollSecrets ::
  "sm_api \<Rightarrow> (string \<Rightarrow> strmap option) \<Rightarrow> instant \<Rightarrow> string list \<Rightarrow> smClient
     \<Rightarrow> (sm_error, strmap) res \<times> smClient" where
  "pollSecrets sm unmarshal now ks c =
     (case fetchParsed sm unmarshal now c of
        (Inl e, c') \<Rightarrow> (Inl e, c')
      | (Inr al, c') \<Rightarrow> (Inr (extractKeys al ks []), c'))"

text \<open>Indexing a Go map returns the zero value for a missing key.\<close>

definition secretsChanged :: "strmap \<Rightarrow> strmap \<Rightarrow> bool" where
  "secretsChanged prev current \<longleftrightarrow>
     (if length prev \<noteq> length current then True
      else list_ex (\<lambda>(k, v). (case map_of prev k of Some w \<Rightarrow> w | None \<Rightarrow> []) \<noteq> v) current)"

definition Watch_starts :: "duration \<Rightarrow> string list \<Rightarrow> bool \<Rightarrow> smClient \<Rightarrow> bool" where
  "Watch_starts interval ks has_onChange c \<longleftrightarrow>
     \<not> (interval \<le> 0 \<or> length ks = 0 \<or> \<not> has_onChange \<or> secretPath c = [])"

text \<open>One tick of \<open>runWatch\<close>: the maps passed to \<open>onChange\<close>, the new \<open>previous\<close> and the client.\<close>

definition watch_tick ::
  "sm_api \<Rightarrow> (string \<Rightarrow> strmap option) \<Rightarrow> string list \<Rightarrow> instant \<Rightarrow> strmap option \<times> smClient
     \<Rightarrow> strmap list \<times> strmap option \<times> smClient" where
  "watch_tick sm unmarshal ks now pc =
     (case pollSecrets sm unmarshal now ks (snd pc) of
        (Inl e, c') \<Rightarrow> ([], fst pc, c')
      | (Inr current, c') \<Rightarrow>
          ((case fst pc of
              Some previous \<Rightarrow> if secretsChanged previous current then [current] else []
            | None \<Rightarrow> []), Some current, c'))"

primrec runWatch ::
  "sm_api \<Rightarrow> (string \<Rightarrow> strmap option) \<Rightarrow> string list \<Rightarrow> instant list \<Rightarrow> strmap option \<times> smClient
     \<Rightarrow> strmap list \<times> strmap option \<times> smClient" where
  "runWatch sm unmarshal ks [] pc = ([], pc)"
| "runWatch sm unmarshal ks (now # ticks) pc =
     (let (calls, pc') = watch_tick sm unmarshal ks now pc;
          (calls', pc'') = runWatch sm unmarshal ks ticks pc'
      in (calls @ calls', pc''))"

section \<open>Lemmas\<close>

lemma map_of_extractKeys:
  "map_of (extractKeys al ks r) =
     (\<lambda>k. if k \<in> set ks \<and> map_of al k \<noteq> None then map_of al k else map_of r k)"
  by (induction ks arbitrary: r) (auto simp: update_conv' fun_eq_iff split: option.splits)

lemma distinct_extractKeys: "distinct (map fst r) \<Longrightarrow> distinct (map fst (extractKeys al ks r))"
  by (induction ks arbitrary: r) (auto simp: distinct_update split: option.splits)

lemma fetchParsed_cases:
  assumes "fetchParsed sm unmarshal now c = (Inr al, c')"
  obtains s where "sm (length (sm_calls c)) (secretPath c) = Inr (Some s)" and "unmarshal s = Some al"
    and "c' = c\<lparr>sm_calls := sm_calls c @ [secretPath c],
                 sm_cache := setParsed (sm_cache c) now (secretPath c) al\<rparr>"
  using assms by (auto simp: fetchParsed_def GetSecretValue_def Let_def split: sum.splits option.splits prod.splits)

lemma secretsChanged_iff:
  assumes "distinct (map fst p)" and "distinct (map fst c)" and "[] \<notin> snd ` set c"
  shows "secretsChanged p c \<longleftrightarrow> map_of p \<noteq> map_of c"
proof
  assume ch: "secretsChanged p c"
  show "map_of p \<noteq> map_of c"
  proof
    assume eq: "map_of p = map_of c"
    then have "set p = set c" using assms by (metis map_of_eqI set_map_of_compr)
    then have "length p = length c"
      using assms by (metis distinct_card distinct_map length_map)
    with ch obtain k v where "(k, v) \<in> set c" "(case map_of p k of Some w \<Rightarrow> w | None \<Rightarrow> []) \<noteq> v"
      by (auto simp: secretsChanged_def list_ex_iff)
    with eq assms(2) show False by simp
  qed
next
  assume ne: "map_of p \<noteq> map_of c"
  show "secretsChanged p c"
  proof (rule ccontr)
    assume "\<not> secretsChanged p c"
    then have len: "length p = length c"
      and all: "\<And>k v. (k, v) \<in> set c \<Longrightarrow> (case map_of p k of Some w \<Rightarrow> w | None \<Rightarrow> []) = v"
      by (auto simp: secretsChanged_def list_ex_iff split: if_splits)
    have "map_of p k = Some v" if "(k, v) \<in> set c" for k v
      using all [OF that] assms(3) that by (force split: option.splits)
    then have "set c \<subseteq> set p" by (auto dest: map_of_SomeD)
    moreover have "card (set c) = card (set p)"
      using assms len by (metis distinct_card distinct_map)
    ultimately have "set c = set p" by (simp add: card_subset_eq)
    with assms ne show False by (metis map_of_inject_set)
  qed
qed

section \<open>Properties\<close>

text \<open>
  A secret fetched from AWS at time \<open>t1\<close> is answered from the cache, without another API call, by
  every GetSecret up to and including \<open>t1 + ttl\<close>, and is fetched again by the first one after that; the
  cache never serves a value older than its TTL.
\<close>
theorem GetSecret_ttl:
  assumes "GetSecret sm t0 t1 name c = (Inr v, c')" and "cache_get (sm_cache c) t0 name = None"
    and "0 \<le> sc_ttl (sm_cache c)" and "t1 \<le> t"
  shows "GetSecret sm' t t' name c' = (Inr v, c') \<and> t \<le> t1 + sc_ttl (sm_cache c) \<or>
         sm_calls (snd (GetSecret sm' t t' name c')) = sm_calls c @ [name, name] \<and> t > t1 + sc_ttl (sm_cache c)"
proof -
  from assms(1,2) have name: "name \<noteq> []"
    and c': "sm_cache c' = cache_set (sm_cache c) t1 name v" "sm_calls c' = sm_calls c @ [name]"
    by (auto simp: GetSecret_def GetSecretValue_def Let_def split: if_splits sum.splits option.splits)
  have "cache_get (sm_cache c') t name = (if t \<le> t1 + sc_ttl (sm_cache c) then Some v else None)"
    using sec.get_set [OF assms(4)] by (simp add: c')
  then show ?thesis
    using name c' by (auto simp: GetSecret_def GetSecretValue_def Let_def split: if_splits sum.splits option.splits)
qed

theorem GetSecret_ttl_witness:
  "let c = newWithAPI ''app''; sm = (\<lambda>n name. Inr (Some ''s3cret'')); c' = snd (GetSecret sm 0 5 ''db'' c)
   in GetSecret sm 100 101 ''db'' c' = (Inr ''s3cret'', c') \<and>
      sm_calls (snd (GetSecret sm 400000000000 400000000001 ''db'' c')) = [''db'', ''db'']"
proof -
  define c where "c = newWithAPI ''app''"
  define sm :: sm_api where "sm = (\<lambda>n name. Inr (Some ''s3cret''))"
  define c' where "c' = snd (GetSecret sm 0 5 ''db'' c)"
  have g: "GetSecret sm 0 5 ''db'' c = (Inr ''s3cret'', c')" "cache_get (sm_cache c) 0 ''db'' = None"
    "sc_ttl (sm_cache c) = 300000000000" "sm_calls c = []"
    by (simp_all add: c'_def c_def sm_def newWithAPI_def newCache_def GetSecret_def cache_get_def
        GetSecretValue_def duration_defs)
  have "GetSecret sm 100 101 ''db'' c' = (Inr ''s3cret'', c')"
    using GetSecret_ttl [OF g(1,2), of 100 sm 101] g(3,4) by simp
  moreover have "sm_calls (snd (GetSecret sm 400000000000 400000000001 ''db'' c')) = [''db'', ''db'']"
    using GetSecret_ttl [OF g(1,2), of 400000000000 sm 400000000001] g(3,4) by simp
  ultimately show ?thesis by (simp add: c_def sm_def c'_def Let_def)
qed

text \<open>
  On a tick whose poll succeeds, the watch loop calls \<open>onChange\<close> with the current values exactly
  when the watched part of the secret differs from that of the previous successful poll, provided that no
  current value is the empty string.
\<close>
theorem watch_tick_notifies:
  assumes "fetchParsed sm unmarshal now c = (Inr al, c')" and "[] \<notin> snd ` set (extractKeys al ks [])"
  shows "watch_tick sm unmarshal ks now (Some (extractKeys al0 ks []), c) =
    (if map_of (extractKeys al0 ks []) \<noteq> map_of (extractKeys al ks []) then [extractKeys al ks []] else [],
     Some (extractKeys al ks []), c')"
proof -
  have "secretsChanged (extractKeys al0 ks []) (extractKeys al ks []) \<longleftrightarrow>
      map_of (extractKeys al0 ks []) \<noteq> map_of (extractKeys al ks [])"
    using assms(2) by (intro secretsChanged_iff distinct_extractKeys) simp_all
  then show ?thesis using assms(1) by (simp add: watch_tick_def pollSecrets_def)
qed

theorem watch_tick_notifies_witness:
  "fst (watch_tick (\<lambda>_ _. Inr (Some ''x'')) (\<lambda>_. Some [(''K'', ''new'')]) [''K''] 7
     (Some (extractKeys [(''K'', ''old'')] [''K''] []), newWithAPI ''app'')) = [[(''K'', ''new'')]]"
proof -
  obtain c' where f: "fetchParsed (\<lambda>_ _. Inr (Some ''x'')) (\<lambda>_. Some [(''K'', ''new'')]) 7 (newWithAPI ''app'')
      = (Inr [(''K'', ''new'')], c')"
    by (simp add: fetchParsed_def GetSecretValue_def newWithAPI_def)
  show ?thesis using watch_tick_notifies [OF f, of "[''K'']" "[(''K'', ''old'')]"] by (simp add: fun_eq_iff)
qed

text \<open>
  Without that proviso a change is missed: when a watched key with an empty value disappears and
  another key with an empty value appears, the number of keys is the same and indexing the previous map
  with the new key yields the empty string, so the change is not reported.
\<close>
theorem secretsChanged_misses_empty:
  "\<not> secretsChanged (extractKeys [(''A'', [])] [''A'', ''B''] []) (extractKeys [(''B'', [])] [''A'', ''B''] [])
   \<and> map_of (extractKeys [(''A'', [])] [''A'', ''B''] []) \<noteq> map_of (extractKeys [(''B'', [])] [''A'', ''B''] [])"
  by (auto simp: secretsChanged_def fun_eq_iff)

end
