(* ===== verification/BannedCustomers.thy ===== *)
theory BannedCustomers
  imports TtlCache GoStrings
begin

text \<open>
  Package \<open>security/bannedcustomers\<close>: the ban lookup with its optional cache. The DynamoDB client is the
  interface \<open>dynamodb.API\<close>, an argument of the lookup: \<open>BuildKey\<close> returns an error or a key, and
  \<open>GetItemAs\<close> the decoded record, the error \<open>ErrNotFound\<close>, or another error.
\<close>

section \<open>The ban cache\<close>

record banCache =
  bc_ttl :: duration
  bc_m :: "(string, bool) expiring"

definition newBanCache :: "duration \<Rightarrow> banCache" where
  "newBanCache ttl = \<lparr>bc_ttl = ttl, bc_m = Map.empty\<rparr>"

definition bc_get :: "banCache \<Rightarrow> instant \<Rightarrow> string \<Rightarrow> bool option \<times> banCache" where
  "bc_get b now k =
     (case bc_m b k of
        None \<Rightarrow> (None, b)
      | Some (banned, expiresAt) \<Rightarrow>
          if now > expiresAt then (None, b\<lparr>bc_m := map_del k (bc_m b)\<rparr>) else (Some banned, b))"

definition bc_set :: "banCache \<Rightarrow> instant \<Rightarrow> string \<Rightarrow> bool \<Rightarrow> banCache" where
  "bc_set b now k banned = b\<lparr>bc_m := (bc_m b)(k \<mapsto> (banned, now + bc_ttl b))\<rparr>"

lemma fst_bc_get: "fst (bc_get b now k) = fresh (bc_m b) now k"
  by (auto simp: bc_get_def fresh_def split: option.splits)

lemma bc_m_get: "t \<le> t' \<Longrightarrow> fresh (bc_m (snd (bc_get b t k))) t' k' = fresh (bc_m b) t' k'"
  by (auto simp: bc_get_def fresh_def split: option.splits if_splits)

interpretation ban: ttl_cache bc_get bc_set bc_ttl
proof
  fix c t k t' k'
  show "fst (bc_get (snd (bc_get c t k)) t' k') = fst (bc_get c t' k')" if "t \<le> t'"
    using bc_m_get [OF that] by (simp add: fst_bc_get)
  show "bc_ttl (snd (bc_get c t k)) = bc_ttl c"
    by (simp add: bc_get_def split: option.splits)
qed (auto simp: fst_bc_get bc_set_def)

section \<open>The client\<close>

datatype ban_error = EmptyEmail | KeyError string | LookupError string | MissingTable | MissingDB

datatype item_error = ErrNotFound | OtherError string

record banRecord =
  br_Email :: string
  br_ExpiresAt :: int

text \<open>The operations of \<open>dynamodb.API\<close> the lookup uses, with the time at which the read returns.\<close>

record 'k banDB =
  db_BuildKey :: "string \<Rightarrow> string \<Rightarrow> (string, 'k) res"
  db_GetItemAs :: "string \<Rightarrow> 'k \<Rightarrow> (item_error, banRecord) res"

record banClient =
  bn_table :: string
  bn_failOpen :: bool
  bn_cache :: "banCache option"

definition ban_New :: "string \<Rightarrow> bool \<Rightarrow> bool option \<Rightarrow> duration \<Rightarrow> (ban_error, banClient) res" where
  "ban_New tableName hasDB failOpen cacheTTL =
     (if tableName = [] then Inl MissingTable
      else if \<not> hasDB then Inl MissingDB
      else Inr \<lparr>bn_table = tableName,
                bn_failOpen = (case failOpen of None \<Rightarrow> True | Some b \<Rightarrow> b),
                bn_cache = (if cacheTTL > 0 then Some (newBanCache cacheTTL) else None)\<rparr>)"

definition cacheSet :: "instant \<Rightarrow> string \<Rightarrow> bool \<Rightarrow> banClient \<Rightarrow> banClient" where
  "cacheSet now email banned c = c\<lparr>bn_cache := map_option (\<lambda>b. bc_set b now email banned) (bn_cache c)\<rparr>"

definition ban_cached :: "instant \<Rightarrow> string \<Rightarrow> banClient \<Rightarrow> bool option \<times> banClient" where
  "ban_cached now email c =
     (case bn_cache c of
        None \<Rightarrow> (None, c)
      | Some b \<Rightarrow> (let (r, b') = bc_get b now email in (r, c\<lparr>bn_cache := Some b'\<rparr>)))"

definition ban_email :: "string \<Rightarrow> string" where
  "ban_email email = ToLower (TrimSpace email)"

definition IsBanned ::
  "'k banDB \<Rightarrow> instant \<Rightarrow> instant \<Rightarrow> string \<Rightarrow> banClient \<Rightarrow> (ban_error, bool) res \<times> banClient" where
  "IsBanned db now now' rawEmail c =
     (let email = ban_email rawEmail
      in if email = [] then (Inl EmptyEmail, c)
         else
           (case ban_cached now email c of
              (Some banned, c1) \<Rightarrow> (Inr banned, c1)
            | (None, c1) \<Rightarrow>
                (case db_BuildKey db ''email'' email of
                   Inl e \<Rightarrow> (if bn_failOpen c1 then Inr False else Inl (KeyError e), c1)
                 | Inr key \<Rightarrow>
                     (case db_GetItemAs db (bn_table c1) key of
                        Inl ErrNotFound \<Rightarrow> (Inr False, cacheSet now' email False c1)
                      | Inl (OtherError e) \<Rightarrow> (if bn_failOpen c1 then Inr False else Inl (LookupError e), c1)
                      | Inr rec \<Rightarrow>
                          if br_ExpiresAt rec > 0 \<and> br_ExpiresAt rec \<le> Unix now'
                          then (Inr False, cacheSet now' email False c1)
                          else (Inr True, cacheSet now' email True c1)))))"

section \<open>Lemmas\<close>

text \<open>The database's own answer for a normalised e-mail, when it gives one.\<close>

definition db_banned :: "'k banDB \<Rightarrow> string \<Rightarrow> instant \<Rightarrow> string \<Rightarrow> bool option" where
  "db_banned db table now email =
     (case db_BuildKey db ''email'' email of
        Inl e \<Rightarrow> None
      | Inr key \<Rightarrow>
          (case db_GetItemAs db table key of
             Inl ErrNotFound \<Rightarrow> Some False
           | Inl (OtherError e) \<Rightarrow> None
           | Inr rec \<Rightarrow> Some (\<not> (br_ExpiresAt rec > 0 \<and> br_ExpiresAt rec \<le> Unix now))))"

definition failed_result :: "banClient \<Rightarrow> (ban_error, bool) res \<Rightarrow> bool" where
  "failed_result c r \<longleftrightarrow> (if bn_failOpen c then r = Inr False else isl r)"

lemma ban_cached_fields:
  "bn_table (snd (ban_cached now email c)) = bn_table c" "bn_failOpen (snd (ban_cached now email c)) = bn_failOpen c"
  by (simp_all add: ban_cached_def split_beta split: option.splits)

lemma ban_cached_set:
  assumes "t \<le> t'"
  shows "fst (ban_cached t' e (cacheSet t e b c)) =
    (case bn_cache c of None \<Rightarrow> None | Some bc \<Rightarrow> if t' \<le> t + bc_ttl bc then Some b else None)"
  using ban.get_set [OF assms] by (simp add: ban_cached_def cacheSet_def split_beta split: option.splits)

lemma ban_cached_get:
  assumes "t \<le> t'"
  shows "fst (ban_cached t' e (snd (ban_cached t e c))) = fst (ban_cached t' e c)"
  using ban.get_get [OF assms] by (simp add: ban_cached_def split_beta split: option.splits)

lemma ban_cached_ttl:
  "map_option bc_ttl (bn_cache (snd (ban_cached t e c))) = map_option bc_ttl (bn_cache c)"
  by (simp add: ban_cached_def split_beta ban.ttl_get split: option.splits)

lemma ban_cached_expired:
  assumes "t \<le> t'" and "fst (ban_cached t e c) = None"
  shows "fst (ban_cached t' e c) = None"
  using assms by (auto simp: ban_cached_def split_beta fst_bc_get fresh_def split: option.splits if_splits)

lemma IsBanned_miss:
  assumes "ban_email raw \<noteq> []" and "ban_cached now (ban_email raw) c = (None, c1)"
  shows "case db_banned db (bn_table c1) now' (ban_email raw) of
       Some b \<Rightarrow> IsBanned db now now' raw c = (Inr b, cacheSet now' (ban_email raw) b c1)
     | None \<Rightarrow> \<exists>r. IsBanned db now now' raw c = (r, c1) \<and> failed_result c1 r"
  using assms
  by (auto simp: IsBanned_def db_banned_def failed_result_def Let_def split: sum.splits item_error.splits)

section \<open>Properties\<close>

text \<open>
  When the cache has no fresh answer for an e-mail, \<open>IsBanned\<close> answers what the database says
  (banned iff there is a record that has not expired) and serves exactly that answer from the cache until the
  TTL is over; when the lookup fails it answers "not banned" under fail-open and an error otherwise, and
  caches nothing, so an outage is never remembered as an answer.
\<close>
theorem IsBanned_lookup:
  assumes "ban_email raw \<noteq> []" and "fst (ban_cached now (ban_email raw) c) = None"
    and "now \<le> now'" and "now' \<le> t"
  shows "case db_banned db (bn_table c) now' (ban_email raw) of
      Some b \<Rightarrow> fst (IsBanned db now now' raw c) = Inr b \<and>
        fst (ban_cached t (ban_email raw) (snd (IsBanned db now now' raw c))) =
          (case bn_cache c of None \<Rightarrow> None | Some bc \<Rightarrow> if t \<le> now' + bc_ttl bc then Some b else None)
    | None \<Rightarrow> failed_result c (fst (IsBanned db now now' raw c)) \<and>
        fst (ban_cached t (ban_email raw) (snd (IsBanned db now now' raw c))) = None"
proof -
  let ?e = "ban_email raw"
  obtain c1 where c1: "ban_cached now ?e c = (None, c1)" using assms(2) by (metis prod.collapse)
  then have s: "c1 = snd (ban_cached now ?e c)" by simp
  have f: "bn_table c1 = bn_table c" "failed_result c1 = failed_result c"
    by (simp_all add: s ban_cached_fields failed_result_def fun_eq_iff)
  have ttl: "map_option bc_ttl (bn_cache c1) = map_option bc_ttl (bn_cache c)"
    unfolding s by (rule ban_cached_ttl)
  have "fst (ban_cached t ?e c1) = None"
    using ban_cached_get [of now t ?e c] ban_cached_expired [OF _ assms(2), of t] assms(3,4) s by simp
  moreover have "(case bn_cache c1 of None \<Rightarrow> None | Some bc \<Rightarrow> if t \<le> now' + bc_ttl bc then Some b else None) =
      (case bn_cache c of None \<Rightarrow> None | Some bc \<Rightarrow> if t \<le> now' + bc_ttl bc then Some b else None)" for b
    using ttl by (cases "bn_cache c"; cases "bn_cache c1") simp_all
  moreover note miss = IsBanned_miss [OF assms(1) c1, of db now']
  ultimately show ?thesis
    using ban_cached_set [OF assms(4), of ?e _ c1]
    by (cases "db_banned db (bn_table c) now' ?e") (auto simp: f)
qed

theorem IsBanned_lookup_witness:
  "fst (IsBanned \<lparr>db_BuildKey = (\<lambda>_ e. Inr e),
       db_GetItemAs = (\<lambda>_ e. if e = ''a@x.io'' then Inr \<lparr>br_Email = e, br_ExpiresAt = 0\<rparr> else Inl ErrNotFound)\<rparr>
     0 1 '' A@x.IO'' \<lparr>bn_table = ''t'', bn_failOpen = False, bn_cache = Some (newBanCache 60)\<rparr>) = Inr True"
proof -
  have "ban_email '' A@x.IO'' = ''a@x.io''" by code_simp
  then show ?thesis
    using IsBanned_lookup [of "'' A@x.IO''" 0
        "\<lparr>bn_table = ''t'', bn_failOpen = False, bn_cache = Some (newBanCache 60)\<rparr>" 1 1
        "\<lparr>db_BuildKey = (\<lambda>_ e. Inr e),
         db_GetItemAs = (\<lambda>_ e. if e = ''a@x.io'' then Inr \<lparr>br_Email = e, br_ExpiresAt = 0\<rparr> else Inl ErrNotFound)\<rparr>"]
    by (simp add: db_banned_def ban_cached_def bc_get_def newBanCache_def)
qed

end
