(* ===== verification/Health.thy ===== *)
theory Health
  imports TtlCache Http
begin

text \<open>
  Package \<open>api/handlers/health\<close>: the liveness handler and the readiness handler with its cache of probe
  results. A checker is a name and a probe, whose result may depend on the time of the call. The handler
  starts one goroutine per checker; a run is described by the order in which they pass \<open>run\<close> and the
  instants at which each looks up the cache and gets the answer of its probe.
\<close>

section \<open>Checkers\<close>

record checker =
  ck_Name :: string
  ck_Check :: "instant \<Rightarrow> string option" \<comment> \<open>the error, if any\<close>

definition CheckerFunc :: "string \<Rightarrow> (instant \<Rightarrow> string option) \<Rightarrow> checker" where
  "CheckerFunc name fn = \<lparr>ck_Name = name, ck_Check = fn\<rparr>"

definition DynamoDBChecker :: "string \<Rightarrow> (string \<Rightarrow> instant \<Rightarrow> string option) \<Rightarrow> string \<Rightarrow> checker" where
  "DynamoDBChecker name describeTable table = CheckerFunc name (describeTable table)"

definition RedisChecker :: "string \<Rightarrow> (instant \<Rightarrow> string option) \<Rightarrow> checker" where
  "RedisChecker name ping = CheckerFunc name ping"

definition S3Checker :: "string \<Rightarrow> (string \<Rightarrow> instant \<Rightarrow> string option) \<Rightarrow> string \<Rightarrow> checker" where
  "S3Checker name headBucket bucket = CheckerFunc name (headBucket bucket)"

text \<open>\<open>HTTPChecker\<close>: building the request and sending it are the arguments; only a 2xx status is healthy.\<close>

definition HTTPChecker ::
  "(string \<Rightarrow> string option) \<Rightarrow> (string \<Rightarrow> instant \<Rightarrow> (string, int) res) \<Rightarrow> string \<Rightarrow> string \<Rightarrow> checker" where
  "HTTPChecker newRequest send name url =
     CheckerFunc name (\<lambda>t.
       case newRequest url of
         Some e \<Rightarrow> Some (''failed to build health check request: '' @ e)
       | None \<Rightarrow>
           (case send url t of
              Inl e \<Rightarrow> Some (''failed to reach '' @ url @ '': '' @ e)
            | Inr status \<Rightarrow>
                if status < 200 \<or> status \<ge> 300
                then Some (''received non-2xx status '' @ Itoa status @ '' from '' @ url)
                else None))"

section \<open>The readiness handler\<close>

definition defaultCacheTTL :: duration where "defaultCacheTTL = 10 * Second"
definition defaultCheckTimeout :: duration where "defaultCheckTimeout = 3 * Second"

record readyHandler =
  h_checkers :: "checker list"
  h_cacheTTL :: duration
  h_checkTimeout :: duration
  h_cache :: "(string, string option) expiring"

datatype ready_option = WithCacheTTL duration | WithCheckTimeout duration

fun ready_apply :: "ready_option \<Rightarrow> readyHandler \<Rightarrow> readyHandler" where
  "ready_apply (WithCacheTTL d) h = h\<lparr>h_cacheTTL := d\<rparr>"
| "ready_apply (WithCheckTimeout d) h = h\<lparr>h_checkTimeout := d\<rparr>"

definition NewReadyHandler :: "checker list \<Rightarrow> ready_option list \<Rightarrow> readyHandler" where
  "NewReadyHandler checkers opts =
     fold ready_apply opts
       \<lparr>h_checkers = checkers, h_cacheTTL = defaultCacheTTL, h_checkTimeout = defaultCheckTimeout,
        h_cache = Map.empty\<rparr>"

definition cached :: "readyHandler \<Rightarrow> instant \<Rightarrow> string \<Rightarrow> string option option" where
  "cached h now name = fresh (h_cache h) now name"

definition cache_result :: "readyHandler \<Rightarrow> instant \<Rightarrow> string \<Rightarrow> string option \<Rightarrow> readyHandler" where
  "cache_result h now name err = h\<lparr>h_cache := (h_cache h)(name \<mapsto> (err, now + h_cacheTTL h))\<rparr>"

interpretation probe: ttl_cache "\<lambda>h now name. (cached h now name, h)" cache_result h_cacheTTL
  by unfold_locales (auto simp: cached_def cache_result_def)

text \<open>\<open>readyHandler.run\<close>, looking up the cache at \<open>now\<close> and storing the probe's answer at \<open>now'\<close>.\<close>

definition run_check :: "instant \<Rightarrow> instant \<Rightarrow> checker \<Rightarrow> readyHandler \<Rightarrow> string option \<times> readyHandler" where
  "run_check now now' c h =
     (case cached h now (ck_Name c) of
        Some err \<Rightarrow> (err, h)
      | None \<Rightarrow>
          (case cached h now (ck_Name c) of
             Some err \<Rightarrow> (err, h)
           | None \<Rightarrow> (let err = ck_Check c now in (err, cache_result h now' (ck_Name c) err))))"

type_synonym schedule = "(checker \<times> instant \<times> instant) list"

primrec run_all :: "schedule \<Rightarrow> readyHandler \<Rightarrow> (string \<times> string) list \<times> readyHandler" where
  "run_all [] h = ([], h)"
| "run_all (x # xs) h =
     (case x of (c, now, now') \<Rightarrow>
        (let (err, h') = run_check now now' c h;
             (failing, h'') = run_all xs h'
         in ((case err of Some e \<Rightarrow> (ck_Name c, e) # failing | None \<Rightarrow> failing), h'')))"

definition serveHTTP :: "schedule \<Rightarrow> writer \<Rightarrow> readyHandler \<Rightarrow> writer \<times> readyHandler" where
  "serveHTTP sched wtr h =
     (let (failing, h') = run_all sched h;
          w1 = wtr_SetHeader wtr ''Content-Type'' ''application/json''
      in if length failing = 0
         then (wtr_Write (wtr_WriteHeader w1 200) (ObjectJSON [(''status'', ''OK'')]), h')
         else (wtr_Write (wtr_WriteHeader w1 503) (FailingJSON failing), h'))"

definition HealthHandler :: "writer \<Rightarrow> writer" where
  "HealthHandler wtr =
     wtr_Write (wtr_WriteHeader (wtr_SetHeader wtr ''Content-Type'' ''application/json'') 200)
       (ObjectJSON [(''status'', ''OK'')])"

section \<open>Lemmas\<close>

text \<open>What a checker reports: the cached result while it is fresh, otherwise that of its probe.\<close>

definition reported :: "readyHandler \<Rightarrow> checker \<times> instant \<times> instant \<Rightarrow> string option" where
  "reported h = (\<lambda>(c, now, now'). case cached h now (ck_Name c) of Some err \<Rightarrow> err | None \<Rightarrow> ck_Check c now)"

definition failures :: "readyHandler \<Rightarrow> schedule \<Rightarrow> (string \<times> string) list" where
  "failures h xs = List.map_filter (\<lambda>x. map_option (Pair (ck_Name (fst x))) (reported h x)) xs"

lemma run_check_result: "fst (run_check now now' c h) = reported h (c, now, now')"
  by (simp add: run_check_def reported_def Let_def split: option.splits)

lemma reported_run_check:
  "ck_Name (fst x) \<noteq> ck_Name c \<Longrightarrow> reported (snd (run_check now now' c h)) x = reported h x"
  by (auto simp: run_check_def reported_def cached_def cache_result_def Let_def split: option.splits prod.splits)

lemma run_all_failures:
  assumes "distinct (map (ck_Name \<circ> fst) xs)"
  shows "fst (run_all xs h) = failures h xs"
  using assms
proof (induction xs arbitrary: h)
  case Nil
  then show ?case by (simp add: failures_def map_filter_simps)
next
  case (Cons x xs)
  obtain c now now' where x: "x = (c, now, now')" by (cases x)
  let ?h' = "snd (run_check now now' c h)"
  have "reported ?h' y = reported h y" if "y \<in> set xs" for y
    using Cons.prems that x by (intro reported_run_check) force
  then have "failures ?h' xs = failures h xs"
    by (simp add: failures_def List.map_filter_def cong: map_cong filter_cong)
  moreover have "fst (run_all xs ?h') = failures ?h' xs" using Cons by simp
  ultimately show ?case
    by (simp add: x split_beta failures_def map_filter_simps run_check_result split: option.splits)
qed

lemma failures_empty: "failures h xs = [] \<longleftrightarrow> (\<forall>x \<in> set xs. reported h x = None)"
  by (induction xs) (simp_all add: failures_def map_filter_simps split: option.splits)

section \<open>Properties\<close>

text \<open>
  With checkers of distinct names, in whatever order their goroutines run, the readiness handler
  answers 200 exactly when every dependency is reported reachable (by a fresh cached result, or else by its
  probe), and otherwise 503 with exactly the failing dependencies and their errors.
\<close>
theorem ready_response:
  assumes "distinct (map (ck_Name \<circ> fst) sched)"
  shows "let w = fst (serveHTTP sched fresh_writer h) in
    (if \<forall>x \<in> set sched. reported h x = None
     then w_status w = Some 200 \<and> w_body w = [ObjectJSON [(''status'', ''OK'')]]
     else w_status w = Some 503 \<and> w_body w = [FailingJSON (failures h sched)])"
  using run_all_failures [OF assms, of h] failures_empty [of h sched]
  by (simp add: serveHTTP_def split_beta Let_def fresh_writer_def)

theorem ready_response_witness:
  "w_status (fst (serveHTTP [(CheckerFunc ''db'' (\<lambda>t. None), 0, 1), (CheckerFunc ''redis'' (\<lambda>t. Some ''down''), 0, 2)]
     fresh_writer (NewReadyHandler [] []))) = Some 503"
  using ready_response [of "[(CheckerFunc ''db'' (\<lambda>t. None), 0, 1), (CheckerFunc ''redis'' (\<lambda>t. Some ''down''), 0, 2)]"
      "NewReadyHandler [] []"]
  by (simp add: CheckerFunc_def NewReadyHandler_def reported_def cached_def Let_def)

text \<open>
  The cache is keyed by the checker's name alone, so of two checkers registered under one name only
  the first to run is probed and the second reports the first one's result: a readiness endpoint with a
  healthy and a failing dependency of the same name answers 200.
\<close>
theorem ready_same_name_masked:
  assumes "healthy now = None" and "now \<le> t" and "t \<le> now + h_cacheTTL h" and "h_cache h name = None"
  shows "w_status (fst (serveHTTP [(CheckerFunc name healthy, now, now), (CheckerFunc name broken, t, t)]
           fresh_writer h)) = Some 200"
proof -
  have "cached (cache_result h now name None) t name = Some None"
    using probe.get_after_set [of now t h name None] assms by simp
  moreover have "cached h now name = None" using assms by (simp add: cached_def fresh_def)
  ultimately show ?thesis
    using assms by (simp add: serveHTTP_def run_check_def CheckerFunc_def Let_def fresh_writer_def)
qed

theorem ready_same_name_masked_witness:
  "w_status (fst (serveHTTP [(CheckerFunc ''db'' (\<lambda>t. None), 0, 0), (CheckerFunc ''db'' (\<lambda>t. Some ''down''), 1, 1)]
     fresh_writer (NewReadyHandler [] []))) = Some 200"
  by (rule ready_same_name_masked) (simp_all add: NewReadyHandler_def defaultCacheTTL_def Second_def)

end
