(* ===== verification/Breaker.thy ===== *)
theory Breaker
  imports Prelude
begin

text \<open>
  \<open>http/client/circuitbreaker.go\<close>: the per-host circuit breaker. An entry lives at an address, since
  \<open>execute\<close> keeps its pointer across the call it guards while \<open>Prune\<close> may drop the host from the map.
  \<open>execute\<close> is split at the call of \<open>fn\<close> into \<open>admit\<close> (first critical section) and \<open>report\<close> (second one),
  which is how concurrent calls interleave; \<open>execute\<close> composes them for one caller.
\<close>

section \<open>State\<close>

datatype BreakerState = BreakerClosed | BreakerOpen | BreakerHalfOpen

fun BreakerState_String :: "BreakerState \<Rightarrow> string" where
  "BreakerState_String BreakerClosed = ''Closed''"
| "BreakerState_String BreakerOpen = ''Open''"
| "BreakerState_String BreakerHalfOpen = ''HalfOpen''"

record BreakerConfig =
  FailureThreshold :: int
  SuccessThreshold :: int
  OpenTimeout :: duration
  MaxHalfOpenRequests :: int
  MaxHosts :: int

record breakerEntry =
  e_state :: BreakerState
  e_failures :: int
  e_successes :: int
  e_halfOpenInFlight :: int
  e_openedAt :: instant

definition new_entry :: breakerEntry where
  "new_entry = \<lparr>e_state = BreakerClosed, e_failures = 0, e_successes = 0, e_halfOpenInFlight = 0, e_openedAt = 0\<rparr>"

text \<open>\<open>changes\<close> records the calls of \<open>OnStateChange\<close>.\<close>

record breaker =
  bk_cfg :: BreakerConfig
  hosts :: "string \<rightharpoonup> nat"
  heap :: "nat \<Rightarrow> breakerEntry"
  next_addr :: nat
  hostCount :: int
  changes :: "(string \<times> BreakerState \<times> BreakerState) list"

definition DefaultMaxHosts :: int where "DefaultMaxHosts = 1024"

definition newBreaker :: "BreakerConfig \<Rightarrow> breaker" where
  "newBreaker cfg =
     \<lparr>bk_cfg = (if MaxHosts cfg = 0 then cfg\<lparr>MaxHosts := DefaultMaxHosts\<rparr> else cfg),
      hosts = Map.empty, heap = (\<lambda>_. new_entry), next_addr = 0, hostCount = 0, changes = []\<rparr>"

section \<open>Operations\<close>

text \<open>\<open>entryFor\<close>, with nobody else storing the host between \<open>Load\<close> and \<open>LoadOrStore\<close>.\<close>

definition entryFor :: "string \<Rightarrow> breaker \<Rightarrow> nat option \<times> breaker" where
  "entryFor key b =
     (case hosts b key of
        Some a \<Rightarrow> (Some a, b)
      | None \<Rightarrow>
          if MaxHosts (bk_cfg b) > 0 \<and> hostCount b \<ge> MaxHosts (bk_cfg b) then (None, b)
          else (let a = next_addr b
                in (Some a, b\<lparr>hostCount := (if MaxHosts (bk_cfg b) > 0 then hostCount b + 1 else hostCount b),
                              hosts := (hosts b)(key \<mapsto> a), heap := (heap b)(a := new_entry),
                              next_addr := Suc a\<rparr>)))"

definition transition :: "instant \<Rightarrow> breakerEntry \<Rightarrow> BreakerState \<Rightarrow> breakerEntry" where
  "transition now e to =
     e\<lparr>e_state := to, e_failures := 0, e_successes := 0, e_halfOpenInFlight := 0,
       e_openedAt := (if to = BreakerOpen then now else e_openedAt e)\<rparr>"

datatype admission = Refused | AdmitClosed | AdmitHalfOpen

text \<open>The half-open case, also entered by fall-through from an open entry whose timeout is over.\<close>

definition admit_half_open :: "BreakerConfig \<Rightarrow> breakerEntry \<Rightarrow> admission \<times> breakerEntry" where
  "admit_half_open cfg e =
     (if e_halfOpenInFlight e \<ge> MaxHalfOpenRequests cfg then (Refused, e)
      else (AdmitHalfOpen, e\<lparr>e_halfOpenInFlight := e_halfOpenInFlight e + 1\<rparr>))"

text \<open>The first critical section; the list holds the states \<open>OnStateChange\<close> is told.\<close>

definition admit ::
  "BreakerConfig \<Rightarrow> instant \<Rightarrow> breakerEntry \<Rightarrow> admission \<times> breakerEntry \<times> (BreakerState \<times> BreakerState) list" where
  "admit cfg now e =
     (case e_state e of
        BreakerOpen \<Rightarrow>
          if Sub now (e_openedAt e) < OpenTimeout cfg then (Refused, e, [])
          else (let (a, e') = admit_half_open cfg (transition now e BreakerHalfOpen)
                in (a, e', [(BreakerOpen, BreakerHalfOpen)]))
      | BreakerHalfOpen \<Rightarrow> (let (a, e') = admit_half_open cfg e in (a, e', []))
      | BreakerClosed \<Rightarrow> (AdmitClosed, e, []))"

text \<open>The second critical section, after \<open>fn\<close> has returned; \<open>ok\<close> says that its error is nil.\<close>

definition report ::
  "BreakerConfig \<Rightarrow> instant \<Rightarrow> admission \<Rightarrow> bool \<Rightarrow> breakerEntry \<Rightarrow> breakerEntry \<times> (BreakerState \<times> BreakerState) list" where
  "report cfg now a ok e =
     (case a of
        Refused \<Rightarrow> (e, [])
      | AdmitHalfOpen \<Rightarrow>
          (let e1 = e\<lparr>e_halfOpenInFlight := e_halfOpenInFlight e - 1\<rparr>
           in if \<not> ok then (transition now e1 BreakerOpen, [(e_state e1, BreakerOpen)])
              else (let e2 = e1\<lparr>e_successes := e_successes e1 + 1\<rparr>
                    in if e_successes e2 \<ge> SuccessThreshold cfg
                       then (transition now e2 BreakerClosed, [(e_state e2, BreakerClosed)])
                       else (e2, [])))
      | AdmitClosed \<Rightarrow>
          if ok then (e, [])
          else (let e1 = e\<lparr>e_failures := e_failures e + 1\<rparr>
                in if e_failures e1 \<ge> FailureThreshold cfg
                   then (transition now e1 BreakerOpen, [(e_state e1, BreakerOpen)])
                   else (e1, [])))"

datatype 'e outcome = ErrOpen | FnError 'e | NoError

text \<open>The new value of the entry at an address, and the calls of \<open>OnStateChange\<close>.\<close>

definition put_entry ::
  "string \<Rightarrow> nat \<Rightarrow> breakerEntry \<times> (BreakerState \<times> BreakerState) list \<Rightarrow> breaker \<Rightarrow> breaker" where
  "put_entry key a x b = b\<lparr>heap := (heap b)(a := fst x), changes := changes b @ map (Pair key) (snd x)\<rparr>"

text \<open>
  \<open>execute\<close> for one caller: \<open>fn\<close> acts on a state of its own and takes the breaker from time \<open>now\<close> to \<open>now'\<close>.
\<close>

definition execute ::
  "instant \<Rightarrow> instant \<Rightarrow> string \<Rightarrow> ('s \<Rightarrow> 'e option \<times> 's) \<Rightarrow> breaker \<Rightarrow> 's \<Rightarrow> 'e outcome \<times> breaker \<times> 's" where
  "execute now now' key fn b s =
     (case entryFor key b of
        (None, b1) \<Rightarrow> (let (err, s') = fn s in (case err of None \<Rightarrow> NoError | Some e \<Rightarrow> FnError e, b1, s'))
      | (Some a, b1) \<Rightarrow>
          (let (adm, e1, ch1) = admit (bk_cfg b1) now (heap b1 a);
               b2 = put_entry key a (e1, ch1) b1
           in if adm = Refused then (ErrOpen, b2, s)
              else (let (err, s') = fn s;
                        b3 = put_entry key a (report (bk_cfg b2) now' adm (err = None) (heap b2 a)) b2
                    in (case err of None \<Rightarrow> NoError | Some e \<Rightarrow> FnError e, b3, s'))))"

text \<open>\<open>Prune\<close> visits every host of the map, here the list \<open>ks\<close> in the order \<open>Range\<close> takes.\<close>

definition prune_host :: "string \<Rightarrow> breaker \<Rightarrow> breaker" where
  "prune_host k b =
     (case hosts b k of
        None \<Rightarrow> b
      | Some a \<Rightarrow>
          if e_state (heap b a) = BreakerClosed \<and> e_failures (heap b a) = 0
          then b\<lparr>hosts := map_del k (hosts b),
                 hostCount := (if MaxHosts (bk_cfg b) > 0 then hostCount b - 1 else hostCount b)\<rparr>
          else b)"

definition Prune :: "string list \<Rightarrow> breaker \<Rightarrow> breaker" where
  "Prune ks b = fold prune_host ks b"

section \<open>The number of tracked hosts\<close>

text \<open>\<open>hostCount\<close> is exact and within the cap; entries in the map have been allocated.\<close>

definition hosts_ok :: "breaker \<Rightarrow> bool" where
  "hosts_ok b \<longleftrightarrow>
     finite (dom (hosts b)) \<and>
     (MaxHosts (bk_cfg b) > 0 \<longrightarrow>
        hostCount b = int (card (dom (hosts b))) \<and> hostCount b \<le> MaxHosts (bk_cfg b))"

lemma hosts_ok_cong:
  "hosts b' = hosts b \<Longrightarrow> hostCount b' = hostCount b \<Longrightarrow> bk_cfg b' = bk_cfg b \<Longrightarrow> hosts_ok b' = hosts_ok b"
  by (simp add: hosts_ok_def)

lemma entryFor_ok: "hosts_ok b \<Longrightarrow> hosts_ok (snd (entryFor k b))"
  by (auto simp: entryFor_def hosts_ok_def Let_def domIff split: option.splits)

lemma execute_ok:
  assumes "hosts_ok b"
  shows "hosts_ok (fst (snd (execute now now' k fn b s)))"
proof -
  obtain a b1 where e: "entryFor k b = (a, b1)" by fastforce
  with entryFor_ok [OF assms, of k] have "hosts_ok b1" by simp
  then show ?thesis
    by (auto simp: execute_def e split_beta Let_def hosts_ok_def put_entry_def split: option.splits)
qed

lemma prune_host_ok:
  assumes "hosts_ok b"
  shows "hosts_ok (prune_host k b)"
proof (cases "hosts b k")
  case None
  with assms show ?thesis by (simp add: prune_host_def)
next
  case (Some a)
  then have "k \<in> dom (hosts b)" by auto
  moreover have "finite (dom (hosts b))" using assms by (simp add: hosts_ok_def)
  ultimately have "card (dom (hosts b)) = Suc (card (dom (hosts b) - {k}))" by (metis card.remove)
  with assms Some show ?thesis by (auto simp: prune_host_def hosts_ok_def)
qed

lemma Prune_ok: "hosts_ok b \<Longrightarrow> hosts_ok (Prune ks b)"
  unfolding Prune_def by (induction ks arbitrary: b) (simp_all add: prune_host_ok)

lemma Prune_cfg: "bk_cfg (Prune ks b) = bk_cfg b"
  unfolding Prune_def by (induction ks arbitrary: b) (simp_all add: prune_host_def split: option.splits)

text \<open>The operations on a breaker: guarded calls to any host, and pruning.\<close>

datatype 'e breaker_op = Call instant instant string "'e option" | Pruning "string list"

fun breaker_do :: "'e breaker_op \<Rightarrow> breaker \<Rightarrow> breaker" where
  "breaker_do (Call now now' key err) b = fst (snd (execute now now' key (\<lambda>n :: nat. (err, Suc n)) b 0))"
| "breaker_do (Pruning ks) b = Prune ks b"

lemma execute_cfg: "bk_cfg (fst (snd (execute now now' k fn b s))) = bk_cfg b"
proof -
  obtain a b1 where e: "entryFor k b = (a, b1)" by fastforce
  then have "bk_cfg b1 = bk_cfg b" by (auto simp: entryFor_def Let_def split: option.splits if_splits)
  then show ?thesis by (simp add: execute_def e split_beta Let_def put_entry_def split: option.splits)
qed

lemma breaker_do_ok:
  "hosts_ok b \<Longrightarrow> hosts_ok (breaker_do opn b)" "bk_cfg (breaker_do opn b) = bk_cfg b"
  by (cases opn; simp add: execute_ok Prune_ok execute_cfg Prune_cfg)+

lemma breaker_run_ok:
  "hosts_ok b \<Longrightarrow> hosts_ok (fold breaker_do ops b) \<and> bk_cfg (fold breaker_do ops b) = bk_cfg b"
  by (induction ops arbitrary: b) (simp_all add: breaker_do_ok)

section \<open>Sequential runs\<close>

text \<open>
  A sequence of calls for one host, each with its start time, end time and the error \<open>fn\<close> returns; the
  number counts the invocations of \<open>fn\<close>.
\<close>

type_synonym 'e call = "instant \<times> instant \<times> 'e option"

primrec exec_all :: "string \<Rightarrow> 'e call list \<Rightarrow> breaker \<Rightarrow> nat \<Rightarrow> 'e outcome list \<times> breaker \<times> nat" where
  "exec_all key [] b n = ([], b, n)"
| "exec_all key (c # cs) b n =
     (let (r, b', n') = execute (fst c) (fst (snd c)) key (\<lambda>m. (snd (snd c), Suc m)) b n;
          (rs, b'', n'') = exec_all key cs b' n'
      in (r # rs, b'', n''))"

definition own_outcome :: "'e call \<Rightarrow> 'e outcome" where
  "own_outcome c = (case snd (snd c) of None \<Rightarrow> NoError | Some e \<Rightarrow> FnError e)"

definition failed_calls :: "'e call list \<Rightarrow> nat" where
  "failed_calls cs = length (filter (\<lambda>c. snd (snd c) \<noteq> None) cs)"

lemma failed_calls_simps [simp]:
  "failed_calls [] = 0"
  "failed_calls (c # cs) = (if snd (snd c) \<noteq> None then 1 else 0) + failed_calls cs"
  by (simp_all add: failed_calls_def)

lemma entryFor_known [simp]: "hosts b key = Some a \<Longrightarrow> entryFor key b = (Some a, b)"
  by (simp add: entryFor_def)

lemma entryFor_again: "entryFor key b = (Some a, b1) \<Longrightarrow> hosts b1 key = Some a"
  by (auto simp: entryFor_def Let_def split: option.splits if_splits)

lemma execute_entryFor:
  "entryFor key b = (Some a, b1) \<Longrightarrow> execute now now' key fn b s = execute now now' key fn b1 s"
  using entryFor_again [of key b a b1] by (simp add: execute_def)

lemma exec_all_entryFor:
  "entryFor key b = (Some a, b1) \<Longrightarrow> cs \<noteq> [] \<Longrightarrow> exec_all key cs b n = exec_all key cs b1 n"
  by (cases cs) (simp_all add: execute_entryFor)

lemma exec_all_append:
  "exec_all key (cs @ ds) b n =
     (let (rs, b', n') = exec_all key cs b n; (qs, b'', n'') = exec_all key ds b' n' in (rs @ qs, b'', n''))"
  by (induction cs arbitrary: b n) (simp_all add: split_beta Let_def)

lemma put_entry_simps [simp]:
  "hosts (put_entry key a x b) = hosts b" "bk_cfg (put_entry key a x b) = bk_cfg b"
  "heap (put_entry key a x b) a = fst x" "a' \<noteq> a \<Longrightarrow> heap (put_entry key a x b) a' = heap b a'"
  "put_entry key a y (put_entry key a x b) = put_entry key a (fst y, snd x @ snd y) b"
  "put_entry key a (heap b a, []) b = b"
  by (simp_all add: put_entry_def)

text \<open>The effect of one call on a host that is already tracked.\<close>

lemma execute_known:
  assumes "hosts b key = Some a" and "admit (bk_cfg b) now (heap b a) = (adm, e1, ch1)"
  shows "execute now now' key (\<lambda>m. (err, Suc m)) b n =
    (if adm = Refused then (ErrOpen, put_entry key a (e1, ch1) b, n)
     else (own_outcome (now, now', err),
           put_entry key a (fst (report (bk_cfg b) now' adm (err = None) e1),
                            ch1 @ snd (report (bk_cfg b) now' adm (err = None) e1)) b, Suc n))"
  using assms by (simp add: execute_def own_outcome_def Let_def)

lemma execute_refused:
  assumes "hosts b key = Some a" and "e_state (heap b a) = BreakerOpen"
    and "Sub now (e_openedAt (heap b a)) < OpenTimeout (bk_cfg b)"
  shows "execute now now' key fn b s = (ErrOpen, b, s)"
  using assms by (simp add: execute_def admit_def)

lemma refused_run:
  assumes "hosts b key = Some a" and "e_state (heap b a) = BreakerOpen"
    and "\<forall>c \<in> set ds. Sub (fst c) (e_openedAt (heap b a)) < OpenTimeout (bk_cfg b)"
  shows "exec_all key ds b n = (replicate (length ds) ErrOpen, b, n)"
  using assms(3)
proof (induction ds)
  case (Cons c ds)
  then have "execute (fst c) (fst (snd c)) key (\<lambda>m. (snd (snd c), Suc m)) b n = (ErrOpen, b, n)"
    by (intro execute_refused [OF assms(1,2)]) simp
  with Cons show ?case by simp
qed simp

lemma execute_closed:
  assumes "hosts b key = Some a" and "e_state (heap b a) = BreakerClosed"
  shows "execute now now' key (\<lambda>m. (err, Suc m)) b n =
    (own_outcome (now, now', err),
     put_entry key a (report (bk_cfg b) now' AdmitClosed (err = None) (heap b a)) b, Suc n)"
  using assms execute_known [OF assms(1), of now AdmitClosed "heap b a" "[]"] by (simp add: admit_def)

lemma closed_run:
  assumes "hosts b key = Some a" and "e_state (heap b a) = BreakerClosed"
    and "e_failures (heap b a) + int (failed_calls cs) < FailureThreshold (bk_cfg b)"
  shows "exec_all key cs b n =
    (map own_outcome cs,
     put_entry key a ((heap b a)\<lparr>e_failures := e_failures (heap b a) + int (failed_calls cs)\<rparr>, []) b,
     n + length cs)"
  using assms
proof (induction cs arbitrary: b n)
  case Nil
  then show ?case by simp
next
  case (Cons c cs)
  obtain now now' err where c: "c = (now, now', err)" by (cases c)
  let ?e = "(heap b a)\<lparr>e_failures := e_failures (heap b a) + (if err \<noteq> None then 1 else 0)\<rparr>"
  let ?b = "put_entry key a (?e, []) b"
  have r: "report (bk_cfg b) now' AdmitClosed (err = None) (heap b a) = (?e, [])"
    using Cons.prems(3) by (cases err) (simp_all add: report_def c Let_def)
  have "execute now now' key (\<lambda>m. (err, Suc m)) b n = (own_outcome c, ?b, Suc n)"
    using execute_closed [OF Cons.prems(1,2), of now now' err n] by (simp add: r c)
  moreover have "exec_all key cs ?b (Suc n) =
     (map own_outcome cs,
      put_entry key a ((heap ?b a)\<lparr>e_failures := e_failures (heap ?b a) + int (failed_calls cs)\<rparr>, []) ?b,
      Suc n + length cs)"
    by (rule Cons.IH) (use Cons.prems c in auto)
  ultimately show ?case by (simp add: c add.assoc)
qed

text \<open>Successes of a half-open entry while the threshold is not reached.\<close>

lemma execute_half_open_ok:
  assumes "hosts b key = Some a" and "e_state (heap b a) = BreakerHalfOpen"
    and "e_halfOpenInFlight (heap b a) < MaxHalfOpenRequests (bk_cfg b)" and "err = None"
  shows "execute now now' key (\<lambda>m. (err, Suc m)) b n =
    (NoError,
     put_entry key a
       (if e_successes (heap b a) + 1 \<ge> SuccessThreshold (bk_cfg b)
        then (transition now' (heap b a) BreakerClosed, [(BreakerHalfOpen, BreakerClosed)])
        else ((heap b a)\<lparr>e_successes := e_successes (heap b a) + 1\<rparr>, [])) b, Suc n)"
proof -
  let ?e = "(heap b a)\<lparr>e_halfOpenInFlight := e_halfOpenInFlight (heap b a) + 1\<rparr>"
  have "admit (bk_cfg b) now (heap b a) = (AdmitHalfOpen, ?e, [])"
    using assms by (simp add: admit_def admit_half_open_def)
  from execute_known [OF assms(1) this, of now' err n] assms(2,4) show ?thesis
    by (cases "SuccessThreshold (bk_cfg b) \<le> e_successes (heap b a) + 1")
      (simp_all add: own_outcome_def report_def Let_def transition_def)
qed

lemma half_open_run:
  assumes "hosts b key = Some a" and "e_state (heap b a) = BreakerHalfOpen"
    and "e_halfOpenInFlight (heap b a) < MaxHalfOpenRequests (bk_cfg b)"
    and "e_successes (heap b a) + int (length cs) = SuccessThreshold (bk_cfg b)"
    and "cs \<noteq> []" and "failed_calls cs = 0"
  shows "exec_all key cs b n =
    (map own_outcome cs,
     put_entry key a (transition (fst (snd (last cs))) (heap b a) BreakerClosed,
                      [(BreakerHalfOpen, BreakerClosed)]) b, n + length cs)"
  using assms
proof (induction cs arbitrary: b n)
  case Nil
  then show ?case by simp
next
  case (Cons c cs)
  obtain now now' err where c: "c = (now, now', err)" and err: "err = None"
    using Cons.prems(6) by (cases c) (auto split: if_splits)
  note ex = execute_half_open_ok [OF Cons.prems(1-3) err, of now now' n]
  show ?case
  proof (cases cs)
    case Nil
    with ex Cons.prems(4) show ?thesis by (simp add: c err own_outcome_def)
  next
    case (Cons d ds)
    let ?b = "put_entry key a ((heap b a)\<lparr>e_successes := e_successes (heap b a) + 1\<rparr>, []) b"
    have "exec_all key cs ?b (Suc n) =
      (map own_outcome cs,
       put_entry key a (transition (fst (snd (last cs))) (heap ?b a) BreakerClosed,
                        [(BreakerHalfOpen, BreakerClosed)]) ?b, Suc n + length cs)"
      by (rule Cons.IH) (use Cons.prems Cons in auto)
    moreover have "execute now now' key (\<lambda>m. (err, Suc m)) b n = (NoError, ?b, Suc n)"
      using ex Cons.prems(4) Cons by simp
    ultimately show ?thesis using Cons by (simp add: c err own_outcome_def transition_def)
  qed
qed

text \<open>An open entry whose timeout is over behaves as a half-open one.\<close>

lemma execute_timeout:
  assumes "hosts b key = Some a" and "e_state (heap b a) = BreakerOpen"
    and "OpenTimeout (bk_cfg b) \<le> Sub now (e_openedAt (heap b a))"
  defines "h \<equiv> put_entry key a (transition now (heap b a) BreakerHalfOpen, [(BreakerOpen, BreakerHalfOpen)]) b"
  shows "execute now now' key (\<lambda>m. (err, Suc m)) b n = execute now now' key (\<lambda>m. (err, Suc m)) h n"
proof -
  let ?e = "transition now (heap b a) BreakerHalfOpen"
  have "hosts h key = Some a" "heap h a = ?e" "bk_cfg h = bk_cfg b" using assms by (simp_all add: h_def)
  moreover obtain adm e1 where ad: "admit_half_open (bk_cfg b) ?e = (adm, e1)" by fastforce
  moreover have "admit (bk_cfg b) now (heap b a) = (adm, e1, [(BreakerOpen, BreakerHalfOpen)])"
    using assms(2,3) ad by (simp add: admit_def)
  moreover have "admit (bk_cfg b) now ?e = (adm, e1, [])"
    using ad by (simp add: admit_def transition_def)
  ultimately show ?thesis
    using execute_known [OF assms(1), of now adm e1 "[(BreakerOpen, BreakerHalfOpen)]" now' err n]
      execute_known [of h key a now adm e1 "[]" now' err n]
    by (simp add: h_def)
qed

lemma exec_all_timeout:
  assumes "hosts b key = Some a" and "e_state (heap b a) = BreakerOpen"
    and "cs \<noteq> []" and "OpenTimeout (bk_cfg b) \<le> Sub (fst (hd cs)) (e_openedAt (heap b a))"
  shows "exec_all key cs b n =
    exec_all key cs (put_entry key a
      (transition (fst (hd cs)) (heap b a) BreakerHalfOpen, [(BreakerOpen, BreakerHalfOpen)]) b) n"
  using execute_timeout [OF assms(1,2,4), of "fst (snd (hd cs))" "snd (snd (hd cs))" n] assms(3)
  by (cases cs) simp_all

section \<open>Concurrent calls of one host\<close>

text \<open>
  The calls of one host, identified by numbers, at the granularity of the critical sections: a call is
  admitted or refused, then its function runs, then it reports. \<open>flights\<close> holds the admitted calls that have
  not reported yet.
\<close>

record bsys =
  b_clock :: instant
  b_entry :: breakerEntry
  flights :: "nat \<rightharpoonup> admission"

inductive bstep :: "BreakerConfig \<Rightarrow> bsys \<Rightarrow> bsys \<Rightarrow> bool" for cfg where
  btick: "b_clock s \<le> t \<Longrightarrow> bstep cfg s (s\<lparr>b_clock := t\<rparr>)"
| brefuse: "admit cfg (b_clock s) (b_entry s) = (Refused, e, ch) \<Longrightarrow> bstep cfg s (s\<lparr>b_entry := e\<rparr>)"
| badmit: "flights s i = None \<Longrightarrow> admit cfg (b_clock s) (b_entry s) = (adm, e, ch) \<Longrightarrow> adm \<noteq> Refused \<Longrightarrow>
    bstep cfg s (s\<lparr>b_entry := e, flights := (flights s)(i \<mapsto> adm)\<rparr>)"
| breport: "flights s i = Some adm \<Longrightarrow> report cfg (b_clock s) adm ok (b_entry s) = (e, ch) \<Longrightarrow>
    bstep cfg s (s\<lparr>b_entry := e, flights := map_del i (flights s)\<rparr>)"

definition bstart :: "instant \<Rightarrow> bsys" where
  "bstart t = \<lparr>b_clock = t, b_entry = new_entry, flights = Map.empty\<rparr>"

text \<open>The same steps as functions, for running concrete schedules.\<close>

datatype bact = Tick instant | Admit nat | Report nat bool

fun bdo :: "BreakerConfig \<Rightarrow> bact \<Rightarrow> bsys \<Rightarrow> bsys option" where
  "bdo cfg (Tick t) s = (if b_clock s \<le> t then Some (s\<lparr>b_clock := t\<rparr>) else None)"
| "bdo cfg (Admit i) s =
     (if flights s i \<noteq> None then None
      else (let (adm, e, ch) = admit cfg (b_clock s) (b_entry s)
            in Some (s\<lparr>b_entry := e, flights := (if adm = Refused then flights s else (flights s)(i \<mapsto> adm))\<rparr>)))"
| "bdo cfg (Report i ok) s =
     (case flights s i of
        None \<Rightarrow> None
      | Some adm \<Rightarrow>
          (let (e, ch) = report cfg (b_clock s) adm ok (b_entry s)
           in Some (s\<lparr>b_entry := e, flights := map_del i (flights s)\<rparr>)))"

primrec bdo_all :: "BreakerConfig \<Rightarrow> bact list \<Rightarrow> bsys \<Rightarrow> bsys option" where
  "bdo_all cfg [] s = Some s"
| "bdo_all cfg (a # as) s = (case bdo cfg a s of None \<Rightarrow> None | Some s' \<Rightarrow> bdo_all cfg as s')"

lemma bdo_step: "bdo cfg a s = Some s' \<Longrightarrow> bstep cfg s s'"
  by (cases a) (auto simp: Let_def split: if_splits option.splits prod.splits intro: bstep.intros)

lemma bdo_all_steps: "bdo_all cfg as s = Some s' \<Longrightarrow> (bstep cfg)\<^sup>*\<^sup>* s s'"
  by (induction as arbitrary: s) (auto split: option.splits dest!: bdo_step intro: converse_rtranclp_into_rtranclp)

definition half_open_flights :: "bsys \<Rightarrow> nat set" where
  "half_open_flights s = {i. flights s i = Some AdmitHalfOpen}"

section \<open>Properties\<close>

text \<open>
  C10: A new breaker lets sequential calls to a host through, whatever their results, until
  \<open>FailureThreshold\<close> of them have failed; from then on every one of the following calls that comes less than \<open>OpenTimeout\<close>
  after that failure, however many they are, is answered \<open>ErrOpen\<close>, and the guarded function is not invoked.
\<close>
theorem opens_at_threshold:
  fixes cs :: "'e call list"
  assumes "int (failed_calls cs) + 1 = FailureThreshold cfg"
    and "\<forall>c \<in> set ds. Sub (fst c) now' < OpenTimeout cfg"
  shows "fst (exec_all key (cs @ (now, now', Some x) # ds) (newBreaker cfg) 0) =
      map own_outcome (cs @ [(now, now', Some x)]) @ replicate (length ds) ErrOpen \<and>
    snd (snd (exec_all key (cs @ (now, now', Some x) # ds) (newBreaker cfg) 0)) = Suc (length cs)"
proof -
  let ?b0 = "newBreaker cfg"
  obtain a b where e: "entryFor key ?b0 = (Some a, b)" and b: "heap b a = new_entry"
      "FailureThreshold (bk_cfg b) = FailureThreshold cfg" "OpenTimeout (bk_cfg b) = OpenTimeout cfg"
    by (auto simp: entryFor_def newBreaker_def DefaultMaxHosts_def Let_def)
  note h = entryFor_again [OF e]
  let ?b1 = "put_entry key a (new_entry\<lparr>e_failures := int (failed_calls cs)\<rparr>, []) b"
  have run: "exec_all key cs b 0 = (map own_outcome cs, ?b1, length cs)"
    using closed_run [OF h, of cs 0] assms(1) b by (simp add: new_entry_def)
  have cl: "e_state (heap ?b1 a) = BreakerClosed" "hosts ?b1 key = Some a"
    using h by (simp_all add: new_entry_def)
  let ?b2 = "put_entry key a (report (bk_cfg ?b1) now' AdmitClosed False (heap ?b1 a)) ?b1"
  have fail: "execute now now' key (\<lambda>m. (Some x, Suc m)) ?b1 (length cs) =
      (own_outcome (now, now', Some x), ?b2, Suc (length cs))"
    using execute_closed [OF cl(2,1), of now now' "Some x"] by simp
  have op: "e_state (heap ?b2 a) = BreakerOpen" "e_openedAt (heap ?b2 a) = now'" "hosts ?b2 key = Some a"
    using assms(1) b h by (simp_all add: report_def new_entry_def transition_def Let_def)
  have "exec_all key ds ?b2 (Suc (length cs)) = (replicate (length ds) ErrOpen, ?b2, Suc (length cs))"
    by (rule refused_run [OF op(3,1)]) (use assms(2) b op(2) in simp)
  then have "exec_all key (cs @ (now, now', Some x) # ds) b 0 =
      (map own_outcome (cs @ [(now, now', Some x)]) @ replicate (length ds) ErrOpen, ?b2, Suc (length cs))"
    using run fail by (simp add: exec_all_append)
  then show ?thesis
    using exec_all_entryFor [OF e, of "cs @ (now, now', Some x) # ds" 0] by simp_all
qed

theorem opens_at_threshold_witness:
  "fst (exec_all ''api'' ([(0, 1, Some ''500'')] @ (2, 3, Some ''500'') # [(4, 5, None), (6, 7, None)])
     (newBreaker \<lparr>FailureThreshold = 2, SuccessThreshold = 1, OpenTimeout = 60, MaxHalfOpenRequests = 1, MaxHosts = 0\<rparr>) 0)
   = [FnError ''500'', FnError ''500'', ErrOpen, ErrOpen]"
proof -
  let ?cfg = "\<lparr>FailureThreshold = 2, SuccessThreshold = 1, OpenTimeout = 60, MaxHalfOpenRequests = 1, MaxHosts = 0\<rparr>"
  let ?ds = "[(4, 5, None), (6, 7, None)] :: string call list"
  have "fst (exec_all ''api'' ([(0, 1, Some ''500'')] @ (2, 3, Some ''500'') # ?ds) (newBreaker ?cfg) 0)
      = map own_outcome ([(0, 1, Some ''500'')] @ [(2, 3, Some ''500'')]) @ replicate (length ?ds) ErrOpen"
    by (rule opens_at_threshold [THEN conjunct1]) (simp_all add: Sub_def)
  then show ?thesis by (simp add: own_outcome_def)
qed

text \<open>
  C11: Once \<open>OpenTimeout\<close> has passed, an open host recovers, provided that the breaker is configured to admit a probe at
  all (\<open>MaxHalfOpenRequests\<close> is positive; it has no default): if the next \<open>SuccessThreshold\<close> sequential calls
  succeed, all of them are let through and the host is closed again with its failure count cleared; if
  instead the first of them fails, the host is open again from the time of that failure.
\<close>
theorem recovers_after_timeout:
  assumes "hosts b key = Some a" and "e_state (heap b a) = BreakerOpen"
    and "OpenTimeout (bk_cfg b) \<le> Sub (fst (hd cs)) (e_openedAt (heap b a))"
    and "0 < MaxHalfOpenRequests (bk_cfg b)" and "cs \<noteq> []"
    and "int (length cs) = SuccessThreshold (bk_cfg b)"
  shows "(failed_calls cs = 0 \<longrightarrow>
      (\<exists>b'. exec_all key cs b n = (replicate (length cs) NoError, b', n + length cs) \<and>
        hosts b' key = Some a \<and> e_state (heap b' a) = BreakerClosed \<and> e_failures (heap b' a) = 0)) \<and>
    (snd (snd (hd cs)) \<noteq> None \<longrightarrow>
      (\<exists>b'. exec_all key [hd cs] b n = ([own_outcome (hd cs)], b', Suc n) \<and>
        e_state (heap b' a) = BreakerOpen \<and> e_openedAt (heap b' a) = fst (snd (hd cs))))"
proof (intro conjI impI)
  let ?h = "put_entry key a (transition (fst (hd cs)) (heap b a) BreakerHalfOpen, [(BreakerOpen, BreakerHalfOpen)]) b"
  have h: "hosts ?h key = Some a" "e_state (heap ?h a) = BreakerHalfOpen" "e_successes (heap ?h a) = 0"
    "e_halfOpenInFlight (heap ?h a) < MaxHalfOpenRequests (bk_cfg ?h)"
    using assms(1,4) by (simp_all add: transition_def)
  {
    assume ok: "failed_calls cs = 0"
    then have "\<forall>c \<in> set cs. own_outcome c = NoError"
      by (induction cs) (auto simp: own_outcome_def split: if_splits)
    then have "map own_outcome cs = replicate (length cs) NoError"
      by (simp add: map_replicate_const [symmetric] cong: map_cong)
    moreover have "exec_all key cs ?h n =
      (map own_outcome cs,
       put_entry key a (transition (fst (snd (last cs))) (heap ?h a) BreakerClosed,
                        [(BreakerHalfOpen, BreakerClosed)]) ?h, n + length cs)"
      by (rule half_open_run [OF h(1,2,4)]) (use h(3) assms(5,6) ok in simp_all)
    ultimately show "\<exists>b'. exec_all key cs b n = (replicate (length cs) NoError, b', n + length cs) \<and>
        hosts b' key = Some a \<and> e_state (heap b' a) = BreakerClosed \<and> e_failures (heap b' a) = 0"
      using exec_all_timeout [OF assms(1,2,5,3), of n] assms(1) by (auto simp: transition_def)
  }
  assume bad: "snd (snd (hd cs)) \<noteq> None"
  obtain now now' x where c: "hd cs = (now, now', Some x)" using bad by (metis not_None_eq prod.collapse)
  let ?e = "(transition now (heap b a) BreakerHalfOpen)\<lparr>e_halfOpenInFlight := 1\<rparr>"
  have "admit (bk_cfg b) now (heap b a) = (AdmitHalfOpen, ?e, [(BreakerOpen, BreakerHalfOpen)])"
    using assms(2-4) c by (simp add: admit_def admit_half_open_def transition_def)
  from execute_known [OF assms(1) this, of now' "Some x" n]
  show "\<exists>b'. exec_all key [hd cs] b n = ([own_outcome (hd cs)], b', Suc n) \<and>
        e_state (heap b' a) = BreakerOpen \<and> e_openedAt (heap b' a) = fst (snd (hd cs))"
    by (simp add: c report_def Let_def transition_def)
qed

theorem recovers_after_timeout_witness:
  "\<exists>b'. exec_all ''api'' [(100, 101, None :: string option)]
      \<lparr>bk_cfg = \<lparr>FailureThreshold = 2, SuccessThreshold = 1, OpenTimeout = 60, MaxHalfOpenRequests = 1, MaxHosts = 8\<rparr>,
       hosts = [''api'' \<mapsto> 0],
       heap = (\<lambda>_. \<lparr>e_state = BreakerOpen, e_failures = 0, e_successes = 0, e_halfOpenInFlight = 0, e_openedAt = 3\<rparr>),
       next_addr = 1, hostCount = 1, changes = []\<rparr> 0 = ([NoError], b', 1)
    \<and> e_state (heap b' 0) = BreakerClosed"
proof -
  let ?b = "\<lparr>bk_cfg = \<lparr>FailureThreshold = 2, SuccessThreshold = 1, OpenTimeout = 60, MaxHalfOpenRequests = 1, MaxHosts = 8\<rparr>,
       hosts = [''api'' \<mapsto> 0],
       heap = (\<lambda>_. \<lparr>e_state = BreakerOpen, e_failures = 0, e_successes = 0, e_halfOpenInFlight = 0, e_openedAt = 3\<rparr>),
       next_addr = 1, hostCount = 1, changes = []\<rparr>"
  have "\<exists>b'. exec_all ''api'' [(100, 101, None :: string option)] ?b 0 = (replicate 1 NoError, b', 0 + 1) \<and>
      hosts b' ''api'' = Some 0 \<and> e_state (heap b' 0) = BreakerClosed \<and> e_failures (heap b' 0) = 0"
    using recovers_after_timeout [of ?b "''api''" 0 "[(100, 101, None :: string option)]" 0] by (simp add: Sub_def)
  then show ?thesis by auto
qed

text \<open>
  Without the default, a breaker whose \<open>MaxHalfOpenRequests\<close> is zero or negative never lets a host recover: once it is
  open or half-open, every call is refused, whatever time has passed.
\<close>

lemma never_recovers:
  assumes "hosts b key = Some a" and "e_state (heap b a) \<noteq> BreakerClosed"
    and "MaxHalfOpenRequests (bk_cfg b) \<le> 0" and "0 \<le> e_halfOpenInFlight (heap b a)"
  shows "\<exists>b'. exec_all key cs b n = (replicate (length cs) ErrOpen, b', n)"
  using assms
proof (induction cs arbitrary: b)
  case (Cons c cs)
  obtain adm e1 ch where ad: "admit (bk_cfg b) (fst c) (heap b a) = (adm, e1, ch)" by (metis prod.exhaust)
  then have r: "adm = Refused" "e_state e1 \<noteq> BreakerClosed" "0 \<le> e_halfOpenInFlight e1"
    using Cons.prems(2-4) by (auto simp: admit_def admit_half_open_def transition_def split: BreakerState.splits if_splits)
  let ?b = "put_entry key a (e1, ch) b"
  have "execute (fst c) (fst (snd c)) key (\<lambda>m. (snd (snd c), Suc m)) b n = (ErrOpen, ?b, n)"
    using execute_known [OF Cons.prems(1) ad, of "fst (snd c)" "snd (snd c)" n] r(1) by simp
  moreover have "\<exists>b'. exec_all key cs ?b n = (replicate (length cs) ErrOpen, b', n)"
    by (rule Cons.IH) (use Cons.prems r in simp_all)
  ultimately show ?case by auto
qed simp

text \<open>
  C20: Over any sequence of guarded calls to any hosts and prunings, made one after the other, the map never tracks more
  than \<open>MaxHosts\<close> hosts (1024 when it is left at zero), and \<open>hostCount\<close> is exactly the number of tracked hosts. This
  is for \<open>MaxHosts\<close> zero or positive; a negative value means unlimited tracking.
\<close>
theorem tracked_hosts_bounded:
  fixes ops :: "'e breaker_op list"
  assumes "0 \<le> MaxHosts cfg"
  shows "hostCount (fold breaker_do ops (newBreaker cfg)) = int (card (dom (hosts (fold breaker_do ops (newBreaker cfg)))))
    \<and> hostCount (fold breaker_do ops (newBreaker cfg)) \<le> (if MaxHosts cfg = 0 then 1024 else MaxHosts cfg)"
proof -
  have "hosts_ok (newBreaker cfg)"
    using assms(1) by (simp add: hosts_ok_def newBreaker_def DefaultMaxHosts_def)
  note breaker_run_ok [OF this, of ops]
  moreover have "MaxHosts (bk_cfg (newBreaker cfg)) = (if MaxHosts cfg = 0 then 1024 else MaxHosts cfg)"
    by (simp add: newBreaker_def DefaultMaxHosts_def)
  ultimately show ?thesis using assms(1) by (auto simp: hosts_ok_def)
qed

theorem tracked_hosts_bounded_witness:
  "hostCount (fold breaker_do [Call 0 1 ''a'' (None :: string option), Call 2 3 ''b'' (Some ''500''), Pruning [''a'', ''b'']]
     (newBreaker \<lparr>FailureThreshold = 5, SuccessThreshold = 1, OpenTimeout = 60, MaxHalfOpenRequests = 1, MaxHosts = 1\<rparr>)) \<le> 1"
  using tracked_hosts_bounded [of "\<lparr>FailureThreshold = 5, SuccessThreshold = 1, OpenTimeout = 60, MaxHalfOpenRequests = 1, MaxHosts = 1\<rparr>"
      "[Call 0 1 ''a'' (None :: string option), Call 2 3 ''b'' (Some ''500''), Pruning [''a'', ''b'']]"]
  by simp

text \<open>
  C39: Concurrent calls can exceed the half-open limit and close an open breaker: a call admitted while the
  breaker was closed that fails later reopens it and clears the in-flight count, so that after another
  timeout a second probe is admitted next to the first (with a limit of one), and the success of a probe from
  before the reopening closes a breaker that is open, without waiting for the timeout.
\<close>
theorem stale_reports:
  "\<exists>cfg s s'. MaxHalfOpenRequests cfg = 1 \<and> (bstep cfg)\<^sup>*\<^sup>* (bstart 0) s \<and> {3, 4} \<subseteq> half_open_flights s \<and>
     (bstep cfg)\<^sup>*\<^sup>* (bstart 0) s' \<and> e_state (b_entry s') = BreakerOpen \<and> b_clock s' < e_openedAt (b_entry s') + OpenTimeout cfg \<and>
     (\<exists>s''. bstep cfg s' s'' \<and> b_clock s'' = b_clock s' \<and> e_state (b_entry s'') = BreakerClosed)"
proof -
  let ?cfg = "\<lparr>FailureThreshold = 1, SuccessThreshold = 1, OpenTimeout = 10, MaxHalfOpenRequests = 1, MaxHosts = 0\<rparr>"
  let ?acts = "[Admit 1, Admit 2, Report 1 False, Tick 10, Admit 3, Report 2 False]"
  note d = admit_def admit_half_open_def report_def transition_def new_entry_def Sub_def bstart_def
  define s' where "s' = the (bdo_all ?cfg ?acts (bstart 0))"
  define s where "s = the (bdo_all ?cfg (?acts @ [Tick 20, Admit 4]) (bstart 0))"
  define s'' where "s'' = the (bdo ?cfg (Report 3 True) s')"
  have 1: "bdo_all ?cfg ?acts (bstart 0) = Some s'" "e_state (b_entry s') = BreakerOpen" "b_clock s' = 10"
      "e_openedAt (b_entry s') = 10"
    by (simp_all add: s'_def d)
  have 2: "bdo_all ?cfg (?acts @ [Tick 20, Admit 4]) (bstart 0) = Some s" "{3, 4} \<subseteq> half_open_flights s"
    by (simp_all add: s_def half_open_flights_def d)
  have 3: "bdo ?cfg (Report 3 True) s' = Some s''" "b_clock s'' = 10" "e_state (b_entry s'') = BreakerClosed"
    by (simp_all add: s''_def s'_def d)
  have "\<exists>s''. bstep ?cfg s' s'' \<and> b_clock s'' = b_clock s' \<and> e_state (b_entry s'') = BreakerClosed"
    using bdo_step [OF 3(1)] 1(3) 3(2,3) by auto
  then have "MaxHalfOpenRequests ?cfg = 1 \<and> (bstep ?cfg)\<^sup>*\<^sup>* (bstart 0) s \<and> {3, 4} \<subseteq> half_open_flights s \<and>
     (bstep ?cfg)\<^sup>*\<^sup>* (bstart 0) s' \<and> e_state (b_entry s') = BreakerOpen \<and>
     b_clock s' < e_openedAt (b_entry s') + OpenTimeout ?cfg \<and>
     (\<exists>s''. bstep ?cfg s' s'' \<and> b_clock s'' = b_clock s' \<and> e_state (b_entry s'') = BreakerClosed)"
    using bdo_all_steps [OF 1(1)] bdo_all_steps [OF 2(1)] 1(2-4) 2(2) by simp
  then show ?thesis by blast
qed

end
