(* ===== verification/HttpClient.thy ===== *)
theory HttpClient
  imports Breaker Float64 Http
begin

text \<open>
  \<open>http/client\<close>: the JSON client with circuit breaker and retries (\<open>client.go\<close>, \<open>retry.go\<close>) and the
  client-credentials token source (\<open>serviceauth.go\<close>). The network is part of the world: the outcome and
  the latency of the k-th request sent. The world also records the bodies sent and the backoff sleeps, and
  carries the deadline of the request's context.
\<close>

section \<open>The world of a client\<close>

record response =
  StatusCode :: int
  Body_bytes :: string

datatype herror = BreakerIsOpen | Transport string | ContextDone | GetBodyError string

record world =
  hw_now :: instant
  hw_deadline :: "instant option"
  hw_net :: "nat \<Rightarrow> (string, response) res"
  hw_latency :: "nat \<Rightarrow> duration"
  hw_sent :: "string list" \<comment> \<open>bodies of the requests sent so far\<close>
  hw_slept :: "duration list"

text \<open>
  An outbound request: its host, what reading its body yields the first time and any later time, and
  its \<open>GetBody\<close>, when set.
\<close>

record hreq =
  rq_host :: string
  rq_body :: string
  rq_drained :: string
  rq_getBody :: "(string, string) res option"

definition http_Do :: "string \<Rightarrow> world \<Rightarrow> (string, response) res \<times> world" where
  "http_Do bdy w =
     (let k = length (hw_sent w)
      in (hw_net w k, w\<lparr>hw_sent := hw_sent w @ [bdy], hw_now := hw_now w + hw_latency w k\<rparr>))"

type_synonym do_result = "response option \<times> herror option"

fun to_result :: "(string, response) res \<Rightarrow> do_result" where
  "to_result (Inl e) = (None, Some (Transport e))"
| "to_result (Inr r) = (Some r, None)"

section \<open>The client\<close>

record RetryConfig =
  MaxAttempts :: int
  BaseDelay :: duration
  MaxDelay :: duration
  ShouldRetry :: "(do_result \<Rightarrow> bool) option"

definition defaultShouldRetry :: "do_result \<Rightarrow> bool" where
  "defaultShouldRetry = (\<lambda>(resp, err).
     if err \<noteq> None then True
     else (case resp of None \<Rightarrow> False | Some r \<Rightarrow> StatusCode r = 429 \<or> StatusCode r \<ge> 500))"

record ClientConfig =
  cc_Timeout :: duration
  cc_CircuitBreaker :: "BreakerConfig option"
  cc_Retry :: "RetryConfig option"
  cc_MaxResponseBytes :: int

record hclient =
  hc_timeout :: duration
  hc_breaker :: "breaker option"
  hc_retry :: "RetryConfig option"
  hc_maxRespBytes :: int

definition DefaultMaxResponseBytes :: int where "DefaultMaxResponseBytes = 10 * 2 ^ 20"

definition NewClient :: "ClientConfig \<Rightarrow> hclient" where
  "NewClient cfg =
     \<lparr>hc_timeout = (if cc_Timeout cfg = 0 then 30 * Second else cc_Timeout cfg),
      hc_breaker = map_option newBreaker (cc_CircuitBreaker cfg),
      hc_retry = map_option (\<lambda>r.
        \<lparr>MaxAttempts = (if MaxAttempts r \<le> 0 then 3 else MaxAttempts r),
         BaseDelay = (if BaseDelay r \<le> 0 then 100 * Millisecond else BaseDelay r),
         MaxDelay = (if MaxDelay r \<le> 0 then 2 * Second else MaxDelay r),
         ShouldRetry = (case ShouldRetry r of None \<Rightarrow> Some defaultShouldRetry | Some f \<Rightarrow> Some f)\<rparr>) (cc_Retry cfg),
      hc_maxRespBytes = (if cc_MaxResponseBytes cfg = 0 then DefaultMaxResponseBytes else cc_MaxResponseBytes cfg)\<rparr>"

text \<open>
  One attempt. The function given to the breaker keeps the answer and reports transport errors and 5xx
  statuses as failures; the caller sees the answer itself.
\<close>

definition attempt_fn :: "string \<Rightarrow> do_result \<times> world \<Rightarrow> string option \<times> (do_result \<times> world)" where
  "attempt_fn bdy x =
     (let (r, w') = http_Do bdy (snd x)
      in (case r of
            Inl e \<Rightarrow> Some e
          | Inr resp \<Rightarrow>
              if StatusCode resp \<ge> 500 then Some (''upstream returned '' @ Itoa (StatusCode resp)) else None,
          (to_result r, w')))"

definition client_do :: "string \<Rightarrow> string \<Rightarrow> hclient \<Rightarrow> world \<Rightarrow> do_result \<times> hclient \<times> world" where
  "client_do host bdy c w =
     (case hc_breaker c of
        None \<Rightarrow> (let (r, w') = http_Do bdy w in (to_result r, c, w'))
      | Some b \<Rightarrow>
          (let (breakerErr, b', (res, w')) =
                 execute (hw_now w) (hw_now w + hw_latency w (length (hw_sent w))) host (attempt_fn bdy) b
                   ((None, None), w);
               c' = c\<lparr>hc_breaker := Some b'\<rparr>
           in if breakerErr = ErrOpen then ((None, Some BreakerIsOpen), c', w')
              else (res, c', w')))"

text \<open>The wait between attempts: the request's context may end first. A timer with a negative delay fires at once.\<close>

definition backoff :: "duration \<Rightarrow> world \<Rightarrow> bool \<times> world" where
  "backoff delay w =
     (case hw_deadline w of
        Some d \<Rightarrow>
          if d \<le> hw_now w + max 0 delay then (False, w\<lparr>hw_now := max (hw_now w) d\<rparr>)
          else (True, w\<lparr>hw_now := hw_now w + max 0 delay, hw_slept := hw_slept w @ [delay]\<rparr>)
      | None \<Rightarrow> (True, w\<lparr>hw_now := hw_now w + max 0 delay, hw_slept := hw_slept w @ [delay]\<rparr>))"

definition clone_body :: "hreq \<Rightarrow> (string, string) res" where
  "clone_body req = (case rq_getBody req of Some r \<Rightarrow> r | None \<Rightarrow> Inr (rq_drained req))"

definition should_retry :: "RetryConfig \<Rightarrow> do_result \<Rightarrow> bool" where
  "should_retry cfg r = (case ShouldRetry cfg of Some f \<Rightarrow> f r | None \<Rightarrow> defaultShouldRetry r)"

text \<open>
  The loop of \<open>doWithRetry\<close>, by the number of attempts that are left; \<open>bdy\<close> is the body of the current
  attempt and \<open>delay\<close> the next wait.
\<close>

fun retry_loop ::
  "RetryConfig \<Rightarrow> hreq \<Rightarrow> nat \<Rightarrow> (string, string) res \<Rightarrow> duration \<Rightarrow> hclient \<Rightarrow> world
     \<Rightarrow> do_result \<times> hclient \<times> world" where
  "retry_loop cfg req 0 bdy delay c w = ((None, None), c, w)"
| "retry_loop cfg req (Suc n) bdy delay c w =
     (case bdy of
        Inl e \<Rightarrow> ((None, Some (GetBodyError e)), c, w)
      | Inr text \<Rightarrow>
          (let (res, c', w') = client_do (rq_host req) text c w
           in if snd res = Some BreakerIsOpen \<or> n = 0 \<or> \<not> should_retry cfg res then (res, c', w')
              else (case backoff delay w' of
                      (False, w'') \<Rightarrow> ((None, Some ContextDone), c', w'')
                    | (True, w'') \<Rightarrow>
                        retry_loop cfg req n (clone_body req) (min (wrap64 (delay * 2)) (MaxDelay cfg)) c' w'')))"

definition doWithRetry :: "RetryConfig \<Rightarrow> hreq \<Rightarrow> hclient \<Rightarrow> world \<Rightarrow> do_result \<times> hclient \<times> world" where
  "doWithRetry cfg req c w =
     retry_loop cfg req (nat (MaxAttempts cfg)) (Inr (rq_body req)) (BaseDelay cfg) c w"

definition client_Do :: "hreq \<Rightarrow> hclient \<Rightarrow> world \<Rightarrow> do_result \<times> hclient \<times> world" where
  "client_Do req c w =
     (case hc_retry c of
        Some cfg \<Rightarrow> doWithRetry cfg req c w
      | None \<Rightarrow> client_do (rq_host req) (rq_body req) c w)"

section \<open>JSON calls\<close>

definition limitedBody :: "hclient \<Rightarrow> string \<Rightarrow> string" where
  "limitedBody c r = (if hc_maxRespBytes c < 0 then r else take (nat (hc_maxRespBytes c)) r)"

datatype json_error =
    BadURL | MarshalError | CallError herror | HTTPError int string | UnmarshalError | NoResponse

definition decode_answer ::
  "(string \<Rightarrow> 'v option) \<Rightarrow> hclient \<Rightarrow> do_result \<Rightarrow> (json_error, 'v) res" where
  "decode_answer decode c res =
     (case res of
        (_, Some e) \<Rightarrow> Inl (CallError e)
      | (None, None) \<Rightarrow> Inl NoResponse
      | (Some r, None) \<Rightarrow>
          if StatusCode r < 200 \<or> StatusCode r \<ge> 300
          then Inl (HTTPError (StatusCode r) (limitedBody c (Body_bytes r)))
          else (case decode (limitedBody c (Body_bytes r)) of
                  None \<Rightarrow> Inl UnmarshalError
                | Some v \<Rightarrow> Inr v))"

text \<open>\<open>host_of\<close> stands for parsing the URL; a request without a body is replayed without one.\<close>

definition GetJSON ::
  "(string \<Rightarrow> string option) \<Rightarrow> (string \<Rightarrow> 'v option) \<Rightarrow> string \<Rightarrow> hclient \<Rightarrow> world
     \<Rightarrow> (json_error, 'v) res \<times> hclient \<times> world" where
  "GetJSON host_of decode url c w =
     (case host_of url of
        None \<Rightarrow> (Inl BadURL, c, w)
      | Some host \<Rightarrow>
          (let (res, c', w') = client_Do \<lparr>rq_host = host, rq_body = [], rq_drained = [], rq_getBody = None\<rparr> c w
           in (decode_answer decode c res, c', w')))"

definition PostJSON ::
  "(string \<Rightarrow> string option) \<Rightarrow> ('b \<Rightarrow> string option) \<Rightarrow> (string \<Rightarrow> 'v option) \<Rightarrow> string \<Rightarrow> 'b \<Rightarrow> hclient \<Rightarrow> world
     \<Rightarrow> (json_error, 'v) res \<times> hclient \<times> world" where
  "PostJSON host_of marshal decode url bdy c w =
     (case marshal bdy of
        None \<Rightarrow> (Inl MarshalError, c, w)
      | Some payload \<Rightarrow>
          (case host_of url of
             None \<Rightarrow> (Inl BadURL, c, w)
           | Some host \<Rightarrow>
               (let (res, c', w') =
                  client_Do \<lparr>rq_host = host, rq_body = payload, rq_drained = [], rq_getBody = Some (Inr payload)\<rparr> c w
                in (decode_answer decode c res, c', w'))))"

section \<open>Service tokens\<close>

definition DefaultTokenTTL :: duration where "DefaultTokenTTL = 5 * Minute"

text \<open>The constant 0.15 as a float64.\<close>

definition defaultRefreshFraction :: rat where "defaultRefreshFraction = fl (15 / 100)"

record ServiceAuthConfig =
  TokenURL :: string
  ClientID :: string
  ClientSecret :: string
  Scope :: string

record tokenResponse =
  AccessToken :: string
  TokenType :: string
  ExpiresIn :: int

record tokenSource =
  ts_cfg :: ServiceAuthConfig
  ts_token :: string
  ts_refreshAt :: instant
  ts_fetches :: nat

datatype svc_error =
    MissingTokenURL | MissingCredentials | BuildError | RequestFailed string | EndpointStatus int
  | DecodeError | MissingAccessToken

definition NewClientCredentialsTokenSource :: "ServiceAuthConfig \<Rightarrow> (svc_error, tokenSource) res" where
  "NewClientCredentialsTokenSource cfg =
     (if TokenURL cfg = [] then Inl MissingTokenURL
      else if ClientID cfg = [] \<or> ClientSecret cfg = [] then Inl MissingCredentials
      else Inr \<lparr>ts_cfg = cfg, ts_token = [], ts_refreshAt = 0, ts_fetches = 0\<rparr>)"

definition token_form :: "ServiceAuthConfig \<Rightarrow> (string \<times> string) list" where
  "token_form cfg =
     [(''grant_type'', ''client_credentials''), (''client_id'', ClientID cfg), (''client_secret'', ClientSecret cfg)]
     @ (if Scope cfg \<noteq> [] then [(''scope'', Scope cfg)] else [])"

definition token_ttl :: "tokenResponse \<Rightarrow> duration" where
  "token_ttl tr = (if ExpiresIn tr > 0 then wrap64 (ExpiresIn tr * Second) else DefaultTokenTTL)"

definition refresh_after :: "duration \<Rightarrow> duration" where
  "refresh_after ttl = wrap64 (ttl - trunc (fl (fl (of_int ttl) * defaultRefreshFraction)))"

text \<open>
  \<open>fetch\<close>: \<open>post\<close> sends the form (k-th fetch) and returns the answer, or nothing when the request cannot be
  built; \<open>decode\<close> is \<open>json.Unmarshal\<close>; \<open>now\<close> is the time when the answer is stored.
\<close>

definition token_fetch ::
  "(nat \<Rightarrow> string \<Rightarrow> (string \<times> string) list \<Rightarrow> (string, response) res option) \<Rightarrow> (string \<Rightarrow> tokenResponse option) \<Rightarrow> instant
     \<Rightarrow> tokenSource \<Rightarrow> (svc_error, string) res \<times> tokenSource" where
  "token_fetch post decode now s =
     (let s1 = s\<lparr>ts_fetches := Suc (ts_fetches s)\<rparr>
      in case post (ts_fetches s) (TokenURL (ts_cfg s)) (token_form (ts_cfg s)) of
           None \<Rightarrow> (Inl BuildError, s1)
         | Some (Inl e) \<Rightarrow> (Inl (RequestFailed e), s1)
         | Some (Inr res) \<Rightarrow>
             if StatusCode res < 200 \<or> StatusCode res \<ge> 300 then (Inl (EndpointStatus (StatusCode res)), s1)
             else (case decode (take (nat DefaultMaxResponseBytes) (Body_bytes res)) of
                     None \<Rightarrow> (Inl DecodeError, s1)
                   | Some tr \<Rightarrow>
                       if AccessToken tr = [] then (Inl MissingAccessToken, s1)
                       else (Inr (AccessToken tr),
                             s1\<lparr>ts_token := AccessToken tr, ts_refreshAt := now + refresh_after (token_ttl tr)\<rparr>)))"

definition Token ::
  "(nat \<Rightarrow> string \<Rightarrow> (string \<times> string) list \<Rightarrow> (string, response) res option) \<Rightarrow> (string \<Rightarrow> tokenResponse option)
     \<Rightarrow> instant \<Rightarrow> instant \<Rightarrow> tokenSource \<Rightarrow> (svc_error, string) res \<times> tokenSource" where
  "Token post decode now now' s =
     (if ts_token s \<noteq> [] \<and> now < ts_refreshAt s then (Inr (ts_token s), s)
      else token_fetch post decode now' s)"

text \<open>\<open>RoundTrip\<close> sends a clone of the request with the Bearer header; the request itself is left alone.\<close>

definition auth_RoundTrip ::
  "(header \<Rightarrow> 'a) \<Rightarrow> (svc_error, string) res \<Rightarrow> header \<Rightarrow> (svc_error, 'a) res" where
  "auth_RoundTrip base token h =
     (case token of Inl e \<Rightarrow> Inl e | Inr t \<Rightarrow> Inr (base (Header_Set h ''Authorization'' (''Bearer '' @ t))))"

section \<open>Lemmas\<close>

text \<open>The breaker runs the guarded function exactly once, or not at all and says so.\<close>

lemma execute_fn:
  "execute now now' key fn b s = (r, b', s') \<Longrightarrow> r = ErrOpen \<and> s' = s \<or> r \<noteq> ErrOpen \<and> s' = snd (fn s)"
  by (auto simp: execute_def split_beta Let_def split: option.splits if_splits prod.splits)

lemma client_do_cases:
  assumes "client_do host bdy c w = (res, c', w')"
  shows "hc_retry c' = hc_retry c \<and> (hc_breaker c = None \<longrightarrow> c' = c) \<and>
    (w' = w \<and> res = (None, Some BreakerIsOpen) \<and> hc_breaker c \<noteq> None \<or>
     w' = snd (http_Do bdy w) \<and> res = to_result (hw_net w (length (hw_sent w))))"
proof (cases "hc_breaker c")
  case None
  with assms show ?thesis by (simp add: client_do_def http_Do_def Let_def)
next
  case (Some b)
  obtain r b' x v where ex: "execute (hw_now w) (hw_now w + hw_latency w (length (hw_sent w))) host (attempt_fn bdy) b
      ((None, None), w) = (r, b', (x, v))"
    by (cases "execute (hw_now w) (hw_now w + hw_latency w (length (hw_sent w))) host (attempt_fn bdy) b
      ((None, None), w)") auto
  from execute_fn [OF ex] ex assms Some show ?thesis
    by (auto simp: client_do_def http_Do_def attempt_fn_def Let_def split: if_splits)
qed

primrec delays :: "nat \<Rightarrow> duration \<Rightarrow> duration \<Rightarrow> duration list" where
  "delays 0 M d = []"
| "delays (Suc k) M d = d # delays k M (min (wrap64 (d * 2)) M)"

lemma delays_le_max: "x \<in> set (tl (delays k M d)) \<Longrightarrow> x \<le> M"
proof (cases k)
  case (Suc j)
  have "e \<le> M \<Longrightarrow> x \<in> set (delays i M e) \<Longrightarrow> x \<le> M" for i e
    by (induction i arbitrary: e) (auto, metis min.cobounded2)
  moreover assume "x \<in> set (tl (delays k M d))"
  ultimately show ?thesis using Suc by simp (metis min.cobounded2)
qed simp

lemma backoff_fields:
  assumes "backoff d w = (ok, w')"
  shows "hw_sent w' = hw_sent w" "hw_net w' = hw_net w" "hw_deadline w' = hw_deadline w"
    "hw_slept w' = (if ok then hw_slept w @ [d] else hw_slept w)" "hw_deadline w = None \<Longrightarrow> ok"
  using assms by (auto simp: backoff_def split: option.splits if_splits)

text \<open>What the loop sends and how long it sleeps.\<close>

lemma retry_loop_bounded:
  assumes "clone_body req = Inr bdy" and "retry_loop cfg req n (Inr bdy) d c w = (res, c', w')"
  shows "\<exists>k j. hw_sent w' = hw_sent w @ replicate k bdy \<and> k \<le> n \<and>
    hw_slept w' = hw_slept w @ delays j (MaxDelay cfg) d \<and> j \<le> k"
  using assms(2)
proof (induction n arbitrary: d c w)
  case 0
  then show ?case by (intro exI [of _ 0]) simp
next
  case (Suc n)
  obtain r c1 w1 where d1: "client_do (rq_host req) bdy c w = (r, c1, w1)" by (metis prod.exhaust)
  note cases1 = client_do_cases [OF d1]
  then have sl: "hw_slept w1 = hw_slept w" by (auto simp: http_Do_def Let_def)
  show ?case
  proof (cases "snd r = Some BreakerIsOpen \<or> n = 0 \<or> \<not> should_retry cfg r")
    case True
    with Suc.prems d1 have w': "w' = w1" by auto
    from cases1 consider "hw_sent w1 = hw_sent w" | "hw_sent w1 = hw_sent w @ [bdy]"
      by (auto simp: http_Do_def Let_def)
    then show ?thesis
    proof cases
      case 1
      then show ?thesis using w' sl by (intro exI [of _ 0]) simp
    next
      case 2
      then show ?thesis using w' sl by (intro exI [of _ 1] exI [of _ 0]) simp
    qed
  next
    case False
    then have sent: "hw_sent w1 = hw_sent w @ [bdy]" using cases1 by (auto simp: http_Do_def Let_def)
    obtain ok w2 where b: "backoff d w1 = (ok, w2)" by fastforce
    note bf = backoff_fields [OF b]
    show ?thesis
    proof (cases ok)
      case True
      with Suc.prems d1 False b assms(1)
      have "retry_loop cfg req n (Inr bdy) (min (wrap64 (d * 2)) (MaxDelay cfg)) c1 w2 = (res, c', w')" by simp
      from Suc.IH [OF this] obtain k j where "hw_sent w' = hw_sent w2 @ replicate k bdy" "k \<le> n"
        "hw_slept w' = hw_slept w2 @ delays j (MaxDelay cfg) (min (wrap64 (d * 2)) (MaxDelay cfg))" "j \<le> k" by blast
      then show ?thesis using bf sent sl True
        by (intro exI [of _ "Suc k"] exI [of _ "Suc j"]) simp
    next
      case False2: False
      with Suc.prems d1 False b have "w' = w2" by auto
      then show ?thesis using bf sent sl False2 by (intro exI [of _ 1] exI [of _ 0]) simp
    qed
  qed
qed

text \<open>Which answer the loop returns.\<close>

lemma retry_loop_result:
  assumes "clone_body req = Inr bdy" and "hc_breaker c = None" and "hw_deadline w = None" and "0 < n"
    and "retry_loop cfg req n (Inr bdy) d c w = (res, c', w')"
  shows "\<exists>k. k < n \<and> length (hw_sent w') = Suc (length (hw_sent w) + k) \<and>
    res = to_result (hw_net w (length (hw_sent w) + k)) \<and>
    (\<forall>i < k. should_retry cfg (to_result (hw_net w (length (hw_sent w) + i)))) \<and>
    (Suc k = n \<or> \<not> should_retry cfg res)"
  using assms(2-5)
proof (induction n arbitrary: d c w)
  case 0
  then show ?case by simp
next
  case (Suc n)
  obtain r c1 w1 where d1: "client_do (rq_host req) bdy c w = (r, c1, w1)" by (metis prod.exhaust)
  from client_do_cases [OF d1] Suc.prems(1)
  have r: "r = to_result (hw_net w (length (hw_sent w)))" "c1 = c" and w1: "w1 = snd (http_Do bdy w)" by auto
  have nob: "snd r \<noteq> Some BreakerIsOpen" unfolding r by (cases "hw_net w (length (hw_sent w))") auto
  show ?case
  proof (cases "n = 0 \<or> \<not> should_retry cfg r")
    case True
    with Suc.prems d1 have "w' = w1" "res = r" by auto
    with True r w1 show ?thesis by (intro exI [of _ 0]) (auto simp: http_Do_def Let_def)
  next
    case False
    obtain ok w2 where b: "backoff d w1 = (ok, w2)" by fastforce
    note bf = backoff_fields [OF b]
    have dl: "hw_deadline w1 = None" using Suc.prems(2) w1 by (simp add: http_Do_def Let_def)
    have len: "length (hw_sent w2) = Suc (length (hw_sent w))" "hw_net w2 = hw_net w"
      using bf w1 by (simp_all add: http_Do_def Let_def)
    have ok: ok using bf(5) dl by simp
    then have "retry_loop cfg req n (Inr bdy) (min (wrap64 (d * 2)) (MaxDelay cfg)) c w2 = (res, c', w')"
      using Suc.prems(4) d1 False b nob assms(1) r(2) by simp
    from Suc.IH [OF Suc.prems(1) _ _ this] dl bf(3) False obtain k where
      k: "k < n" "length (hw_sent w') = Suc (length (hw_sent w2) + k)"
        "res = to_result (hw_net w2 (length (hw_sent w2) + k))"
        "\<forall>i<k. should_retry cfg (to_result (hw_net w2 (length (hw_sent w2) + i)))"
        "Suc k = n \<or> \<not> should_retry cfg res" by auto
    have "\<forall>i<Suc k. should_retry cfg (to_result (hw_net w (length (hw_sent w) + i)))"
      using k(4) False r(1) by (auto simp: len less_Suc_eq_0_disj)
    with k show ?thesis by (intro exI [of _ "Suc k"]) (auto simp: len)
  qed
qed

lemma fl_pow: "fl (2 ^ k) = 2 ^ k"
proof -
  have "fl (of_int 1 * pow2 (int k)) = of_int 1 * pow2 (int k)" by (rule fl_exact) simp_all
  then show ?thesis by (simp add: pow2_nat)
qed

lemma refresh_fraction_bounds: "1 / 8 \<le> defaultRefreshFraction" "defaultRefreshFraction \<le> 1 / 4"
proof -
  have p: "pow2 (- 3) = 1 / 8" "pow2 (- 2) = 1 / 4" by (simp_all add: pow2_def power_int_minus)
  have "fl (1 / 8) = 1 / 8" "fl (1 / 4) = 1 / 4"
    using fl_exact [of 1 "- 3"] fl_exact [of 1 "- 2"] by (simp_all add: p)
  then show "1 / 8 \<le> defaultRefreshFraction" "defaultRefreshFraction \<le> 1 / 4"
    using fl_mono [of "1 / 8" "15 / 100"] fl_mono [of "15 / 100" "1 / 4"]
    by (simp_all add: defaultRefreshFraction_def)
qed

text \<open>The refresh margin is at least an eighth of a second and at most \<open>2 ^ 61\<close> nanoseconds.\<close>

lemma refresh_margin:
  assumes "Second \<le> ttl" and "ttl < 2 ^ 63"
  defines "m \<equiv> trunc (fl (fl (of_int ttl) * defaultRefreshFraction))"
  shows "125000000 \<le> m" and "m \<le> 2 ^ 61"
proof -
  let ?p = "fl (of_int ttl) * defaultRefreshFraction"
  have s: "(1000000000 :: rat) \<le> of_int ttl" "(of_int ttl :: rat) \<le> 2 ^ 63"
    using assms(1,2) by (simp_all add: Second_def)
  have "fl (of_int 1000000000) = 1000000000" using fl_of_int [of 1000000000] by simp
  with fl_mono [OF s(1)] have lo: "1000000000 \<le> fl (of_int ttl)" by simp
  from fl_mono [OF s(2)] have hi: "fl (of_int ttl) \<le> 2 ^ 63" by (simp only: fl_pow)
  have "1000000000 * (1 / 8) \<le> ?p" by (rule mult_mono) (use lo refresh_fraction_bounds in auto)
  then have p1: "fl (of_int 125000000) \<le> fl ?p" by (intro fl_mono) simp
  have "?p \<le> 2 ^ 63 * (1 / 4)" by (rule mult_mono) (use hi refresh_fraction_bounds in auto)
  then have p2: "fl ?p \<le> fl (2 ^ 61)" by (intro fl_mono) simp
  have b: "125000000 \<le> fl ?p" "fl ?p \<le> 2 ^ 61" using p1 p2 fl_of_int [of 125000000] by (simp_all only: fl_pow) simp
  then have "m = \<lfloor>fl ?p\<rfloor>" unfolding m_def by (intro trunc_nonneg) auto
  with b show "125000000 \<le> m" "m \<le> 2 ^ 61" by (simp_all add: le_floor_iff floor_le_iff)
qed

section \<open>Properties\<close>

text \<open>
  Without a breaker and a deadline, \<open>doWithRetry\<close> returns the first answer its retry predicate does not
  want retried, or that of the last permitted attempt; it sends exactly the requests up to that answer, all
  of them wanted retried but the last, and never more than \<open>MaxAttempts\<close>.
\<close>
theorem doWithRetry_result:
  assumes "clone_body req = Inr (rq_body req)" and "hc_breaker c = None" and "hw_deadline w = None"
    and "0 < MaxAttempts cfg" and "doWithRetry cfg req c w = (res, c', w')"
  shows "\<exists>k. int k < MaxAttempts cfg \<and> length (hw_sent w') = Suc (length (hw_sent w) + k) \<and>
    res = to_result (hw_net w (length (hw_sent w) + k)) \<and>
    (\<forall>i < k. should_retry cfg (to_result (hw_net w (length (hw_sent w) + i)))) \<and>
    (int (Suc k) = MaxAttempts cfg \<or> \<not> should_retry cfg res)"
proof -
  have "0 < nat (MaxAttempts cfg)" using assms(4) by simp
  from retry_loop_result [OF assms(1-3) this assms(5) [unfolded doWithRetry_def]] show ?thesis
    using assms(4) by (auto simp: nat_eq_iff zless_nat_conj)
qed

definition sample_world :: world where
  "sample_world = \<lparr>hw_now = 0, hw_deadline = None,
     hw_net = (\<lambda>k. if k = 0 then Inr \<lparr>StatusCode = 503, Body_bytes = []\<rparr> else Inr \<lparr>StatusCode = 200, Body_bytes = ''ok''\<rparr>),
     hw_latency = (\<lambda>_. 1), hw_sent = [], hw_slept = []\<rparr>"

definition sample_retry :: RetryConfig where
  "sample_retry = \<lparr>MaxAttempts = 3, BaseDelay = 100, MaxDelay = 50, ShouldRetry = None\<rparr>"

definition sample_client :: hclient where
  "sample_client = \<lparr>hc_timeout = 30, hc_breaker = None, hc_retry = Some sample_retry, hc_maxRespBytes = 10\<rparr>"

lemma sample_fields:
  "hc_breaker sample_client = None" "hc_retry sample_client = Some sample_retry" "hw_deadline sample_world = None"
  "hw_sent sample_world = []" "MaxAttempts sample_retry = 3"
  by (simp_all add: sample_client_def sample_world_def sample_retry_def)

theorem doWithRetry_result_witness:
  "\<exists>k. int k < 3 \<and> length (hw_sent (snd (snd (doWithRetry sample_retry
     \<lparr>rq_host = ''h'', rq_body = ''b'', rq_drained = [], rq_getBody = Some (Inr ''b'')\<rparr> sample_client sample_world)))) = Suc k"
proof -
  let ?q = "\<lparr>rq_host = ''h'', rq_body = ''b'', rq_drained = [], rq_getBody = Some (Inr ''b'')\<rparr>"
  obtain res c' w' where r: "doWithRetry sample_retry ?q sample_client sample_world = (res, c', w')"
    by (metis prod.exhaust)
  show ?thesis
    using doWithRetry_result [OF _ _ _ _ r] by (auto simp: r clone_body_def sample_fields)
qed

text \<open>
  \<open>PostJSON\<close> sends the same payload on every attempt, at most \<open>MaxAttempts\<close> times (once without retries),
  with or without a breaker. Its waits start with \<open>BaseDelay\<close> and double up to \<open>MaxDelay\<close>, which bounds every
  wait except the first.
\<close>
theorem PostJSON_attempts:
  assumes "marshal bdy = Some payload" and "PostJSON host_of marshal decode url bdy c w = (r, c', w')"
    and "pred_option (\<lambda>cfg. 0 < MaxAttempts cfg) (hc_retry c)"
  shows "\<exists>k j. hw_sent w' = hw_sent w @ replicate k payload \<and>
    int k \<le> (case hc_retry c of None \<Rightarrow> 1 | Some cfg \<Rightarrow> MaxAttempts cfg) \<and>
    hw_slept w' = hw_slept w @
      (case hc_retry c of None \<Rightarrow> [] | Some cfg \<Rightarrow> delays j (MaxDelay cfg) (BaseDelay cfg)) \<and>
    (\<forall>d \<in> set (tl (case hc_retry c of None \<Rightarrow> [] | Some cfg \<Rightarrow> delays j (MaxDelay cfg) (BaseDelay cfg))).
       pred_option (\<lambda>cfg. d \<le> MaxDelay cfg) (hc_retry c))"
proof (cases "host_of url")
  case None
  with assms(1,2) have "w' = w" by (simp add: PostJSON_def)
  then show ?thesis using assms(3) by (intro exI [of _ 0]) (auto split: option.splits)
next
  case (Some host)
  let ?q = "\<lparr>rq_host = host, rq_body = payload, rq_drained = [], rq_getBody = Some (Inr payload)\<rparr>"
  obtain res where call: "client_Do ?q c w = (res, c', w')"
    using assms(1,2) Some by (auto simp: PostJSON_def Let_def split: prod.splits)
  show ?thesis
  proof (cases "hc_retry c")
    case None
    with call have "client_do host payload c w = (res, c', w')" by (simp add: client_Do_def)
    from client_do_cases [OF this] consider "w' = w" | "w' = snd (http_Do payload w)" by blast
    then show ?thesis
    proof cases
      case 1
      with None show ?thesis by (intro exI [of _ 0]) simp
    next
      case 2
      with None show ?thesis by (intro exI [of _ 1]) (simp add: http_Do_def Let_def)
    qed
  next
    case (Some cfg)
    with call have run: "retry_loop cfg ?q (nat (MaxAttempts cfg)) (Inr payload) (BaseDelay cfg) c w = (res, c', w')"
      by (simp add: client_Do_def doWithRetry_def)
    have "clone_body ?q = Inr payload" by (simp add: clone_body_def)
    from retry_loop_bounded [OF this run] obtain k j where "hw_sent w' = hw_sent w @ replicate k payload"
      "k \<le> nat (MaxAttempts cfg)" "hw_slept w' = hw_slept w @ delays j (MaxDelay cfg) (BaseDelay cfg)" by blast
    then show ?thesis using Some assms(3) delays_le_max by (intro exI [of _ k] exI [of _ j]) auto
  qed
qed

theorem PostJSON_attempts_witness:
  "\<exists>k. hw_sent (snd (snd (PostJSON (\<lambda>_. Some ''h'') (\<lambda>b. Some b) (\<lambda>t. Some t) ''u'' ''{}'' sample_client sample_world)))
     = replicate k ''{}'' \<and> int k \<le> 3"
proof -
  obtain r c' w' where p: "PostJSON (\<lambda>_. Some ''h'') (\<lambda>b. Some b) (\<lambda>t. Some t) ''u'' ''{}'' sample_client sample_world = (r, c', w')"
    by (metis prod.exhaust)
  have "pred_option (\<lambda>cfg. 0 < MaxAttempts cfg) (hc_retry sample_client)"
    by (simp add: sample_fields)
  from PostJSON_attempts [OF refl p this] obtain k where "hw_sent w' = replicate k ''{}''" "int k \<le> 3"
    by (auto simp: sample_fields)
  then show ?thesis unfolding p by auto
qed

end
