(* ===== verification/Batching.thy ===== *)
theory Batching
  imports Prelude
begin

text \<open>
  What the AWS clients share: cutting a list into batches an API call accepts, sending the batches one after the
  other, and reading a paged result to its end. The locales state what a partition and a paged source promise;
  the packages interpret them.
\<close>

section \<open>Slices\<close>

text \<open>The loop \<open>for i := 0; i < len(items); i += n\<close> over \<open>items[i:min(i+n, len(items))]\<close>.\<close>

function slices :: "nat \<Rightarrow> nat \<Rightarrow> 'a list \<Rightarrow> 'a list list" where
  "slices n i items =
     (if 0 < n \<and> i < length items
      then take (min (i + n) (length items) - i) (drop i items) # slices n (i + n) items else [])"
  by pat_completeness auto
termination by (relation "measure (\<lambda>(n, i, items). length items - i)") auto

declare slices.simps [simp del]

lemma slices_concat: "0 < n \<Longrightarrow> concat (slices n i items) = drop i items"
proof (induction n i items rule: slices.induct)
  case (1 n i items)
  show ?case
  proof (cases "i < length items")
    case True
    have "take (min (i + n) (length items) - i) (drop i items) = take n (drop i items)"
      by (cases "i + n \<le> length items") (simp_all add: min_def)
    moreover have "take n (drop i items) @ drop (i + n) items = drop i items"
      using append_take_drop_id [of n "drop i items"] by (simp add: add.commute)
    ultimately show ?thesis using 1 True by (subst slices.simps) simp
  next
    case False
    then show ?thesis by (subst slices.simps) simp
  qed
qed

lemma slices_sizes: "b \<in> set (slices n i items) \<Longrightarrow> b \<noteq> [] \<and> length b \<le> n"
proof (induction n i items rule: slices.induct)
  case (1 n i items)
  show ?case
  proof (cases "0 < n \<and> i < length items")
    case True
    let ?b = "take (min (i + n) (length items) - i) (drop i items)"
    have "slices n i items = ?b # slices n (i + n) items" using True by (subst slices.simps) (rule if_P)
    then consider "b = ?b" | "b \<in> set (slices n (i + n) items)" using 1(2) by (metis set_ConsD)
    then show ?thesis
    proof cases
      case 1
      have "?b \<noteq> [] \<and> length ?b \<le> n" using True by (auto simp: min_def)
      with 1 show ?thesis by (rule ssubst)
    next
      case 2
      then show ?thesis using 1(1) [OF True] by blast
    qed
  next
    case False
    then have "slices n i items = []" by (subst slices.simps) simp
    with 1 show ?thesis by simp
  qed
qed

section \<open>Partitions into batches\<close>

text \<open>\<open>fits\<close> is the limit of the API on one batch.\<close>

locale batcher =
  fixes split_up :: "'a list \<Rightarrow> 'a list list" and fits :: "'a list \<Rightarrow> bool"
  assumes concat_batches: "concat (split_up xs) = xs"
    and batch_fits: "b \<in> set (split_up xs) \<Longrightarrow> b \<noteq> [] \<and> fits b"

text \<open>Sending batches in order until one call fails; a call returns an error, if any, and a new state.\<close>

primrec send_all :: "('b \<Rightarrow> 's \<Rightarrow> 'e option \<times> 's) \<Rightarrow> 'b list \<Rightarrow> 's \<Rightarrow> 'e option \<times> 's" where
  "send_all send [] s = (None, s)"
| "send_all send (b # bs) s =
     (case send b s of
        (Some e, s') \<Rightarrow> (Some e, s')
      | (None, s') \<Rightarrow> send_all send bs s')"

lemma send_all_map: "send_all send (map f bs) s = send_all (\<lambda>b. send (f b)) bs s"
  by (induction bs arbitrary: s) (auto split: prod.splits option.splits)

text \<open>A call that is also noted down, with its answer; noting it down changes nothing else.\<close>

definition recording :: "('b \<Rightarrow> 's \<Rightarrow> 'e option \<times> 's) \<Rightarrow> 'b \<Rightarrow> ('b \<times> 'e option) list \<times> 's
    \<Rightarrow> 'e option \<times> ('b \<times> 'e option) list \<times> 's" where
  "recording send b p = (let (e, s') = send b (snd p) in (e, fst p @ [(b, e)], s'))"

text \<open>The calls are the first batches; all succeed, or the last one alone fails.\<close>

lemma send_all_recording:
  assumes "send_all (recording send) bs (cs, s) = (e, cs', s')"
  shows "send_all send bs s = (e, s') \<and>
    (\<exists>made rest. cs' = cs @ made \<and> bs = map fst made @ rest \<and>
       (if e = None then rest = [] \<and> (\<forall>c \<in> set made. snd c = None)
        else made \<noteq> [] \<and> snd (last made) = e \<and> (\<forall>c \<in> set (butlast made). snd c = None)))"
  using assms
proof (induction bs arbitrary: cs s)
  case Nil
  then show ?case by simp
next
  case (Cons b bs)
  obtain x s1 where x: "send b s = (x, s1)" by fastforce
  show ?case
  proof (cases x)
    case None
    then have "send_all (recording send) bs (cs @ [(b, None)], s1) = (e, cs', s')"
      using Cons.prems x by (simp add: recording_def [of send b])
    from Cons.IH [OF this] obtain made rest where m: "send_all send bs s1 = (e, s')" "cs' = (cs @ [(b, None)]) @ made"
      "bs = map fst made @ rest" "if e = None then rest = [] \<and> (\<forall>c \<in> set made. snd c = None)
        else made \<noteq> [] \<and> snd (last made) = e \<and> (\<forall>c \<in> set (butlast made). snd c = None)" by blast
    then show ?thesis using None x
      by (intro conjI exI [of _ "(b, None) # made"] exI [of _ rest]) (auto split: if_splits)
  next
    case (Some y)
    then have "e = Some y" "s' = s1" "cs' = cs @ [(b, Some y)]" using Cons.prems x by (auto simp: recording_def)
    then show ?thesis using Some x by (intro conjI exI [of _ "[(b, Some y)]"] exI [of _ bs]) simp_all
  qed
qed

context batcher
begin

lemma no_batches [simp]: "split_up [] = []"
  using concat_batches [of "[]"] batch_fits [of _ "[]"] by (cases "split_up []") auto

text \<open>The calls made for the batches of a list: each within the limit, together a prefix of the list.\<close>

lemma calls_made:
  assumes "send_all (\<lambda>b. recording send (f b)) (split_up xs) ([], s) = (e, calls, s')"
  shows "send_all (\<lambda>b. send (f b)) (split_up xs) s = (e, s') \<and>
    (\<exists>made rest. map fst calls = map f made \<and> xs = concat made @ rest \<and> (\<forall>b \<in> set made. b \<noteq> [] \<and> fits b) \<and>
       (if e = None then rest = [] \<and> (\<forall>c \<in> set calls. snd c = None)
        else calls \<noteq> [] \<and> snd (last calls) = e \<and> (\<forall>c \<in> set (butlast calls). snd c = None)))"
proof -
  have "send_all (recording send) (map f (split_up xs)) ([], s) = (e, calls, s')" using assms by (simp add: send_all_map)
  from send_all_recording [OF this] obtain rest where r: "send_all send (map f (split_up xs)) s = (e, s')"
    "map f (split_up xs) = map fst calls @ rest" and
    e: "if e = None then rest = [] \<and> (\<forall>c \<in> set calls. snd c = None)
        else calls \<noteq> [] \<and> snd (last calls) = e \<and> (\<forall>c \<in> set (butlast calls). snd c = None)" by auto
  from r(2) obtain made bs where m: "split_up xs = made @ bs" "map fst calls = map f made" "rest = map f bs"
    by (auto simp: map_eq_append_conv)
  then have "xs = concat made @ concat bs" using concat_batches [of xs] by simp
  moreover have "\<forall>b \<in> set made. b \<noteq> [] \<and> fits b" using batch_fits [of _ xs] unfolding m(1) by simp
  ultimately show ?thesis using r(1) m(2,3) e
    by (intro conjI exI [of _ made] exI [of _ "concat bs"]) (auto simp: send_all_map split: if_splits)
qed

end

interpretation slicer: batcher "slices (Suc n) 0" "\<lambda>b. length b \<le> Suc n" for n
proof
  fix xs b :: "'a list"
  show "concat (slices (Suc n) 0 xs) = xs" by (simp add: slices_concat)
  show "b \<noteq> [] \<and> length b \<le> Suc n" if "b \<in> set (slices (Suc n) 0 xs)" using slices_sizes [OF that] .
qed

section \<open>Paged results\<close>

text \<open>
  A source of pages: the items after a key (or from the start) and the key to continue from, if there is more.
  Keys make progress: there is a rank that decreases from page to page.
\<close>

locale pager =
  fixes page :: "'k option \<Rightarrow> 'i list \<times> 'k option" and rank :: "'k option \<Rightarrow> nat"
  assumes progress: "page k = (xs, Some k') \<Longrightarrow> rank (Some k') < rank k"

inductive pages_from :: "('k option \<Rightarrow> 'i list \<times> 'k option) \<Rightarrow> 'k option \<Rightarrow> 'i list \<Rightarrow> bool" for page where
  last_page: "page k = (xs, None) \<Longrightarrow> pages_from page k xs"
| more_pages: "page k = (xs, Some k') \<Longrightarrow> pages_from page (Some k') ys \<Longrightarrow> pages_from page k (xs @ ys)"

inductive_cases pages_fromE: "pages_from page k xs"

lemma pages_from_unique: "pages_from page k xs \<Longrightarrow> pages_from page k ys \<Longrightarrow> xs = ys"
proof (induction arbitrary: ys rule: pages_from.induct)
  case (last_page k xs)
  then show ?case by (auto elim: pages_fromE)
next
  case (more_pages k xs k' ys')
  from more_pages.prems more_pages.hyps(1) obtain zs where "ys = xs @ zs" "pages_from page (Some k') zs"
    by (auto elim: pages_fromE)
  with more_pages.IH show ?case by simp
qed

text \<open>
  The loop of the clients: fetch a page, append its items, stop when there is no next key. The loop need not
  end, so its value is an option.
\<close>

partial_function (option) read_pages ::
  "('k option \<Rightarrow> 's \<Rightarrow> ('e, 'i list \<times> 'k option) res \<times> 's) \<Rightarrow> 'k option \<Rightarrow> 'i list \<Rightarrow> 's
     \<Rightarrow> (('e, 'i list) res \<times> 's) option" where
  "read_pages fetch k acc s =
     (case fetch k s of
        (Inl e, s') \<Rightarrow> Some (Inl e, s')
      | (Inr (xs, None), s') \<Rightarrow> Some (Inr (acc @ xs), s')
      | (Inr (xs, Some k'), s') \<Rightarrow> read_pages fetch (Some k') (acc @ xs) s')"

declare read_pages.simps [code]

context pager
begin

lemma pages_exist: "\<exists>xs. pages_from page k xs"
proof (induction "rank k" arbitrary: k rule: less_induct)
  case less
  obtain xs nk where p: "page k = (xs, nk)" by fastforce
  show ?case
  proof (cases nk)
    case None
    with p show ?thesis by (auto intro: last_page)
  next
    case (Some k')
    with p less progress show ?thesis by (metis more_pages)
  qed
qed

text \<open>The loop ends and yields all the items, when every fetch returns the page.\<close>

lemma read_pages_all:
  assumes "\<And>k s. fetch k s = (Inr (page k), after k s)"
  shows "\<exists>xs s'. read_pages fetch k acc s = Some (Inr (acc @ xs), s') \<and> pages_from page k xs"
proof (induction "rank k" arbitrary: k acc s rule: less_induct)
  case less
  obtain xs nk where p: "page k = (xs, nk)" by fastforce
  show ?case
  proof (cases nk)
    case None
    then show ?thesis using p by (subst read_pages.simps) (auto simp: assms intro: last_page)
  next
    case (Some k')
    have "rank (Some k') < rank k" using p Some by (auto intro: progress)
    from less [OF this, of "acc @ xs" "after k s"] obtain ys s' where
      "read_pages fetch (Some k') (acc @ xs) (after k s) = Some (Inr ((acc @ xs) @ ys), s')" "pages_from page (Some k') ys"
      by blast
    then show ?thesis using p Some by (subst read_pages.simps) (auto simp: assms intro!: more_pages)
  qed
qed

end

text \<open>A source over a list, with pages of \<open>n > 0\<close> items and the position as key.\<close>

definition list_page :: "'i list \<Rightarrow> nat \<Rightarrow> nat option \<Rightarrow> 'i list \<times> nat option" where
  "list_page items n k =
     (let i = (case k of None \<Rightarrow> 0 | Some i \<Rightarrow> i)
      in (take n (drop i items), if 0 < n \<and> i + n < length items then Some (i + n) else None))"

interpretation list_source: pager "list_page items n" "\<lambda>k. length items - (case k of None \<Rightarrow> 0 | Some i \<Rightarrow> i)"
  for items :: "'i list" and n
  by unfold_locales (auto simp: list_page_def Let_def split: if_splits option.splits)

end
