(* ===== verification/Dynamo.thy ===== *)
theory Dynamo
  imports Batching GoStrings
begin

text \<open>
  Package \<open>aws/dynamodb\<close>: single-item operations, batches of at most 25 items with retries of what DynamoDB leaves
  unprocessed, queries and scans. The service is the record \<open>ddb\<close> of API calls over its state; attribute values
  and their (un)marshalling are arguments. The bodies that \<open>runParallel\<close> starts run one after the other in an
  arbitrary order in the executable model; the step relation \<open>batch_step\<close> interleaves their API calls.
\<close>

section \<open>Errors\<close>

datatype aws_error =
    ConditionalCheckFailed | ResourceNotFound | ProvisionedThroughputExceeded | RequestLimitExceeded
  | TransactionConflict | TransactionCanceled | DuplicateItem | ResourceInUse | TableNotFound
  | InternalServer | ItemCollectionSizeLimit | Throttling | OtherAws string

datatype ddb_error = NotFound | Wrapped string aws_error | Unmarshal string | Config string

fun error_prefix :: "aws_error \<Rightarrow> string" where
  "error_prefix ConditionalCheckFailed = ''failed conditional check''"
| "error_prefix ResourceNotFound = ''failed to find resource''"
| "error_prefix ProvisionedThroughputExceeded = ''exceeded provisioned throughput''"
| "error_prefix RequestLimitExceeded = ''exceeded request limit''"
| "error_prefix TransactionConflict = ''hit transaction conflict''"
| "error_prefix TransactionCanceled = ''canceled transaction''"
| "error_prefix DuplicateItem = ''rejected duplicate item''"
| "error_prefix ResourceInUse = ''found resource in use''"
| "error_prefix TableNotFound = ''failed to find table''"
| "error_prefix InternalServer = ''hit internal server error''"
| "error_prefix ItemCollectionSizeLimit = ''exceeded item collection size''"
| "error_prefix Throttling = ''throttled request''"
| "error_prefix (OtherAws _) = ''failed dynamodb request''"

definition WrapError :: "aws_error \<Rightarrow> ddb_error" where
  "WrapError e = Wrapped (error_prefix e) e"

section \<open>The service\<close>

datatype 'i WriteRequest = PutRequest 'i | DeleteRequest 'i

text \<open>\<open>QueryInput\<close> and \<open>ScanInput\<close> in one record: a scan has no key condition and no direction.\<close>

record 'i QueryInput =
  qi_TableName :: string
  qi_IndexName :: "string option"
  qi_KeyCondition :: string
  qi_Filter :: "string option"
  qi_Values :: "'i option"
  qi_Names :: "(string \<times> string) list option"
  qi_Limit :: "int option"
  qi_Forward :: "bool option"
  qi_StartKey :: "'i option"

record 'i QueryOutput =
  qo_Items :: "'i list"
  qo_LastKey :: "'i option"
  qo_Count :: int

record 'i UpdateInput =
  ui_Table :: string
  ui_Key :: 'i
  ui_Expr :: string
  ui_Values :: "'i option"
  ui_Names :: "(string \<times> string) list option"
  ui_Condition :: "string option"

type_synonym 'x by_table = "(string \<times> 'x list) list"
type_synonym ('a, 'd) call = "'d \<Rightarrow> (aws_error, 'a) res \<times> 'd"

record ('i, 'd) ddb =
  api_DescribeTable :: "string \<Rightarrow> (unit, 'd) call"
  api_GetItem :: "string \<Rightarrow> 'i \<Rightarrow> ('i option, 'd) call"
  api_PutItem :: "string \<Rightarrow> 'i \<Rightarrow> string option \<Rightarrow> (unit, 'd) call"
  api_UpdateItem :: "'i UpdateInput \<Rightarrow> ('i, 'd) call"
  api_DeleteItem :: "string \<Rightarrow> 'i \<Rightarrow> string option \<Rightarrow> (unit, 'd) call"
  api_BatchGetItem :: "'i by_table \<Rightarrow> ('i by_table \<times> 'i by_table, 'd) call"
  api_BatchWriteItem :: "'i WriteRequest by_table \<Rightarrow> ('i WriteRequest by_table, 'd) call"
  api_Query :: "'i QueryInput \<Rightarrow> ('i QueryOutput, 'd) call"
  api_Scan :: "'i QueryInput \<Rightarrow> ('i QueryOutput, 'd) call"

text \<open>The process: the service's state, the clock and the deadline of the context.\<close>

record 'd dworld =
  dw_db :: 'd
  dw_now :: instant
  dw_deadline :: "instant option"

type_synonym ('a, 'd) op = "'d dworld \<Rightarrow> (ddb_error, 'a) res \<times> 'd dworld"

definition on_db :: "('a, 'd) call \<Rightarrow> ('a, 'd) op" where
  "on_db c w = (case c (dw_db w) of (r, d) \<Rightarrow> (map_sum WrapError id r, w\<lparr>dw_db := d\<rparr>))"

section \<open>The client\<close>

record dClient =
  dc_maxParallel :: int

definition dynamo_newWithAPI :: "int \<Rightarrow> dClient" where
  "dynamo_newWithAPI maxParallel = \<lparr>dc_maxParallel = (if maxParallel \<le> 0 then 5 else maxParallel)\<rparr>"

record dConfig =
  dcf_Region :: string
  dcf_AccessKey :: string
  dcf_SecretKey :: string
  dcf_Endpoint :: string
  dcf_MaxConcurrentBatches :: int

text \<open>\<open>load\<close> is \<open>awsconfig.LoadDefaultConfig\<close> with the region and the static credentials, if any.\<close>

definition dynamo_New ::
  "(string \<Rightarrow> (string \<times> string) option \<Rightarrow> aws_error option) \<Rightarrow> dConfig \<Rightarrow> (ddb_error, dClient \<times> string option) res" where
  "dynamo_New load c =
     (if dcf_Region c = [] then Inl (Config ''missing region'')
      else
        (let creds = (if dcf_AccessKey c \<noteq> [] \<and> dcf_SecretKey c \<noteq> [] then Some (dcf_AccessKey c, dcf_SecretKey c)
                      else if dcf_Endpoint c \<noteq> [] then Some (''test'', ''test'') else None)
         in case load (dcf_Region c) creds of
              Some e \<Rightarrow> Inl (WrapError e)
            | None \<Rightarrow> Inr (dynamo_newWithAPI (dcf_MaxConcurrentBatches c),
                           if dcf_Endpoint c \<noteq> [] then Some (dcf_Endpoint c) else None)))"

text \<open>\<open>BuildKey\<close>: a sort key only when it has a name and a value.\<close>

definition BuildKey ::
  "('x \<Rightarrow> (aws_error, 'v) res) \<Rightarrow> string \<Rightarrow> 'x \<Rightarrow> string \<Rightarrow> 'x option \<Rightarrow> (ddb_error, string \<rightharpoonup> 'v) res" where
  "BuildKey marshal pk pv sk sv =
     (case marshal pv of
        Inl e \<Rightarrow> Inl (WrapError e)
      | Inr a \<Rightarrow>
          (let key = [pk \<mapsto> a]
           in if sk \<noteq> [] \<and> sv \<noteq> None then
                (case marshal (the sv) of Inl e \<Rightarrow> Inl (WrapError e) | Inr b \<Rightarrow> Inr (key(sk \<mapsto> b)))
              else Inr key))"

section \<open>Single items\<close>

definition DescribeTable :: "('i, 'd) ddb \<Rightarrow> string \<Rightarrow> (unit, 'd) op" where
  "DescribeTable api table = on_db (api_DescribeTable api table)"

definition getItem :: "('i, 'd) ddb \<Rightarrow> string \<Rightarrow> 'i \<Rightarrow> ('i, 'd) op" where
  "getItem api table key w =
     (case on_db (api_GetItem api table key) w of
        (Inl e, w') \<Rightarrow> (Inl e, w')
      | (Inr None, w') \<Rightarrow> (Inl NotFound, w')
      | (Inr (Some it), w') \<Rightarrow> (Inr it, w'))"

definition putItem :: "('i, 'd) ddb \<Rightarrow> string \<Rightarrow> 'i \<Rightarrow> string option \<Rightarrow> (unit, 'd) op" where
  "putItem api table it cond = on_db (api_PutItem api table it cond)"

definition deleteItem :: "('i, 'd) ddb \<Rightarrow> string \<Rightarrow> 'i \<Rightarrow> string option \<Rightarrow> (unit, 'd) op" where
  "deleteItem api table key cond = on_db (api_DeleteItem api table key cond)"

definition UpdateItem :: "('i, 'd) ddb \<Rightarrow> 'i UpdateInput \<Rightarrow> ('i, 'd) op" where
  "UpdateItem api u = on_db (api_UpdateItem api u)"

text \<open>Decoding a result with an unmarshaller, an argument of the operations ending in \<open>As\<close>.\<close>

definition decode_with :: "('a \<Rightarrow> (aws_error, 'b) res) \<Rightarrow> (ddb_error, 'a) res \<times> 'w \<Rightarrow> (ddb_error, 'b) res \<times> 'w" where
  "decode_with un r = (case r of (x, w) \<Rightarrow> (bind_res x (\<lambda>a. map_sum WrapError id (un a)), w))"

definition UpdateItemAs ::
  "('i \<Rightarrow> (aws_error, 'b) res) \<Rightarrow> ('i, 'd) ddb \<Rightarrow> 'i UpdateInput \<Rightarrow> ('b, 'd) op" where
  "UpdateItemAs un api u w = decode_with un (UpdateItem api u w)"

section \<open>Batches\<close>

definition maxBatchSize :: nat where "maxBatchSize = 25"
definition maxBatchRetries :: nat where "maxBatchRetries = 5"
definition batchRetryBaseDelay :: duration where "batchRetryBaseDelay = 50 * Millisecond"

definition chunks :: "'a list \<Rightarrow> 'a list list" where
  "chunks items = slices maxBatchSize 0 items"

interpretation chunk: batcher chunks "\<lambda>b. length b \<le> 25"
proof
  fix xs b :: "'a list"
  show "concat (chunks xs) = xs" by (simp add: chunks_def maxBatchSize_def slices_concat)
  show "b \<noteq> [] \<and> length b \<le> 25" if "b \<in> set (chunks xs)"
    using slices_sizes [OF that [unfolded chunks_def]] by (simp add: maxBatchSize_def)
qed

text \<open>The select on the context and \<open>time.After\<close>.\<close>

definition await :: "duration \<Rightarrow> 'd dworld \<Rightarrow> bool \<times> 'd dworld" where
  "await delay w =
     (case dw_deadline w of
        Some t \<Rightarrow> if t \<le> dw_now w + delay then (False, w\<lparr>dw_now := max (dw_now w) t\<rparr>)
                  else (True, w\<lparr>dw_now := dw_now w + delay\<rparr>)
      | None \<Rightarrow> (True, w\<lparr>dw_now := dw_now w + delay\<rparr>))"

text \<open>The retry loops; the first argument is the number of attempts left.\<close>

primrec retry_writes ::
  "nat \<Rightarrow> ('i, 'd) ddb \<Rightarrow> duration \<Rightarrow> 'i WriteRequest by_table \<Rightarrow> (unit, 'd) op" where
  "retry_writes 0 api delay un w =
     (if un = [] then (Inr (), w)
      else (Inl (WrapError (OtherAws ''unprocessed write items remain after 5 retries'')), w))"
| "retry_writes (Suc n) api delay un w =
     (if un = [] then (Inr (), w)
      else (case await delay w of
              (False, w1) \<Rightarrow> (Inl (WrapError (OtherAws ''context done'')), w1)
            | (True, w1) \<Rightarrow>
                (case on_db (api_BatchWriteItem api un) w1 of
                   (Inl e, w2) \<Rightarrow> (Inl e, w2)
                 | (Inr un', w2) \<Rightarrow> retry_writes n api (delay * 2) un' w2)))"

definition retryUnprocessed :: "('i, 'd) ddb \<Rightarrow> 'i WriteRequest by_table \<Rightarrow> (unit, 'd) op" where
  "retryUnprocessed api un = retry_writes maxBatchRetries api batchRetryBaseDelay un"

definition responses_for :: "string \<Rightarrow> 'i by_table \<Rightarrow> 'i list" where
  "responses_for table rs = (case map_of rs table of None \<Rightarrow> [] | Some xs \<Rightarrow> xs)"

primrec retry_reads ::
  "nat \<Rightarrow> ('i, 'd) ddb \<Rightarrow> string \<Rightarrow> duration \<Rightarrow> 'i list \<Rightarrow> 'i by_table \<Rightarrow> ('i list, 'd) op" where
  "retry_reads 0 api table delay items un w =
     (if un = [] then (Inr items, w)
      else (Inl (WrapError (OtherAws ''unprocessed read keys remain after 5 retries'')), w))"
| "retry_reads (Suc n) api table delay items un w =
     (if un = [] then (Inr items, w)
      else (case await delay w of
              (False, w1) \<Rightarrow> (Inl (WrapError (OtherAws ''context done'')), w1)
            | (True, w1) \<Rightarrow>
                (case on_db (api_BatchGetItem api un) w1 of
                   (Inl e, w2) \<Rightarrow> (Inl e, w2)
                 | (Inr (rs, un'), w2) \<Rightarrow>
                     retry_reads n api table (delay * 2) (items @ responses_for table rs) un' w2)))"

definition retryUnprocessedKeys :: "('i, 'd) ddb \<Rightarrow> string \<Rightarrow> 'i by_table \<Rightarrow> ('i list, 'd) op" where
  "retryUnprocessedKeys api table un = retry_reads maxBatchRetries api table batchRetryBaseDelay [] un"

text \<open>
  \<open>runParallel\<close> with the bodies run in the order \<open>order\<close>: each stores its result under its index, and the first
  error by index is returned.
\<close>

definition run_bodies :: "(nat \<Rightarrow> 'w \<Rightarrow> ('e, 'a) res \<times> 'w) \<Rightarrow> nat list \<Rightarrow> 'w \<Rightarrow> (nat \<rightharpoonup> ('e, 'a) res) \<times> 'w" where
  "run_bodies fn order w =
     fold (\<lambda>i (rs, w). case fn i w of (r, w') \<Rightarrow> (rs(i \<mapsto> r), w')) order (Map.empty, w)"

primrec first_error :: "('e, 'a) res option list \<Rightarrow> 'e option" where
  "first_error [] = None"
| "first_error (r # rs) = (case r of Some (Inl e) \<Rightarrow> Some e | _ \<Rightarrow> first_error rs)"

definition runParallel ::
  "nat list \<Rightarrow> nat \<Rightarrow> (nat \<Rightarrow> 'w \<Rightarrow> ('e, 'a) res \<times> 'w) \<Rightarrow> 'w \<Rightarrow> ('e, nat \<Rightarrow> 'a) res \<times> 'w" where
  "runParallel order n fn w =
     (if n = 1 then (case fn 0 w of (Inl e, w') \<Rightarrow> (Inl e, w') | (Inr a, w') \<Rightarrow> (Inr (\<lambda>_. a), w'))
      else
        (case run_bodies fn order w of
           (rs, w') \<Rightarrow>
             (case first_error (map rs [0..<n]) of
                Some e \<Rightarrow> (Inl e, w')
              | None \<Rightarrow> (Inr (\<lambda>i. projr (the (rs i))), w'))))"

definition write_batch :: "('i, 'd) ddb \<Rightarrow> string \<Rightarrow> 'i WriteRequest list \<Rightarrow> (unit, 'd) op" where
  "write_batch api table reqs w =
     (case on_db (api_BatchWriteItem api [(table, reqs)]) w of
        (Inl e, w') \<Rightarrow> (Inl e, w')
      | (Inr un, w') \<Rightarrow> if un \<noteq> [] then retryUnprocessed api un w' else (Inr (), w'))"

definition batchWriteItems :: "nat list \<Rightarrow> ('i, 'd) ddb \<Rightarrow> string \<Rightarrow> 'i list \<Rightarrow> (unit, 'd) op" where
  "batchWriteItems order api table items w =
     (if length items = 0 then (Inr (), w)
      else (let bs = chunks items
            in apfst (map_sum id (\<lambda>_. ()))
                 (runParallel order (length bs) (\<lambda>i. write_batch api table (map PutRequest (bs ! i))) w)))"

definition batchDeleteItems :: "nat list \<Rightarrow> ('i, 'd) ddb \<Rightarrow> string \<Rightarrow> 'i list \<Rightarrow> (unit, 'd) op" where
  "batchDeleteItems order api table keys w =
     (if length keys = 0 then (Inr (), w)
      else (let bs = chunks keys
            in apfst (map_sum id (\<lambda>_. ()))
                 (runParallel order (length bs) (\<lambda>i. write_batch api table (map DeleteRequest (bs ! i))) w)))"

definition get_batch :: "('i, 'd) ddb \<Rightarrow> string \<Rightarrow> 'i list \<Rightarrow> ('i list, 'd) op" where
  "get_batch api table keys w =
     (case on_db (api_BatchGetItem api [(table, keys)]) w of
        (Inl e, w') \<Rightarrow> (Inl e, w')
      | (Inr (rs, un), w') \<Rightarrow>
          (let items = responses_for table rs
           in if un \<noteq> [] then
                (case retryUnprocessedKeys api table un w' of
                   (Inl e, w'') \<Rightarrow> (Inl e, w'')
                 | (Inr retried, w'') \<Rightarrow> (Inr (items @ retried), w''))
              else (Inr items, w')))"

definition batchGetItems :: "nat list \<Rightarrow> ('i, 'd) ddb \<Rightarrow> string \<Rightarrow> 'i list \<Rightarrow> ('i list, 'd) op" where
  "batchGetItems order api table keys w =
     (if length keys = 0 then (Inr [], w)
      else (let bs = chunks keys
            in apfst (map_sum id (\<lambda>rs. concat (map rs [0..<length bs])))
                 (runParallel order (length bs) (\<lambda>i. get_batch api table (bs ! i)) w)))"

definition batchGetItemsAs ::
  "('i list \<Rightarrow> (aws_error, 'b) res) \<Rightarrow> nat list \<Rightarrow> ('i, 'd) ddb \<Rightarrow> string \<Rightarrow> 'i list \<Rightarrow> ('b, 'd) op" where
  "batchGetItemsAs un order api table keys w = decode_with un (batchGetItems order api table keys w)"

section \<open>The exported operations\<close>

datatype 'i got = OneItem 'i | ManyItems "'i list"

definition GetItem :: "nat list \<Rightarrow> ('i, 'd) ddb \<Rightarrow> string \<Rightarrow> 'i \<Rightarrow> bool \<Rightarrow> 'i list \<Rightarrow> ('i got, 'd) op" where
  "GetItem order api table key batch keys w =
     (if batch then apfst (map_sum id ManyItems) (batchGetItems order api table keys w)
      else apfst (map_sum id OneItem) (getItem api table key w))"

definition GetItemAs ::
  "('i list \<Rightarrow> (aws_error, 'b) res) \<Rightarrow> ('i \<Rightarrow> (aws_error, 'b) res) \<Rightarrow> nat list \<Rightarrow> ('i, 'd) ddb \<Rightarrow> string \<Rightarrow> 'i \<Rightarrow> bool
     \<Rightarrow> 'i list \<Rightarrow> ('b, 'd) op" where
  "GetItemAs unl un order api table key batch keys w =
     (if batch then batchGetItemsAs unl order api table keys w else decode_with un (getItem api table key w))"

definition WriteItem ::
  "nat list \<Rightarrow> ('i, 'd) ddb \<Rightarrow> string \<Rightarrow> 'i \<Rightarrow> bool \<Rightarrow> 'i list \<Rightarrow> string option \<Rightarrow> (unit, 'd) op" where
  "WriteItem order api table it batch items cond w =
     (if batch then batchWriteItems order api table items w else putItem api table it cond w)"

text \<open>\<open>WriteItemFrom\<close>: the marshalled list must consist of maps; the error names the first that is not.\<close>

primrec all_maps :: "nat \<Rightarrow> 'i option list \<Rightarrow> (nat, 'i list) res" where
  "all_maps i [] = Inr []"
| "all_maps i (x # xs) =
     (case x of None \<Rightarrow> Inl i | Some m \<Rightarrow> bind_res (all_maps (Suc i) xs) (\<lambda>ms. Inr (m # ms)))"

definition WriteItemFrom ::
  "(aws_error, 'i) res \<Rightarrow> (aws_error, 'i option list) res \<Rightarrow> nat list \<Rightarrow> ('i, 'd) ddb \<Rightarrow> string \<Rightarrow> bool \<Rightarrow> string option
     \<Rightarrow> (unit, 'd) op" where
  "WriteItemFrom marshalled_item marshalled_items order api table batch cond w =
     (if batch then
        (case marshalled_items of
           Inl e \<Rightarrow> (Inl (WrapError e), w)
         | Inr av \<Rightarrow>
             (case all_maps 0 av of
                Inl i \<Rightarrow> (Inl (WrapError (OtherAws (''item '' @ Itoa (int i) @ '' is not a map''))), w)
              | Inr ms \<Rightarrow> batchWriteItems order api table ms w))
      else
        (case marshalled_item of
           Inl e \<Rightarrow> (Inl (WrapError e), w)
         | Inr av \<Rightarrow> putItem api table av cond w))"

definition DeleteItem ::
  "nat list \<Rightarrow> ('i, 'd) ddb \<Rightarrow> string \<Rightarrow> 'i \<Rightarrow> bool \<Rightarrow> 'i list \<Rightarrow> string option \<Rightarrow> (unit, 'd) op" where
  "DeleteItem order api table key batch keys cond w =
     (if batch then batchDeleteItems order api table keys w else deleteItem api table key cond w)"

section \<open>Queries and scans\<close>

definition Query :: "('i, 'd) ddb \<Rightarrow> 'i QueryInput \<Rightarrow> ('i QueryOutput, 'd) op" where
  "Query api q = on_db (api_Query api q)"

definition Scan :: "('i, 'd) ddb \<Rightarrow> 'i QueryInput \<Rightarrow> ('i QueryOutput, 'd) op" where
  "Scan api q = on_db (api_Scan api q)"

definition QueryAs ::
  "('i list \<Rightarrow> (aws_error, 'b) res) \<Rightarrow> ('i, 'd) ddb \<Rightarrow> 'i QueryInput \<Rightarrow> ('i QueryOutput \<times> 'b, 'd) op" where
  "QueryAs un api q w = decode_with (\<lambda>out. map_sum id (Pair out) (un (qo_Items out))) (Query api q w)"

definition ScanAs ::
  "('i list \<Rightarrow> (aws_error, 'b) res) \<Rightarrow> ('i, 'd) ddb \<Rightarrow> 'i QueryInput \<Rightarrow> ('i QueryOutput \<times> 'b, 'd) op" where
  "ScanAs un api q w = decode_with (\<lambda>out. map_sum id (Pair out) (un (qo_Items out))) (Scan api q w)"

text \<open>One turn of the loops of \<open>QueryAll\<close> and \<open>ScanAll\<close>: the start key is the last key, nil at first.\<close>

definition one_page ::
  "('i QueryInput \<Rightarrow> ('i QueryOutput, 'd) op) \<Rightarrow> 'i QueryInput \<Rightarrow> 'i option \<Rightarrow> ('i list \<times> 'i option, 'd) op" where
  "one_page run q lastKey w =
     apfst (map_sum id (\<lambda>out. (qo_Items out, qo_LastKey out))) (run (q\<lparr>qi_StartKey := lastKey\<rparr>) w)"

definition QueryAll ::
  "('i, 'd) ddb \<Rightarrow> 'i QueryInput \<Rightarrow> 'd dworld \<Rightarrow> ((ddb_error, 'i list) res \<times> 'd dworld) option" where
  "QueryAll api q w = read_pages (one_page (Query api) q) None [] w"

definition ScanAll ::
  "('i, 'd) ddb \<Rightarrow> 'i QueryInput \<Rightarrow> 'd dworld \<Rightarrow> ((ddb_error, 'i list) res \<times> 'd dworld) option" where
  "ScanAll api q w = read_pages (one_page (Scan api) q) None [] w"

definition QueryAllAs ::
  "('i list \<Rightarrow> (aws_error, 'b) res) \<Rightarrow> ('i, 'd) ddb \<Rightarrow> 'i QueryInput \<Rightarrow> 'd dworld \<Rightarrow> ((ddb_error, 'b) res \<times> 'd dworld) option" where
  "QueryAllAs un api q w = map_option (decode_with un) (QueryAll api q w)"

definition ScanAllAs ::
  "('i list \<Rightarrow> (aws_error, 'b) res) \<Rightarrow> ('i, 'd) ddb \<Rightarrow> 'i QueryInput \<Rightarrow> 'd dworld \<Rightarrow> ((ddb_error, 'b) res \<times> 'd dworld) option" where
  "ScanAllAs un api q w = map_option (decode_with un) (ScanAll api q w)"

section \<open>Concurrent batches\<close>

text \<open>
  \<open>runParallel\<close> as it runs: the loop starts the workers in order while the semaphore has room, each worker
  performs its API calls one at a time, and the calls of different workers interleave. A worker that waits
  between attempts may find the context done.
\<close>

datatype 'i worker = NotStarted | Started | Retrying nat "'i WriteRequest by_table" | Done "ddb_error option"

record ('i, 'd) bsys =
  workers :: "nat \<Rightarrow> 'i worker"
  service :: 'd

definition running :: "'i worker \<Rightarrow> bool" where
  "running x \<longleftrightarrow> (case x of Started \<Rightarrow> True | Retrying _ _ \<Rightarrow> True | _ \<Rightarrow> False)"

definition n_running :: "nat \<Rightarrow> (nat \<Rightarrow> 'i worker) \<Rightarrow> nat" where
  "n_running n ws = length (filter (\<lambda>i. running (ws i)) [0..<n])"

definition after_call :: "nat \<Rightarrow> (aws_error, 'i WriteRequest by_table) res \<Rightarrow> 'i worker" where
  "after_call attempt r =
     (case r of
        Inl e \<Rightarrow> Done (Some (WrapError e))
      | Inr un \<Rightarrow> if un = [] then Done None else Retrying attempt un)"

inductive batch_step ::
  "('i WriteRequest by_table \<Rightarrow> ('i WriteRequest by_table, 'd) call) \<Rightarrow> string \<Rightarrow> nat \<Rightarrow> 'i WriteRequest list list
     \<Rightarrow> ('i, 'd) bsys \<Rightarrow> ('i, 'd) bsys \<Rightarrow> bool"
  for wr table maxP bs where
  spawn: "i < length bs \<Longrightarrow> workers s i = NotStarted \<Longrightarrow> \<forall>j < i. workers s j \<noteq> NotStarted \<Longrightarrow>
    n_running (length bs) (workers s) < maxP \<Longrightarrow>
    batch_step wr table maxP bs s (s\<lparr>workers := (workers s)(i := Started)\<rparr>)"
| first_call: "i < length bs \<Longrightarrow> workers s i = Started \<Longrightarrow> wr [(table, bs ! i)] (service s) = (r, d) \<Longrightarrow>
    batch_step wr table maxP bs s (s\<lparr>workers := (workers s)(i := after_call 1 r), service := d\<rparr>)"
| retry: "i < length bs \<Longrightarrow> workers s i = Retrying a un \<Longrightarrow> a \<le> maxBatchRetries \<Longrightarrow> wr un (service s) = (r, d) \<Longrightarrow>
    batch_step wr table maxP bs s (s\<lparr>workers := (workers s)(i := after_call (Suc a) r), service := d\<rparr>)"
| exhausted: "i < length bs \<Longrightarrow> workers s i = Retrying a un \<Longrightarrow> a > maxBatchRetries \<Longrightarrow>
    batch_step wr table maxP bs s (s\<lparr>workers := (workers s)(i := Done (Some (WrapError (OtherAws
      ''unprocessed write items remain after 5 retries''))))\<rparr>)"
| cancelled: "i < length bs \<Longrightarrow> workers s i = Retrying a un \<Longrightarrow> a \<le> maxBatchRetries \<Longrightarrow>
    batch_step wr table maxP bs s (s\<lparr>workers := (workers s)(i := Done (Some (WrapError (OtherAws ''context done''))))\<rparr>)"

definition batch_start :: "'d \<Rightarrow> ('i, 'd) bsys" where
  "batch_start d = \<lparr>workers = (\<lambda>_. NotStarted), service = d\<rparr>"

text \<open>\<open>runParallel\<close> returns nil: every worker has finished without error.\<close>

definition all_done :: "nat \<Rightarrow> ('i, 'd) bsys \<Rightarrow> bool" where
  "all_done n s \<longleftrightarrow> (\<forall>i < n. \<exists>e. workers s i = Done e)"

definition returns_nil :: "nat \<Rightarrow> ('i, 'd) bsys \<Rightarrow> bool" where
  "returns_nil n s \<longleftrightarrow> (\<forall>i < n. workers s i = Done None)"

subsection \<open>What \<open>BatchWriteItem\<close> promises\<close>

text \<open>
  \<open>applied d t r\<close> says that request \<open>r\<close> on table \<open>t\<close> has been carried out. A successful call carries out every
  request of the call that it does not return as unprocessed.
\<close>

locale batch_writer =
  fixes wr :: "'i WriteRequest by_table \<Rightarrow> ('i WriteRequest by_table, 'd) call"
    and applied :: "'d \<Rightarrow> string \<Rightarrow> 'i WriteRequest \<Rightarrow> bool"
  assumes processed: "wr reqs d = (Inr un, d') \<Longrightarrow> (t, rs) \<in> set reqs \<Longrightarrow> r \<in> set rs \<Longrightarrow>
      applied d' t r \<or> (\<exists>rs'. (t, rs') \<in> set un \<and> r \<in> set rs')"
    and kept: "wr reqs d = (x, d') \<Longrightarrow> applied d t r \<Longrightarrow> applied d' t r"
begin

text \<open>Where a request of batch \<open>i\<close> is: carried out, or still on the way.\<close>

definition accounted :: "string \<Rightarrow> 'i WriteRequest \<Rightarrow> 'd \<Rightarrow> 'i worker \<Rightarrow> bool" where
  "accounted t r d x =
     (case x of
        Done None \<Rightarrow> applied d t r
      | Retrying _ un \<Rightarrow> applied d t r \<or> (\<exists>rs. (t, rs) \<in> set un \<and> r \<in> set rs)
      | _ \<Rightarrow> True)"

lemma accounted_after_call:
  assumes "wr reqs d = (x, d')" and "(t, rs) \<in> set reqs" and "r \<in> set rs"
  shows "accounted t r d' (after_call a x)"
  using processed [of reqs d _ d' t rs r] assms
  by (auto simp: accounted_def after_call_def split: sum.splits)

lemma applied_accounted: "applied d t r \<Longrightarrow> accounted t r d x"
  by (simp add: accounted_def split: worker.splits option.splits)

lemma accounted_after_retry:
  assumes "wr un d = (x, d')" and "accounted t r d (Retrying a un)"
  shows "accounted t r d' (after_call b x)"
proof -
  from assms(2) consider "applied d t r" | rs where "(t, rs) \<in> set un" "r \<in> set rs" by (auto simp: accounted_def)
  then show ?thesis
  proof cases
    case 1
    then show ?thesis using kept [OF assms(1)] applied_accounted by blast
  next
    case 2
    then show ?thesis using accounted_after_call [OF assms(1)] by blast
  qed
qed

lemma accounted_kept: "wr reqs d = (x, d') \<Longrightarrow> accounted t r d y \<Longrightarrow> accounted t r d' y"
  using kept by (fastforce simp: accounted_def split: worker.splits option.splits)

lemma call_accounted:
  assumes "\<forall>i < n. \<forall>r \<in> set (bs ! i). accounted t r d (ws i)" and "wr reqs d = (x, d')"
    and "\<And>r. r \<in> set (bs ! i) \<Longrightarrow> accounted t r d' y"
  shows "\<forall>j < n. \<forall>r \<in> set (bs ! j). accounted t r d' ((ws(i := y)) j)"
  using assms accounted_kept by auto

lemma step_accounted:
  assumes "batch_step wr t maxP bs s s'" and "\<forall>i < length bs. \<forall>r \<in> set (bs ! i). accounted t r (service s) (workers s i)"
  shows "\<forall>i < length bs. \<forall>r \<in> set (bs ! i). accounted t r (service s') (workers s' i)"
  using assms
proof (induction rule: batch_step.induct)
  case (first_call i s r d)
  then show ?case
    using call_accounted [OF first_call(4,3)] accounted_after_call [OF first_call(3), of t "bs ! i"] by simp
next
  case (retry i s a un r d)
  have "accounted t q d (after_call (Suc a) r)" if "q \<in> set (bs ! i)" for q
    using accounted_after_retry [OF retry(4)] retry(1,2,5) that by metis
  then show ?case using call_accounted [OF retry(5,4)] by simp
qed (auto simp: accounted_def)

lemma reach_accounted:
  assumes "(batch_step wr t maxP bs)\<^sup>*\<^sup>* (batch_start d) s"
  shows "\<forall>i < length bs. \<forall>r \<in> set (bs ! i). accounted t r (service s) (workers s i)"
  using assms
proof (induction rule: rtranclp_induct)
  case base
  then show ?case by (simp add: batch_start_def accounted_def)
next
  case (step s s')
  then show ?case using step_accounted by blast
qed

lemma nil_applied:
  assumes "(batch_step wr t maxP bs)\<^sup>*\<^sup>* (batch_start d) s" and "returns_nil (length bs) s" and "r \<in> set (concat bs)"
  shows "applied (service s) t r"
proof -
  obtain b where "b \<in> set bs" "r \<in> set b" using assms(3) by auto
  then obtain i where "i < length bs" "r \<in> set (bs ! i)" by (auto simp: in_set_conv_nth)
  then show ?thesis using reach_accounted [OF assms(1)] assms(2) by (auto simp: returns_nil_def accounted_def)
qed

end

subsection \<open>Runs end\<close>

definition weight :: "'i worker \<Rightarrow> nat" where
  "weight x = (case x of NotStarted \<Rightarrow> 8 | Started \<Rightarrow> 7 | Retrying a _ \<Rightarrow> Suc (6 - a) | Done _ \<Rightarrow> 0)"

definition total_weight :: "nat \<Rightarrow> (nat \<Rightarrow> 'i worker) \<Rightarrow> nat" where
  "total_weight n ws = (\<Sum>i < n. weight (ws i))"

lemma total_weight_less:
  assumes "i < n" and "weight (ws' i) < weight (ws i)" and "\<And>j. j \<noteq> i \<Longrightarrow> ws' j = ws j"
  shows "total_weight n ws' < total_weight n ws"
  unfolding total_weight_def
proof (rule sum_strict_mono_ex1)
  show "\<forall>j \<in> {..<n}. weight (ws' j) \<le> weight (ws j)" using assms by (metis less_imp_le order_refl)
qed (use assms in auto)

lemma weight_after_call: "weight (after_call a r) \<le> Suc (6 - a)"
  by (auto simp: weight_def after_call_def split: sum.splits)

lemma batch_step_weight:
  "batch_step wr table maxP bs s s' \<Longrightarrow> total_weight (length bs) (workers s') < total_weight (length bs) (workers s)"
proof (induction rule: batch_step.induct)
  case (spawn i s)
  then show ?case by (intro total_weight_less [of i]) (simp_all add: weight_def)
next
  case (first_call i s r d)
  then show ?case using weight_after_call [of 1 r]
    by (intro total_weight_less [of i]) (simp_all, simp add: weight_def [of Started])
next
  case (retry i s a un r d)
  then show ?case using weight_after_call [of "Suc a" r]
    by (intro total_weight_less [of i]) (simp_all, simp add: weight_def [of "Retrying a un"] maxBatchRetries_def)
next
  case (exhausted i s a un)
  then show ?case by (intro total_weight_less [of i]) (simp_all add: weight_def)
next
  case (cancelled i s a un)
  then show ?case by (intro total_weight_less [of i]) (simp_all add: weight_def)
qed

lemma batch_run_weight:
  "(batch_step wr table maxP bs ^^ k) s s' \<Longrightarrow> k + total_weight (length bs) (workers s') \<le> total_weight (length bs) (workers s)"
proof (induction k arbitrary: s')
  case (Suc k)
  then obtain s1 where "(batch_step wr table maxP bs ^^ k) s s1" "batch_step wr table maxP bs s1 s'" by auto
  with Suc.IH batch_step_weight show ?case by fastforce
qed simp

text \<open>At most \<open>maxP\<close> workers hold the semaphore.\<close>

lemma n_running_le:
  assumes "running (ws' i) \<Longrightarrow> running (ws i)" and "\<And>j. j \<noteq> i \<Longrightarrow> ws' j = ws j"
  shows "n_running n ws' \<le> n_running n ws"
  unfolding n_running_def by (rule length_filter_imp) (use assms in metis)

lemma n_running_spawn:
  assumes "\<And>j. j \<noteq> i \<Longrightarrow> ws' j = ws j"
  shows "n_running n ws' \<le> Suc (n_running n ws)"
proof -
  have "length (filter (\<lambda>j. running (ws' j)) js) \<le> Suc (length (filter (\<lambda>j. running (ws j)) js))" if "distinct js" for js
    using that
  proof (induction js)
    case (Cons j js)
    show ?case
    proof (cases "j = i")
      case True
      then have "filter (\<lambda>j. running (ws' j)) js = filter (\<lambda>j. running (ws j)) js"
        using Cons.prems assms by (intro filter_cong) (metis distinct.simps(2))+
      then show ?thesis by simp
    next
      case False
      then show ?thesis using Cons assms by simp
    qed
  qed simp
  then show ?thesis by (simp add: n_running_def)
qed

lemma step_changes_one:
  "batch_step wr table maxP bs s s' \<Longrightarrow>
   \<exists>i. (\<forall>j. j \<noteq> i \<longrightarrow> workers s' j = workers s j) \<and> (running (workers s i) \<or> n_running (length bs) (workers s) < maxP)"
proof (induction rule: batch_step.induct)
  case (spawn i s)
  then show ?case by (intro exI [of _ i]) simp
next
  case (first_call i s r d)
  then show ?case by (intro exI [of _ i]) (simp add: running_def)
next
  case (retry i s a un r d)
  then show ?case by (intro exI [of _ i]) (simp add: running_def)
next
  case (exhausted i s a un)
  then show ?case by (intro exI [of _ i]) (simp add: running_def)
next
  case (cancelled i s a un)
  then show ?case by (intro exI [of _ i]) (simp add: running_def)
qed

lemma step_running:
  assumes "batch_step wr table maxP bs s s'" and "n_running (length bs) (workers s) \<le> maxP"
  shows "n_running (length bs) (workers s') \<le> maxP"
proof -
  obtain i where i: "\<And>j. j \<noteq> i \<Longrightarrow> workers s' j = workers s j"
    "running (workers s i) \<or> n_running (length bs) (workers s) < maxP"
    using step_changes_one [OF assms(1)] by blast
  show ?thesis
    using i(2) n_running_le [of "workers s'" i "workers s" "length bs"] n_running_spawn [of i "workers s'" "workers s" "length bs"]
      i(1) assms(2) by fastforce
qed

lemma reach_running:
  "(batch_step wr table maxP bs)\<^sup>*\<^sup>* (batch_start d) s \<Longrightarrow> n_running (length bs) (workers s) \<le> maxP"
proof (induction rule: rtranclp_induct)
  case base
  then show ?case by (simp add: n_running_def batch_start_def running_def)
next
  case (step s s')
  then show ?case using step_running by blast
qed

text \<open>No state is stuck before every worker has finished.\<close>

lemma first_not_started:
  assumes "workers s i = NotStarted" and "i < n"
  obtains j where "j < n" "workers s j = NotStarted" "\<forall>k < j. workers s k \<noteq> NotStarted"
proof -
  let ?j = "LEAST j. workers s j = NotStarted"
  have "workers s ?j = NotStarted" using assms(1) by (rule LeastI)
  moreover have "?j \<le> i" using assms(1) by (rule Least_le)
  moreover have "\<forall>k < ?j. workers s k \<noteq> NotStarted" using not_less_Least [of _ "\<lambda>j. workers s j = NotStarted"] by metis
  ultimately show thesis using that [of ?j] assms(2) by (metis order_le_less_trans)
qed

lemma batch_progress:
  assumes "0 < maxP" and "\<not> all_done (length bs) s"
  shows "\<exists>s'. batch_step wr table maxP bs s s'"
proof -
  obtain i where i: "i < length bs" "\<nexists>e. workers s i = Done e" using assms(2) by (auto simp: all_done_def)
  show ?thesis
  proof (cases "\<exists>j < length bs. running (workers s j)")
    case True
    then obtain j where j: "j < length bs" "running (workers s j)" by blast
    then consider "workers s j = Started" | a un where "workers s j = Retrying a un"
      by (auto simp: running_def split: worker.splits)
    then show ?thesis
    proof cases
      case 1
      obtain r d where "wr [(table, bs ! j)] (service s) = (r, d)" by fastforce
      then show ?thesis using batch_step.first_call [where i = j and s = s, OF j(1) 1] by blast
    next
      case 2
      show ?thesis
      proof (cases "a \<le> maxBatchRetries")
        case True
        then show ?thesis using batch_step.cancelled [where i = j and s = s, OF j(1) 2] by blast
      next
        case False
        then show ?thesis using batch_step.exhausted [where i = j and s = s, OF j(1) 2] by (metis not_le)
      qed
    qed
  next
    case False
    then have "\<not> running (workers s i)" using i(1) by blast
    then have ns: "workers s i = NotStarted" using i(2) by (cases "workers s i") (auto simp: running_def)
    have nr: "n_running (length bs) (workers s) = 0" using False by (auto simp: n_running_def)
    obtain j where "j < length bs" "workers s j = NotStarted" "\<forall>k < j. workers s k \<noteq> NotStarted"
      by (rule first_not_started [OF ns i(1)])
    then show ?thesis using batch_step.spawn [where i = j and s = s] nr assms(1) by metis
  qed
qed

subsection \<open>The sequential bodies\<close>

context batch_writer
begin

lemma on_db_kept: "on_db (wr reqs) w = (x, w') \<Longrightarrow> applied (dw_db w) t r \<Longrightarrow> applied (dw_db w') t r"
  using kept by (auto simp: on_db_def split: prod.splits)

lemma on_db_processed:
  assumes "on_db (wr reqs) w = (Inr un, w')" and "(t, rs) \<in> set reqs" and "r \<in> set rs"
  shows "applied (dw_db w') t r \<or> (\<exists>rs'. (t, rs') \<in> set un \<and> r \<in> set rs')"
proof -
  obtain y d where y: "wr reqs (dw_db w) = (y, d)" by fastforce
  then have "y = Inr un" "dw_db w' = d" using assms(1) by (cases y; auto simp: on_db_def)+
  then show ?thesis using processed [of reqs "dw_db w" un d] y assms(2,3) by blast
qed

lemma await_db [simp]: "dw_db (snd (await delay w)) = dw_db w"
  by (simp add: await_def split: option.splits)

lemma retry_writes_applied:
  assumes "api_BatchWriteItem api = wr"
  shows "retry_writes n api delay un w = (x, w') \<Longrightarrow>
      (applied (dw_db w) t r \<longrightarrow> applied (dw_db w') t r) \<and>
      (x = Inr () \<longrightarrow> (\<forall>rs. (t, rs) \<in> set un \<longrightarrow> r \<in> set rs \<longrightarrow> applied (dw_db w') t r))"
proof (induction n arbitrary: delay un w)
  case 0
  then show ?case by (auto split: if_splits)
next
  case (Suc n)
  obtain go w1 where a: "await delay w = (go, w1)" by fastforce
  then have d1: "dw_db w1 = dw_db w" using await_db [of delay w] by simp
  obtain y w2 where b: "on_db (wr un) w1 = (y, w2)" by fastforce
  have run: "(x, w') = (if un = [] then (Inr (), w)
      else if \<not> go then (Inl (WrapError (OtherAws ''context done'')), w1)
      else case y of Inl e \<Rightarrow> (Inl e, w2) | Inr un' \<Rightarrow> retry_writes n api (delay * 2) un' w2)"
    using Suc.prems a b assms by (cases "un = []"; cases go; cases y) simp_all
  show ?case
  proof (cases "un = [] \<or> \<not> go \<or> isl y")
    case True
    with run d1 on_db_kept [OF b] show ?thesis by (cases y) (auto split: if_splits)
  next
    case False
    then obtain un' where y: "y = Inr un'" by (cases y) auto
    then have "retry_writes n api (delay * 2) un' w2 = (x, w')" using run False by simp
    from Suc.IH [OF this] on_db_kept [OF b] on_db_processed [OF b [unfolded y]] d1 show ?thesis by metis
  qed
qed

lemma write_batch_applied:
  assumes "api_BatchWriteItem api = wr" and "write_batch api t rs w = (x, w')"
  shows "applied (dw_db w) t' r' \<Longrightarrow> applied (dw_db w') t' r'"
    and "x = Inr () \<Longrightarrow> r \<in> set rs \<Longrightarrow> applied (dw_db w') t r"
proof -
  obtain y w1 where b: "on_db (wr [(t, rs)]) w = (y, w1)" by fastforce
  note k = on_db_kept [OF b]
  note rt = retry_writes_applied [OF assms(1)]
  show "applied (dw_db w) t' r' \<Longrightarrow> applied (dw_db w') t' r'"
    using assms b k rt by (fastforce simp: write_batch_def retryUnprocessed_def split: sum.splits if_splits)
  show "applied (dw_db w') t r" if "x = Inr ()" "r \<in> set rs"
  proof (cases y)
    case (Inl e)
    then show ?thesis using assms b that by (simp add: write_batch_def)
  next
    case (Inr un)
    have p: "applied (dw_db w1) t r \<or> (\<exists>rs'. (t, rs') \<in> set un \<and> r \<in> set rs')"
      using on_db_processed [OF b [unfolded Inr], of t rs r] that(2) by simp
    show ?thesis
    proof (cases "un = []")
      case True
      then show ?thesis using assms b Inr p by (simp add: write_batch_def)
    next
      case False
      then have "retry_writes maxBatchRetries api batchRetryBaseDelay un w1 = (Inr (), w')"
        using assms b Inr that by (simp add: write_batch_def retryUnprocessed_def)
      with rt p show ?thesis by blast
    qed
  qed
qed

lemma run_bodies_applied:
  assumes "api_BatchWriteItem api = wr" and "run_bodies (\<lambda>i. write_batch api t (bs ! i)) order w = (rs, w')"
  shows "\<forall>i \<in> set order. rs i \<noteq> None \<and> (rs i = Some (Inr ()) \<longrightarrow> (\<forall>r \<in> set (bs ! i). applied (dw_db w') t r))"
proof -
  let ?f = "\<lambda>i (rs, w). case write_batch api t (bs ! i) w of (r, w') \<Rightarrow> (rs(i \<mapsto> r), w')"
  have "\<forall>i \<in> set order \<union> dom rs0. rs1 i \<noteq> None \<and> (rs1 i = Some (Inr ()) \<longrightarrow> (\<forall>r \<in> set (bs ! i). applied (dw_db w1) t r))"
    if "fold ?f order (rs0, w0) = (rs1, w1)"
      and "\<forall>i \<in> dom rs0. rs0 i = Some (Inr ()) \<longrightarrow> (\<forall>r \<in> set (bs ! i). applied (dw_db w0) t r)" for rs0 w0 rs1 w1
    using that
  proof (induction order arbitrary: rs0 w0)
    case Nil
    then show ?case by auto
  next
    case (Cons i order)
    obtain x w2 where x: "write_batch api t (bs ! i) w0 = (x, w2)" by fastforce
    note wa = write_batch_applied [OF assms(1) x]
    have "\<forall>j \<in> dom (rs0(i \<mapsto> x)). (rs0(i \<mapsto> x)) j = Some (Inr ()) \<longrightarrow> (\<forall>r \<in> set (bs ! j). applied (dw_db w2) t r)"
      using Cons.prems(2) wa by (auto split: if_splits)
    from Cons.IH [OF _ this] Cons.prems(1) x show ?case by auto
  qed
  from this [of Map.empty w rs w'] assms(2) show ?thesis by (auto simp: run_bodies_def)
qed

lemma first_error_None: "first_error rs = None \<Longrightarrow> Some (Inl e) \<notin> set rs"
  by (induction rs) (auto split: option.splits sum.splits)

lemma parallel_applied:
  assumes "api_BatchWriteItem api = wr" and "set order = {..<length bs}"
    and "runParallel order (length bs) (\<lambda>i. write_batch api t (bs ! i)) w = (Inr a, w')"
  shows "\<forall>r \<in> set (concat bs). applied (dw_db w') t r"
proof (cases "length bs = 1")
  case True
  then obtain b where b: "bs = [b]" by (cases bs) auto
  then have "write_batch api t b w = (Inr (), w')" using assms(3) by (auto simp: runParallel_def split: prod.splits sum.splits)
  then show ?thesis using write_batch_applied(2) [OF assms(1)] b by simp
next
  case False
  obtain rs w1 where r: "run_bodies (\<lambda>i. write_batch api t (bs ! i)) order w = (rs, w1)" by fastforce
  then have ne: "first_error (map rs [0..<length bs]) = None" and w1: "w' = w1"
    using assms(3) False by (auto simp: runParallel_def split: option.splits)
  have "rs i = Some (Inr ())" if "i < length bs" for i
  proof -
    have "rs i \<noteq> None" using run_bodies_applied [OF assms(1) r] assms(2) that by blast
    moreover have "rs i \<noteq> Some (Inl e)" for e using first_error_None [OF ne, of e] that by (auto simp: image_iff dest: bspec [of _ _ i])
    ultimately show ?thesis by (metis (full_types) not_None_eq old.unit.exhaust sum.exhaust)
  qed
  moreover have "\<exists>i < length bs. q \<in> set (bs ! i)" if "q \<in> set (concat bs)" for q
    using that by (auto simp: in_set_conv_nth) (metis nth_mem)
  ultimately show ?thesis using run_bodies_applied [OF assms(1) r] assms(2) w1 by blast
qed

end

subsection \<open>A service that keeps the law\<close>

text \<open>It carries out at most \<open>c\<close> requests of the first table per call and returns the rest.\<close>

definition log_write ::
  "nat \<Rightarrow> 'i WriteRequest by_table \<Rightarrow> ('i WriteRequest by_table, (string \<times> 'i WriteRequest) list) call" where
  "log_write c reqs d =
     (case reqs of
        [] \<Rightarrow> (Inr [], d)
      | (t, rs) # rest \<Rightarrow>
          (Inr ((if drop c rs = [] then [] else [(t, drop c rs)]) @ rest), d @ map (Pair t) (take c rs)))"

interpretation logged: batch_writer "log_write c" "\<lambda>d t r. (t, r) \<in> set d" for c
proof
  fix reqs un :: "'i WriteRequest by_table" and d d' t rs r x
  show "(t, r) \<in> set d' \<or> (\<exists>rs'. (t, rs') \<in> set un \<and> r \<in> set rs')"
    if call: "log_write c reqs d = (Inr un, d')" and m: "(t, rs) \<in> set reqs" and r: "r \<in> set rs"
  proof (cases reqs)
    case (Cons p rest)
    obtain t0 rs0 where p: "p = (t0, rs0)" by fastforce
    consider "(t, rs) \<in> set rest" | "t = t0" "rs = rs0" using m Cons p by auto
    then show ?thesis
    proof cases
      case 1
      then show ?thesis using call Cons p r by (auto simp: log_write_def split: if_splits)
    next
      case 2
      have "r \<in> set (take c rs0) \<or> r \<in> set (drop c rs0)"
        using r 2 append_take_drop_id [of c rs0] by (metis Un_iff set_append)
      then show ?thesis using call Cons p 2 by (auto simp: log_write_def split: if_splits)
    qed
  qed (use m in simp)
  show "(t, r) \<in> set d'" if "log_write c reqs d = (x, d')" and "(t, r) \<in> set d"
    using that by (auto simp: log_write_def split: list.splits prod.splits if_splits)
qed

lemma runParallel_map:
  assumes "set order = {..<length bs}"
  shows "runParallel order (length bs) (\<lambda>i. write_batch api t (f (bs ! i))) w =
    runParallel order (length (map f bs)) (\<lambda>i. write_batch api t (map f bs ! i)) w"
proof -
  have "fold (\<lambda>i (rs, w). case write_batch api t (f (bs ! i)) w of (r, w') \<Rightarrow> (rs(i \<mapsto> r), w')) order x
      = fold (\<lambda>i (rs, w). case write_batch api t (map f bs ! i) w of (r, w') \<Rightarrow> (rs(i \<mapsto> r), w')) order x" for x
    by (rule fold_cong) (use assms in auto)
  then show ?thesis by (simp add: runParallel_def run_bodies_def)
qed

section \<open>Properties\<close>

text \<open>
  C14: When \<open>runParallel\<close> over the batches of \<open>batchWriteItems\<close> returns nil, every item has been written, however
  the API calls of the workers interleave, whatever the service leaves unprocessed and however often that is
  retried; no batch exceeds the 25 items the API accepts. The same holds of \<open>batchWriteItems\<close> with the bodies
  run in any order.
\<close>
theorem batch_write_complete:
  fixes wr :: "'i WriteRequest by_table \<Rightarrow> ('i WriteRequest by_table, 'd) call"
  assumes "batch_writer wr applied"
  defines "bs items \<equiv> map (map PutRequest) (chunks items)"
  shows "(\<forall>b \<in> set (bs items). length b \<le> 25) \<and>
    ((batch_step wr table maxP (bs items))\<^sup>*\<^sup>* (batch_start d) s \<longrightarrow> returns_nil (length (bs items)) s \<longrightarrow>
       (\<forall>x \<in> set items. applied (service s) table (PutRequest x))) \<and>
    (api_BatchWriteItem api = wr \<longrightarrow> set order = {..<length (bs items)} \<longrightarrow>
       batchWriteItems order api table items w = (Inr (), w') \<longrightarrow>
       (\<forall>x \<in> set items. applied (dw_db w') table (PutRequest x)))"
proof (intro conjI impI)
  have cc: "concat (bs items) = map PutRequest items"
    unfolding bs_def by (metis chunk.concat_batches map_concat)
  show "\<forall>b \<in> set (bs items). length b \<le> 25" using chunk.batch_fits [of _ items] by (auto simp: bs_def)
  show "\<forall>x \<in> set items. applied (service s) table (PutRequest x)"
    if "(batch_step wr table maxP (bs items))\<^sup>*\<^sup>* (batch_start d) s" "returns_nil (length (bs items)) s"
    using batch_writer.nil_applied [OF assms(1) that, unfolded cc] by simp
  show "\<forall>x \<in> set items. applied (dw_db w') table (PutRequest x)"
    if "api_BatchWriteItem api = wr" "set order = {..<length (bs items)}" "batchWriteItems order api table items w = (Inr (), w')"
  proof (cases "items = []")
    case False
    have "fst (runParallel order (length (bs items)) (\<lambda>i. write_batch api table (bs items ! i)) w) = Inr a \<Longrightarrow> ?thesis" for a
      using that False batch_writer.parallel_applied [OF assms(1) that(1,2), of table w _ w', unfolded cc]
        runParallel_map [of order "chunks items" api table "map PutRequest" w]
      by (cases "runParallel order (length (bs items)) (\<lambda>i. write_batch api table (bs items ! i)) w")
        (auto simp: batchWriteItems_def Let_def bs_def)
    moreover have "\<exists>a. fst (runParallel order (length (bs items)) (\<lambda>i. write_batch api table (bs items ! i)) w) = Inr a"
      using that False runParallel_map [of order "chunks items" api table "map PutRequest" w]
      by (cases "fst (runParallel order (length (bs items)) (\<lambda>i. write_batch api table (bs items ! i)) w)")
        (auto simp: batchWriteItems_def Let_def bs_def apfst_def map_prod_def split: prod.splits)
    ultimately show ?thesis by blast
  qed simp
qed

lemma sample_batch_run:
  defines "bs \<equiv> [[PutRequest 1, PutRequest (2 :: int)]]"
  shows "\<exists>s. (batch_step (log_write 1) ''t'' 5 bs)\<^sup>*\<^sup>* (batch_start []) s \<and> returns_nil 1 s"
proof -
  let ?R = "batch_step (log_write 1) ''t'' 5 bs"
  define s0 :: "(int, (string \<times> int WriteRequest) list) bsys" where "s0 = batch_start []"
  define s1 where "s1 = s0\<lparr>workers := (workers s0)(0 := Started)\<rparr>"
  define s2 where "s2 = s1\<lparr>workers := (workers s1)(0 := after_call 1 (Inr [(''t'', [PutRequest (2 :: int)])])),
    service := [(''t'', PutRequest 1)]\<rparr>"
  define s3 where "s3 = s2\<lparr>workers := (workers s2)(0 := after_call (Suc 1) (Inr [])),
    service := [(''t'', PutRequest 1), (''t'', PutRequest 2)]\<rparr>"
  have "?R s0 s1" unfolding s1_def
    by (rule batch_step.spawn) (simp_all add: bs_def s0_def batch_start_def n_running_def running_def)
  moreover have "?R s1 s2" unfolding s2_def
    by (rule batch_step.first_call) (simp_all add: bs_def s1_def s0_def batch_start_def log_write_def)
  moreover have "?R s2 s3" unfolding s3_def
    by (rule batch_step.retry [where un = "[(''t'', [PutRequest 2])]" and a = 1])
      (simp_all add: bs_def s2_def after_call_def log_write_def maxBatchRetries_def)
  ultimately have "?R\<^sup>*\<^sup>* s0 s3" by (meson converse_rtranclp_into_rtranclp r_into_rtranclp)
  moreover have "returns_nil 1 s3" by (simp add: returns_nil_def s3_def after_call_def)
  ultimately show ?thesis unfolding s0_def by blast
qed

theorem batch_write_complete_witness:
  "\<exists>s. (batch_step (log_write 1) ''t'' 5 [[PutRequest 1, PutRequest (2 :: int)]])\<^sup>*\<^sup>* (batch_start []) s \<and>
     (''t'', PutRequest 1) \<in> set (service s) \<and> (''t'', PutRequest 2) \<in> set (service s)"
proof -
  have c: "map (map PutRequest) (chunks [1, 2 :: int]) = [[PutRequest 1, PutRequest 2]]"
    by (simp add: chunks_def maxBatchSize_def slices.simps)
  obtain s where s: "(batch_step (log_write 1) ''t'' 5 [[PutRequest 1, PutRequest (2 :: int)]])\<^sup>*\<^sup>* (batch_start []) s" "returns_nil 1 s"
    using sample_batch_run by blast
  from batch_write_complete [OF logged.batch_writer_axioms, of "[1, 2 :: int]" 1 "''t''" 5 "[]" s, unfolded c] s show ?thesis
    by auto
qed

text \<open>
  C22: A run of the workers over \<open>n\<close> batches takes at most \<open>8 * n\<close> steps, at most \<open>maxParallel\<close> of them hold the
  semaphore at any time, and no state before the end is stuck: \<open>runParallel\<close> always returns.
\<close>
theorem batch_runs_end:
  fixes bs :: "'i WriteRequest list list"
  defines "maxP m \<equiv> nat (dc_maxParallel (dynamo_newWithAPI m))"
  assumes "(batch_step wr table (maxP m) bs ^^ k) (batch_start d) s"
  shows "k \<le> 8 * length bs \<and> n_running (length bs) (workers s) \<le> maxP m \<and>
    (all_done (length bs) s \<or> (\<exists>s'. batch_step wr table (maxP m) bs s s'))"
proof (intro conjI)
  have "total_weight (length bs) (workers (batch_start d :: ('i, 'a) bsys)) = 8 * length bs"
    by (simp add: total_weight_def batch_start_def weight_def)
  then show "k \<le> 8 * length bs" using batch_run_weight [OF assms(2)] by simp
  show "n_running (length bs) (workers s) \<le> maxP m"
    using reach_running [OF relpowp_imp_rtranclp [OF assms(2)]] .
  have "0 < maxP m" by (simp add: maxP_def dynamo_newWithAPI_def)
  then show "all_done (length bs) s \<or> (\<exists>s'. batch_step wr table (maxP m) bs s s')" using batch_progress by blast
qed

theorem batch_runs_end_witness:
  "n_running 1 (workers (batch_start [] :: (int, (string \<times> int WriteRequest) list) bsys)) \<le> 5"
  using batch_runs_end [where wr = "log_write 1" and table = "''t''" and m = 0 and bs = "[[PutRequest (1 :: int)]]" and k = 0
      and d = "[]" and s = "batch_start []"]
  by (simp add: dynamo_newWithAPI_def)

text \<open>
  Against a service whose pages make progress, \<open>QueryAll\<close> ends and returns the items of all pages from the
  first one on, in order; the start key of the caller's input is ignored.
\<close>
theorem QueryAll_pages:
  assumes "pager page rank"
    and "\<And>k d. api_Query api (q\<lparr>qi_StartKey := k\<rparr>) d =
      (Inr \<lparr>qo_Items = fst (page k), qo_LastKey = snd (page k), qo_Count = cnt k\<rparr>, d)"
  shows "\<exists>xs w'. QueryAll api (q\<lparr>qi_StartKey := k0\<rparr>) w = Some (Inr xs, w') \<and> pages_from page None xs"
proof -
  have "one_page (Query api) (q\<lparr>qi_StartKey := k0\<rparr>) k w = (Inr (page k), w)" for k w
    by (simp add: one_page_def Query_def on_db_def assms(2))
  from pager.read_pages_all [OF assms(1) this, where k = None and acc = "[]" and s = w] show ?thesis
    by (simp add: QueryAll_def)
qed

definition sample_query :: "int QueryInput" where
  "sample_query = \<lparr>qi_TableName = ''t'', qi_IndexName = None, qi_KeyCondition = ''pk = :p'', qi_Filter = None,
     qi_Values = None, qi_Names = None, qi_Limit = None, qi_Forward = None, qi_StartKey = None\<rparr>"

text \<open>A table of three items served in pages of two, with the position as key.\<close>

definition sample_page :: "int option \<Rightarrow> int list \<times> int option" where
  "sample_page k = (case list_page [10, 20, 30] 2 (map_option nat k) of (xs, nk) \<Rightarrow> (xs, map_option int nk))"

definition sample_service :: "(int, unit) ddb" where
  "sample_service =
     \<lparr>api_DescribeTable = (\<lambda>t d. (Inr (), d)), api_GetItem = (\<lambda>t k d. (Inr None, d)), api_PutItem = (\<lambda>t i c d. (Inr (), d)),
      api_UpdateItem = (\<lambda>u d. (Inr (ui_Key u), d)), api_DeleteItem = (\<lambda>t k c d. (Inr (), d)),
      api_BatchGetItem = (\<lambda>ks d. (Inr (ks, []), d)), api_BatchWriteItem = (\<lambda>rs d. (Inr [], d)),
      api_Query = (\<lambda>q d. (Inr \<lparr>qo_Items = fst (sample_page (qi_StartKey q)), qo_LastKey = snd (sample_page (qi_StartKey q)),
                              qo_Count = 0\<rparr>, d)),
      api_Scan = (\<lambda>q d. (Inl InternalServer, d))\<rparr>"

theorem QueryAll_pages_witness:
  "\<exists>xs w'. QueryAll sample_service (sample_query\<lparr>qi_StartKey := Some 2\<rparr>)
     \<lparr>dw_db = (), dw_now = 0, dw_deadline = None\<rparr> = Some (Inr xs, w') \<and> pages_from sample_page None xs"
proof -
  have p: "pager sample_page (\<lambda>k. 3 - nat (case k of None \<Rightarrow> 0 | Some i \<Rightarrow> i))"
    by unfold_locales (auto simp: sample_page_def list_page_def Let_def split: option.splits if_splits)
  have "api_Query sample_service (sample_query\<lparr>qi_StartKey := k\<rparr>) d =
      (Inr \<lparr>qo_Items = fst (sample_page k), qo_LastKey = snd (sample_page k), qo_Count = 0\<rparr>, d)" for k d
    by (simp add: sample_service_def)
  from QueryAll_pages [OF p this] show ?thesis by blast
qed

end
