(* ===== verification/AwsConfig.thy ===== *)
theory AwsConfig
  imports GoStrings
begin

text \<open>
  What the constructors of the AWS clients share: the configuration, the choice of credentials and of the endpoint,
  and the loading of the SDK configuration (\<open>awsconfig.LoadDefaultConfig\<close>, an argument). Optional AWS strings are
  options; \<open>ToString\<close> reads an absent one as the empty string.
\<close>

record awsConfig =
  ac_Region :: string
  ac_AccessKey :: string
  ac_SecretKey :: string
  ac_Endpoint :: string

definition static_creds :: "awsConfig \<Rightarrow> (string \<times> string) option" where
  "static_creds c =
     (if ac_AccessKey c \<noteq> [] \<and> ac_SecretKey c \<noteq> [] then Some (ac_AccessKey c, ac_SecretKey c)
      else if ac_Endpoint c \<noteq> [] then Some (''test'', ''test'') else None)"

text \<open>The result is the endpoint override; \<open>prefix\<close> is the text the package puts before the error of the SDK.\<close>

definition aws_New ::
  "string \<Rightarrow> (string \<Rightarrow> (string \<times> string) option \<Rightarrow> string option) \<Rightarrow> awsConfig \<Rightarrow> (string, string option) res" where
  "aws_New prefix load c =
     (if ac_Region c = [] then Inl ''missing region''
      else (case load (ac_Region c) (static_creds c) of
              Some e \<Rightarrow> Inl (prefix @ e)
            | None \<Rightarrow> Inr (if ac_Endpoint c \<noteq> [] then Some (ac_Endpoint c) else None)))"

definition ToString :: "string option \<Rightarrow> string" where
  "ToString s = (case s of None \<Rightarrow> [] | Some x \<Rightarrow> x)"

definition opt_string :: "string \<Rightarrow> string option" where
  "opt_string s = (if s \<noteq> [] then Some s else None)"

lemma ToString_opt [simp]: "ToString (opt_string s) = s"
  by (simp add: ToString_def opt_string_def)

text \<open>A call on the state of a service; an error is wrapped with the text of the client.\<close>

type_synonym ('a, 's) svc = "'s \<Rightarrow> (string, 'a) res \<times> 's"

definition svc_call :: "string \<Rightarrow> ('a, 's) svc \<Rightarrow> ('a \<Rightarrow> 'b) \<Rightarrow> ('b, 's) svc" where
  "svc_call prefix api f s =
     (case api s of (Inl e, s') \<Rightarrow> (Inl (prefix @ '': '' @ e), s') | (Inr a, s') \<Rightarrow> (Inr (f a), s'))"

definition svc_fail :: "string \<Rightarrow> ('a, 's) svc" where
  "svc_fail e s = (Inl e, s)"

end
