(* ===== verification/CloudWatch.thy ===== *)
theory CloudWatch
  imports Batching AwsConfig Float64
begin

text \<open>
  Packages \<open>aws/cloudwatch/logs\<close> and \<open>aws/cloudwatch/metrics\<close>: log events in time order, cut into batches the
  API accepts, the paged search with a limit, and metric data in calls of at most 1000. The AWS calls are
  arguments over a state of the service.
\<close>

section \<open>Clients\<close>

type_synonym cwConfig = awsConfig

definition cw_New :: "(string \<Rightarrow> (string \<times> string) option \<Rightarrow> string option) \<Rightarrow> cwConfig \<Rightarrow> (string, string option) res" where
  "cw_New = aws_New ''failed to load AWS config: ''"

section \<open>Log events\<close>

definition maxEventsPerCall :: nat where "maxEventsPerCall = 10000"
definition maxBatchBytes :: int where "maxBatchBytes = 1 * 1024 * 1024"
definition logEventOverhead :: int where "logEventOverhead = 26"

text \<open>An event without timestamp has the zero time. A resolved event is its instant and its message.\<close>

record LogEvent =
  le_Timestamp :: "instant option"
  le_Message :: string

type_synonym event = "instant \<times> string"

definition msgSize :: "event \<Rightarrow> int" where
  "msgSize e = int (length (snd e)) + logEventOverhead"

text \<open>The loop of \<open>partitionLogEvents\<close> with its three variables.\<close>

primrec partition_loop :: "event list \<Rightarrow> event list list \<Rightarrow> event list \<Rightarrow> int \<Rightarrow> event list list" where
  "partition_loop [] batches current currentBytes =
     (if length current > 0 then batches @ [current] else batches)"
| "partition_loop (e # es) batches current currentBytes =
     (if length current \<ge> maxEventsPerCall \<or> currentBytes + msgSize e > maxBatchBytes \<and> length current > 0
      then partition_loop es (batches @ [current]) [e] (msgSize e)
      else partition_loop es batches (current @ [e]) (currentBytes + msgSize e))"

definition partitionLogEvents :: "event list \<Rightarrow> event list list" where
  "partitionLogEvents events = partition_loop events [] [] 0"

text \<open>The limits of \<open>PutLogEvents\<close>: 10000 events, 1 MiB with 26 bytes per event, one oversized event excepted.\<close>

definition log_batch_ok :: "event list \<Rightarrow> bool" where
  "log_batch_ok b \<longleftrightarrow>
     length b \<le> maxEventsPerCall \<and> (sum_list (map msgSize b) \<le> maxBatchBytes \<or> length b = 1)"

lemma partition_loop_concat: "concat (partition_loop es bs cur n) = concat bs @ cur @ es"
  by (induction es arbitrary: bs cur n) auto

lemma partition_loop_ok:
  assumes "\<forall>b \<in> set bs. b \<noteq> [] \<and> log_batch_ok b" and "log_batch_ok cur" and "n = sum_list (map msgSize cur)"
    and "b \<in> set (partition_loop es bs cur n)"
  shows "b \<noteq> [] \<and> log_batch_ok b"
  using assms
proof (induction es arbitrary: bs cur n)
  case Nil
  then show ?case by (auto split: if_splits)
next
  case (Cons e es)
  have one: "log_batch_ok [e]" by (simp add: log_batch_ok_def maxEventsPerCall_def)
  show ?case
  proof (cases "length cur \<ge> maxEventsPerCall \<or> n + msgSize e > maxBatchBytes \<and> length cur > 0")
    case True
    then have "cur \<noteq> []" by (auto simp: maxEventsPerCall_def)
    then have bs': "\<forall>x \<in> set (bs @ [cur]). x \<noteq> [] \<and> log_batch_ok x" using Cons.prems(1,2) by auto
    show ?thesis by (rule Cons.IH [OF bs' one]) (use Cons.prems(4) True in auto)
  next
    case False
    then have ok: "log_batch_ok (cur @ [e])" using Cons.prems(3) by (auto simp: log_batch_ok_def)
    show ?thesis by (rule Cons.IH [OF Cons.prems(1) ok]) (use Cons.prems(3,4) False in auto)
  qed
qed

interpretation log_batches: batcher partitionLogEvents log_batch_ok
proof
  fix xs b :: "event list"
  show "concat (partitionLogEvents xs) = xs" by (simp add: partitionLogEvents_def partition_loop_concat)
  show "b \<noteq> [] \<and> log_batch_ok b" if "b \<in> set (partitionLogEvents xs)"
    by (rule partition_loop_ok [of "[]" "[]" 0]) (use that in \<open>simp_all add: partitionLogEvents_def log_batch_ok_def maxBatchBytes_def\<close>)
qed

text \<open>\<open>now i\<close> is the clock when event \<open>i\<close> is resolved; \<open>sort.SliceStable\<close> by timestamp is a stable sort.\<close>

definition resolve :: "(nat \<Rightarrow> instant) \<Rightarrow> LogEvent list \<Rightarrow> event list" where
  "resolve now events =
     map (\<lambda>(i, e). (case le_Timestamp e of None \<Rightarrow> now i | Some t \<Rightarrow> t, le_Message e)) (enumerate 0 events)"

definition sdk_events :: "event list \<Rightarrow> (int \<times> string) list" where
  "sdk_events = map (\<lambda>(t, m). (UnixMilli t, m))"

text \<open>\<open>put\<close> is the API call: group, stream, events; it returns the error, if any.\<close>

definition PutLogEvents ::
  "(string \<Rightarrow> string \<Rightarrow> (int \<times> string) list \<Rightarrow> 's \<Rightarrow> string option \<times> 's) \<Rightarrow> (nat \<Rightarrow> instant) \<Rightarrow> string \<Rightarrow> string
     \<Rightarrow> LogEvent list \<Rightarrow> 's \<Rightarrow> string option \<times> 's" where
  "PutLogEvents put now groupName streamName events s =
     (if groupName = [] then (Some ''group name is required'', s)
      else if streamName = [] then (Some ''stream name is required'', s)
      else if length events = 0 then (None, s)
      else
        (case send_all (\<lambda>b. put groupName streamName (sdk_events b))
                (partitionLogEvents (sort_key fst (resolve now events))) s of
           (None, s') \<Rightarrow> (None, s')
         | (Some e, s') \<Rightarrow> (Some (''failed to put log events: '' @ e), s')))"

section \<open>Searching log events\<close>

record FilterLogEventsInput =
  fi_GroupName :: string
  fi_FilterPattern :: string
  fi_StartTime :: "instant option"
  fi_EndTime :: "instant option"
  fi_Limit :: int

record FilteredLogEvent =
  fe_Timestamp :: "instant option"
  fe_Message :: string
  fe_StreamName :: string
  fe_EventID :: string

record sdkFilterInput =
  sf_group :: string
  sf_pattern :: string
  sf_start :: "int option"
  sf_end :: "int option"
  sf_limit :: "int option"

record sdkEvent =
  se_timestamp :: "int option"
  se_message :: "string option"
  se_stream :: "string option"
  se_id :: "string option"

definition filtered :: "sdkEvent \<Rightarrow> FilteredLogEvent" where
  "filtered e =
     (let str = (\<lambda>x. case x of None \<Rightarrow> [] | Some v \<Rightarrow> v)
      in \<lparr>fe_Timestamp = map_option (\<lambda>ms. ms * Millisecond) (se_timestamp e), fe_Message = str (se_message e),
          fe_StreamName = str (se_stream e), fe_EventID = str (se_id e)\<rparr>)"

text \<open>The inner loop: \<open>Inl\<close> when the limit is reached.\<close>

primrec take_events :: "int \<Rightarrow> sdkEvent list \<Rightarrow> FilteredLogEvent list \<Rightarrow> FilteredLogEvent list + FilteredLogEvent list" where
  "take_events limit [] result = Inr result"
| "take_events limit (e # es) result =
     (let result' = result @ [filtered e]
      in if limit > 0 \<and> wrap32 (int (length result')) \<ge> limit then Inl (take (nat limit) result')
         else take_events limit es result')"

text \<open>The API call: input and token to events and the next token.\<close>

type_synonym 's filter_api =
  "sdkFilterInput \<Rightarrow> string option \<Rightarrow> 's \<Rightarrow> (string, sdkEvent list \<times> string option) res \<times> 's"

partial_function (option) filter_loop ::
  "(string option \<Rightarrow> 's \<Rightarrow> (string, sdkEvent list \<times> string option) res \<times> 's) \<Rightarrow> int \<Rightarrow> string option
     \<Rightarrow> FilteredLogEvent list \<Rightarrow> 's \<Rightarrow> ((string, FilteredLogEvent list) res \<times> 's) option" where
  "filter_loop call limit token result s =
     (case call token s of
        (Inl e, s') \<Rightarrow> Some (Inl (''failed to filter log events: '' @ e), s')
      | (Inr (es, nt), s') \<Rightarrow>
          (case take_events limit es result of
             Inl done \<Rightarrow> Some (Inr done, s')
           | Inr result' \<Rightarrow>
               (case nt of
                  None \<Rightarrow> Some (Inr result', s')
                | Some t \<Rightarrow> filter_loop call limit (Some t) result' s')))"

definition FilterLogEvents ::
  "'s filter_api \<Rightarrow> FilterLogEventsInput \<Rightarrow> 's \<Rightarrow> ((string, FilteredLogEvent list) res \<times> 's) option" where
  "FilterLogEvents api inp s =
     (if fi_GroupName inp = [] then Some (Inl ''group name is required'', s)
      else
        (let i = \<lparr>sf_group = fi_GroupName inp, sf_pattern = fi_FilterPattern inp,
                  sf_start = map_option UnixMilli (fi_StartTime inp), sf_end = map_option UnixMilli (fi_EndTime inp),
                  sf_limit = (if fi_Limit inp > 0 then Some (fi_Limit inp) else None)\<rparr>
         in filter_loop (api i) (fi_Limit inp) None [] s))"

lemma take_events_result:
  assumes "limit \<le> 0 \<or> int (length res) < limit" and "limit < 2 ^ 31"
  shows "take_events limit es res =
    (if limit > 0 \<and> limit \<le> int (length res + length es) then Inl (take (nat limit) (res @ map filtered es))
     else Inr (res @ map filtered es))"
  using assms
proof (induction es arbitrary: res)
  case Nil
  then show ?case by auto
next
  case (Cons e es)
  show ?case
  proof (cases "limit > 0 \<and> int (length res) + 1 \<ge> limit")
    case True
    then have l: "int (length res) + 1 = limit" using Cons.prems by auto
    then have "nat limit = Suc (length res)" by auto
    then show ?thesis using True l Cons.prems(2) by simp
  next
    case False
    then have "limit \<le> 0 \<or> int (length (res @ [filtered e])) < limit" by auto
    note ih = Cons.IH [OF this Cons.prems(2)]
    have "\<not> (limit > 0 \<and> wrap32 (int (length (res @ [filtered e]))) \<ge> limit)"
      using False Cons.prems(2) by (cases "limit > 0") auto
    then show ?thesis using ih by (simp add: Let_def)
  qed
qed

text \<open>What the search returns: the first \<open>limit\<close> of the events, or all of them.\<close>

definition limited :: "int \<Rightarrow> 'a list \<Rightarrow> 'a list" where
  "limited limit xs = (if limit > 0 then take (nat limit) xs else xs)"

lemma filter_loop_limited:
  assumes "pager page rank" and "\<And>t s. call t s = (Inr (page t), after t s)" and "limit < 2 ^ 31"
    and "limit \<le> 0 \<or> int (length res) < limit" and "pages_from page tok xs"
  shows "\<exists>s'. filter_loop call limit tok res s = Some (Inr (limited limit (res @ map filtered xs)), s')"
  using assms(5,4)
proof (induction arbitrary: res s rule: pages_from.induct)
  case (last_page k xs)
  then show ?case
    using take_events_result [OF last_page(2) assms(3), of xs]
    by (subst filter_loop.simps) (auto simp: assms(2) limited_def)
next
  case (more_pages k xs k' ys)
  show ?case
  proof (cases "limit > 0 \<and> limit \<le> int (length res + length xs)")
    case True
    then have "take (nat limit) (res @ map filtered (xs @ ys)) = take (nat limit) (res @ map filtered xs)"
      by (simp add: nat_le_iff take_map)
    then show ?thesis
      using True take_events_result [OF more_pages.prems assms(3), of xs] more_pages.hyps(1)
      by (subst filter_loop.simps) (auto simp: assms(2) limited_def)
  next
    case False
    then have "limit \<le> 0 \<or> int (length (res @ map filtered xs)) < limit" by auto
    from more_pages.IH [OF this, of "after k s"] show ?thesis
      using False take_events_result [OF more_pages.prems assms(3), of xs] more_pages.hyps(1) assms(2) [of k s]
      by (subst filter_loop.simps) auto
  qed
qed

section \<open>Metrics\<close>

type_synonym metricsConfig = awsConfig

definition metrics_New :: "(string \<Rightarrow> (string \<times> string) option \<Rightarrow> string option) \<Rightarrow> metricsConfig \<Rightarrow> (string, string option) res" where
  "metrics_New = aws_New ''failed to load AWS config: ''"

definition maxDatumsPerCall :: nat where "maxDatumsPerCall = 1000"

text \<open>Dimensions are listed in the order in which the range loop visits the map.\<close>

record MetricDatum =
  md_Name :: string
  md_Value :: rat
  md_Unit :: string
  md_Timestamp :: "instant option"
  md_Dimensions :: "(string \<times> string) list"

record sdkDatum =
  sd_name :: string
  sd_value :: rat
  sd_unit :: "string option"
  sd_timestamp :: instant
  sd_dims :: "(string \<times> string) list option"

definition sdk_datum :: "instant \<Rightarrow> MetricDatum \<Rightarrow> sdkDatum" where
  "sdk_datum now m =
     \<lparr>sd_name = md_Name m, sd_value = md_Value m, sd_unit = (if md_Unit m \<noteq> [] then Some (md_Unit m) else None),
      sd_timestamp = (case md_Timestamp m of None \<Rightarrow> now | Some t \<Rightarrow> t),
      sd_dims = (if length (md_Dimensions m) > 0 then Some (md_Dimensions m) else None)\<rparr>"

text \<open>\<open>now i\<close> is the clock when datum \<open>i\<close> is converted.\<close>

definition PutMetricData ::
  "(string \<Rightarrow> sdkDatum list \<Rightarrow> 's \<Rightarrow> string option \<times> 's) \<Rightarrow> (nat \<Rightarrow> instant) \<Rightarrow> string \<Rightarrow> MetricDatum list \<Rightarrow> 's
     \<Rightarrow> string option \<times> 's" where
  "PutMetricData put now namespace metrics s =
     (if namespace = [] then (Some ''namespace is required'', s)
      else if length metrics = 0 then (None, s)
      else
        (case send_all (\<lambda>b. put namespace (map (\<lambda>(i, m). sdk_datum (now i) m) b))
                (slices maxDatumsPerCall 0 (enumerate 0 metrics)) s of
           (None, s') \<Rightarrow> (None, s')
         | (Some e, s') \<Rightarrow> (Some (''failed to put metric data: '' @ e), s')))"

text \<open>\<open>int32(d.Seconds())\<close>, which is the least value for what does not fit, and the default of a minute.\<close>

definition trunc32 :: "rat \<Rightarrow> int" where
  "trunc32 x = (let n = trunc x in if - (2 ^ 31) \<le> n \<and> n < 2 ^ 31 then n else - (2 ^ 31))"

definition periodSecs :: "duration \<Rightarrow> int" where
  "periodSecs d = (let p = trunc32 (Seconds d) in if p < 1 then 60 else p)"

record GetMetricStatisticsInput =
  gi_Namespace :: string
  gi_MetricName :: string
  gi_StartTime :: instant
  gi_EndTime :: instant
  gi_Period :: duration
  gi_Statistics :: "string list"
  gi_Dimensions :: "(string \<times> string) list"

record datapoint =
  dp_Timestamp :: "instant option"
  dp_Average :: "rat option"
  dp_Sum :: "rat option"
  dp_Minimum :: "rat option"
  dp_Maximum :: "rat option"
  dp_SampleCount :: "rat option"
  dp_Unit :: string

text \<open>\<open>MetricStat\<close> has the fields of a data point; the call gets the input with the period in seconds.\<close>

definition GetMetricStatistics ::
  "(GetMetricStatisticsInput \<Rightarrow> int \<Rightarrow> 's \<Rightarrow> (string, datapoint list) res \<times> 's) \<Rightarrow> GetMetricStatisticsInput \<Rightarrow> 's
     \<Rightarrow> (string, datapoint list) res \<times> 's" where
  "GetMetricStatistics api inp s =
     (if gi_Namespace inp = [] then (Inl ''namespace is required'', s)
      else if gi_MetricName inp = [] then (Inl ''metric name is required'', s)
      else (case api inp (periodSecs (gi_Period inp)) s of
              (Inl e, s') \<Rightarrow> (Inl (''failed to get metric statistics: '' @ e), s')
            | (Inr dps, s') \<Rightarrow> (Inr dps, s')))"

section \<open>Properties\<close>

text \<open>The API with its calls noted down: group, stream and events of each call, and the answer.\<close>

definition recorded ::
  "(string \<Rightarrow> string \<Rightarrow> (int \<times> string) list \<Rightarrow> 's \<Rightarrow> string option \<times> 's) \<Rightarrow> string \<Rightarrow> string \<Rightarrow> (int \<times> string) list
     \<Rightarrow> ((string \<times> string \<times> (int \<times> string) list) \<times> string option) list \<times> 's
     \<Rightarrow> string option \<times> ((string \<times> string \<times> (int \<times> string) list) \<times> string option) list \<times> 's" where
  "recorded put g st b = recording (\<lambda>(g, st, b). put g st b) (g, st, b)"

text \<open>The documented limits of one call, with the exception for a single event.\<close>

definition accepted_call :: "(int \<times> string) list \<Rightarrow> bool" where
  "accepted_call b \<longleftrightarrow> b \<noteq> [] \<and> length b \<le> 10000 \<and>
     (sum_list (map (\<lambda>(t, m). length m + 26) b) \<le> 1048576 \<or> length b = 1)"

lemma sdk_events_size: "sum_list (map msgSize b) = int (sum_list (map (\<lambda>(t, m). length m + 26) (sdk_events b)))"
  by (induction b) (auto simp: sdk_events_def msgSize_def logEventOverhead_def)

lemma accepted_batch: "b \<noteq> [] \<Longrightarrow> log_batch_ok b \<Longrightarrow> accepted_call (sdk_events b)"
  using sdk_events_size [of b]
  by (auto simp: accepted_call_def log_batch_ok_def maxEventsPerCall_def maxBatchBytes_def) (auto simp: sdk_events_def)

lemma PutLogEvents_run:
  assumes "g \<noteq> []" and "st \<noteq> []" and "PutLogEvents put now g st events s = (err, s')"
  obtains e where "send_all (\<lambda>b. put g st (sdk_events b)) (partitionLogEvents (sort_key fst (resolve now events))) s = (e, s')"
    and "err = map_option ((@) ''failed to put log events: '') e"
proof (cases "events = []")
  case True
  then show thesis using that assms by (simp add: PutLogEvents_def resolve_def enumerate_eq_zip)
next
  case False
  then show thesis using that assms by (auto simp: PutLogEvents_def split: prod.splits option.splits)
qed

text \<open>
  C16: The calls \<open>PutLogEvents\<close> makes to the API, for a group and a stream that are named: all of them to that group and
  stream, each with at least one and at most 10000 events and at most 1 MiB in all (26 bytes added per event), or
  with one single event, which may be larger than that. The events of the calls together are those given, in the
  order of their timestamps (a stable sort, with the clock for those without one): all of them, each exactly
  once, when every call succeeds. When a call fails it is the last one made, what was sent up to it is a prefix of
  that order, and its error is returned.
\<close>
theorem PutLogEvents_delivers:
  assumes "g \<noteq> []" and "st \<noteq> []"
    and "PutLogEvents (recorded put) now g st events ([], s) = (err, calls, s')"
  shows "(\<forall>((g', st', b), _) \<in> set calls. g' = g \<and> st' = st \<and> accepted_call b) \<and>
    (\<exists>n. concat (map (\<lambda>((_, _, b), _). b) calls) = take n (sdk_events (sort_key fst (resolve now events)))) \<and>
    (case err of
       None \<Rightarrow> concat (map (\<lambda>((_, _, b), _). b) calls) = sdk_events (sort_key fst (resolve now events)) \<and>
         (\<forall>(_, answer) \<in> set calls. answer = None)
     | Some e \<Rightarrow> calls \<noteq> [] \<and> (\<forall>(_, answer) \<in> set (butlast calls). answer = None) \<and>
         (\<exists>e'. snd (last calls) = Some e' \<and> e = ''failed to put log events: '' @ e'))"
proof -
  let ?es = "sort_key fst (resolve now events)"
  let ?call = "\<lambda>b. (g, st, sdk_events b)"
  from PutLogEvents_run [OF assms] obtain e where
    "send_all (\<lambda>b. recording (\<lambda>(g, st, b). put g st b) (?call b)) (partitionLogEvents ?es) ([], s) = (e, calls, s')"
    and e: "err = map_option ((@) ''failed to put log events: '') e" unfolding recorded_def .
  from log_batches.calls_made [OF this(1)] obtain made rest where m: "map fst calls = map ?call made" "?es = concat made @ rest"
    "\<forall>b \<in> set made. b \<noteq> [] \<and> log_batch_ok b"
    and r: "if e = None then rest = [] \<and> (\<forall>c \<in> set calls. snd c = None)
      else calls \<noteq> [] \<and> snd (last calls) = e \<and> (\<forall>c \<in> set (butlast calls). snd c = None)" by blast
  have "\<forall>c \<in> set (map fst calls). fst c = g \<and> fst (snd c) = st \<and> accepted_call (snd (snd c))"
    unfolding m(1) using m(3) by (auto intro: accepted_batch)
  moreover have sent: "concat (map (\<lambda>((_, _, b), _). b) calls) = sdk_events (concat made)"
    using arg_cong [OF m(1), of "\<lambda>cs. concat (map (snd \<circ> snd) cs)"]
    by (simp add: sdk_events_def map_concat comp_def split_def)
  moreover have w: "sdk_events ?es = sdk_events (concat made) @ sdk_events rest" by (simp add: m(2) sdk_events_def)
  then have "\<exists>n. sdk_events (concat made) = take n (sdk_events ?es)" by (metis append_eq_conv_conj)
  ultimately show ?thesis using e r w by (cases e) (auto simp: sdk_events_def split_def)
qed

definition sample_events :: "LogEvent list" where
  "sample_events = [\<lparr>le_Timestamp = Some 5000000, le_Message = ''b''\<rparr>, \<lparr>le_Timestamp = None, le_Message = ''a''\<rparr>]"

theorem PutLogEvents_delivers_witness:
  "\<exists>calls s'. PutLogEvents (recorded (\<lambda>g st b s. (None, s @ b))) (\<lambda>i. 2000000) ''g'' ''s'' sample_events ([], []) = (None, calls, s') \<and>
     concat (map (\<lambda>((_, _, b), _). b) calls) = [(2, ''a''), (5, ''b'')] \<and>
     (\<forall>((g', st', b), _) \<in> set calls. g' = ''g'' \<and> st' = ''s'' \<and> accepted_call b)"
proof -
  let ?put = "\<lambda>g st b s. (None :: string option, s @ b)"
  let ?calls = "[((''g'', ''s'', [(2, ''a''), (5, ''b'')]), None)] :: ((string \<times> string \<times> (int \<times> string) list) \<times> string option) list"
  have r: "PutLogEvents (recorded ?put) (\<lambda>i. 2000000) ''g'' ''s'' sample_events ([], []) = (None, ?calls, [(2, ''a''), (5, ''b'')])"
    by (simp add: PutLogEvents_def sample_events_def resolve_def partitionLogEvents_def recorded_def recording_def sdk_events_def
        msgSize_def maxEventsPerCall_def maxBatchBytes_def logEventOverhead_def enumerate_eq_zip upt_rec UnixMilli_def Millisecond_def)
  from PutLogEvents_delivers [where put = ?put, OF _ _ r] r show ?thesis by auto
qed

text \<open>
  Against a service whose pages make progress, \<open>FilterLogEvents\<close> ends and returns the first \<open>Limit\<close> events of
  all pages together, or all of them when no limit is set.
\<close>
theorem FilterLogEvents_limit:
  assumes "pager page rank" and "\<And>i t s. api i t s = (Inr (page t), s)" and "fi_GroupName inp \<noteq> []" and "fi_Limit inp < 2 ^ 31"
  shows "\<exists>xs s'. pages_from page None xs \<and>
    FilterLogEvents api inp s = Some (Inr (limited (fi_Limit inp) (map filtered xs)), s')"
proof -
  obtain xs where xs: "pages_from page None xs" using pager.pages_exist [OF assms(1)] by blast
  have c: "limit \<le> 0 \<or> int (length []) < limit" for limit by auto
  have "\<exists>s'. filter_loop (api i) (fi_Limit inp) None [] s = Some (Inr (limited (fi_Limit inp) (map filtered xs)), s')" for i
    using filter_loop_limited [OF assms(1), where call = "api i" and after = "\<lambda>_ s. s", OF assms(2,4) c xs] by simp
  then show ?thesis using xs assms(3) by (auto simp: FilterLogEvents_def Let_def)
qed

definition sample_log_page :: "string option \<Rightarrow> sdkEvent list \<times> string option" where
  "sample_log_page t =
     (if t = None then ([\<lparr>se_timestamp = Some 1, se_message = Some ''x'', se_stream = None, se_id = None\<rparr>], Some ''n'')
      else ([\<lparr>se_timestamp = Some 2, se_message = Some ''y'', se_stream = None, se_id = None\<rparr>], None))"

theorem FilterLogEvents_limit_witness:
  "\<exists>xs s'. FilterLogEvents (\<lambda>i t s. (Inr (sample_log_page t), s))
     \<lparr>fi_GroupName = ''g'', fi_FilterPattern = [], fi_StartTime = None, fi_EndTime = None, fi_Limit = 1\<rparr> () =
       Some (Inr (limited 1 (map filtered xs)), s') \<and> pages_from sample_log_page None xs"
proof -
  have "pager sample_log_page (\<lambda>t. if t = None then 1 else 0)"
    by unfold_locales (auto simp: sample_log_page_def split: if_splits)
  from FilterLogEvents_limit [OF this, of "\<lambda>i t s. (Inr (sample_log_page t), s)"
      "\<lparr>fi_GroupName = ''g'', fi_FilterPattern = [], fi_StartTime = None, fi_EndTime = None, fi_Limit = 1\<rparr>" "()"]
  show ?thesis by auto
qed

end
