(* ===== verification/Templates.thy ===== *)
theory Templates
  imports Http
begin

text \<open>
  Route templates of \<open>rules/parser.go\<close>: \<open>templateToRegex\<close> writes the regular expression of a template, and package
  \<open>regexp\<close> compiles and matches it. Of that package the part is given which the expressions use: literal bytes,
  escaped where they are special, \<open>.*\<close>, the named groups \<open>(?P<key>[^/]+)\<close> and the two anchors. Templates are UTF-8,
  as the YAML decoder delivers them, and are taken byte by byte.
\<close>

section \<open>The expression of a template\<close>

definition is_special :: "char \<Rightarrow> bool" where
  "is_special c \<longleftrightarrow> c \<in> set [CHR 0x5C, CHR ''.'', CHR ''+'', CHR ''*'', CHR ''?'', CHR ''('', CHR '')'', CHR 0x7C, CHR ''['',
     CHR '']'', CHR ''{'', CHR ''}'', CHR 0x5E, CHR ''$'']"

definition QuoteMeta :: "string \<Rightarrow> string" where
  "QuoteMeta s = concat (map (\<lambda>c. if is_special c then [CHR 0x5C, c] else [c]) s)"

definition cut_query :: "string \<Rightarrow> string" where
  "cut_query p = (case IndexByte p CHR ''?'' of None \<Rightarrow> p | Some i \<Rightarrow> take i p)"

text \<open>The key of a part, if it is a parameter, and the expression of a part.\<close>

definition part_key :: "string \<Rightarrow> string option" where
  "part_key p =
     (if p = ''*'' then None
      else (case CutPrefix p '':'' of
              Some key \<Rightarrow> Some key
            | None \<Rightarrow>
                if HasPrefix p ''{'' \<and> HasSuffix p ''}'' then Some (TrimSuffix (TrimPrefix p ''{'') ''}'') else None))"

definition part_regex :: "string \<Rightarrow> string" where
  "part_regex p =
     (if p = ''*'' then ''.*''
      else (case part_key p of
              Some key \<Rightarrow> ''(?P<'' @ key @ ''>[^/]+)''
            | None \<Rightarrow> QuoteMeta p))"

definition templateToRegex :: "string \<Rightarrow> string \<times> string list" where
  "templateToRegex tpl =
     (let parts = Split (TrimPrefix (TrimSuffix (cut_query tpl) ''/'') ''/'') CHR ''/''
      in (''/'' @ Join (map part_regex parts) ''/'', List.map_filter part_key parts))"

section \<open>Compiling\<close>

text \<open>A byte, \<open>.*\<close>, or a named group \<open>[^/]+\<close>.\<close>

datatype renode = Byte char | DotStar | Named string

definition valid_name :: "string \<Rightarrow> bool" where
  "valid_name k \<longleftrightarrow> k \<noteq> [] \<and> list_all (\<lambda>c. is_alnum c \<or> c = CHR ''_'') k"

lemma drop_group_shorter:
  assumes "HasPrefix s ''(?P<''"
  shows "length (drop 7 (dropWhile (\<lambda>c. c \<noteq> CHR ''>'') (drop 4 s))) < length s"
proof -
  obtain t where "s = ''(?P<'' @ t" using assms by (auto simp: HasPrefix_iff)
  then show ?thesis using length_dropWhile_le [of "\<lambda>c. c \<noteq> CHR ''>''" t] by simp
qed

text \<open>
  The expression after \<open>^\<close>, up to the final \<open>$\<close>. \<open>None\<close> stands for an expression that does not compile, and for one that is
  none of those above; from \<open>templateToRegex\<close> the latter comes only of a key with a \<open>>\<close> in it, since the name of the
  group ends there and the rest of the key becomes part of the expression.
\<close>

function parse_re :: "string \<Rightarrow> renode list option" where
  "parse_re s =
     (if s = ''$'' then Some []
      else if HasPrefix s ''.*'' then map_option (Cons DotStar) (parse_re (drop 2 s))
      else if HasPrefix s ''(?P<'' then
        (let k = takeWhile (\<lambda>c. c \<noteq> CHR ''>'') (drop 4 s); r = dropWhile (\<lambda>c. c \<noteq> CHR ''>'') (drop 4 s)
         in if valid_name k \<and> HasPrefix r ''>[^/]+)'' then map_option (Cons (Named k)) (parse_re (drop 7 r)) else None)
      else (case s of
              [] \<Rightarrow> None
            | c # r \<Rightarrow>
                if c = CHR 0x5C then
                  (case r of
                     [] \<Rightarrow> None
                   | d # r' \<Rightarrow> if is_special d then map_option (Cons (Byte d)) (parse_re r') else None)
                else if is_special c then None
                else map_option (Cons (Byte c)) (parse_re r)))"
  by pat_completeness auto

termination
proof (relation "measure length", goal_cases)
  case (2 s)
  then show ?case by (auto simp: HasPrefix_iff)
next
  case (3 s x xa)
  then show ?case using drop_group_shorter [of s] by simp
qed simp_all

declare parse_re.simps [simp del]

definition regexp_Compile :: "string \<Rightarrow> renode list option" where
  "regexp_Compile re = (case re of [] \<Rightarrow> None | c # r \<Rightarrow> if c = CHR 0x5E then parse_re r else None)"

section \<open>Matching\<close>

primrec first_some :: "('a \<Rightarrow> 'b option) \<Rightarrow> 'a list \<Rightarrow> 'b option" where
  "first_some f [] = None"
| "first_some f (x # xs) = (case f x of Some y \<Rightarrow> Some y | None \<Rightarrow> first_some f xs)"

text \<open>
  \<open>FindStringSubmatch\<close> between the anchors, as the names of the groups with their text: both kinds of repetition
  take the longest text that lets the rest match. The dot does not match a newline; \<open>[^/]\<close> does.
\<close>

primrec match_route :: "renode list \<Rightarrow> string \<Rightarrow> (string \<times> string) list option" where
  "match_route [] s = (if s = [] then Some [] else None)"
| "match_route (n # ns) s =
     (case n of
        Byte c \<Rightarrow> (case s of [] \<Rightarrow> None | d # r \<Rightarrow> if d = c then match_route ns r else None)
      | DotStar \<Rightarrow>
          first_some (\<lambda>i. match_route ns (drop i s)) (rev [0..<Suc (length (takeWhile (\<lambda>c. c \<noteq> CHR 0x0A) s))])
      | Named k \<Rightarrow>
          first_some (\<lambda>i. map_option (Cons (k, take i s)) (match_route ns (drop i s)))
            (rev [1..<Suc (length (takeWhile (\<lambda>c. c \<noteq> CHR ''/'') s))]))"

section \<open>What a template means\<close>

text \<open>
  A template as it is written down: texts and parameters in one of the two spellings, each after a slash, then
  perhaps a slash and perhaps a query.
\<close>

datatype tpart = Fixed string | Colon string | Brace string

primrec written :: "tpart \<Rightarrow> string" where
  "written (Fixed q) = q"
| "written (Colon k) = '':'' @ k"
| "written (Brace k) = ''{'' @ k @ ''}''"

primrec key_of :: "tpart \<Rightarrow> string option" where
  "key_of (Fixed q) = None"
| "key_of (Colon k) = Some k"
| "key_of (Brace k) = Some k"

definition template_text :: "tpart list \<Rightarrow> bool \<Rightarrow> string option \<Rightarrow> string" where
  "template_text ps slash query =
     concat (map (\<lambda>p. ''/'' @ written p) ps) @ (if slash then ''/'' else []) @
     (case query of None \<Rightarrow> [] | Some q \<Rightarrow> ''?'' @ q)"

text \<open>A text is not empty, has no slash and no question mark, and is not read as a wildcard or a parameter.\<close>

primrec part_ok :: "tpart \<Rightarrow> bool" where
  "part_ok (Fixed q) \<longleftrightarrow> q \<noteq> [] \<and> CHR ''/'' \<notin> set q \<and> CHR ''?'' \<notin> set q \<and> q \<noteq> ''*'' \<and> hd q \<noteq> CHR '':'' \<and>
     \<not> (hd q = CHR ''{'' \<and> last q = CHR ''}'')"
| "part_ok (Colon k) \<longleftrightarrow> valid_name k"
| "part_ok (Brace k) \<longleftrightarrow> valid_name k"

text \<open>The path that arises from values for the parameters, in order, and what a value may be.\<close>

fun fill :: "tpart list \<Rightarrow> string list \<Rightarrow> string" where
  "fill [] vs = []"
| "fill (Fixed q # ps) vs = ''/'' @ q @ fill ps vs"
| "fill (_ # ps) vs = ''/'' @ hd vs @ fill ps (tl vs)"

definition param_value :: "string \<Rightarrow> bool" where
  "param_value v \<longleftrightarrow> v \<noteq> [] \<and> CHR ''/'' \<notin> set v"

section \<open>From the template to the nodes\<close>

primrec part_nodes :: "tpart \<Rightarrow> renode list" where
  "part_nodes (Fixed q) = map Byte q"
| "part_nodes (Colon k) = [Named k]"
| "part_nodes (Brace k) = [Named k]"

definition template_nodes :: "tpart list \<Rightarrow> renode list" where
  "template_nodes ps = concat (map (\<lambda>p. Byte CHR ''/'' # part_nodes p) ps)"

lemma valid_name_chars:
  assumes "valid_name k" and "c \<in> set k"
  shows "c \<notin> {CHR ''/'', CHR ''?'', CHR ''>''}"
proof -
  have "is_alnum c \<or> c = CHR ''_''" using assms by (auto simp: valid_name_def list_all_iff)
  then show ?thesis by (auto simp: is_alnum_def is_alpha_def is_digit_def)
qed

lemma written_ok:
  assumes "part_ok p"
  shows "written p \<noteq> []" and "CHR ''/'' \<notin> set (written p)" and "CHR ''?'' \<notin> set (written p)"
  using assms valid_name_chars by (cases p; force)+

lemma CutPrefix_Some: "CutPrefix s p = Some r \<longleftrightarrow> s = p @ r"
  by (auto simp: CutPrefix_def HasPrefix_iff)

lemma HasPrefix_one: "HasPrefix s [c] \<longleftrightarrow> s \<noteq> [] \<and> hd s = c"
  by (cases s) (auto simp: HasPrefix_def)

lemma HasSuffix_one: "HasSuffix s [c] \<longleftrightarrow> s \<noteq> [] \<and> last s = c"
  by (cases s rule: rev_cases) (auto simp: HasSuffix_iff)

lemma TrimSuffix_append [simp]: "TrimSuffix (t @ p) p = t"
  by (simp add: TrimSuffix_def HasSuffix_iff)

lemma part_key_written: "part_ok p \<Longrightarrow> part_key (written p) = key_of p"
proof (cases p)
  case (Fixed q)
  assume "part_ok p"
  with Fixed show ?thesis by (simp add: part_key_def CutPrefix_def HasPrefix_one HasSuffix_one)
next
  case (Brace k)
  have "TrimSuffix (TrimPrefix (''{'' @ k @ ''}'') ''{'') ''}'' = k" by (simp only: TrimPrefix_append TrimSuffix_append)
  with Brace show ?thesis by (simp add: part_key_def CutPrefix_def HasPrefix_one HasSuffix_one)
qed (simp add: part_key_def CutPrefix_def HasPrefix_one)

lemma part_regex_written:
  "part_ok p \<Longrightarrow> part_regex (written p) =
     (case p of Fixed q \<Rightarrow> QuoteMeta q | Colon k \<Rightarrow> ''(?P<'' @ k @ ''>[^/]+)'' | Brace k \<Rightarrow> ''(?P<'' @ k @ ''>[^/]+)'')"
  by (simp add: part_regex_def part_key_written) (cases p; simp)

lemma slash_Join: "ps \<noteq> [] \<Longrightarrow> concat (map (\<lambda>p. ''/'' @ f p) ps) = ''/'' @ Join (map f ps) ''/''"
  by (induction ps rule: induct_list012) auto

lemma cut_query_append: "CHR ''?'' \<notin> set s \<Longrightarrow> cut_query (s @ (case q of None \<Rightarrow> [] | Some x \<Rightarrow> ''?'' @ x)) = s"
  by (cases q) (auto simp: cut_query_def IndexByte_def takeWhile_append)

lemma template_parts:
  assumes "ps \<noteq> []" and "list_all part_ok ps"
  shows "Split (TrimPrefix (TrimSuffix (cut_query (template_text ps slash query)) ''/'') ''/'') CHR ''/'' = map written ps"
proof -
  let ?b = "concat (map (\<lambda>p. ''/'' @ written p) ps)"
  have ok: "\<And>p. p \<in> set ps \<Longrightarrow> part_ok p" using assms(2) by (auto simp: list_all_iff)
  have "CHR ''?'' \<notin> set (?b @ (if slash then ''/'' else []))" using written_ok(3) [OF ok] by auto
  from cut_query_append [OF this, of query] have c: "cut_query (template_text ps slash query) = ?b @ (if slash then ''/'' else [])"
    by (simp add: template_text_def)
  have "last ?b \<noteq> CHR ''/''"
    using assms(1) written_ok(1,2) [OF ok, of "last ps"] by (cases ps rule: rev_cases) (auto dest: last_in_set)
  then have "TrimSuffix (?b @ (if slash then ''/'' else [])) ''/'' = ?b"
    by (cases slash) (simp_all add: TrimSuffix_def HasSuffix_one)
  moreover have "TrimPrefix ?b ''/'' = Join (map written ps) [CHR ''/'']" unfolding slash_Join [OF assms(1)] by (rule TrimPrefix_append)
  moreover have "Split (Join (map written ps) [CHR ''/'']) CHR ''/'' = map written ps"
    by (rule Split_Join) (use assms(1) written_ok(2) [OF ok] in auto)
  ultimately show ?thesis by (simp only: c)
qed

text \<open>What the compiler makes of the pieces.\<close>

lemma parse_re_end [simp]: "parse_re ''$'' = Some []"
  by (subst parse_re.simps) simp

lemma parse_re_plain: "\<not> is_special c \<Longrightarrow> parse_re (c # r) = map_option (Cons (Byte c)) (parse_re r)"
  by (subst parse_re.simps) (auto simp: HasPrefix_iff is_special_def)

lemma parse_re_escaped: "is_special c \<Longrightarrow> parse_re (CHR 0x5C # c # r) = map_option (Cons (Byte c)) (parse_re r)"
  by (subst parse_re.simps) (simp add: HasPrefix_iff)

lemma parse_re_quoted: "parse_re (QuoteMeta q @ r) = map_option ((@) (map Byte q)) (parse_re r)"
  by (induction q) (auto simp: QuoteMeta_def parse_re_plain parse_re_escaped option.map_comp comp_def option.map_ident)

lemma parse_re_group:
  assumes "valid_name k"
  shows "parse_re ((''(?P<'' @ k @ ''>[^/]+)'') @ r) = map_option (Cons (Named k)) (parse_re r)"
proof -
  let ?t = "''>[^/]+)'' @ r"
  have k: "\<And>c. c \<in> set k \<Longrightarrow> c \<noteq> CHR ''>''" using valid_name_chars [OF assms] by auto
  have "takeWhile (\<lambda>c. c \<noteq> CHR ''>'') (k @ ?t) = k" "dropWhile (\<lambda>c. c \<noteq> CHR ''>'') (k @ ?t) = ?t"
    using k by (simp_all add: takeWhile_append2 dropWhile_append2)
  then show ?thesis using assms by (subst parse_re.simps) (simp add: HasPrefix_def)
qed

lemma parse_re_part: "part_ok p \<Longrightarrow> parse_re (part_regex (written p) @ r) = map_option ((@) (part_nodes p)) (parse_re r)"
  using part_regex_written [of p] parse_re_group [of _ r]
  by (cases p) (simp_all add: parse_re_quoted append_Cons [abs_def])

lemma parse_re_parts:
  "list_all part_ok ps \<Longrightarrow> parse_re (concat (map (\<lambda>p. ''/'' @ part_regex (written p)) ps) @ ''$'') = Some (template_nodes ps)"
proof (induction ps)
  case (Cons p ps)
  have "\<not> is_special CHR ''/''" by (simp add: is_special_def)
  with Cons show ?case by (simp add: template_nodes_def parse_re_plain parse_re_part)
qed (simp add: template_nodes_def)

lemma template_compiles:
  assumes "ps \<noteq> []" and "list_all part_ok ps"
  shows "regexp_Compile (''^'' @ fst (templateToRegex (template_text ps slash query)) @ ''$'') = Some (template_nodes ps)"
    and "snd (templateToRegex (template_text ps slash query)) = List.map_filter key_of ps"
proof -
  have "List.map_filter part_key (map written ps) = List.map_filter key_of ps"
    using assms(2) by (induction ps) (auto simp: map_filter_simps part_key_written split: option.splits)
  then show "snd (templateToRegex (template_text ps slash query)) = List.map_filter key_of ps"
    by (simp add: templateToRegex_def template_parts [OF assms] Let_def)
  have "fst (templateToRegex (template_text ps slash query)) = concat (map (\<lambda>p. ''/'' @ part_regex (written p)) ps)"
    by (simp only: templateToRegex_def template_parts [OF assms] Let_def fst_conv slash_Join [OF assms(1)] map_map comp_def)
  then show "regexp_Compile (''^'' @ fst (templateToRegex (template_text ps slash query)) @ ''$'') = Some (template_nodes ps)"
    using parse_re_parts [OF assms(2)] by (simp add: regexp_Compile_def)
qed

section \<open>Matching the nodes\<close>

lemma first_some_Some: "first_some f xs = Some y \<Longrightarrow> \<exists>x \<in> set xs. f x = Some y"
  by (induction xs) (auto split: option.splits)

lemma match_bytes: "match_route (map Byte q @ ns) s = Some gs \<longleftrightarrow> (\<exists>r. s = q @ r \<and> match_route ns r = Some gs)"
proof (induction q arbitrary: s)
  case (Cons c q)
  then show ?case by (cases s) auto
qed simp

lemma match_slash: "match_route (template_nodes ps) t = Some gs \<Longrightarrow> t = [] \<or> (\<exists>u. t = CHR ''/'' # u)"
  by (cases ps) (auto simp: template_nodes_def split: list.splits if_splits)

text \<open>A group takes exactly the text up to the next slash, when the rest starts with one.\<close>

lemma match_group:
  assumes "\<And>t gs. match_route ns t = Some gs \<Longrightarrow> t = [] \<or> (\<exists>u. t = CHR ''/'' # u)"
  shows "match_route (Named k # ns) s = Some gs \<longleftrightarrow>
    (\<exists>v r gs'. s = v @ r \<and> param_value v \<and> match_route ns r = Some gs' \<and> gs = (k, v) # gs')"
proof
  let ?w = "takeWhile (\<lambda>c. c \<noteq> CHR ''/'') s"
  assume "match_route (Named k # ns) s = Some gs"
  then have "\<exists>i \<in> set (rev [1..<Suc (length ?w)]). map_option (Cons (k, take i s)) (match_route ns (drop i s)) = Some gs"
    by (intro first_some_Some) simp
  then obtain i gs' where i: "i \<in> set (rev [1..<Suc (length ?w)])" "match_route ns (drop i s) = Some gs'"
    "gs = (k, take i s) # gs'" by blast
  have "take i s = take i ?w" using i(1) by (subst takeWhile_eq_take) auto
  then have "param_value (take i s)"
    using i(1) set_take_subset [of i ?w] set_takeWhileD [of _ "\<lambda>c. c \<noteq> CHR ''/''" s] by (auto simp: param_value_def)
  with i show "\<exists>v r gs'. s = v @ r \<and> param_value v \<and> match_route ns r = Some gs' \<and> gs = (k, v) # gs'"
    by (metis append_take_drop_id)
next
  assume "\<exists>v r gs'. s = v @ r \<and> param_value v \<and> match_route ns r = Some gs' \<and> gs = (k, v) # gs'"
  then obtain v r gs' where v: "s = v @ r" "param_value v" "match_route ns r = Some gs'" "gs = (k, v) # gs'" by blast
  have "takeWhile (\<lambda>c. c \<noteq> CHR ''/'') s = v" unfolding v(1) using assms [OF v(3)] v(2)
    by (subst takeWhile_append2) (auto simp: param_value_def)
  moreover have "rev [1..<Suc (length v)] = length v # rev [1..<length v]" using v(2) by (cases v) (auto simp: param_value_def)
  ultimately show "match_route (Named k # ns) s = Some gs" using v by simp
qed

text \<open>The paths a template matches are those that can be filled in.\<close>

lemma match_template:
  "match_route (template_nodes ps) s = Some gs \<longleftrightarrow>
     map fst gs = List.map_filter key_of ps \<and> list_all param_value (map snd gs) \<and> s = fill ps (map snd gs)"
proof (induction ps arbitrary: s gs)
  case Nil
  show ?case by (auto simp: template_nodes_def map_filter_simps)
next
  case (Cons p ps)
  have t: "match_route (template_nodes (p # ps)) s = Some gs \<longleftrightarrow>
      (\<exists>r. s = CHR ''/'' # r \<and> match_route (part_nodes p @ template_nodes ps) r = Some gs)" for s gs
    by (auto simp: template_nodes_def split: list.splits)
  have group: "match_route (template_nodes (p # ps)) s = Some gs \<longleftrightarrow>
      map fst gs = k # List.map_filter key_of ps \<and> list_all param_value (map snd gs) \<and>
      s = ''/'' @ hd (map snd gs) @ fill ps (tl (map snd gs))" if "part_nodes p = [Named k]" for k
  proof -
    have "match_route (Named k # template_nodes ps) r = Some gs \<longleftrightarrow>
        (\<exists>v r' gs'. r = v @ r' \<and> param_value v \<and> match_route (template_nodes ps) r' = Some gs' \<and> gs = (k, v) # gs')" for r
      by (rule match_group) (rule match_slash)
    also have "\<dots> r \<longleftrightarrow> map fst gs = k # List.map_filter key_of ps \<and> list_all param_value (map snd gs) \<and>
        r = hd (map snd gs) @ fill ps (tl (map snd gs))" for r
      by (cases gs) (auto simp: Cons.IH)
    finally show ?thesis unfolding t that by (auto simp del: match_route.simps)
  qed
  show ?case
  proof (cases p)
    case (Fixed q)
    then show ?thesis unfolding t by (auto simp: match_bytes Cons.IH map_filter_simps)
  next
    case (Colon k)
    then show ?thesis using group [of k] by (simp add: map_filter_simps)
  next
    case (Brace k)
    then show ?thesis using group [of k] by (simp add: map_filter_simps)
  qed
qed

section \<open>Properties\<close>

text \<open>
  C21: The expression \<open>templateToRegex\<close> writes for a template without \<open>*\<close> compiles, and it matches exactly the paths that
  arise from the template by replacing each parameter, written \<open>:key\<close> or \<open>{key}\<close>, with a non-empty text without
  slash; the captured parameters are those texts, under the template's keys in order: matching is the inverse of
  filling in. A slash at the end of the template and a query are not part of it. Texts are not empty and free of
  slashes and question marks, whatever other special characters they have; keys are words of letters, digits and
  underscores.
\<close>
theorem template_roundtrip:
  assumes "ps \<noteq> []" and "list_all part_ok ps" and "templateToRegex (template_text ps slash query) = (reStr, keys)"
  shows "\<exists>re. regexp_Compile (''^'' @ reStr @ ''$'') = Some re \<and> keys = List.map_filter key_of ps \<and>
    (\<forall>s gs. match_route re s = Some gs \<longleftrightarrow>
       map fst gs = keys \<and> list_all param_value (map snd gs) \<and> s = fill ps (map snd gs))"
  using template_compiles [OF assms(1,2), of slash query] assms(3) by (simp add: match_template)

theorem template_roundtrip_witness:
  "\<exists>re. regexp_Compile (''^'' @ fst (templateToRegex ''/v1.0/:id/{part}/?x=1'') @ ''$'') = Some re \<and>
     match_route re ''/v1.0/42/a+b'' = Some [(''id'', ''42''), (''part'', ''a+b'')]"
proof -
  let ?ps = "[Fixed ''v1.0'', Colon ''id'', Brace ''part'']"
  have t: "template_text ?ps True (Some ''x=1'') = ''/v1.0/:id/{part}/?x=1''" by (simp add: template_text_def)
  have ok: "list_all part_ok ?ps" by (simp add: valid_name_def is_alnum_def is_alpha_def is_digit_def)
  obtain reStr keys where r: "templateToRegex (template_text ?ps True (Some ''x=1'')) = (reStr, keys)" by fastforce
  from template_roundtrip [OF _ ok r] obtain re where "regexp_Compile (''^'' @ reStr @ ''$'') = Some re"
    "keys = List.map_filter key_of ?ps"
    "\<forall>s gs. match_route re s = Some gs \<longleftrightarrow>
       map fst gs = keys \<and> list_all param_value (map snd gs) \<and> s = fill ?ps (map snd gs)" by blast
  then show ?thesis using r t by (simp add: map_filter_simps param_value_def)
qed

end
