(* ===== verification/Rules.thy ===== *)
theory Rules
  imports Middleware Templates
begin

text \<open>
  Package \<open>rules\<close> (the rule file, validation of a request against its rule; the route templates are in \<open>Templates\<close>)
  and the middleware \<open>api/validation\<close>. Reading the file, the YAML decoder, the JSON decoder and the regular-expression compiler for
  field patterns are arguments; a compiled pattern is a predicate on strings. Maps are lists in the order in
  which the range loops visit them.
\<close>

section \<open>Rules\<close>

definition LevelIgnore :: string where "LevelIgnore = ''ignore''"
definition LevelLenient :: string where "LevelLenient = ''lenient''"
definition LevelStrict :: string where "LevelStrict = ''strict''"

text \<open>\<open>fs_Value\<close> is the value when it is a string.\<close>

record FieldSpec =
  fs_Type :: string
  fs_Required :: bool
  fs_Value :: "string option"
  fs_Pattern :: string
  fs_Enum :: "string list"
  fs_MinLen :: int
  fs_MaxLen :: int
  fs_compiled :: "(string \<Rightarrow> bool) option"
  fs_enumSet :: "string list option"

type_synonym fields = "(string \<times> FieldSpec) list"

record EvalRule =
  ru_Level :: string
  ru_Headers :: "fields option"
  ru_PathParams :: "fields option"
  ru_QueryParams :: "fields option"
  ru_Body :: "fields option"
  ru_RequiredVersion :: int

type_synonym RuleConfig = "(string \<times> (string \<times> EvalRule) list) list"

text \<open>A range loop over a nil map visits nothing.\<close>

definition entries :: "fields option \<Rightarrow> fields" where
  "entries m = (case m of None \<Rightarrow> [] | Some l \<Rightarrow> l)"

section \<open>Route patterns\<close>

record routePattern =
  rp_template :: string
  rp_re :: "renode list"
  rp_methods :: "(string \<times> EvalRule) list"
  rp_paramKeys :: "string list"

definition is_wild :: "string \<Rightarrow> bool" where
  "is_wild p \<longleftrightarrow> p = ''*'' \<or> HasPrefix p '':'' \<or> HasPrefix p ''{'' \<and> HasSuffix p ''}''"

definition specificityScore :: "string \<Rightarrow> int" where
  "specificityScore tpl =
     (let parts = Split (TrimPrefix tpl ''/'') CHR ''/'';
          wild = length (filter is_wild parts);
          literal = length (filter (\<lambda>p. \<not> is_wild p \<and> p \<noteq> []) parts)
      in int literal * 10 - int wild)"

section \<open>Parsing\<close>

text \<open>\<open>validateAndNormalizeConfig\<close> turns nil maps into empty ones.\<close>

definition normalize_rule :: "EvalRule \<Rightarrow> EvalRule" where
  "normalize_rule r =
     r\<lparr>ru_Headers := Some (entries (ru_Headers r)), ru_QueryParams := Some (entries (ru_QueryParams r)),
       ru_PathParams := Some (entries (ru_PathParams r)), ru_Body := Some (entries (ru_Body r))\<rparr>"

definition validateAndNormalizeConfig :: "RuleConfig \<Rightarrow> RuleConfig" where
  "validateAndNormalizeConfig cfg = map (\<lambda>(tpl, ms). (tpl, map (\<lambda>(m, r). (m, normalize_rule r)) ms)) cfg"

datatype rules_error = InvalidYaml string | InvalidRoute string | InvalidPattern string string

primrec map_res :: "('a \<Rightarrow> ('e, 'b) res) \<Rightarrow> 'a list \<Rightarrow> ('e, 'b list) res" where
  "map_res f [] = Inr []"
| "map_res f (x # xs) = bind_res (f x) (\<lambda>y. bind_res (map_res f xs) (\<lambda>ys. Inr (y # ys)))"

definition prepare ::
  "(string \<Rightarrow> (string \<Rightarrow> bool) option) \<Rightarrow> string \<Rightarrow> string \<times> FieldSpec \<Rightarrow> (rules_error, string \<times> FieldSpec) res" where
  "prepare compile kind x =
     (let (name, spec) = x;
          enum = (\<lambda>sp. if length (fs_Enum sp) > 0 then sp\<lparr>fs_enumSet := Some (fs_Enum sp)\<rparr> else sp)
      in if fs_Pattern spec \<noteq> [] then
           (case compile (fs_Pattern spec) of
              None \<Rightarrow> Inl (InvalidPattern kind name)
            | Some re \<Rightarrow> Inr (name, enum (spec\<lparr>fs_compiled := Some re\<rparr>)))
         else Inr (name, enum spec))"

definition prepare_rule ::
  "(string \<Rightarrow> (string \<Rightarrow> bool) option) \<Rightarrow> string \<times> EvalRule \<Rightarrow> (rules_error, string \<times> EvalRule) res" where
  "prepare_rule compile x =
     (let (m, r) = x
      in bind_res (map_res (prepare compile ''header'') (entries (ru_Headers r))) (\<lambda>h.
         bind_res (map_res (prepare compile ''path param'') (entries (ru_PathParams r))) (\<lambda>p.
         bind_res (map_res (prepare compile ''query param'') (entries (ru_QueryParams r))) (\<lambda>q.
         bind_res (map_res (prepare compile ''body field'') (entries (ru_Body r))) (\<lambda>b.
           Inr (m, r\<lparr>ru_Headers := Some h, ru_PathParams := Some p, ru_QueryParams := Some q, ru_Body := Some b\<rparr>))))))"

definition prepareFieldSpecs ::
  "(string \<Rightarrow> (string \<Rightarrow> bool) option) \<Rightarrow> RuleConfig \<Rightarrow> (rules_error, RuleConfig) res" where
  "prepareFieldSpecs compile cfg =
     map_res (\<lambda>(tpl, ms). bind_res (map_res (prepare_rule compile) ms) (\<lambda>ms'. Inr (tpl, ms'))) cfg"

definition is_template :: "string \<Rightarrow> bool" where
  "is_template tpl \<longleftrightarrow> Contains tpl '':'' \<or> Contains tpl ''{'' \<or> Contains tpl ''*''"

text \<open>The loop body that compiles a route, and the pattern with the methods it shares with the configuration.\<close>

definition compile_route :: "string \<times> 'm \<Rightarrow> (rules_error, renode list \<times> string list) res" where
  "compile_route x =
     (let (reStr, keys) = templateToRegex (fst x)
      in case regexp_Compile (''^'' @ reStr @ ''$'') of
           None \<Rightarrow> Inl (InvalidRoute (fst x))
         | Some re \<Rightarrow> Inr (re, keys))"

definition pattern_of :: "renode list \<times> string list \<Rightarrow> string \<times> (string \<times> EvalRule) list \<Rightarrow> routePattern" where
  "pattern_of c x = \<lparr>rp_template = fst x, rp_re = fst c, rp_methods = snd x, rp_paramKeys = snd c\<rparr>"

text \<open>
  \<open>parseConfigFromData\<close>. The patterns share the method maps with the configuration, so they hold the prepared
  rules; \<open>sort.SliceStable\<close> orders them by decreasing score.
\<close>

definition parseConfigFromData ::
  "(string \<Rightarrow> (string, RuleConfig) res) \<Rightarrow> (string \<Rightarrow> (string \<Rightarrow> bool) option) \<Rightarrow> string
     \<Rightarrow> (rules_error, RuleConfig \<times> routePattern list) res" where
  "parseConfigFromData yaml compile data =
     (case yaml data of
        Inl e \<Rightarrow> Inl (InvalidYaml e)
      | Inr raw \<Rightarrow>
          (let cfg = validateAndNormalizeConfig raw
           in bind_res (map_res compile_route (filter (\<lambda>x. is_template (fst x)) cfg)) (\<lambda>res.
              bind_res (prepareFieldSpecs compile cfg) (\<lambda>cfg'.
                Inr (cfg', sort_key (\<lambda>p. - specificityScore (rp_template p))
                             (map2 pattern_of res (filter (\<lambda>x. is_template (fst x)) cfg')))))))"

section \<open>The loaded rules\<close>

record rules_state =
  rs_ruleMap :: "RuleConfig option"
  rs_patternRoutes :: "routePattern list"
  rs_configLoaded :: bool

definition rules_init :: rules_state where
  "rules_init = \<lparr>rs_ruleMap = None, rs_patternRoutes = [], rs_configLoaded = False\<rparr>"

definition LoadConfigWithData ::
  "(string \<Rightarrow> (string, RuleConfig) res) \<Rightarrow> (string \<Rightarrow> (string \<Rightarrow> bool) option) \<Rightarrow> string \<Rightarrow> rules_state
     \<Rightarrow> bool \<times> rules_state" where
  "LoadConfigWithData yaml compile data st =
     (if rs_configLoaded st then (True, st)
      else (case parseConfigFromData yaml compile data of
              Inl e \<Rightarrow> (False, st)
            | Inr (rt, ps) \<Rightarrow>
                (True, st\<lparr>rs_ruleMap := Some rt, rs_patternRoutes := ps, rs_configLoaded := True\<rparr>)))"

text \<open>\<open>LoadConfig\<close> with its optional path; \<open>file\<close> reads a file, and a file without content has data, not nil.\<close>

definition LoadConfig_rules ::
  "(string \<Rightarrow> (string, RuleConfig) res) \<Rightarrow> (string \<Rightarrow> (string \<Rightarrow> bool) option) \<Rightarrow> (string \<Rightarrow> string option)
     \<Rightarrow> (string \<Rightarrow> string) \<Rightarrow> string list \<Rightarrow> rules_state \<Rightarrow> bool \<times> rules_state" where
  "LoadConfig_rules yaml compile file env paths st =
     (if rs_configLoaded st then (True, st)
      else
        (let data = (if length paths > 0 \<and> hd paths \<noteq> [] then file (hd paths)
                     else if env ''EVAL_RULES_PATH'' \<noteq> [] then file (env ''EVAL_RULES_PATH'') else None)
         in case data of
              None \<Rightarrow> (False, st)
            | Some d \<Rightarrow> LoadConfigWithData yaml compile d st))"

definition IsConfigLoaded :: "rules_state \<Rightarrow> bool" where
  "IsConfigLoaded st \<longleftrightarrow> rs_configLoaded st \<and> rs_ruleMap st \<noteq> None"

definition ResetForTesting :: "rules_state \<Rightarrow> rules_state" where
  "ResetForTesting st = st\<lparr>rs_configLoaded := False, rs_ruleMap := None, rs_patternRoutes := []\<rparr>"

definition GetRules :: "rules_state \<Rightarrow> RuleConfig option" where
  "GetRules st = rs_ruleMap st"

definition version_seg :: "string \<Rightarrow> bool" where
  "version_seg s \<longleftrightarrow> length s > 1 \<and> s ! 0 = CHR ''v'' \<and> is_digit (s ! 1)"

definition normalizePath :: "string \<Rightarrow> string" where
  "normalizePath p0 =
     (if p0 = [] then p0
      else
        (let p1 = TrimSpace (cut_query p0)
         in if p1 = [] then ''/''
            else
              (let p2 = (if length p1 > 1 \<and> HasSuffix p1 ''/'' then TrimSuffix p1 ''/'' else p1);
                   segs = Split (TrimPrefix p2 ''/'') CHR ''/'';
                   p3 = (if version_seg (hd segs) then ''/'' @ Join (tl segs) ''/'' else p2)
               in if \<not> HasPrefix p3 ''/'' then ''/'' @ p3 else p3)))"

text \<open>The loop over the pattern routes: the first that matches and has the method.\<close>

primrec find_pattern :: "string \<Rightarrow> string \<Rightarrow> routePattern list \<Rightarrow> (EvalRule \<times> (string \<rightharpoonup> string)) option" where
  "find_pattern np meth [] = None"
| "find_pattern np meth (rp # rest) =
     (case match_route (rp_re rp) np of
        None \<Rightarrow> find_pattern np meth rest
      | Some groups \<Rightarrow>
          (case map_of (rp_methods rp) meth of
             None \<Rightarrow> find_pattern np meth rest
           | Some rule \<Rightarrow> Some (rule, map_of (rev groups))))"

definition GetRule ::
  "rules_state \<Rightarrow> string \<Rightarrow> string \<Rightarrow> (EvalRule \<times> (string \<rightharpoonup> string) option) option" where
  "GetRule st pKey meth =
     (case rs_ruleMap st of
        None \<Rightarrow> None
      | Some rm \<Rightarrow>
          if pKey = [] \<or> meth = [] then None
          else
            (let np = normalizePath pKey
             in case Option.bind (map_of rm np) (\<lambda>ms. map_of ms meth) of
                  Some rule \<Rightarrow> Some (rule, None)
                | None \<Rightarrow> map_option (apsnd Some) (find_pattern np meth (rs_patternRoutes st))))"

section \<open>Validation\<close>

datatype field_error = PatternMismatch | NotInEnum | TooShort | TooLong | NotAnInt | NotABool

definition validateFieldValue :: "FieldSpec \<Rightarrow> string \<Rightarrow> field_error option" where
  "validateFieldValue spec val =
     (if (case fs_compiled spec of Some re \<Rightarrow> \<not> re val | None \<Rightarrow> False) then Some PatternMismatch
      else if (case fs_enumSet spec of Some e \<Rightarrow> val \<notin> set e | None \<Rightarrow> False) then Some NotInEnum
      else if fs_MinLen spec > 0 \<and> int (length val) < fs_MinLen spec then Some TooShort
      else if fs_MaxLen spec > 0 \<and> int (length val) > fs_MaxLen spec then Some TooLong
      else if fs_Type spec = ''int'' then (if Atoi val = None then Some NotAnInt else None)
      else if fs_Type spec = ''bool'' then (if val \<noteq> ''true'' \<and> val \<noteq> ''false'' then Some NotABool else None)
      else None)"

definition isValidVersion :: "request \<Rightarrow> EvalRule \<Rightarrow> bool" where
  "isValidVersion req rule \<longleftrightarrow>
     (if ru_Level rule = LevelLenient then True
      else if ru_RequiredVersion rule \<le> 0 then False
      else (let v = GetAPIVersion (Some req)
            in if v = [] then False
               else (case Atoi (TrimPrefix v ''/v'') of None \<Rightarrow> False | Some n \<Rightarrow> n = ru_RequiredVersion rule)))"

definition header_ok ::
  "(string \<Rightarrow> string) \<Rightarrow> (string \<Rightarrow> (string, bool) res) option \<Rightarrow> request \<Rightarrow> string \<times> FieldSpec \<Rightarrow> bool" where
  "header_ok env jwtClient req x =
     (let (hName, spec) = x; val = Header_Get (req_header req) hName;
          valStr = (case fs_Value spec of Some v \<Rightarrow> v | None \<Rightarrow> [])
      in if fs_Required spec \<and> val = [] then False
         else if val = [] then True
         else if valStr \<noteq> [] \<and>
                 (if last valStr = CHR ''*'' then \<not> HasPrefix val (butlast valStr) else val \<noteq> valStr) then False
         else if validateFieldValue spec val \<noteq> None then False
         else ValidateHeaderValue env jwtClient hName req = Inr True)"

definition areValidHeaders ::
  "(string \<Rightarrow> string) \<Rightarrow> (string \<Rightarrow> (string, bool) res) option \<Rightarrow> request \<Rightarrow> EvalRule \<Rightarrow> bool" where
  "areValidHeaders env jwtClient req rule = list_all (header_ok env jwtClient req) (entries (ru_Headers rule))"

text \<open>A parameter that is absent or empty.\<close>

definition param_ok :: "(string \<rightharpoonup> string) \<Rightarrow> string \<times> FieldSpec \<Rightarrow> bool" where
  "param_ok params x =
     (let (name, spec) = x; val = (case params name of Some v \<Rightarrow> v | None \<Rightarrow> [])
      in if val = [] then \<not> fs_Required spec else validateFieldValue spec val = None)"

definition areValidPathParams :: "EvalRule \<Rightarrow> (string \<rightharpoonup> string) option \<Rightarrow> bool" where
  "areValidPathParams rule params =
     (case params of
        None \<Rightarrow> list_all (\<lambda>(name, spec). \<not> fs_Required spec) (entries (ru_PathParams rule))
      | Some ps \<Rightarrow> list_all (param_ok ps) (entries (ru_PathParams rule)))"

definition areValidQueryParams :: "request \<Rightarrow> EvalRule \<Rightarrow> bool" where
  "areValidQueryParams req rule = list_all (param_ok (GetQueryParams (Some req))) (entries (ru_QueryParams rule))"

text \<open>
  A decoded JSON value; a number comes with the texts of \<open>strconv.FormatFloat\<close> and of \<open>fmt.Sprint\<close>, any other
  value with the latter.
\<close>

datatype json_value = JString string | JNumber string string | JBool bool | JOther string

definition Sprint_json :: "json_value \<Rightarrow> string" where
  "Sprint_json v =
     (case v of JString s \<Rightarrow> s | JNumber _ g \<Rightarrow> g | JBool b \<Rightarrow> (if b then ''true'' else ''false'') | JOther s \<Rightarrow> s)"

definition body_field_ok :: "(string \<rightharpoonup> json_value) \<Rightarrow> string \<times> FieldSpec \<Rightarrow> bool" where
  "body_field_ok bodyMap x =
     (let (name, spec) = x
      in case bodyMap name of
           None \<Rightarrow> \<not> fs_Required spec
         | Some v \<Rightarrow>
             if fs_Type spec = [] \<or> fs_Type spec = ''string'' then
               (case v of JString s \<Rightarrow> validateFieldValue spec s = None | _ \<Rightarrow> False)
             else if fs_Type spec = ''int'' then
               (case v of JNumber f _ \<Rightarrow> validateFieldValue spec f = None | _ \<Rightarrow> False)
             else if fs_Type spec = ''bool'' then
               (case v of JBool b \<Rightarrow> validateFieldValue spec (if b then ''true'' else ''false'') = None | _ \<Rightarrow> False)
             else validateFieldValue spec (Sprint_json v) = None)"

definition maxBody :: nat where "maxBody = 2 ^ 20"

text \<open>\<open>io.ReadAll\<close> of a limited body; a request of a server always has a body.\<close>

definition read_limited :: "body option \<Rightarrow> string option" where
  "read_limited b =
     (case b of
        None \<Rightarrow> Some []
      | Some (Body s) \<Rightarrow> Some (take maxBody s)
      | Some (BrokenBody s) \<Rightarrow> if maxBody \<le> length s then Some (take maxBody s) else None)"

definition isValidBody ::
  "(string \<Rightarrow> (string \<rightharpoonup> json_value) option) \<Rightarrow> request \<Rightarrow> EvalRule \<Rightarrow> bool \<times> request" where
  "isValidBody decode req rule =
     (if req_method req \<in> {''GET'', ''HEAD'', ''OPTIONS''} then (True, req)
      else if length (entries (ru_Body rule)) = 0 then (True, req)
      else (case read_limited (req_body req) of
              None \<Rightarrow> (False, req)
            | Some bodyBytes \<Rightarrow>
                (let req' = req\<lparr>req_body := Some (Body bodyBytes)\<rparr>
                 in if length bodyBytes = 0 then
                      (list_all (\<lambda>(name, spec). \<not> fs_Required spec) (entries (ru_Body rule)), req')
                    else (case decode bodyBytes of
                            None \<Rightarrow> (False, req')
                          | Some bodyMap \<Rightarrow> (list_all (body_field_ok bodyMap) (entries (ru_Body rule)), req')))))"

definition IsRuleValid ::
  "(string \<Rightarrow> string) \<Rightarrow> (string \<Rightarrow> (string, bool) res) option \<Rightarrow> (string \<Rightarrow> (string \<rightharpoonup> json_value) option) \<Rightarrow> request
     \<Rightarrow> EvalRule \<Rightarrow> (string \<rightharpoonup> string) option \<Rightarrow> bool \<times> request" where
  "IsRuleValid env jwtClient decode req rule pathParams =
     (if ru_Level rule = LevelIgnore then (True, req)
      else if \<not> isValidVersion req rule then (False, req)
      else if \<not> areValidHeaders env jwtClient req rule then (False, req)
      else if \<not> areValidPathParams rule pathParams then (False, req)
      else if \<not> areValidQueryParams req rule then (False, req)
      else isValidBody decode req rule)"

section \<open>The validation middleware\<close>

definition validation_decide ::
  "rules_state \<Rightarrow> bool \<Rightarrow> (string \<Rightarrow> (string, bool) res) option \<Rightarrow> (string \<Rightarrow> (string \<rightharpoonup> json_value) option)
     \<Rightarrow> ('a proc_scheme) decision" where
  "validation_decide st rejectUnmapped jwtClient decode req w s =
     (case GetRule st (case req_url req of None \<Rightarrow> [] | Some u \<Rightarrow> u_path u) (req_method req) of
        None \<Rightarrow>
          if rejectUnmapped then
            Respond (SendError (p_now s) w req Global_BadRequest [WithDetail ''failed to validate request'']) s
          else Continue req w s
      | Some (rule, params) \<Rightarrow>
          (case IsRuleValid (p_env s) jwtClient decode req rule params of
             (False, req') \<Rightarrow>
               Respond (SendError (p_now s) w req' Global_BadRequest [WithDetail ''request contents invalid'']) s
           | (True, req') \<Rightarrow> Continue req' w s))"

definition validation_Middleware ::
  "rules_state \<Rightarrow> bool \<Rightarrow> (string \<Rightarrow> (string, bool) res) option \<Rightarrow> (string \<Rightarrow> (string \<rightharpoonup> json_value) option)
     \<Rightarrow> ('a proc_scheme) middleware" where
  "validation_Middleware st rejectUnmapped jwtClient decode = middleware_of (validation_decide st rejectUnmapped jwtClient decode)"

definition RuleValidationMiddleware ::
  "rules_state \<Rightarrow> (string \<Rightarrow> (string, bool) res) option \<Rightarrow> (string \<Rightarrow> (string \<rightharpoonup> json_value) option)
     \<Rightarrow> ('a proc_scheme) middleware" where
  "RuleValidationMiddleware st = validation_Middleware st True"

text \<open>The middleware is a guard: of the request it replaces at most the body, so the caller's identity stays.\<close>

lemma IsRuleValid_identity: "IsRuleValid env j decode req rule params = (ok, req') \<Longrightarrow> same_identity req req'"
  by (auto simp: IsRuleValid_def isValidBody_def same_identity_def Let_def split: if_splits option.splits)

interpretation validation_guard: identity_guard "validation_Middleware st b j decode" "validation_decide st b j decode"
  for st b j decode
  by unfold_locales
    (auto simp: validation_Middleware_def validation_decide_def dest: IsRuleValid_identity
      split: option.splits prod.splits bool.splits if_splits)

section \<open>Finding a rule\<close>

lemma find_pattern_first:
  assumes "find_pattern np m pats = Some (rule, params)"
  shows "\<exists>xs rp ys gs. pats = xs @ rp # ys \<and> match_route (rp_re rp) np = Some gs \<and> map_of (rp_methods rp) m = Some rule \<and>
    params = map_of (rev gs) \<and> (\<forall>x \<in> set xs. match_route (rp_re x) np = None \<or> map_of (rp_methods x) m = None)"
  using assms
proof (induction pats)
  case (Cons rp pats)
  show ?case
  proof (cases "match_route (rp_re rp) np = None \<or> map_of (rp_methods rp) m = None")
    case True
    then have "find_pattern np m pats = Some (rule, params)" using Cons.prems by (auto split: option.splits)
    from Cons.IH [OF this] True show ?thesis by (metis append_Cons set_ConsD)
  next
    case False
    then show ?thesis using Cons.prems by (intro exI [of _ "[]"]) auto
  qed
qed simp

lemma LoadConfigWithData_sorted:
  assumes "LoadConfigWithData yaml compile data rules_init = (True, st)"
  shows "sorted (map (\<lambda>p. - specificityScore (rp_template p)) (rs_patternRoutes st))"
proof -
  obtain rt ps where p: "parseConfigFromData yaml compile data = Inr (rt, ps)" "rs_patternRoutes st = ps"
    using assms by (auto simp: LoadConfigWithData_def rules_init_def split: sum.splits)
  then obtain xs where "ps = sort_key (\<lambda>p. - specificityScore (rp_template p)) xs"
    by (simp add: parseConfigFromData_def Let_def bind_res_eq_Inr split: sum.splits) metis
  with p show ?thesis by simp
qed

section \<open>Properties\<close>

text \<open>
  C15: With a loaded configuration, the rule found for a path and method through a template is that of the most
  specific matching template: no other template that matches the path and has a rule for the method has a
  higher score, and no exact entry for the path has one.
\<close>
theorem GetRule_most_specific:
  assumes "LoadConfigWithData yaml compile data rules_init = (True, st)"
    and "GetRule st p m = Some (rule, Some params)"
  shows "\<exists>rp gs. rp \<in> set (rs_patternRoutes st) \<and> match_route (rp_re rp) (normalizePath p) = Some gs \<and>
      map_of (rp_methods rp) m = Some rule \<and> params = map_of (rev gs) \<and>
      (\<forall>rp' \<in> set (rs_patternRoutes st). match_route (rp_re rp') (normalizePath p) \<noteq> None \<and> map_of (rp_methods rp') m \<noteq> None \<longrightarrow>
         specificityScore (rp_template rp') \<le> specificityScore (rp_template rp)) \<and>
      (\<forall>rm ms. rs_ruleMap st = Some rm \<longrightarrow> map_of rm (normalizePath p) = Some ms \<longrightarrow> map_of ms m = None)"
proof -
  let ?np = "normalizePath p"
  obtain rm where rm: "rs_ruleMap st = Some rm" "Option.bind (map_of rm ?np) (\<lambda>ms. map_of ms m) = None"
    "find_pattern ?np m (rs_patternRoutes st) = Some (rule, params)"
    using assms(2) by (auto simp: GetRule_def Let_def split: option.splits if_splits)
  from find_pattern_first [OF rm(3)] obtain xs rp ys gs where f: "rs_patternRoutes st = xs @ rp # ys"
    "match_route (rp_re rp) ?np = Some gs" "map_of (rp_methods rp) m = Some rule" "params = map_of (rev gs)"
    "\<forall>x \<in> set xs. match_route (rp_re x) ?np = None \<or> map_of (rp_methods x) m = None" by blast
  have "specificityScore (rp_template y) \<le> specificityScore (rp_template rp)" if "y \<in> set ys" for y
    using LoadConfigWithData_sorted [OF assms(1)] f(1) that by (auto simp: sorted_append)
  then have "\<forall>rp' \<in> set (rs_patternRoutes st). match_route (rp_re rp') ?np \<noteq> None \<and> map_of (rp_methods rp') m \<noteq> None \<longrightarrow>
      specificityScore (rp_template rp') \<le> specificityScore (rp_template rp)"
    using f(1,5) by auto
  then show ?thesis using f rm by (intro exI [of _ rp] exI [of _ gs]) auto
qed

definition sample_rule :: "int \<Rightarrow> EvalRule" where
  "sample_rule n = \<lparr>ru_Level = LevelLenient, ru_Headers = None, ru_PathParams = None, ru_QueryParams = None, ru_Body = None,
     ru_RequiredVersion = n\<rparr>"

definition sample_rules :: RuleConfig where
  "sample_rules = [(''/a/*'', [(''GET'', sample_rule 1)]), (''/a/:id'', [(''GET'', sample_rule 2)]),
     (''/a/{id}/b'', [(''GET'', sample_rule 3)])]"

lemma sample_rules_loaded:
  "fst (LoadConfigWithData (\<lambda>_. Inr sample_rules) (\<lambda>_. None) [] rules_init)"
  "case GetRule (snd (LoadConfigWithData (\<lambda>_. Inr sample_rules) (\<lambda>_. None) [] rules_init)) ''/v1/a/7/b/'' ''GET'' of
     Some (r, Some ps) \<Rightarrow> ru_RequiredVersion r = 3 | _ \<Rightarrow> False"
  by code_simp+

theorem GetRule_most_specific_witness:
  "\<exists>st rp gs. LoadConfigWithData (\<lambda>_. Inr sample_rules) (\<lambda>_. None) [] rules_init = (True, st) \<and>
     rp \<in> set (rs_patternRoutes st) \<and> match_route (rp_re rp) (normalizePath ''/v1/a/7/b/'') = Some gs"
proof -
  obtain st where st: "LoadConfigWithData (\<lambda>_. Inr sample_rules) (\<lambda>_. None) [] rules_init = (True, st)"
    using sample_rules_loaded(1) by (metis prod.collapse)
  then obtain r ps where "GetRule st ''/v1/a/7/b/'' ''GET'' = Some (r, Some ps)"
    using sample_rules_loaded(2) by (auto split: option.splits)
  from GetRule_most_specific [OF st this] st show ?thesis by blast
qed

text \<open>
  A request that the validation middleware passes on under a rule with body fields reaches the handler with
  at most the first \<open>2 ^ 20\<close> bytes of its body: the middleware replaces the body by what it has read, so the rest
  of a longer body is lost without an error.
\<close>
theorem validation_truncates_body:
  assumes "GetRule st (u_path u) (req_method req) = Some (rule, params)" and "req_url req = Some u"
    and "ru_Level rule \<noteq> LevelIgnore" and "entries (ru_Body rule) \<noteq> []"
    and "req_method req \<notin> {''GET'', ''HEAD'', ''OPTIONS''}" and "req_body req = Some (Body content)"
    and "validation_decide st b j decode req w s = Continue req' w' s'"
  shows "req_body req' = Some (Body (take (2 ^ 20) content)) \<and> req_header req' = req_header req"
proof -
  have "IsRuleValid (p_env s) j decode req rule params = (True, req')"
    using assms(1,2,7) by (auto simp: validation_decide_def split: prod.splits bool.splits)
  then have "isValidBody decode req rule = (True, req')"
    using assms(3) by (auto simp: IsRuleValid_def split: if_splits)
  then show ?thesis
    using assms(4-6) by (auto simp: isValidBody_def read_limited_def maxBody_def Let_def split: if_splits option.splits)
qed

definition sample_body_rule :: EvalRule where
  "sample_body_rule = (sample_rule 1)\<lparr>ru_Body := Some [(''n'', \<lparr>fs_Type = ''string'', fs_Required = False, fs_Value = None,
     fs_Pattern = [], fs_Enum = [], fs_MinLen = 0, fs_MaxLen = 0, fs_compiled = None, fs_enumSet = None\<rparr>)]\<rparr>"

definition sample_body_state :: rules_state where
  "sample_body_state = \<lparr>rs_ruleMap = Some [(''/a'', [(''POST'', sample_body_rule)])], rs_patternRoutes = [], rs_configLoaded = True\<rparr>"

definition sample_post :: request where
  "sample_post = sample_request\<lparr>req_method := ''POST'', req_url := Some \<lparr>u_path = ''/a'', u_rawQuery = [], u_host = []\<rparr>,
     req_body := Some (Body ''{}'')\<rparr>"

theorem validation_truncates_body_witness:
  "\<exists>req'. validation_decide sample_body_state True None (\<lambda>_. Some Map.empty) sample_post fresh_writer sample_sdk =
     Continue req' fresh_writer sample_sdk \<and> req_body req' = Some (Body (take (2 ^ 20) ''{}''))"
proof -
  have np: "normalizePath ''/a'' = ''/a''" by code_simp
  have g: "GetRule sample_body_state ''/a'' ''POST'' = Some (sample_body_rule, None)"
    by (simp add: GetRule_def sample_body_state_def np)
  have v: "IsRuleValid (p_env sample_sdk) None (\<lambda>_. Some Map.empty) sample_post sample_body_rule None =
      (True, sample_post\<lparr>req_body := Some (Body ''{}'')\<rparr>)"
    by (simp add: IsRuleValid_def sample_body_rule_def sample_rule_def sample_post_def LevelLenient_def LevelIgnore_def
        isValidVersion_def areValidHeaders_def areValidPathParams_def areValidQueryParams_def entries_def isValidBody_def
        read_limited_def maxBody_def body_field_ok_def)
  obtain req' where d: "validation_decide sample_body_state True None (\<lambda>_. Some Map.empty) sample_post fresh_writer sample_sdk =
      Continue req' fresh_writer sample_sdk"
    using g v by (simp add: validation_decide_def sample_post_def)
  have g': "GetRule sample_body_state (u_path \<lparr>u_path = ''/a'', u_rawQuery = [], u_host = []\<rparr>) (req_method sample_post) =
      Some (sample_body_rule, None)"
    using g by (simp add: sample_post_def)
  have "req_body req' = Some (Body (take (2 ^ 20) ''{}'')) \<and> req_header req' = req_header sample_post"
    by (rule validation_truncates_body [OF g' _ _ _ _ _ d])
      (simp_all add: sample_post_def sample_body_rule_def sample_rule_def LevelLenient_def LevelIgnore_def entries_def)
  with d show ?thesis by blast
qed

end
