(* ===== verification/GoChan.thy ===== *)
theory GoChan
  imports Prelude
begin

text \<open>
  Buffered Go channels with a single receiving end: the operations of \<open>chan\<close> the SDK uses, the locale of FIFO
  channels over a history of accepted values, and its interpretation on these operations. The asynchronous log
  writer and the HTTP log sink are built on it.
\<close>

section \<open>Operations\<close>

record 'a gochan =
  ch_buf :: "'a list"
  ch_cap :: nat
  ch_closed :: bool

text \<open>\<open>Blocked\<close> is what a \<open>select\<close> with a \<open>default\<close> sees as not ready; a send on a closed channel panics.\<close>

datatype 'c send_result = Sent 'c | SendBlocked | SendPanics
datatype ('a, 'c) recv_result = Received 'a 'c | RecvBlocked | RecvClosed

definition make_chan :: "nat \<Rightarrow> 'a gochan" where
  "make_chan n = \<lparr>ch_buf = [], ch_cap = n, ch_closed = False\<rparr>"

definition chan_send :: "'a gochan \<Rightarrow> 'a \<Rightarrow> 'a gochan send_result" where
  "chan_send c x =
     (if ch_closed c then SendPanics
      else if length (ch_buf c) < ch_cap c then Sent (c\<lparr>ch_buf := ch_buf c @ [x]\<rparr>)
      else SendBlocked)"

definition chan_recv :: "'a gochan \<Rightarrow> ('a, 'a gochan) recv_result" where
  "chan_recv c =
     (case ch_buf c of
        x # xs \<Rightarrow> Received x (c\<lparr>ch_buf := xs\<rparr>)
      | [] \<Rightarrow> if ch_closed c then RecvClosed else RecvBlocked)"

definition chan_close :: "'a gochan \<Rightarrow> 'a gochan" where
  "chan_close c = c\<lparr>ch_closed := True\<rparr>"

section \<open>The contract of a FIFO channel\<close>

text \<open>
  \<open>pending\<close> is what a channel still holds. A client that keeps the list of the values it sent and the list of
  those it received finds them to agree up to the pending ones.
\<close>

locale fifo_channel =
  fixes send :: "'c \<Rightarrow> 'a \<Rightarrow> 'c send_result"
    and recv :: "'c \<Rightarrow> ('a, 'c) recv_result"
    and shut :: "'c \<Rightarrow> 'c"
    and pending :: "'c \<Rightarrow> 'a list"
    and is_closed :: "'c \<Rightarrow> bool"
  assumes send_pending: "send c x = Sent c' \<Longrightarrow> pending c' = pending c @ [x] \<and> \<not> is_closed c \<and> \<not> is_closed c'"
    and send_panics: "send c x = SendPanics \<longleftrightarrow> is_closed c"
    and recv_pending: "recv c = Received x c' \<Longrightarrow> pending c = x # pending c' \<and> is_closed c' = is_closed c"
    and recv_blocked: "recv c = RecvBlocked \<longleftrightarrow> pending c = [] \<and> \<not> is_closed c"
    and recv_closed: "recv c = RecvClosed \<longleftrightarrow> pending c = [] \<and> is_closed c"
    and shut_pending: "pending (shut c) = pending c"
    and shut_closed: "is_closed (shut c)"
begin

lemma history_send: "send c x = Sent c' \<Longrightarrow> sent = got @ pending c \<Longrightarrow> sent @ [x] = got @ pending c'"
  by (auto dest: send_pending)

lemma history_recv: "recv c = Received x c' \<Longrightarrow> sent = got @ pending c \<Longrightarrow> sent = (got @ [x]) @ pending c'"
  by (auto dest: recv_pending)

lemma history_end: "recv c = RecvClosed \<Longrightarrow> sent = got @ pending c \<Longrightarrow> sent = got"
  by (simp add: recv_closed)

lemma recv_enabled: "pending c \<noteq> [] \<Longrightarrow> \<exists>x c'. recv c = Received x c'"
  using recv_blocked [of c] recv_closed [of c] by (cases "recv c") auto

lemma closed_never_blocks: "is_closed c \<Longrightarrow> recv c \<noteq> RecvBlocked"
  by (simp add: recv_blocked)

text \<open>A receiver that empties the channel.\<close>

lemma recv_shrinks: "recv c = Received x c' \<Longrightarrow> length (pending c') < length (pending c)"
  by (auto dest: recv_pending)

end

interpretation gochan: fifo_channel chan_send chan_recv chan_close ch_buf ch_closed
  by unfold_locales (auto simp: chan_send_def chan_recv_def chan_close_def split: if_splits list.splits)

lemma chan_send_cap: "chan_send c x = Sent c' \<Longrightarrow> length (ch_buf c') \<le> ch_cap c' \<and> ch_cap c' = ch_cap c"
  by (auto simp: chan_send_def split: if_splits)

lemma chan_send_open: "\<not> ch_closed c \<Longrightarrow> length (ch_buf c) < ch_cap c \<Longrightarrow> chan_send c x = Sent (c\<lparr>ch_buf := ch_buf c @ [x]\<rparr>)"
  by (simp add: chan_send_def)

end
