(* ===== verification/AsyncLog.thy ===== *)
theory AsyncLog
  imports GoChan Http
begin

text \<open>
  The writers behind the logger (\<open>logging/runtime/writer.go\<close>): the asynchronous writer with its goroutine, as a
  step relation over the channel operations of concurrent callers of \<open>Write\<close>, \<open>Flush\<close> and \<open>Close\<close>; and the HTTP
  sink, which drops lines when its queue is full and posts the others in batches.
\<close>

type_synonym bytes = string

definition asyncQueueSize :: nat where "asyncQueueSize = 4096"
definition sinkQueueSize :: nat where "sinkQueueSize = 4096"
definition sinkBatchBytes :: nat where "sinkBatchBytes = 64 * 1024"
definition sinkFlushPeriod :: duration where "sinkFlushPeriod = Second"
definition sinkTimeout :: duration where "sinkTimeout = 10 * Second"
definition sinkMaxAttempts :: nat where "sinkMaxAttempts = 3"

section \<open>The asynchronous writer\<close>

text \<open>
  Where the writer's goroutine stands: at the \<open>select\<close> of \<open>run\<close>, with a received buffer it is about to write, in
  \<open>drain\<close> on behalf of a caller of \<open>Flush\<close> (likewise with or without a buffer in hand), or returned. Where a
  caller stands: in its own code, at the send of \<open>Write\<close>, at the \<open>select\<close> of \<open>Flush\<close>, waiting for the
  acknowledgement, in \<open>Close\<close> waiting for the goroutine, or for another call of \<open>Close\<close> to finish (\<open>sync.Once\<close>).
  The number carried by a caller of \<open>Flush\<close> is the number of lines accepted when it called; \<open>Flushed n\<close> and
  \<open>ClosedWriter\<close> say that the call has returned.
\<close>

datatype run_pc = Selecting | Writing bytes | Draining nat | DrainWriting nat bytes | Returned

datatype caller_pc =
  Idle | Sending bytes | AtFlush nat | AwaitAck nat | Flushed nat | AwaitRun | AwaitOnce | ClosedWriter

record aw =
  aw_queue :: "bytes gochan"
  aw_dst :: "bytes list"
  aw_run :: run_pc
  aw_once :: bool
  aw_closed :: bool
  aw_callers :: "nat \<Rightarrow> caller_pc"
  aw_accepted :: "bytes list"
  aw_panicked :: bool

definition newAsyncWriter :: "nat \<Rightarrow> aw" where
  "newAsyncWriter cap = \<lparr>aw_queue = make_chan cap, aw_dst = [], aw_run = Selecting, aw_once = False, aw_closed = False,
     aw_callers = (\<lambda>_. Idle), aw_accepted = [], aw_panicked = False\<rparr>"

definition at_rest :: "caller_pc \<Rightarrow> bool" where
  "at_rest pc \<longleftrightarrow> (case pc of Idle \<Rightarrow> True | Flushed _ \<Rightarrow> True | ClosedWriter \<Rightarrow> True | _ \<Rightarrow> False)"

definition caller_at :: "nat \<Rightarrow> caller_pc \<Rightarrow> aw \<Rightarrow> aw" where
  "caller_at i pc s = s\<lparr>aw_callers := (aw_callers s)(i := pc)\<rparr>"

text \<open>
  A panic of any goroutine ends the process, so nothing runs after one. \<open>drain\<close> does not look at the second
  result of the receive: on a closed and empty channel it gets a nil buffer and dereferences it.
\<close>

inductive call_step :: "aw \<Rightarrow> aw \<Rightarrow> bool" where
  call_write: "\<not> aw_panicked s \<Longrightarrow> at_rest (aw_callers s i) \<Longrightarrow> call_step s (caller_at i (Sending p) s)"
| write_sent: "\<not> aw_panicked s \<Longrightarrow> aw_callers s i = Sending p \<Longrightarrow> chan_send (aw_queue s) p = Sent q \<Longrightarrow>
    call_step s (caller_at i Idle s\<lparr>aw_queue := q, aw_accepted := aw_accepted s @ [p]\<rparr>)"
| write_panics: "\<not> aw_panicked s \<Longrightarrow> aw_callers s i = Sending p \<Longrightarrow> chan_send (aw_queue s) p = SendPanics \<Longrightarrow>
    call_step s (s\<lparr>aw_panicked := True\<rparr>)"
| call_flush: "\<not> aw_panicked s \<Longrightarrow> at_rest (aw_callers s i) \<Longrightarrow>
    call_step s (caller_at i (AtFlush (length (aw_accepted s))) s)"
| flush_taken: "\<not> aw_panicked s \<Longrightarrow> aw_callers s i = AtFlush n \<Longrightarrow> aw_run s = Selecting \<Longrightarrow>
    call_step s (caller_at i (AwaitAck n) s\<lparr>aw_run := Draining i\<rparr>)"
| flush_done: "\<not> aw_panicked s \<Longrightarrow> aw_callers s i = AtFlush n \<Longrightarrow> aw_run s = Returned \<Longrightarrow>
    call_step s (caller_at i (Flushed n) s)"
| call_close: "\<not> aw_panicked s \<Longrightarrow> at_rest (aw_callers s i) \<Longrightarrow> \<not> aw_once s \<Longrightarrow>
    call_step s (caller_at i AwaitRun s\<lparr>aw_once := True, aw_queue := chan_close (aw_queue s)\<rparr>)"
| close_returns: "\<not> aw_panicked s \<Longrightarrow> aw_callers s i = AwaitRun \<Longrightarrow> aw_run s = Returned \<Longrightarrow>
    call_step s (caller_at i ClosedWriter s\<lparr>aw_closed := True\<rparr>)"
| close_again: "\<not> aw_panicked s \<Longrightarrow> at_rest (aw_callers s i) \<Longrightarrow> aw_once s \<Longrightarrow> call_step s (caller_at i AwaitOnce s)"
| again_returns: "\<not> aw_panicked s \<Longrightarrow> aw_callers s i = AwaitOnce \<Longrightarrow> aw_closed s \<Longrightarrow>
    call_step s (caller_at i ClosedWriter s)"

inductive run_step :: "aw \<Rightarrow> aw \<Rightarrow> bool" where
  run_receives: "\<not> aw_panicked s \<Longrightarrow> aw_run s = Selecting \<Longrightarrow> chan_recv (aw_queue s) = Received b q \<Longrightarrow>
    run_step s (s\<lparr>aw_queue := q, aw_run := Writing b\<rparr>)"
| run_writes: "\<not> aw_panicked s \<Longrightarrow> aw_run s = Writing b \<Longrightarrow>
    run_step s (s\<lparr>aw_dst := aw_dst s @ [b], aw_run := Selecting\<rparr>)"
| run_returns: "\<not> aw_panicked s \<Longrightarrow> aw_run s = Selecting \<Longrightarrow> chan_recv (aw_queue s) = RecvClosed \<Longrightarrow>
    run_step s (s\<lparr>aw_run := Returned\<rparr>)"
| drain_receives: "\<not> aw_panicked s \<Longrightarrow> aw_run s = Draining i \<Longrightarrow> chan_recv (aw_queue s) = Received b q \<Longrightarrow>
    run_step s (s\<lparr>aw_queue := q, aw_run := DrainWriting i b\<rparr>)"
| drain_writes: "\<not> aw_panicked s \<Longrightarrow> aw_run s = DrainWriting i b \<Longrightarrow>
    run_step s (s\<lparr>aw_dst := aw_dst s @ [b], aw_run := Draining i\<rparr>)"
| drain_ends: "\<not> aw_panicked s \<Longrightarrow> aw_run s = Draining i \<Longrightarrow> chan_recv (aw_queue s) = RecvBlocked \<Longrightarrow>
    aw_callers s i = AwaitAck n \<Longrightarrow> run_step s (caller_at i (Flushed n) s\<lparr>aw_run := Selecting\<rparr>)"
| drain_panics: "\<not> aw_panicked s \<Longrightarrow> aw_run s = Draining i \<Longrightarrow> chan_recv (aw_queue s) = RecvClosed \<Longrightarrow>
    run_step s (s\<lparr>aw_panicked := True\<rparr>)"

definition aw_step :: "aw \<Rightarrow> aw \<Rightarrow> bool" where
  "aw_step s t \<longleftrightarrow> call_step s t \<or> run_step s t"

subsection \<open>No line is lost or reordered\<close>

text \<open>The buffer the goroutine has received and not yet written.\<close>

definition in_hand :: "run_pc \<Rightarrow> bytes list" where
  "in_hand pc = (case pc of Writing b \<Rightarrow> [b] | DrainWriting _ b \<Rightarrow> [b] | _ \<Rightarrow> [])"

text \<open>
  The history of the channel, and what each position of a caller or of the goroutine entails: a flush that has
  returned has its lines written, a goroutine that has returned leaves nothing, a drain has its caller waiting.
\<close>

definition aw_inv :: "aw \<Rightarrow> bool" where
  "aw_inv s \<longleftrightarrow>
     aw_accepted s = (aw_dst s @ in_hand (aw_run s)) @ ch_buf (aw_queue s) \<and>
     (aw_run s = Returned \<longrightarrow> ch_buf (aw_queue s) = [] \<and> ch_closed (aw_queue s)) \<and>
     (\<forall>i n. aw_callers s i = Flushed n \<longrightarrow> n \<le> length (aw_dst s)) \<and>
     (\<forall>i n. aw_callers s i \<in> {AtFlush n, AwaitAck n} \<longrightarrow> n \<le> length (aw_accepted s)) \<and>
     (\<forall>i. aw_callers s i = ClosedWriter \<longrightarrow> aw_run s = Returned) \<and>
     (aw_closed s \<longrightarrow> aw_run s = Returned) \<and>
     (aw_once s \<longleftrightarrow> ch_closed (aw_queue s)) \<and>
     (aw_panicked s \<longrightarrow> aw_once s)"

lemma aw_inv_initial: "aw_inv (newAsyncWriter cap)"
  by (simp add: aw_inv_def newAsyncWriter_def make_chan_def in_hand_def)

lemmas channel_laws = gochan.send_panics gochan.recv_closed gochan.recv_blocked gochan.shut_pending gochan.shut_closed

lemma call_step_inv: "call_step s t \<Longrightarrow> aw_inv s \<Longrightarrow> aw_inv t"
  by (induction rule: call_step.induct)
    (auto simp: aw_inv_def caller_at_def in_hand_def at_rest_def channel_laws dest: gochan.send_pending intro: le_SucI)

lemma run_step_inv: "run_step s t \<Longrightarrow> aw_inv s \<Longrightarrow> aw_inv t"
  by (induction rule: run_step.induct)
    (auto simp: aw_inv_def caller_at_def in_hand_def channel_laws dest: gochan.recv_pending intro: le_SucI)

lemma reachable_inv: "aw_step\<^sup>*\<^sup>* (newAsyncWriter cap) s \<Longrightarrow> aw_inv s"
  by (induction rule: rtranclp_induct)
    (auto simp: aw_inv_initial aw_step_def intro: call_step_inv run_step_inv)

text \<open>
  C23: Whatever the interleaving of concurrent \<open>Write\<close>, \<open>Flush\<close> and \<open>Close\<close> calls with the writer's goroutine, the
  destination has received a prefix of the accepted lines in the order in which the queue accepted them; when a
  \<open>Flush\<close> has returned, every line accepted before the call is in the destination; when a \<open>Close\<close> has returned,
  all of them are. A panic occurs only once \<open>Close\<close> has been called.
\<close>
theorem async_writer_lossless:
  assumes "aw_step\<^sup>*\<^sup>* (newAsyncWriter cap) s"
  shows "(\<exists>rest. aw_accepted s = aw_dst s @ rest) \<and>
    (aw_callers s i = Flushed n \<longrightarrow> take n (aw_accepted s) = take n (aw_dst s) \<and> n \<le> length (aw_dst s)) \<and>
    (aw_callers s i = ClosedWriter \<longrightarrow> aw_dst s = aw_accepted s) \<and>
    (aw_panicked s \<longrightarrow> aw_once s)"
proof -
  have "aw_inv s" using assms by (rule reachable_inv)
  then show ?thesis by (auto simp: aw_inv_def in_hand_def)
qed

text \<open>A line is written and flushed; then the writer is closed.\<close>

definition sample_written :: "bytes \<Rightarrow> aw" where
  "sample_written p = \<lparr>aw_queue = make_chan 2, aw_dst = [p], aw_run = Selecting, aw_once = False, aw_closed = False,
     aw_callers = (\<lambda>_. Idle)(0 := Flushed 1), aw_accepted = [p], aw_panicked = False\<rparr>"

lemma sample_written_reachable: "aw_step\<^sup>*\<^sup>* (newAsyncWriter 2) (sample_written p)"
proof -
  let ?s0 = "newAsyncWriter 2"
  let ?s1 = "caller_at 0 (Sending p) ?s0"
  let ?s2 = "caller_at 0 Idle ?s1\<lparr>aw_queue := (make_chan 2)\<lparr>ch_buf := [p]\<rparr>, aw_accepted := aw_accepted ?s1 @ [p]\<rparr>"
  let ?s3 = "?s2\<lparr>aw_queue := make_chan 2, aw_run := Writing p\<rparr>"
  let ?s4 = "?s3\<lparr>aw_dst := aw_dst ?s3 @ [p], aw_run := Selecting\<rparr>"
  let ?s5 = "caller_at 0 (AtFlush (length (aw_accepted ?s4))) ?s4"
  let ?s6 = "caller_at 0 (AwaitAck 1) ?s5\<lparr>aw_run := Draining 0\<rparr>"
  let ?s7 = "caller_at 0 (Flushed 1) ?s6\<lparr>aw_run := Selecting\<rparr>"
  note defs = newAsyncWriter_def caller_at_def make_chan_def chan_send_def chan_recv_def at_rest_def
  have "call_step ?s0 ?s1" by (rule call_write) (simp_all add: defs)
  moreover have "call_step ?s1 ?s2" by (rule write_sent) (simp_all add: defs)
  moreover have "run_step ?s2 ?s3" by (rule run_receives) (simp_all add: defs)
  moreover have "run_step ?s3 ?s4" by (rule run_writes) (simp_all add: defs)
  moreover have "call_step ?s4 ?s5" by (rule call_flush) (simp_all add: defs)
  moreover have "call_step ?s5 ?s6" by (rule flush_taken) (simp_all add: defs)
  moreover have "run_step ?s6 ?s7" by (rule drain_ends) (simp_all add: defs)
  ultimately have "aw_step\<^sup>*\<^sup>* ?s0 ?s7"
    by (meson aw_step_def rtranclp.rtrancl_into_rtrancl rtranclp.rtrancl_refl)
  moreover have "?s7 = sample_written p" by (simp add: defs sample_written_def)
  ultimately show ?thesis by simp
qed

theorem async_writer_lossless_witness:
  "take 1 (aw_accepted (sample_written ''line'')) = take 1 (aw_dst (sample_written ''line'')) \<and>
   aw_dst (sample_written ''line'') = [''line'']"
  using async_writer_lossless [OF sample_written_reachable [of "''line''"], of 0 1] by (simp add: sample_written_def)

subsection \<open>Closing\<close>

text \<open>The steps the goroutine can still take without its callers.\<close>

definition run_weight :: "aw \<Rightarrow> nat" where
  "run_weight s =
     (if aw_panicked s then 0
      else 2 * length (ch_buf (aw_queue s)) +
        (case aw_run s of Selecting \<Rightarrow> 1 | Writing _ \<Rightarrow> 2 | Draining _ \<Rightarrow> 2 | DrainWriting _ _ \<Rightarrow> 3 | Returned \<Rightarrow> 0))"

lemma run_step_weight: "run_step s t \<Longrightarrow> run_weight t < run_weight s"
  by (induction rule: run_step.induct) (auto simp: run_weight_def caller_at_def dest!: gochan.recv_pending)

lemma run_steps_bounded: "(run_step ^^ k) s t \<Longrightarrow> k + run_weight t \<le> run_weight s"
  by (induction k arbitrary: t) (auto dest!: run_step_weight, fastforce)

text \<open>A goroutine outside \<open>drain\<close> with a closed queue always has a step to take, and stays outside \<open>drain\<close>.\<close>

definition outside_drain :: "aw \<Rightarrow> bool" where
  "outside_drain s \<longleftrightarrow> \<not> aw_panicked s \<and> ch_closed (aw_queue s) \<and> (aw_run s = Selecting \<or> (\<exists>b. aw_run s = Writing b))"

lemma outside_drain_step:
  assumes "outside_drain s"
  shows "\<exists>t. run_step s t \<and> aw_accepted t = aw_accepted s \<and> \<not> aw_panicked t \<and> (outside_drain t \<or> aw_run t = Returned)"
proof (cases "aw_run s")
  case Selecting
  have "chan_recv (aw_queue s) \<noteq> RecvBlocked" using assms by (simp add: outside_drain_def gochan.closed_never_blocks)
  then consider b q where "chan_recv (aw_queue s) = Received b q" | "chan_recv (aw_queue s) = RecvClosed"
    by (cases "chan_recv (aw_queue s)") auto
  then show ?thesis
  proof cases
    case 1
    then have "run_step s (s\<lparr>aw_queue := q, aw_run := Writing b\<rparr>)"
      using assms Selecting by (auto simp: outside_drain_def intro: run_receives)
    with 1 assms show ?thesis by (fastforce simp: outside_drain_def dest: gochan.recv_pending)
  next
    case 2
    then have "run_step s (s\<lparr>aw_run := Returned\<rparr>)"
      using assms Selecting by (auto simp: outside_drain_def intro: run_returns)
    with assms show ?thesis by (fastforce simp: outside_drain_def)
  qed
next
  case (Writing b)
  then have "run_step s (s\<lparr>aw_dst := aw_dst s @ [b], aw_run := Selecting\<rparr>)"
    using assms by (auto simp: outside_drain_def intro: run_writes)
  with assms show ?thesis by (fastforce simp: outside_drain_def)
qed (use assms in \<open>auto simp: outside_drain_def\<close>)

lemma outside_drain_returns:
  "outside_drain s \<Longrightarrow>
     \<exists>t. run_step\<^sup>*\<^sup>* s t \<and> aw_accepted t = aw_accepted s \<and> \<not> aw_panicked t \<and> aw_run t = Returned"
proof (induction "run_weight s" arbitrary: s rule: less_induct)
  case less
  obtain u where u: "run_step s u" "aw_accepted u = aw_accepted s" "\<not> aw_panicked u" "outside_drain u \<or> aw_run u = Returned"
    using outside_drain_step [OF less.prems] by blast
  show ?case
  proof (cases "aw_run u = Returned")
    case True
    with u show ?thesis by (intro exI [of _ u]) auto
  next
    case False
    with u have "outside_drain u" by blast
    from less.hyps [OF run_step_weight [OF u(1)] this] u show ?thesis
      by (metis converse_rtranclp_into_rtranclp)
  qed
qed

lemma run_steps_inv: "run_step\<^sup>*\<^sup>* s t \<Longrightarrow> aw_inv s \<Longrightarrow> aw_inv t"
  by (induction rule: rtranclp_induct) (auto intro: run_step_inv)

text \<open>
  C24: Once \<open>Close\<close> has closed the queue and no flush is being served, the goroutine on its own reaches its return
  with every accepted line written, so the waiting \<open>Close\<close> returns; and no run of the goroutine takes more than
  two steps per queued line and three more.
\<close>
theorem async_close_returns:
  assumes "aw_step\<^sup>*\<^sup>* (newAsyncWriter cap) s" and "ch_closed (aw_queue s)" and "\<not> aw_panicked s"
    and "aw_run s = Selecting \<or> aw_run s = Writing b"
  shows "(\<exists>t. run_step\<^sup>*\<^sup>* s t \<and> aw_run t = Returned \<and> aw_dst t = aw_accepted s \<and> \<not> aw_panicked t) \<and>
    ((run_step ^^ k) s u \<longrightarrow> k \<le> 2 * length (ch_buf (aw_queue s)) + 3)"
proof
  have "outside_drain s" using assms by (auto simp: outside_drain_def)
  then obtain t where t: "run_step\<^sup>*\<^sup>* s t" "aw_accepted t = aw_accepted s" "\<not> aw_panicked t" "aw_run t = Returned"
    using outside_drain_returns by blast
  moreover have "aw_inv t" using run_steps_inv [OF t(1) reachable_inv [OF assms(1)]] .
  ultimately show "\<exists>t. run_step\<^sup>*\<^sup>* s t \<and> aw_run t = Returned \<and> aw_dst t = aw_accepted s \<and> \<not> aw_panicked t"
    by (auto simp: aw_inv_def in_hand_def)
  show "(run_step ^^ k) s u \<longrightarrow> k \<le> 2 * length (ch_buf (aw_queue s)) + 3"
    using run_steps_bounded [of k s u] by (auto simp: run_weight_def split: run_pc.splits if_splits)
qed

theorem async_close_returns_witness:
  "\<exists>t. run_step\<^sup>*\<^sup>* (caller_at 1 AwaitRun (sample_written ''line'')\<lparr>aw_once := True, aw_queue := chan_close (aw_queue (sample_written ''line''))\<rparr>) t \<and>
     aw_run t = Returned \<and> aw_dst t = [''line'']"
proof -
  let ?s = "caller_at 1 AwaitRun (sample_written ''line'')\<lparr>aw_once := True, aw_queue := chan_close (aw_queue (sample_written ''line''))\<rparr>"
  have "call_step (sample_written ''line'') ?s" by (rule call_close) (simp_all add: sample_written_def at_rest_def)
  then have r: "aw_step\<^sup>*\<^sup>* (newAsyncWriter 2) ?s"
    using sample_written_reachable by (meson aw_step_def rtranclp.rtrancl_into_rtrancl)
  have "\<exists>t. run_step\<^sup>*\<^sup>* ?s t \<and> aw_run t = Returned \<and> aw_dst t = aw_accepted ?s \<and> \<not> aw_panicked t"
    by (rule async_close_returns [OF r, THEN conjunct1]) (simp_all add: sample_written_def caller_at_def chan_close_def)
  then show ?thesis by (auto simp: sample_written_def caller_at_def)
qed

subsection \<open>Panics\<close>

text \<open>
  C40: A \<open>Flush\<close> that races with a \<open>Close\<close> crashes the process, without any call of \<open>Write\<close>: the goroutine takes the
  flush request, the queue is closed before it has drained it, and the receive of \<open>drain\<close> then yields a nil
  buffer.
\<close>
theorem flush_close_race:
  "\<exists>s. aw_step\<^sup>*\<^sup>* (newAsyncWriter asyncQueueSize) s \<and> aw_panicked s \<and>
     aw_callers s = (\<lambda>_. Idle)(0 := AwaitAck 0, 1 := AwaitRun) \<and> aw_accepted s = []"
proof -
  let ?s0 = "newAsyncWriter asyncQueueSize"
  let ?s1 = "caller_at 0 (AtFlush 0) ?s0"
  let ?s2 = "caller_at 0 (AwaitAck 0) ?s1\<lparr>aw_run := Draining 0\<rparr>"
  let ?s3 = "caller_at 1 AwaitRun ?s2\<lparr>aw_once := True, aw_queue := chan_close (aw_queue ?s2)\<rparr>"
  let ?s4 = "?s3\<lparr>aw_panicked := True\<rparr>"
  have "call_step ?s0 ?s1" using call_flush [of ?s0 0] by (simp add: newAsyncWriter_def at_rest_def)
  moreover have "call_step ?s1 ?s2" by (rule flush_taken) (simp_all add: newAsyncWriter_def caller_at_def)
  moreover have "call_step ?s2 ?s3" by (rule call_close) (simp_all add: newAsyncWriter_def caller_at_def at_rest_def)
  moreover have "run_step ?s3 ?s4"
    by (rule drain_panics) (simp_all add: newAsyncWriter_def caller_at_def make_chan_def chan_close_def chan_recv_def)
  ultimately have "aw_step\<^sup>*\<^sup>* ?s0 ?s4"
    by (meson aw_step_def rtranclp.rtrancl_into_rtrancl rtranclp.rtrancl_refl)
  then show ?thesis by (intro exI [of _ ?s4]) (auto simp: newAsyncWriter_def caller_at_def fun_eq_iff)
qed

section \<open>The HTTP sink\<close>

record Sink =
  sink_URL :: string
  sink_Headers :: "(string \<times> string) list"

record sink_request =
  sr_method :: string
  sr_url :: string
  sr_header :: header
  sr_body :: bytes

definition sink_header :: "(string \<times> string) list \<Rightarrow> header" where
  "sink_header hs = foldl (\<lambda>h kv. Header_Set h (fst kv) (snd kv)) (Header_Set Map.empty ''Content-Type'' ''application/json'') hs"

text \<open>
  The attempts of \<open>post\<close>: \<open>cl\<close> is the client, with the status of the response or \<open>None\<close> for an error; the second
  component of the state is the time slept. \<open>NewRequest\<close> fails for a URL that does not parse.
\<close>

primrec post_attempts :: "(sink_request \<Rightarrow> 'n \<Rightarrow> int option \<times> 'n) \<Rightarrow> sink_request \<Rightarrow> nat list \<Rightarrow> 'n \<times> duration \<Rightarrow> 'n \<times> duration" where
  "post_attempts cl req [] st = st"
| "post_attempts cl req (attempt # rest) st =
     (case cl req (fst st) of
        (Some code, n) \<Rightarrow>
          if code < 500 then (n, snd st)
          else post_attempts cl req rest (n, snd st + int (attempt + 1) * 100 * Millisecond)
      | (None, n) \<Rightarrow> post_attempts cl req rest (n, snd st + int (attempt + 1) * 100 * Millisecond))"

definition sink_post ::
  "(string \<Rightarrow> bool) \<Rightarrow> (sink_request \<Rightarrow> 'n \<Rightarrow> int option \<times> 'n) \<Rightarrow> Sink \<Rightarrow> bytes \<Rightarrow> 'n \<times> duration \<Rightarrow> 'n \<times> duration" where
  "sink_post url_ok cl h batch st =
     (if batch = [] then st
      else if \<not> url_ok (sink_URL h) then st
      else post_attempts cl \<lparr>sr_method = ''POST'', sr_url = sink_URL h, sr_header = sink_header (sink_Headers h), sr_body = batch\<rparr>
             [0..<sinkMaxAttempts] st)"

text \<open>
  The sink's queue and goroutine. \<open>sk_posted\<close> lists the bodies handed to \<open>post\<close>, \<open>sk_accepted\<close> and \<open>sk_dropped\<close> the
  lines of \<open>Write\<close> by what became of them.
\<close>

record sink =
  sk_queue :: "bytes gochan"
  sk_batch :: bytes
  sk_posted :: "bytes list"
  sk_returned :: bool
  sk_accepted :: "bytes list"
  sk_dropped :: "bytes list"

definition newHTTPSink :: sink where
  "newHTTPSink = \<lparr>sk_queue = make_chan sinkQueueSize, sk_batch = [], sk_posted = [], sk_returned = False,
     sk_accepted = [], sk_dropped = []\<rparr>"

definition post_batch :: "sink \<Rightarrow> sink" where
  "post_batch s = (if sk_batch s = [] then s else s\<lparr>sk_posted := sk_posted s @ [sk_batch s], sk_batch := []\<rparr>)"

definition sink_receive :: "bytes \<Rightarrow> sink \<Rightarrow> sink" where
  "sink_receive b s =
     (let s' = s\<lparr>sk_batch := sk_batch s @ b\<rparr>
      in if sinkBatchBytes \<le> length (sk_batch s') then post_batch s' else s')"

inductive sink_step :: "sink \<Rightarrow> sink \<Rightarrow> bool" where
  sink_accepts: "chan_send (sk_queue s) p = Sent q \<Longrightarrow>
    sink_step s (s\<lparr>sk_queue := q, sk_accepted := sk_accepted s @ [p]\<rparr>)"
| sink_drops: "chan_send (sk_queue s) p = SendBlocked \<Longrightarrow> sink_step s (s\<lparr>sk_dropped := sk_dropped s @ [p]\<rparr>)"
| sink_receives: "\<not> sk_returned s \<Longrightarrow> chan_recv (sk_queue s) = Received b q \<Longrightarrow>
    sink_step s (sink_receive b (s\<lparr>sk_queue := q\<rparr>))"
| sink_ticks: "\<not> sk_returned s \<Longrightarrow> sink_step s (post_batch s)"
| sink_closes: "sink_step s (s\<lparr>sk_queue := chan_close (sk_queue s)\<rparr>)"
| sink_returns: "\<not> sk_returned s \<Longrightarrow> chan_recv (sk_queue s) = RecvClosed \<Longrightarrow>
    sink_step s ((post_batch s)\<lparr>sk_returned := True\<rparr>)"

definition sink_inv :: "sink \<Rightarrow> bool" where
  "sink_inv s \<longleftrightarrow>
     concat (sk_accepted s) = concat (sk_posted s) @ sk_batch s @ concat (ch_buf (sk_queue s)) \<and>
     length (sk_batch s) < sinkBatchBytes \<and>
     [] \<notin> set (sk_posted s) \<and>
     (sk_returned s \<longrightarrow> ch_closed (sk_queue s) \<and> sk_batch s = [] \<and> ch_buf (sk_queue s) = []) \<and>
     set (ch_buf (sk_queue s)) \<subseteq> set (sk_accepted s) \<and>
     (\<forall>b \<in> set (sk_posted s). \<forall>m. (\<forall>p \<in> set (sk_accepted s). length p \<le> m) \<longrightarrow> length b < sinkBatchBytes + m)"

lemma sinkBatchBytes_pos: "0 < sinkBatchBytes"
  by (simp add: sinkBatchBytes_def)

lemma sink_step_inv: "sink_step s t \<Longrightarrow> sink_inv s \<Longrightarrow> sink_inv t"
proof (induction rule: sink_step.induct)
  case (sink_receives s b q)
  then have q: "ch_buf (sk_queue s) = b # ch_buf q" "ch_closed q = ch_closed (sk_queue s)"
    by (auto dest: gochan.recv_pending)
  have "length (sk_batch s @ b) < sinkBatchBytes + m" if "\<forall>p \<in> set (sk_accepted s). length p \<le> m" for m
    using that sink_receives(3) q(1) by (fastforce simp: sink_inv_def)
  with sink_receives q show ?case
    by (auto simp: sink_inv_def sink_receive_def post_batch_def Let_def sinkBatchBytes_pos)
next
  case (sink_accepts s p q)
  then have "ch_buf q = ch_buf (sk_queue s) @ [p]" "\<not> ch_closed (sk_queue s)" by (auto dest: gochan.send_pending)
  with sink_accepts show ?case by (auto simp: sink_inv_def)
qed (auto simp: sink_inv_def post_batch_def channel_laws sinkBatchBytes_pos)

lemma sink_inv_initial: "sink_inv newHTTPSink"
  by (simp add: sink_inv_def newHTTPSink_def make_chan_def sinkBatchBytes_pos)

lemma sink_reachable_inv: "sink_step\<^sup>*\<^sup>* newHTTPSink s \<Longrightarrow> sink_inv s"
  by (induction rule: rtranclp_induct) (auto simp: sink_inv_initial intro: sink_step_inv)

text \<open>
  The bodies the sink posts are, joined, a prefix of the accepted lines, and all of them once its goroutine has
  returned; none is empty, and none is longer than 64 KiB plus the longest accepted line.
\<close>
theorem http_sink_batches:
  assumes "sink_step\<^sup>*\<^sup>* newHTTPSink s" and "\<forall>p \<in> set (sk_accepted s). length p \<le> m"
  shows "(\<exists>rest. concat (sk_accepted s) = concat (sk_posted s) @ rest \<and> (sk_returned s \<longrightarrow> rest = [])) \<and>
    (\<forall>b \<in> set (sk_posted s). b \<noteq> [] \<and> length b < sinkBatchBytes + m)"
  using sink_reachable_inv [OF assms(1)] assms(2) by (auto simp: sink_inv_def)

definition sample_posted :: sink where
  "sample_posted = newHTTPSink\<lparr>sk_posted := [''line''], sk_accepted := [''line'']\<rparr>"

lemma sample_posted_reachable: "sink_step\<^sup>*\<^sup>* newHTTPSink sample_posted"
proof -
  let ?s1 = "newHTTPSink\<lparr>sk_queue := (make_chan sinkQueueSize)\<lparr>ch_buf := [''line'']\<rparr>, sk_accepted := sk_accepted newHTTPSink @ [''line'']\<rparr>"
  let ?s2 = "sink_receive ''line'' (?s1\<lparr>sk_queue := make_chan sinkQueueSize\<rparr>)"
  note defs = newHTTPSink_def make_chan_def chan_send_def chan_recv_def sinkQueueSize_def sinkBatchBytes_def
    sink_receive_def post_batch_def sample_posted_def
  have "sink_step newHTTPSink ?s1" by (rule sink_accepts) (simp add: defs)
  moreover have "sink_step ?s1 ?s2" by (rule sink_receives) (simp_all add: defs)
  moreover have "sink_step ?s2 (post_batch ?s2)" by (rule sink_ticks) (simp add: defs)
  ultimately have "sink_step\<^sup>*\<^sup>* newHTTPSink (post_batch ?s2)"
    by (meson rtranclp.rtrancl_into_rtrancl rtranclp.rtrancl_refl)
  then show ?thesis by (simp add: defs)
qed

theorem http_sink_batches_witness:
  "\<exists>rest. concat (sk_accepted sample_posted) = concat (sk_posted sample_posted) @ rest"
  using http_sink_batches [OF sample_posted_reachable, of 4] by (auto simp: sample_posted_def newHTTPSink_def)

text \<open>At most three requests are sent for a batch, and the goroutine sleeps at most 600 ms between them.\<close>

definition counted :: "('r \<Rightarrow> 'n \<Rightarrow> 'a \<times> 'n) \<Rightarrow> 'r \<Rightarrow> 'n \<times> nat \<Rightarrow> 'a \<times> 'n \<times> nat" where
  "counted f r st = (case f r (fst st) of (a, n) \<Rightarrow> (a, n, Suc (snd st)))"

lemma post_attempts_count:
  "snd (fst (post_attempts (counted cl) req as ((n, k), d))) \<le> k + length as"
proof (induction as arbitrary: n k d)
  case (Cons a as)
  show ?case
    using Cons [of "snd (cl req n)" "Suc k"]
    by (auto simp: counted_def split: prod.splits option.splits)
qed simp

lemma post_attempts_sleep:
  "snd (post_attempts cl req as st) \<le> snd st + sum_list (map (\<lambda>a. int (a + 1) * 100 * Millisecond) as)"
proof (induction as arbitrary: st)
  case (Cons a as)
  have nn: "0 \<le> sum_list (map (\<lambda>a. int (a + 1) * 100 * Millisecond) as)"
    by (rule sum_list_nonneg) (auto simp: Millisecond_def)
  show ?case
    using Cons nn by (auto simp: Millisecond_def split: prod.splits option.splits intro: order_trans [OF Cons])
qed simp

lemma sink_post_bounded:
  "snd (fst (sink_post url_ok (counted cl) h batch ((n, 0), 0))) \<le> 3 \<and> snd (sink_post url_ok cl h batch (n, 0)) \<le> 600 * Millisecond"
proof -
  have "snd (fst (post_attempts (counted cl) req [0..<sinkMaxAttempts] ((n, 0), 0))) \<le> 3" for req
    using post_attempts_count [of cl req "[0..<sinkMaxAttempts]" n 0 0] by (simp add: sinkMaxAttempts_def)
  moreover have "snd (post_attempts cl req [0..<sinkMaxAttempts] (n, 0)) \<le> 600 * Millisecond" for req
    using post_attempts_sleep [of cl req "[0..<sinkMaxAttempts]" "(n, 0)"]
    by (simp add: sinkMaxAttempts_def Millisecond_def upt_rec)
  ultimately show ?thesis by (simp add: sink_post_def Millisecond_def)
qed

end
