(* ===== verification/Regexp.thy ===== *)
theory Regexp
  imports Http "HOL-Library.Sublist"
begin

text \<open>
  Regular expressions as package \<open>regexp\<close> matches them: a backtracking matcher that lists the matches at a position
  in the order of preference (leftmost-first), the search for the leftmost match, and \<open>ReplaceAllString\<close>. Text is
  ASCII; the expressions of the SDK do not match the empty string, which is the case \<open>ReplaceAllString\<close> is given for,
  and its replacement texts have no \<open>$\<close>.
\<close>

section \<open>Matching\<close>

datatype regexp =
    Class "char \<Rightarrow> bool"
  | Seq regexp regexp
  | Alt regexp regexp
  | Star regexp
  | Lazy regexp
  | WordBoundary
  | TextBegin
  | TextEnd
  | Eps

text \<open>A position is the byte before it, if any, and the text after it.\<close>

type_synonym pos = "char option \<times> string"

definition is_word :: "char option \<Rightarrow> bool" where
  "is_word c = (case c of Some ch \<Rightarrow> is_alnum ch \<or> ch = CHR ''_'' | None \<Rightarrow> False)"

definition first_byte :: "string \<Rightarrow> char option" where
  "first_byte s = (case s of c # _ \<Rightarrow> Some c | [] \<Rightarrow> None)"

text \<open>Repetition, greedy or lazy, of a matcher that consumes text; \<open>n\<close> bounds the rounds.\<close>

primrec rounds :: "bool \<Rightarrow> (pos \<Rightarrow> pos list) \<Rightarrow> nat \<Rightarrow> pos \<Rightarrow> pos list" where
  "rounds greedy f 0 p = [p]"
| "rounds greedy f (Suc n) p =
     (let more = concat (map (rounds greedy f n) (filter (\<lambda>q. length (snd q) < length (snd p)) (f p)))
      in if greedy then more @ [p] else p # more)"

primrec matches :: "regexp \<Rightarrow> pos \<Rightarrow> pos list" where
  "matches (Class f) p = (case snd p of c # cs \<Rightarrow> if f c then [(Some c, cs)] else [] | [] \<Rightarrow> [])"
| "matches (Seq r s) p = concat (map (matches s) (matches r p))"
| "matches (Alt r s) p = matches r p @ matches s p"
| "matches (Star r) p = rounds True (matches r) (length (snd p)) p"
| "matches (Lazy r) p = rounds False (matches r) (length (snd p)) p"
| "matches WordBoundary p = (if is_word (fst p) \<noteq> is_word (first_byte (snd p)) then [p] else [])"
| "matches TextBegin p = (if fst p = None then [p] else [])"
| "matches TextEnd p = (if snd p = [] then [p] else [])"
| "matches Eps p = [p]"

definition Plus :: "regexp \<Rightarrow> regexp" where
  "Plus r = Seq r (Star r)"

definition Lit :: "string \<Rightarrow> regexp" where
  "Lit s = foldr (\<lambda>c r. Seq (Class (\<lambda>x. x = c)) r) s Eps"

text \<open>A literal under \<open>(?i)\<close>.\<close>

definition LitFold :: "string \<Rightarrow> regexp" where
  "LitFold s = foldr (\<lambda>c r. Seq (Class (\<lambda>x. lower x = lower c)) r) s Eps"

fun AltList :: "regexp list \<Rightarrow> regexp" where
  "AltList [] = Class (\<lambda>_. False)"
| "AltList [r] = r"
| "AltList (r # rs) = Alt r (AltList rs)"

primrec Times :: "nat \<Rightarrow> regexp \<Rightarrow> regexp" where
  "Times 0 r = Eps"
| "Times (Suc n) r = Seq r (Times n r)"

primrec UpTo :: "nat \<Rightarrow> regexp \<Rightarrow> regexp" where
  "UpTo 0 r = Eps"
| "UpTo (Suc n) r = Alt (Seq r (UpTo n r)) Eps"

section \<open>Searching and replacing\<close>

function replace_from :: "regexp \<Rightarrow> string \<Rightarrow> char option \<Rightarrow> string \<Rightarrow> string" where
  "replace_from r repl prev s =
     (case filter (\<lambda>q. length (snd q) < length s) (take 1 (matches r (prev, s))) of
        q # _ \<Rightarrow> if length (snd q) < length s then repl @ replace_from r repl (fst q) (snd q) else []
      | [] \<Rightarrow> (case s of [] \<Rightarrow> [] | c # cs \<Rightarrow> c # replace_from r repl (Some c) cs))"
  by pat_completeness auto

termination by (relation "measure (\<lambda>(r, repl, prev, s). length s)") auto

declare replace_from.simps [simp del]

definition ReplaceAllString :: "regexp \<Rightarrow> string \<Rightarrow> string \<Rightarrow> string" where
  "ReplaceAllString r s repl = replace_from r repl None s"

primrec match_from :: "regexp \<Rightarrow> string \<Rightarrow> char option \<Rightarrow> bool" where
  "match_from r [] prev \<longleftrightarrow> matches r (prev, []) \<noteq> []"
| "match_from r (c # cs) prev \<longleftrightarrow> matches r (prev, c # cs) \<noteq> [] \<or> match_from r cs (Some c)"

definition MatchString :: "regexp \<Rightarrow> string \<Rightarrow> bool" where
  "MatchString r s = match_from r s None"

section \<open>What matching and replacing preserve\<close>

text \<open>Matching consumes a prefix of the text.\<close>

lemma rounds_suffix:
  assumes "\<And>p q. q \<in> set (f p) \<Longrightarrow> suffix (snd q) (snd p)"
  shows "q \<in> set (rounds greedy f n p) \<Longrightarrow> suffix (snd q) (snd p)"
proof (induction n arbitrary: p)
  case (Suc n)
  have "suffix (snd q) (snd p)" if "x \<in> set (f p)" "q \<in> set (rounds greedy f n x)" for x
    using assms [OF that(1)] Suc.IH [OF that(2)] suffix_order.trans by blast
  with Suc.prems show ?case by (auto simp: Let_def split: if_splits)
qed simp

lemma matches_suffix: "q \<in> set (matches r p) \<Longrightarrow> suffix (snd q) (snd p)"
proof (induction r arbitrary: p q)
  case (Class f)
  then show ?case by (cases "snd p") (auto simp: suffix_def split: if_splits)
next
  case (Seq r s)
  then obtain x where "x \<in> set (matches r p)" "q \<in> set (matches s x)" by auto
  with Seq.IH show ?case using suffix_order.trans by blast
next
  case (Star r)
  then show ?case using rounds_suffix [of "matches r"] by auto
next
  case (Lazy r)
  then show ?case using rounds_suffix [of "matches r"] by auto
qed (auto split: if_splits)

lemma matches_set: "q \<in> set (matches r p) \<Longrightarrow> set (snd q) \<subseteq> set (snd p)"
  by (auto dest: matches_suffix set_mono_suffix)

text \<open>Deleting the matches leaves a subsequence; in general the bytes of the result come from the text or the replacement.\<close>

lemma replace_cases:
  obtains (hit) q where "q \<in> set (matches r (prev, s))" "length (snd q) < length s"
      "replace_from r repl prev s = repl @ replace_from r repl (fst q) (snd q)"
    | (skip) c cs where "s = c # cs" "replace_from r repl prev s = c # replace_from r repl (Some c) cs"
    | (stop) "s = []" "replace_from r repl prev s = []"
proof (cases "filter (\<lambda>q. length (snd q) < length s) (take 1 (matches r (prev, s)))")
  case Nil
  then show ?thesis
    using that(2,3) by (cases s) (auto simp: replace_from.simps)
next
  case (Cons q qs)
  then have "q \<in> set (filter (\<lambda>q. length (snd q) < length s) (take 1 (matches r (prev, s))))" by simp
  then have q: "q \<in> set (take 1 (matches r (prev, s)))" "length (snd q) < length s" by simp_all
  then have "q \<in> set (matches r (prev, s))" by (meson in_set_takeD)
  with q Cons that(1) show ?thesis by (simp add: replace_from.simps)
qed

lemma replace_from_set: "set (replace_from r repl prev s) \<subseteq> set s \<union> set repl"
proof (induction "length s" arbitrary: prev s rule: less_induct)
  case less
  show ?case
  proof (cases rule: replace_cases [of r prev s repl])
    case (hit q)
    with less(1) [of "snd q" "fst q"] matches_set [OF hit(1)] show ?thesis by auto
  next
    case (skip c cs)
    with less(1) [of cs "Some c"] show ?thesis by auto
  qed auto
qed

lemma ReplaceAllString_set: "set (ReplaceAllString r s repl) \<subseteq> set s \<union> set repl"
  by (simp add: ReplaceAllString_def replace_from_set)

lemma replace_from_subseq: "subseq (replace_from r [] prev s) s"
proof (induction "length s" arbitrary: prev s rule: less_induct)
  case less
  show ?case
  proof (cases rule: replace_cases [of r prev s "[]"])
    case (hit q)
    have "subseq (snd q) s" using matches_suffix [OF hit(1)] by (auto simp: suffix_def)
    with hit less(1) [of "snd q" "fst q"] show ?thesis by (auto intro: subseq_order.trans)
  next
    case (skip c cs)
    with less(1) [of cs "Some c"] show ?thesis by auto
  qed auto
qed

lemma ReplaceAllString_subseq: "subseq (ReplaceAllString r s []) s"
  by (simp add: ReplaceAllString_def replace_from_subseq)

lemma replace_from_class: "replace_from (Class f) [] prev s = filter (\<lambda>c. \<not> f c) s"
  by (induction s arbitrary: prev) (simp_all add: replace_from.simps)

lemma ReplaceAllString_class: "ReplaceAllString (Class f) s [] = filter (\<lambda>c. \<not> f c) s"
  by (simp add: ReplaceAllString_def replace_from_class)

lemma replace_from_none: "\<not> match_from r s prev \<Longrightarrow> replace_from r repl prev s = s"
  by (induction s arbitrary: prev) (simp_all add: replace_from.simps)

lemma ReplaceAllString_none: "\<not> MatchString r s \<Longrightarrow> ReplaceAllString r s repl = s"
  by (simp add: ReplaceAllString_def MatchString_def replace_from_none)

lemma replace_from_changed: "replace_from r repl prev s = s \<or> set repl \<subseteq> set (replace_from r repl prev s)"
proof (induction "length s" arbitrary: prev s rule: less_induct)
  case less
  show ?case
  proof (cases rule: replace_cases [of r prev s repl])
    case (skip c cs)
    with less(1) [of cs "Some c"] show ?thesis by auto
  qed auto
qed

lemma ReplaceAllString_changed: "ReplaceAllString r s repl = s \<or> set repl \<subseteq> set (ReplaceAllString r s repl)"
  by (simp add: ReplaceAllString_def replace_from_changed)

section \<open>Alternatives of literals\<close>

lemma matches_Lit_fold: "matches (LitFold w) (p, s) \<noteq> [] \<longleftrightarrow> HasPrefix (ToLower s) (ToLower w)"
proof (induction w arbitrary: p s)
  case (Cons c w)
  then show ?case
    by (cases s) (auto simp: LitFold_def HasPrefix_iff ToLower_def)
qed (simp add: LitFold_def HasPrefix_iff ToLower_def)

lemma matches_AltList: "matches (AltList rs) p \<noteq> [] \<longleftrightarrow> (\<exists>r \<in> set rs. matches r p \<noteq> [])"
  by (induction rs rule: AltList.induct) (auto split: list.splits)

lemma MatchString_words:
  "MatchString (AltList (map LitFold ws)) s \<longleftrightarrow> list_ex (\<lambda>w. Contains (ToLower s) (ToLower w)) ws"
proof -
  have "match_from (AltList (map LitFold ws)) s prev \<longleftrightarrow> (\<exists>w \<in> set ws. Contains (ToLower s) (ToLower w))" for prev
  proof (induction s arbitrary: prev)
    case Nil
    then show ?case by (auto simp: matches_AltList matches_Lit_fold HasPrefix_iff ToLower_def)
  next
    case (Cons c s)
    then show ?case by (auto simp: matches_AltList matches_Lit_fold ToLower_def)
  qed
  then show ?thesis by (simp add: MatchString_def list_ex_iff)
qed

text \<open>Replacing words one after the other, as a reference for the expression made of them.\<close>

function replace_words :: "string list \<Rightarrow> string \<Rightarrow> string \<Rightarrow> string" where
  "replace_words ws repl [] = []"
| "replace_words ws repl (c # cs) =
     (case find (\<lambda>w. w \<noteq> [] \<and> HasPrefix (ToLower (c # cs)) (ToLower w)) ws of
        Some w \<Rightarrow> repl @ replace_words ws repl (drop (length w - 1) cs)
      | None \<Rightarrow> c # replace_words ws repl cs)"
  by pat_completeness auto

termination by (relation "measure (\<lambda>(ws, repl, s). length s)") auto

lemma matches_LitFold:
  "matches (LitFold w) (p, s) =
     (if HasPrefix (ToLower s) (ToLower w) then [(if w = [] then p else Some (s ! (length w - 1)), drop (length w) s)] else [])"
proof (induction w arbitrary: p s)
  case (Cons c w)
  then show ?case
    by (cases s) (auto simp: LitFold_def HasPrefix_iff ToLower_def nth_Cons' split: if_splits)
qed (simp add: LitFold_def HasPrefix_iff ToLower_def)

lemma matches_AltList_concat: "matches (AltList rs) p = concat (map (\<lambda>r. matches r p) rs)"
  by (induction rs rule: AltList.induct) (auto split: list.splits)

lemma take_one_find:
  "take (Suc 0) (concat (map (\<lambda>w. if P w then [f w] else []) ws)) = (case find P ws of None \<Rightarrow> [] | Some w \<Rightarrow> [f w])"
  by (induction ws) auto

lemma replace_from_words:
  assumes "[] \<notin> set ws"
  shows "replace_from (AltList (map LitFold ws)) repl prev s = replace_words ws repl s"
proof (induction "length s" arbitrary: prev s rule: less_induct)
  case less
  show ?case
  proof (cases s)
    case Nil
    have "find (\<lambda>w. HasPrefix (ToLower []) (ToLower w)) ws = None"
      using assms by (auto simp: find_None_iff HasPrefix_iff ToLower_def)
    with Nil show ?thesis
      by (subst replace_from.simps) (simp add: matches_AltList_concat comp_def matches_LitFold take_one_find)
  next
    case (Cons c cs)
    let ?P = "\<lambda>w. HasPrefix (ToLower s) (ToLower w)"
    have same: "find ?P ws = find (\<lambda>w. w \<noteq> [] \<and> ?P w) ws" using assms by (induction ws) auto
    show ?thesis
    proof (cases "find ?P ws")
      case None
      then show ?thesis
        using less [of cs "Some c"] same unfolding Cons
        by (subst replace_from.simps) (simp add: matches_AltList_concat comp_def matches_LitFold take_one_find)
    next
      case (Some w)
      then have "w \<in> set ws" by (auto simp: find_Some_iff)
      then have "w \<noteq> []" using assms by auto
      then have "drop (length w) s = drop (length w - 1) cs" "length (drop (length w) s) < length s"
        using Cons by (cases w; simp)+
      then show ?thesis
        using Some less [of "drop (length w) s" "Some (s ! (length w - 1))"] same \<open>w \<noteq> []\<close> unfolding Cons
        by (subst replace_from.simps) (simp add: matches_AltList_concat comp_def matches_LitFold take_one_find)
    qed
  qed
qed

lemma ReplaceAllString_words:
  "[] \<notin> set ws \<Longrightarrow> ReplaceAllString (AltList (map LitFold ws)) s repl = replace_words ws repl s"
  by (simp add: ReplaceAllString_def replace_from_words)

text \<open>Text that contains none of the words is left as it is.\<close>

lemma ReplaceAll_words:
  "\<not> list_ex (\<lambda>w. Contains (ToLower s) (ToLower w)) ws \<Longrightarrow> ReplaceAllString (AltList (map LitFold ws)) s repl = s"
  by (rule ReplaceAllString_none) (simp add: MatchString_words)

end
