(* ===== verification/Redaction.thy ===== *)
theory Redaction
  imports Regexp
begin

text \<open>
  Package \<open>security/redaction\<close>: the card-number check, the patterns for personal data, sensitive keys, and the
  recursive redaction of values. The Luhn check is shown equivalent to its textbook definition and to catch every
  single-digit error; redacted values keep nothing under a sensitive key.
\<close>

definition redacted :: string where "redacted = ''[REDACTED]''"

section \<open>Card numbers\<close>

text \<open>\<open>luhnValid\<close>: the loop from the last byte, with \<open>double\<close> and \<open>sum\<close>; a byte below \<open>0\<close> wraps to a value above 9.\<close>

primrec luhn_loop :: "string \<Rightarrow> bool \<Rightarrow> int \<Rightarrow> int option" where
  "luhn_loop [] double acc = Some acc"
| "luhn_loop (c # cs) double acc =
     (let d = (int (of_char c) - 48) mod 256
      in if d < 0 \<or> d > 9 then None
         else (let d2 = (if double then (if d * 2 > 9 then d * 2 - 9 else d * 2) else d)
               in luhn_loop cs (\<not> double) (acc + d2)))"

definition luhnValid :: "string \<Rightarrow> bool" where
  "luhnValid s = (case luhn_loop (rev s) False 0 of None \<Rightarrow> False | Some acc \<Rightarrow> acc mod 10 = 0)"

definition looksLikePAN :: "string \<Rightarrow> bool" where
  "looksLikePAN s = (if length s < 13 \<or> length s > 19 then False else luhnValid s)"

definition isNumeric :: "string \<Rightarrow> bool" where
  "isNumeric s = list_all is_digit s"

text \<open>The textbook definition: digits at odd places from the right count double, with the digits of the product added.\<close>

definition luhn_digit :: "nat \<Rightarrow> nat \<Rightarrow> nat" where
  "luhn_digit i d = (if odd i then (2 * d) div 10 + (2 * d) mod 10 else d)"

definition luhn_sum :: "string \<Rightarrow> nat" where
  "luhn_sum s = (\<Sum>i < length s. luhn_digit i (digit_val (rev s ! i)))"

lemma byte_sub_48: "n < 256 \<Longrightarrow> (int n - 48) mod 256 = (if 48 \<le> n then int n - 48 else int n + 208)"
  using mod_add_self2 [of "int n - 48" 256] by (auto simp: mod_pos_pos_trivial)

lemma digit_byte: "is_digit c \<longleftrightarrow> (int (of_char c) - 48) mod 256 \<le> 9"
  using byte_sub_48 [of "of_char c"] by (auto simp: is_digit_def)

lemma digit_byte_val: "is_digit c \<Longrightarrow> (int (of_char c) - 48) mod 256 = int (digit_val c)"
  using byte_sub_48 [of "of_char c"] by (auto simp: is_digit_def digit_val_def)

lemma digit_val_le: "is_digit c \<Longrightarrow> digit_val c \<le> 9"
  by (auto simp: is_digit_def digit_val_def)

lemma digit_val_inj: "is_digit c \<Longrightarrow> is_digit d \<Longrightarrow> digit_val c = digit_val d \<Longrightarrow> c = d"
  unfolding is_digit_def digit_val_def by (metis diff_diff_cancel eq_diff_iff of_char_eq_iff)

lemma digit_cases: "d \<le> 9 \<Longrightarrow> d \<in> {0, 1, 2, 3, 4, 5, 6, 7, 8, 9 :: nat}"
  by auto

lemma luhn_digit_double: "d \<le> 9 \<Longrightarrow> int (luhn_digit i d) = (if odd i then (if int d * 2 > 9 then int d * 2 - 9 else int d * 2) else int d)"
  by (drule digit_cases) (auto simp: luhn_digit_def)

lemma luhn_digit_le: "d \<le> 9 \<Longrightarrow> luhn_digit i d \<le> 9"
  by (drule digit_cases) (auto simp: luhn_digit_def)

lemma luhn_digit_inj: "d \<le> 9 \<Longrightarrow> e \<le> 9 \<Longrightarrow> luhn_digit i d = luhn_digit i e \<Longrightarrow> d = e"
  by (drule digit_cases, drule digit_cases) (auto simp: luhn_digit_def split: if_splits)

primrec luhn_from :: "nat \<Rightarrow> string \<Rightarrow> nat" where
  "luhn_from k [] = 0"
| "luhn_from k (c # cs) = luhn_digit k (digit_val c) + luhn_from (Suc k) cs"

lemma luhn_from_sum: "luhn_from k cs = (\<Sum>i < length cs. luhn_digit (k + i) (digit_val (cs ! i)))"
  by (induction cs arbitrary: k) (simp_all add: sum.lessThan_Suc_shift del: sum.lessThan_Suc)

lemma luhn_sum_from: "luhn_sum s = luhn_from 0 (rev s)"
  by (simp add: luhn_sum_def luhn_from_sum)

lemma luhn_loop_from:
  "luhn_loop cs (odd k) t = (if list_all is_digit cs then Some (t + int (luhn_from k cs)) else None)"
proof (induction cs arbitrary: k t)
  case (Cons c cs)
  then show ?case
    using Cons.IH [of "Suc k"] digit_val_le [of c]
    by (auto simp: Let_def digit_byte [symmetric] digit_byte_val luhn_digit_double not_less)
qed simp

text \<open>The card-number check is the textbook one.\<close>

lemma luhnValid_iff: "luhnValid s \<longleftrightarrow> list_all is_digit s \<and> luhn_sum s mod 10 = 0"
proof -
  have "luhn_loop (rev s) False 0 = (if list_all is_digit s then Some (int (luhn_sum s)) else None)"
    using luhn_loop_from [of "rev s" 0 0] by (simp add: luhn_sum_from list_all_iff)
  moreover have "int n mod 10 = 0 \<longleftrightarrow> n mod 10 = 0" for n by presburger
  ultimately show ?thesis by (simp add: luhnValid_def)
qed

lemma luhn_from_update:
  assumes "i < length cs"
  shows "luhn_from k (cs[i := c]) + luhn_digit (k + i) (digit_val (cs ! i)) =
    luhn_from k cs + luhn_digit (k + i) (digit_val c)"
  using assms
proof (induction cs arbitrary: i k)
  case (Cons x xs)
  show ?case
  proof (cases i)
    case (Suc j)
    with Cons.IH [of j "Suc k"] Cons.prems show ?thesis by simp
  qed simp
qed simp

text \<open>
  C36: \<open>luhnValid\<close> decides the textbook Luhn condition (all bytes are digits and the digit sum, with every second digit
  from the right doubled, is divisible by ten), and it catches every error in a single digit: a valid number with
  one digit replaced by another is not valid.
\<close>
theorem luhn_textbook_and_single_errors:
  "(luhnValid s \<longleftrightarrow> list_all is_digit s \<and> luhn_sum s mod 10 = 0) \<and>
   (luhnValid s \<and> i < length s \<and> is_digit c \<and> c \<noteq> s ! i \<longrightarrow> \<not> luhnValid (s[i := c]))"
proof (intro conjI impI luhnValid_iff notI)
  assume h: "luhnValid s \<and> i < length s \<and> is_digit c \<and> c \<noteq> s ! i" and v: "luhnValid (s[i := c])"
  let ?j = "length s - Suc i"
  have j: "?j < length (rev s)" "rev s ! ?j = s ! i" using h by (auto simp: rev_nth)
  have d: "is_digit (s ! i)" using h by (auto simp: luhnValid_iff list_all_length)
  have "rev (s[i := c]) = (rev s)[?j := c]" using h by (simp add: rev_update)
  then have eq: "luhn_sum (s[i := c]) + luhn_digit ?j (digit_val (s ! i)) = luhn_sum s + luhn_digit ?j (digit_val c)"
    using luhn_from_update [OF j(1), of 0 c] j(2) by (simp add: luhn_sum_from)
  moreover have "luhn_sum s mod 10 = 0" "luhn_sum (s[i := c]) mod 10 = 0" using h v by (auto simp: luhnValid_iff)
  moreover have "luhn_digit ?j (digit_val (s ! i)) \<le> 9" "luhn_digit ?j (digit_val c) \<le> 9"
    using h d by (simp_all add: luhn_digit_le digit_val_le)
  ultimately have "luhn_digit ?j (digit_val (s ! i)) = luhn_digit ?j (digit_val c)" by presburger
  then have "digit_val (s ! i) = digit_val c" using luhn_digit_inj digit_val_le d h by blast
  then show False using digit_val_inj d h by metis
qed

theorem luhn_textbook_and_single_errors_witness:
  "\<not> luhnValid (''4111111111111111''[3 := CHR ''2''])"
  using luhn_textbook_and_single_errors [of "''4111111111111111''" 3 "CHR ''2''"]
  by (simp add: luhnValid_def is_digit_def)

section \<open>Personal data\<close>

definition is_space_class :: "char \<Rightarrow> bool" where
  "is_space_class c \<longleftrightarrow> c \<in> set [CHR '' '', CHR 0x09, CHR 0x0A, CHR 0x0C, CHR 0x0D]"

definition chars :: "string \<Rightarrow> char \<Rightarrow> bool" where
  "chars s c \<longleftrightarrow> c \<in> set s"

definition email_re :: regexp where
  "email_re =
     Seq (Plus (Class (\<lambda>c. is_alnum c \<or> chars ''._%+-'' c)))
    (Seq (Lit ''@'')
    (Seq (Plus (Class (\<lambda>c. is_alnum c \<or> chars ''.-'' c)))
    (Seq (Lit ''.'') (Seq (Times 2 (Class is_alpha)) (Star (Class is_alpha))))))"

definition ssn_re :: regexp where
  "ssn_re =
     Seq WordBoundary (Seq (Times 3 (Class is_digit)) (Seq (Lit ''-'') (Seq (Times 2 (Class is_digit))
    (Seq (Lit ''-'') (Seq (Times 4 (Class is_digit)) WordBoundary)))))"

definition card_re :: regexp where
  "card_re =
     (let d = Seq (Class is_digit) (Lazy (Class (chars '' -'')))
      in Seq WordBoundary (Seq (Times 13 d) (Seq (UpTo 3 d) WordBoundary)))"

definition bearer_token_byte :: "char \<Rightarrow> bool" where
  "bearer_token_byte c \<longleftrightarrow> is_alnum c \<or> chars ''-._~+/'' c"

definition bearer_re :: regexp where
  "bearer_re =
     Seq (LitFold ''bearer'') (Seq (Plus (Class is_space_class))
    (Seq (Plus (Class bearer_token_byte)) (Star (Class (\<lambda>c. c = CHR ''=''))))) "

definition piiRegex :: regexp where
  "piiRegex = AltList [email_re, ssn_re, card_re, bearer_re]"

definition RedactString :: "string \<Rightarrow> string" where
  "RedactString val =
     (if length val < 4 then val
      else if isNumeric val then (if looksLikePAN val then redacted else val)
      else ReplaceAllString piiRegex val redacted)"

section \<open>Sensitive keys\<close>

definition sensitiveKeys :: "string list" where
  "sensitiveKeys =
     [''authorization'', ''cookie'', ''set-cookie'', ''password'', ''passwd'', ''pwd'', ''token'', ''access_token'',
      ''refresh_token'', ''id_token'', ''secret'', ''client_secret'', ''api_key'', ''apikey'', ''x-api-key'', ''bearer'',
      ''ssn'', ''cvv'', ''card_number'', ''credit_card'', ''creditcard'', ''private_key'', ''x-amz-signature'']"

definition keyDelimiters :: regexp where
  "keyDelimiters = Plus (Class (chars ''-_. ''))"

definition normalizeKey :: "string \<Rightarrow> string" where
  "normalizeKey key = ReplaceAllString keyDelimiters (ToLower key) ''_''"

definition normalizeKeys :: "string list \<Rightarrow> string list" where
  "normalizeKeys keys = map normalizeKey keys"

definition normalizedSensitiveKeys :: "string list" where
  "normalizedSensitiveKeys = normalizeKeys sensitiveKeys"

definition IsSensitiveKey :: "string \<Rightarrow> bool" where
  "IsSensitiveKey key =
     (let nk = ''_'' @ normalizeKey key @ ''_''
      in list_ex (\<lambda>s. Contains nk (''_'' @ s @ ''_'')) normalizedSensitiveKeys)"

section \<open>Values\<close>

text \<open>The dynamic types \<open>RedactValue\<close> distinguishes; maps as the list of their entries, everything else as \<open>GOther\<close>.\<close>

datatype gval =
    GString string
  | GMap "(string \<times> gval) list"
  | GStrMap "(string \<times> string) list"
  | GList "gval list"
  | GStrings "string list"
  | GOther string

fun RedactValue :: "gval \<Rightarrow> gval" where
  "RedactValue (GMap t) =
     GMap (map (\<lambda>kv. (fst kv, if IsSensitiveKey (fst kv) then GString redacted else RedactValue (snd kv))) t)"
| "RedactValue (GStrMap t) =
     GStrMap (map (\<lambda>kv. (fst kv, if IsSensitiveKey (fst kv) then redacted else RedactString (snd kv))) t)"
| "RedactValue (GList t) = GList (map RedactValue t)"
| "RedactValue (GStrings t) = GStrings (map RedactString t)"
| "RedactValue (GString t) = GString (RedactString t)"
| "RedactValue (GOther x) = GOther x"

definition RedactPair :: "string \<Rightarrow> gval \<Rightarrow> gval" where
  "RedactPair key val = (if IsSensitiveKey key then GString redacted else RedactValue val)"

text \<open>What the result of a redaction must look like, and what it must leave alone.\<close>

fun secrets_hidden :: "gval \<Rightarrow> bool" where
  "secrets_hidden (GMap t) \<longleftrightarrow>
     (\<forall>kv \<in> set t. if IsSensitiveKey (fst kv) then snd kv = GString redacted else secrets_hidden (snd kv))"
| "secrets_hidden (GStrMap t) \<longleftrightarrow> (\<forall>kv \<in> set t. IsSensitiveKey (fst kv) \<longrightarrow> snd kv = redacted)"
| "secrets_hidden (GList t) \<longleftrightarrow> (\<forall>v \<in> set t. secrets_hidden v)"
| "secrets_hidden (GString t) \<longleftrightarrow> \<not> looksLikePAN t"
| "secrets_hidden (GStrings t) \<longleftrightarrow> (\<forall>x \<in> set t. \<not> looksLikePAN x)"
| "secrets_hidden (GOther x) \<longleftrightarrow> True"

fun skeleton :: "gval \<Rightarrow> gval" where
  "skeleton (GMap t) = GMap (map (\<lambda>kv. (fst kv, if IsSensitiveKey (fst kv) then GString [] else skeleton (snd kv))) t)"
| "skeleton (GStrMap t) = GStrMap (map (\<lambda>kv. (fst kv, [])) t)"
| "skeleton (GList t) = GList (map skeleton t)"
| "skeleton (GString t) = GString []"
| "skeleton (GStrings t) = GStrings (map (\<lambda>_. []) t)"
| "skeleton (GOther x) = GOther x"

lemma looksLikePAN_digits: "looksLikePAN s \<Longrightarrow> isNumeric s \<and> 13 \<le> length s"
  by (auto simp: looksLikePAN_def luhnValid_iff isNumeric_def split: if_splits)

lemma RedactString_hides: "\<not> looksLikePAN (RedactString s)"
proof
  assume pan: "looksLikePAN (RedactString s)"
  then have num: "isNumeric (RedactString s)" and len: "13 \<le> length (RedactString s)"
    using looksLikePAN_digits by blast+
  have digits: "CHR ''['' \<notin> set (RedactString s)"
    using num by (auto simp: isNumeric_def list_all_iff is_digit_def)
  then have "RedactString s = s"
    using ReplaceAllString_changed [of piiRegex s redacted] by (auto simp: RedactString_def redacted_def split: if_splits)
  with pan num len digits show False
    by (auto simp: RedactString_def redacted_def split: if_splits)
qed

lemma RedactString_PAN: "looksLikePAN s \<Longrightarrow> RedactString s = redacted"
  using looksLikePAN_digits [of s] by (simp add: RedactString_def)

lemma RedactValue_hides: "secrets_hidden (RedactValue v)"
  by (induction v rule: RedactValue.induct) (auto simp: RedactString_hides)

lemma RedactValue_skeleton: "skeleton (RedactValue v) = skeleton v"
  by (induction v rule: RedactValue.induct) (auto simp: redacted_def)

text \<open>
  In a redacted value, at any depth, every entry of a map under a sensitive key is \<open>[REDACTED]\<close> and no string is a
  card number with a valid check digit, while the keys, the lists and all values that are not strings stay as they
  are.
\<close>
theorem RedactValue_hides_secrets:
  "secrets_hidden (RedactValue v) \<and> skeleton (RedactValue v) = skeleton v \<and>
   (IsSensitiveKey k \<longrightarrow> RedactPair k v = GString redacted)"
  by (simp add: RedactValue_hides RedactValue_skeleton RedactPair_def)

theorem RedactValue_hides_secrets_witness:
  "RedactPair ''X-Api-Key'' (GOther ''7'') = GString redacted"
proof -
  have "IsSensitiveKey ''X-Api-Key''" by code_simp
  with RedactValue_hides_secrets [of "GOther ''7''" "''X-Api-Key''"] show ?thesis by simp
qed

end
