(* ===== verification/UrlValues.thy ===== *)
theory UrlValues
  imports Http "HOL-Library.Char_ord" "HOL-Library.List_Lexorder"
begin

text \<open>
  Values of \<open>url.Values\<close> as the list of their pairs, \<open>Values.Encode\<close>, and the round trip with \<open>url.ParseQuery\<close>: the
  middlewares that rewrite the query string decode it, change the pairs and encode them again.
\<close>

definition hex_digit :: "nat \<Rightarrow> char" where
  "hex_digit n = char_of (if n < 10 then 48 + n else 55 + n)"

definition unreserved :: "char \<Rightarrow> bool" where
  "unreserved c \<longleftrightarrow> is_alnum c \<or> c = CHR ''-'' \<or> c = CHR ''_'' \<or> c = CHR ''.'' \<or> c = CHR ''~''"

definition escape_byte :: "char \<Rightarrow> string" where
  "escape_byte c =
     (if unreserved c then [c]
      else if c = CHR '' '' then ''+''
      else CHR ''%'' # [hex_digit (of_char c div 16), hex_digit (of_char c mod 16)])"

definition QueryEscape :: "string \<Rightarrow> string" where
  "QueryEscape s = concat (map escape_byte s)"

definition encode_pair :: "string \<times> string \<Rightarrow> string" where
  "encode_pair kv = QueryEscape (fst kv) @ ''='' @ QueryEscape (snd kv)"

text \<open>\<open>Encode\<close> lists the keys in order, and under each key its values in the order they were added.\<close>

definition Values_Encode :: "(string \<times> string) list \<Rightarrow> string" where
  "Values_Encode ps = Join (map encode_pair (sort_key fst ps)) ''&''"

text \<open>The pairs of \<open>URL.Query()\<close>, which discards the error of \<open>ParseQuery\<close>.\<close>

definition url_Query :: "url \<Rightarrow> (string \<times> string) list" where
  "url_Query u = fst (ParseQuery (u_rawQuery u))"

section \<open>The round trip\<close>

lemma hex_val_hex_digit: "n < 16 \<Longrightarrow> hex_val (hex_digit n) = Some n"
  by (auto simp: hex_val_def hex_digit_def Let_def)

lemma unreserved_plain: "unreserved c \<Longrightarrow> c \<noteq> CHR ''%'' \<and> c \<noteq> CHR ''+'' \<and> c \<noteq> CHR ''&'' \<and> c \<noteq> CHR ''='' \<and> c \<noteq> CHR '';''"
  by (auto simp: unreserved_def is_alnum_def is_alpha_def is_digit_def)

lemma unescape_byte: "QueryUnescape (escape_byte c @ s) = map_option (Cons c) (QueryUnescape s)"
proof -
  have "of_char c div 16 < (16 :: nat)" "of_char c mod 16 < (16 :: nat)"
    by (simp_all add: less_mult_imp_div_less)
  moreover have "char_of (16 * (of_char c div 16) + of_char c mod 16 :: nat) = c"
    by (simp only: mult_div_mod_eq char_of_char)
  ultimately have "QueryUnescape (CHR ''%'' # hex_digit (of_char c div 16) # hex_digit (of_char c mod 16) # s) =
      map_option (Cons c) (QueryUnescape s)"
    by (simp add: hex_val_hex_digit)
  then show ?thesis
    using unreserved_plain [of c] by (simp add: escape_byte_def)
qed

lemma unescape_escape: "QueryUnescape (QueryEscape s) = Some s"
proof (induction s)
  case (Cons c s)
  then show ?case using unescape_byte [of c "QueryEscape s"] by (simp add: QueryEscape_def)
qed (simp add: QueryEscape_def)

lemma hex_digit_alnum: "n < 16 \<Longrightarrow> is_alnum (hex_digit n)"
  by (auto simp: hex_digit_def is_alnum_def is_alpha_def is_digit_def)

lemma escape_byte_plain: "x \<in> set (escape_byte c) \<Longrightarrow> x \<noteq> CHR ''&'' \<and> x \<noteq> CHR ''='' \<and> x \<noteq> CHR '';''"
proof -
  have "of_char c div 16 < (16 :: nat)" "of_char c mod 16 < (16 :: nat)"
    by (simp_all add: less_mult_imp_div_less)
  then have "unreserved (hex_digit (of_char c div 16))" "unreserved (hex_digit (of_char c mod 16))"
    by (simp_all add: unreserved_def hex_digit_alnum)
  then show "x \<in> set (escape_byte c) \<Longrightarrow> x \<noteq> CHR ''&'' \<and> x \<noteq> CHR ''='' \<and> x \<noteq> CHR '';''"
    by (auto simp: escape_byte_def dest: unreserved_plain split: if_splits)
qed

lemma QueryEscape_plain: "CHR ''&'' \<notin> set (QueryEscape s) \<and> CHR ''='' \<notin> set (QueryEscape s) \<and> CHR '';'' \<notin> set (QueryEscape s)"
  by (auto simp: QueryEscape_def dest: escape_byte_plain)

lemma cut_at_sep: "c \<notin> set a \<Longrightarrow> cut_at c (a @ c # b) = (a, b)"
  by (induction a) (auto simp: cut_at_def)

lemma parse_encoded: "parse_pieces (map encode_pair ps) = (ps, False)"
proof (induction ps)
  case (Cons kv ps)
  have "CHR '';'' \<notin> set (encode_pair kv)" "encode_pair kv \<noteq> []"
    by (auto simp: encode_pair_def QueryEscape_plain)
  moreover have "cut_at CHR ''='' (encode_pair kv) = (QueryEscape (fst kv), QueryEscape (snd kv))"
    by (simp add: encode_pair_def cut_at_sep QueryEscape_plain)
  ultimately show ?case using Cons by (simp add: unescape_escape)
qed simp

lemma ParseQuery_Encode: "ParseQuery (Values_Encode ps) = (sort_key fst ps, False)"
proof (cases "ps = []")
  case False
  then have "map encode_pair (sort_key fst ps) \<noteq> []"
    by (metis length_map length_sort list.size(3) length_0_conv)
  moreover have "CHR ''&'' \<notin> set x" if "x \<in> set (map encode_pair (sort_key fst ps))" for x
    using that by (auto simp: encode_pair_def QueryEscape_plain)
  ultimately have "Split (Values_Encode ps) CHR ''&'' = map encode_pair (sort_key fst ps)"
    unfolding Values_Encode_def by (rule Split_Join)
  then show ?thesis by (simp add: ParseQuery_def parse_encoded)
qed (simp add: Values_Encode_def ParseQuery_def)

lemma url_Query_Encode: "url_Query (u\<lparr>u_rawQuery := Values_Encode ps\<rparr>) = sort_key fst ps"
  by (simp add: url_Query_def ParseQuery_Encode)

text \<open>As a map from keys to lists of values nothing is changed.\<close>

lemma Values_Encode_values: "filter (\<lambda>kv. fst kv = k) (sort_key fst ps) = filter (\<lambda>kv. fst kv = k) ps"
  by (induction ps) (simp_all add: filter_insort_triv filter_insort insort_is_Cons)

end
