(* ===== verification/Rewriting.thy ===== *)
theory Rewriting
  imports Redaction UrlValues Middleware "HOL-Library.AList" "HOL-Library.Multiset"
begin

text \<open>
  The middlewares that rewrite a request before it reaches the handler: \<open>api/sanitization\<close>, \<open>api/normalization\<close> and
  \<open>api/redaction\<close>. Decoding and encoding of JSON are arguments. The requests of a server always have a URL; one
  without is passed through.
\<close>

definition on_url :: "(url \<Rightarrow> url) \<Rightarrow> request \<Rightarrow> request" where
  "on_url f r = r\<lparr>req_url := map_option f (req_url r)\<rparr>"

definition map_header :: "(string \<Rightarrow> string) \<Rightarrow> header \<Rightarrow> header" where
  "map_header f h = (\<lambda>k. map_option (map f) (h k))"

lemma on_url_fields [simp]:
  "req_header (on_url f r) = req_header r" "req_body (on_url f r) = req_body r" "req_ctx (on_url f r) = req_ctx r"
  "req_pathValues (on_url f r) = req_pathValues r" "req_pattern (on_url f r) = req_pattern r"
  "req_method (on_url f r) = req_method r" "req_url (on_url f r) = map_option f (req_url r)"
  by (simp_all add: on_url_def)

section \<open>Sanitization\<close>

definition sql_words :: "string list" where
  "sql_words =
     [''union'', ''select'', ''insert'', ''update'', ''delete'', ''drop'', ''create'', ''alter'', ''exec'', ''execute'', ''script'',
      ''javascript'', ''onerror'', ''onload'', ''<script'', ''</script'']"

definition xss_words :: "string list" where
  "xss_words =
     [''<script'', ''</script'', ''javascript:'', ''onerror='', ''onload='', ''<iframe'', ''</iframe'', ''<object'', ''</object'',
      ''<embed'', ''</embed'']"

definition SqlInjectionPattern :: regexp where
  "SqlInjectionPattern = AltList (map LitFold sql_words)"

definition XssPattern :: regexp where
  "XssPattern = AltList (map LitFold xss_words)"

definition PathTraversalPattern :: regexp where
  "PathTraversalPattern = Alt (Lit ''../'') (Lit [CHR ''.'', CHR ''.'', CHR 0x5C])"

definition NullBytePattern :: regexp where
  "NullBytePattern = Class (\<lambda>c. c = CHR 0x00)"

text \<open>\<open>html.EscapeString\<close>.\<close>

definition escape_html_byte :: "char \<Rightarrow> string" where
  "escape_html_byte c =
     (if c = CHR ''&'' then ''&amp;''
      else if c = CHR 0x27 then ''&#39;''
      else if c = CHR ''<'' then ''&lt;''
      else if c = CHR ''>'' then ''&gt;''
      else if c = CHR 0x22 then ''&#34;''
      else [c])"

definition html_EscapeString :: "string \<Rightarrow> string" where
  "html_EscapeString s = concat (map escape_html_byte s)"

definition sanitizeString :: "string \<Rightarrow> string" where
  "sanitizeString str =
     (let s1 = ReplaceAllString NullBytePattern str [];
          s2 = ReplaceAllString PathTraversalPattern s1 [];
          s3 = html_EscapeString s2;
          s4 = TrimSpace s3;
          s5 = ReplaceAllString SqlInjectionPattern s4 []
      in ReplaceAllString XssPattern s5 [])"

definition sanitizeHeaders :: "request \<Rightarrow> request" where
  "sanitizeHeaders r = r\<lparr>req_header := map_header sanitizeString (req_header r)\<rparr>"

text \<open>The names of the wildcards in a router pattern; \<open>PathValue\<close> of an unknown name is empty.\<close>

definition wildcard_name :: "string \<Rightarrow> string option" where
  "wildcard_name seg =
     (if length seg > 2 \<and> hd seg = CHR ''{'' \<and> last seg = CHR ''}'' then Some (TrimSuffix (butlast (tl seg)) ''...'') else None)"

definition sanitize_path_value :: "string \<Rightarrow> (string \<Rightarrow> string) \<Rightarrow> (string \<Rightarrow> string)" where
  "sanitize_path_value seg vals =
     (case wildcard_name seg of
        None \<Rightarrow> vals
      | Some name \<Rightarrow> if vals name \<noteq> [] then vals(name := sanitizeString (vals name)) else vals)"

definition sanitizePathParams :: "request \<Rightarrow> request" where
  "sanitizePathParams r =
     (if req_pattern r = [] then r
      else r\<lparr>req_pathValues := fold sanitize_path_value (Split (req_pattern r) CHR ''/'') (req_pathValues r)\<rparr>)"

text \<open>
  The loop over the map \<open>url.Values\<close> adds, key by key, the sanitized pairs; \<open>Encode\<close> sorts them. When two keys become
  equal their values are joined in the order of the iteration, which here is that of the query string.
\<close>

definition sanitize_pair :: "string \<times> string \<Rightarrow> string \<times> string" where
  "sanitize_pair pr = (sanitizeString (fst pr), sanitizeString (snd pr))"

definition sanitizeQueryParams :: "request \<Rightarrow> request" where
  "sanitizeQueryParams = on_url (\<lambda>u. u\<lparr>u_rawQuery := Values_Encode (map sanitize_pair (url_Query u))\<rparr>)"

fun sanitizeJSON :: "gval \<Rightarrow> gval" where
  "sanitizeJSON (GString v) = GString (sanitizeString v)"
| "sanitizeJSON (GMap t) =
     GMap (foldl (\<lambda>m pr. AList.update (sanitizeString (fst pr)) (sanitizeJSON (snd pr)) m) [] t)"
| "sanitizeJSON (GList t) = GList (map sanitizeJSON t)"
| "sanitizeJSON v = v"

definition sanitizeBody ::
  "(string \<Rightarrow> gval option) \<Rightarrow> (gval \<Rightarrow> string) \<Rightarrow> instant \<Rightarrow> writer \<Rightarrow> request \<Rightarrow> writer \<times> request" where
  "sanitizeBody unmarshal marshal now w r =
     (case req_body r of
        Some (Body b) \<Rightarrow>
          (case unmarshal b of
             None \<Rightarrow> (SendError now w (r\<lparr>req_body := None\<rparr>) Global_BadRequest [WithDetail ''failed to parse JSON body''], r\<lparr>req_body := None\<rparr>)
           | Some data \<Rightarrow>
               (let out = marshal (sanitizeJSON data)
                in (w, r\<lparr>req_body := Some (Body out), req_contentLength := int (length out)\<rparr>)))
      | _ \<Rightarrow> (SendError now w (r\<lparr>req_body := None\<rparr>) Global_BadRequest [WithDetail ''failed to read request body''], r\<lparr>req_body := None\<rparr>))"

definition Sanitization_decide ::
  "(string \<Rightarrow> gval option) \<Rightarrow> (gval \<Rightarrow> string) \<Rightarrow> ('a proc_scheme) decision" where
  "Sanitization_decide unmarshal marshal req w s =
     (let r = sanitizeQueryParams (sanitizePathParams (sanitizeHeaders req))
      in if req_body r \<noteq> None \<and> Header_Get (req_header r) ''Content-Type'' = ''application/json'' then
           (case sanitizeBody unmarshal marshal (p_now s) w r of
              (w', r') \<Rightarrow> if req_body r' = None then Respond w' s else Continue r' w' s)
         else Continue r w s)"

definition SanitizationMiddleware ::
  "(string \<Rightarrow> gval option) \<Rightarrow> (gval \<Rightarrow> string) \<Rightarrow> ('a proc_scheme) middleware" where
  "SanitizationMiddleware unmarshal marshal = middleware_of (Sanitization_decide unmarshal marshal)"

text \<open>The two word filters remove the words one after the other.\<close>

lemma sanitizeString_eval:
  "sanitizeString str =
     replace_words xss_words [] (replace_words sql_words []
       (TrimSpace (html_EscapeString (ReplaceAllString PathTraversalPattern (filter (\<lambda>c. c \<noteq> CHR 0x00) str) []))))"
proof -
  have "[] \<notin> set xss_words" "[] \<notin> set sql_words" by (simp_all add: xss_words_def sql_words_def)
  then show ?thesis
    by (simp add: sanitizeString_def SqlInjectionPattern_def XssPattern_def ReplaceAllString_words NullBytePattern_def
        ReplaceAllString_class)
qed

subsection \<open>What sanitized text cannot contain\<close>

text \<open>Bytes that open a tag, end an attribute value, or cut a C string.\<close>

definition inert :: "string \<Rightarrow> bool" where
  "inert s \<longleftrightarrow> set s \<inter> {CHR 0x00, CHR ''<'', CHR ''>'', CHR 0x22, CHR 0x27} = {}"

lemma inert_subset: "set s \<subseteq> set t \<Longrightarrow> inert t \<Longrightarrow> inert s"
  by (auto simp: inert_def)

lemma inert_Nil [simp]: "inert []"
  by (simp add: inert_def)

lemma inert_delete: "inert s \<Longrightarrow> inert (ReplaceAllString r s [])"
  using ReplaceAllString_set [of r s "[]"] by (auto intro: inert_subset)

lemma TrimSpace_set: "set (TrimSpace s) \<subseteq> set s"
  using TrimSpace_infix [of s] by (metis Un_upper1 Un_upper2 set_append subset_trans)

lemma inert_escaped:
  assumes "CHR 0x00 \<notin> set s"
  shows "inert (html_EscapeString s)"
proof -
  have "inert (escape_html_byte c)" if "c \<in> set s" for c
    using assms that by (auto simp: inert_def escape_html_byte_def)
  then show ?thesis by (auto simp: inert_def html_EscapeString_def)
qed

lemma sanitizeString_inert: "inert (sanitizeString s)"
proof -
  let ?s2 = "ReplaceAllString PathTraversalPattern (ReplaceAllString NullBytePattern s []) []"
  have "CHR 0x00 \<notin> set (ReplaceAllString NullBytePattern s [])"
    by (simp add: NullBytePattern_def ReplaceAllString_class)
  then have "CHR 0x00 \<notin> set ?s2"
    using ReplaceAllString_set [of PathTraversalPattern "ReplaceAllString NullBytePattern s []" "[]"] by auto
  then have "inert (TrimSpace (html_EscapeString ?s2))"
    using inert_escaped inert_subset TrimSpace_set by blast
  then show ?thesis by (simp add: sanitizeString_def Let_def inert_delete)
qed

fun inert_json :: "gval \<Rightarrow> bool" where
  "inert_json (GString v) \<longleftrightarrow> inert v"
| "inert_json (GMap t) \<longleftrightarrow> (\<forall>pr \<in> set t. inert (fst pr) \<and> inert_json (snd pr))"
| "inert_json (GList t) \<longleftrightarrow> (\<forall>v \<in> set t. inert_json v)"
| "inert_json _ \<longleftrightarrow> True"

lemma update_entries: "set (AList.update k v m) \<subseteq> insert (k, v) (set m)"
  by (induction m) auto

lemma foldl_update_entries:
  "set (foldl (\<lambda>m x. AList.update (f x) (g x) m) m t) \<subseteq> set m \<union> (\<lambda>x. (f x, g x)) ` set t"
proof (induction t arbitrary: m)
  case (Cons x t)
  show ?case using Cons [of "AList.update (f x) (g x) m"] update_entries [of "f x" "g x" m] by auto
qed simp

lemma sanitizeJSON_inert: "inert_json (sanitizeJSON v)"
proof (induction v rule: sanitizeJSON.induct)
  case (2 t)
  show ?case
    using 2 foldl_update_entries [of "\<lambda>pr. sanitizeString (fst pr)" "\<lambda>pr. sanitizeJSON (snd pr)" "[]" t]
    by (fastforce simp: sanitizeString_inert)
qed (auto simp: sanitizeString_inert)

lemma fold_path_values:
  "wildcard_name seg = Some name \<Longrightarrow> seg \<in> set segs \<Longrightarrow> inert (fold sanitize_path_value segs vals name)"
proof (induction segs arbitrary: vals)
  case (Cons x xs)
  have keep: "inert (fold sanitize_path_value ys vs name)" if "inert (vs name)" for ys vs
    using that
  proof (induction ys arbitrary: vs)
    case (Cons y ys)
    then have "inert (sanitize_path_value y vs name)"
      by (auto simp: sanitize_path_value_def sanitizeString_inert split: option.splits)
    then show ?case using Cons.IH by simp
  qed simp
  show ?case
  proof (cases "x = seg")
    case True
    then have "inert (sanitize_path_value x vals name)"
      using Cons.prems(1) by (auto simp: sanitize_path_value_def sanitizeString_inert)
    then show ?thesis by (simp add: keep)
  qed (use Cons in auto)
qed simp

lemma sanitizePathParams_fields [simp]:
  "req_header (sanitizePathParams r) = req_header r" "req_body (sanitizePathParams r) = req_body r"
  "req_url (sanitizePathParams r) = req_url r" "req_ctx (sanitizePathParams r) = req_ctx r"
  by (simp_all add: sanitizePathParams_def)

lemma sanitizeHeaders_fields [simp]:
  "req_header (sanitizeHeaders r) = map_header sanitizeString (req_header r)" "req_body (sanitizeHeaders r) = req_body r"
  "req_pattern (sanitizeHeaders r) = req_pattern r" "req_url (sanitizeHeaders r) = req_url r" "req_ctx (sanitizeHeaders r) = req_ctx r"
  by (simp_all add: sanitizeHeaders_def)

lemma sanitizeQueryParams_fields [simp]:
  "req_header (sanitizeQueryParams r) = req_header r" "req_body (sanitizeQueryParams r) = req_body r"
  "req_pathValues (sanitizeQueryParams r) = req_pathValues r" "req_ctx (sanitizeQueryParams r) = req_ctx r"
  by (simp_all add: sanitizeQueryParams_def)

lemma sanitizeQueryParams_inert:
  "req_url (sanitizeQueryParams r) = Some u \<Longrightarrow> pr \<in> set (url_Query u) \<Longrightarrow> inert (fst pr) \<and> inert (snd pr)"
  by (auto simp: sanitizeQueryParams_def url_Query_Encode sanitize_pair_def sanitizeString_inert)

text \<open>What passing the middleware tells about the request handed on.\<close>

lemma Sanitization_Continue:
  assumes "Sanitization_decide unmarshal marshal req w s = Continue r w' s'"
  defines "r0 \<equiv> sanitizeQueryParams (sanitizePathParams (sanitizeHeaders req))"
  shows "req_header r = req_header r0 \<and> req_url r = req_url r0 \<and> req_pathValues r = req_pathValues r0 \<and> req_ctx r = req_ctx req \<and>
    (if req_body req \<noteq> None \<and> Header_Get (req_header r0) ''Content-Type'' = ''application/json''
     then \<exists>b data. req_body req = Some (Body b) \<and> unmarshal b = Some data \<and> req_body r = Some (Body (marshal (sanitizeJSON data)))
     else req_body r = req_body req)"
  using assms(1) unfolding Sanitization_decide_def r0_def [symmetric] Let_def sanitizeBody_def
  by (auto simp: r0_def Let_def split: if_splits option.splits body.splits)

text \<open>
  C31: In a request that passes the sanitization middleware, no header value, no key or value of the query, no path
  parameter of the route and, for a body sent as \<open>application/json\<close>, no string or key of the document contains a
  NUL byte, an angle bracket or a quote.
\<close>
theorem sanitized_request_inert:
  assumes "Sanitization_decide unmarshal marshal req w s = Continue r w' s'"
  shows "(req_header r k = Some vs \<and> v \<in> set vs \<longrightarrow> inert v) \<and>
    (req_url r = Some u \<and> pr \<in> set (url_Query u) \<longrightarrow> inert (fst pr) \<and> inert (snd pr)) \<and>
    (seg \<in> set (Split (req_pattern req) CHR ''/'') \<and> wildcard_name seg = Some name \<longrightarrow> inert (req_pathValues r name)) \<and>
    (req_body req \<noteq> None \<and> Header_Get (req_header r) ''Content-Type'' = ''application/json'' \<longrightarrow>
       (\<exists>v. inert_json v \<and> req_body r = Some (Body (marshal v))))"
proof (intro conjI impI; (elim conjE)?)
  note c = Sanitization_Continue [OF assms]
  show "inert v" if "req_header r k = Some vs" "v \<in> set vs"
    using c that by (auto simp: map_header_def sanitizeString_inert)
  show "inert (fst pr)" "inert (snd pr)" if "req_url r = Some u" "pr \<in> set (url_Query u)"
    using c that sanitizeQueryParams_inert by metis+
  show "inert (req_pathValues r name)" if "seg \<in> set (Split (req_pattern req) CHR ''/'')" "wildcard_name seg = Some name"
  proof -
    have "req_pattern req \<noteq> []" using that by (auto simp: wildcard_name_def)
    then show ?thesis using c that fold_path_values by (auto simp: sanitizePathParams_def)
  qed
  show "\<exists>v. inert_json v \<and> req_body r = Some (Body (marshal v))"
    if "req_body req \<noteq> None" "Header_Get (req_header r) ''Content-Type'' = ''application/json''"
    using c that sanitizeJSON_inert by (auto split: if_splits)
qed

definition sample_tagged :: request where
  "sample_tagged = sample_request\<lparr>req_header := [''X-Name'' \<mapsto> [''<b>'']], req_url := Some \<lparr>u_path = ''/'', u_rawQuery = [], u_host = []\<rparr>\<rparr>"

theorem sanitized_request_inert_witness:
  "\<exists>r. Sanitization_decide (\<lambda>_. None) (\<lambda>_. []) sample_tagged fresh_writer sample_sdk = Continue r fresh_writer sample_sdk \<and>
     req_header r ''X-Name'' = Some [''&lt;b&gt;''] \<and> inert ''&lt;b&gt;''"
proof -
  let ?r = "sanitizeQueryParams (sanitizePathParams (sanitizeHeaders sample_tagged))"
  have d: "Sanitization_decide (\<lambda>_. None) (\<lambda>_. []) sample_tagged fresh_writer sample_sdk = Continue ?r fresh_writer sample_sdk"
    by (simp add: Sanitization_decide_def sample_tagged_def sample_request_def)
  have "sanitizeString ''<b>'' = ''&lt;b&gt;''" unfolding sanitizeString_eval by code_simp
  then have "req_header ?r ''X-Name'' = Some [''&lt;b&gt;'']" by (simp add: sample_tagged_def map_header_def)
  with d sanitized_request_inert [OF d, of "''X-Name''" "[''&lt;b&gt;'']" "''&lt;b&gt;''"] show ?thesis by auto
qed

text \<open>
  The filters run once, so what they remove can be put together again from its parts: a path traversal and a SQL
  keyword survive when they are written around another one. Ordinary words are cut (a field named \<open>created\<close>
  arrives as \<open>d\<close>), and a JSON body is not sanitized at all when its content type names a charset.
\<close>
theorem sanitization_gaps:
  "sanitizeString ''....//'' = ''../'' \<and> sanitizeString ''drdropop'' = ''drop'' \<and> sanitizeString ''created'' = ''d'' \<and>
   (\<exists>r. Sanitization_decide unmarshal marshal
        (sample_request\<lparr>req_header := [''Content-Type'' \<mapsto> [''application/json; charset=utf-8'']], req_body := Some (Body b)\<rparr>) w s =
      Continue r w s \<and> req_body r = Some (Body b))"
proof -
  let ?req = "sample_request\<lparr>req_header := [''Content-Type'' \<mapsto> [''application/json; charset=utf-8'']], req_body := Some (Body b)\<rparr>"
  let ?r = "sanitizeQueryParams (sanitizePathParams (sanitizeHeaders ?req))"
  let ?ct = "''application/json; charset=utf-8''"
  have "ReplaceAllString NullBytePattern ?ct [] = ?ct" by (simp add: NullBytePattern_def ReplaceAllString_class)
  moreover have "ReplaceAllString PathTraversalPattern ?ct [] = ?ct" by code_simp
  moreover have "TrimSpace (html_EscapeString ?ct) = ?ct" by code_simp
  moreover have "ReplaceAllString SqlInjectionPattern ?ct [] = ?ct" "ReplaceAllString XssPattern ?ct [] = ?ct"
    unfolding SqlInjectionPattern_def XssPattern_def by (rule ReplaceAll_words, code_simp)+
  ultimately have ct: "sanitizeString ?ct = ?ct" by (simp add: sanitizeString_def)
  have "CanonicalMIMEHeaderKey ''Content-Type'' = ''Content-Type''" by code_simp
  then have "Header_Get (req_header ?r) ''Content-Type'' = ''application/json; charset=utf-8''"
    by (simp add: Header_Get_def map_header_def ct)
  then have "Sanitization_decide unmarshal marshal ?req w s = Continue ?r w s \<and> req_body ?r = Some (Body b)"
    by (simp add: Sanitization_decide_def)
  moreover have "sanitizeString ''....//'' = ''../''" "sanitizeString ''drdropop'' = ''drop''"
    "sanitizeString ''created'' = ''d''" unfolding sanitizeString_eval by code_simp+
  ultimately show ?thesis by blast
qed

end
