(* ===== verification/Normalization.thy ===== *)
theory Normalization
  imports Rewriting
begin

text \<open>
  The normalization middleware (\<open>api/normalization\<close>) and the redaction middleware (\<open>api/redaction\<close>): header values,
  path and query are brought to a standard form; the handler behind the redaction middleware sees a copy of the
  request without credentials.
\<close>

section \<open>Normalization\<close>

definition set_lower :: "string \<Rightarrow> header \<Rightarrow> header" where
  "set_lower k h = (if Header_Get h k \<noteq> [] then Header_Set h k (ToLower (TrimSpace (Header_Get h k))) else h)"

definition set_trimmed :: "string \<Rightarrow> header \<Rightarrow> header" where
  "set_trimmed k h = (if Header_Get h k \<noteq> [] then Header_Set h k (TrimSpace (Header_Get h k)) else h)"

definition normalizeHeaders :: "request \<Rightarrow> request" where
  "normalizeHeaders r =
     r\<lparr>req_header := set_trimmed ''User-Agent'' (set_lower ''Accept'' (set_lower ''Content-Type'' (map_header TrimSpace (req_header r))))\<rparr>"

text \<open>\<open>strings.TrimRight(path, "/")\<close> and \<open>strings.ReplaceAll(path, "//", "/")\<close>, which does not look at its own output.\<close>

definition TrimRight_slash :: "string \<Rightarrow> string" where
  "TrimRight_slash s = rev (dropWhile (\<lambda>c. c = CHR ''/'') (rev s))"

definition normalize_path :: "string \<Rightarrow> string" where
  "normalize_path path0 =
     (let path = (if path0 \<noteq> ''/'' then TrimRight_slash path0 else path0)
      in ReplaceAllString (Lit ''//'') path ''/'')"

definition normalizeURL :: "request \<Rightarrow> request" where
  "normalizeURL r =
     (case req_url r of
        None \<Rightarrow> r
      | Some u \<Rightarrow>
          (let path = normalize_path (u_path u)
           in r\<lparr>req_url := Some (u\<lparr>u_path := path\<rparr>),
                req_requestURI := path @ (if u_rawQuery u \<noteq> [] then ''?'' @ u_rawQuery u else [])\<rparr>))"

definition normalize_word :: "string \<Rightarrow> string" where
  "normalize_word v =
     (if v = ''True'' \<or> v = ''TRUE'' then ''true''
      else if v = ''False'' \<or> v = ''FALSE'' then ''false''
      else if v = ''Sort'' \<or> v = ''SORT'' then ''sort''
      else if v = ''Asc'' \<or> v = ''ASC'' then ''asc''
      else if v = ''Desc'' \<or> v = ''DESC'' then ''desc''
      else v)"

definition normalize_pair :: "string \<times> string \<Rightarrow> string \<times> string" where
  "normalize_pair pr = (TrimSpace (fst pr), normalize_word (TrimSpace (snd pr)))"

text \<open>The query is written back only when some pair has changed.\<close>

definition normalize_query :: "url \<Rightarrow> url" where
  "normalize_query u =
     (if u_rawQuery u = [] then u
      else if list_ex (\<lambda>pr. normalize_pair pr \<noteq> pr) (url_Query u)
      then u\<lparr>u_rawQuery := Values_Encode (map normalize_pair (url_Query u))\<rparr>
      else u)"

definition normalizeQueryParams :: "request \<Rightarrow> request" where
  "normalizeQueryParams = on_url normalize_query"

definition Normalization_decide :: "'s decision" where
  "Normalization_decide req w s =
     (let r = normalizeQueryParams (normalizeURL (normalizeHeaders req))
      in Continue (r\<lparr>req_method := ToUpper (req_method r)\<rparr>) w s)"

definition NormalizationMiddleware :: "'s middleware" where
  "NormalizationMiddleware = middleware_of Normalization_decide"

subsection \<open>Normal forms\<close>

lemma strip_one_None: "strip_one ws s = None \<longleftrightarrow> (\<forall>w \<in> set ws. \<not> HasPrefix s w)"
  by (induction ws) auto

lemma trim_left_stuck: "strip_one ws s = None \<Longrightarrow> trim_left ws s = s"
  by (subst trim_left.simps) simp

lemma strip_trim_left: "[] \<notin> set ws \<Longrightarrow> strip_one ws (trim_left ws s) = None"
proof (induction ws s rule: trim_left.induct)
  case (1 ws s)
  show ?case
  proof (cases "strip_one ws s")
    case None
    then show ?thesis by (simp add: trim_left_stuck)
  next
    case (Some t)
    then obtain w where "w \<in> set ws" "s = w @ t" by (auto dest: strip_one_drop)
    with "1.prems" have "length t < length s" by auto
    with Some 1 show ?thesis by (simp add: trim_left.simps [of ws s])
  qed
qed

lemma TrimSpace_idem [simp]: "TrimSpace (TrimSpace s) = TrimSpace s"
proof -
  have ne: "[] \<notin> set space_seqs" "[] \<notin> set (map rev space_seqs)" by (auto simp: space_seqs_def)
  let ?t = "trim_left space_seqs s"
  have right: "strip_one (map rev space_seqs) (rev (TrimSpace s)) = None"
    using strip_trim_left [OF ne(2)] by (simp add: TrimSpace_def)
  obtain v where "rev ?t = v @ rev (TrimSpace s)"
    unfolding TrimSpace_def by (metis rev_rev_ident trim_left_suffix)
  then have "?t = TrimSpace s @ rev v" by (metis rev_append rev_rev_ident)
  then have "strip_one space_seqs (TrimSpace s) = None"
    using strip_trim_left [OF ne(1), of s] by (force simp: strip_one_None HasPrefix_iff)
  with right show ?thesis by (simp add: TrimSpace_def [of "TrimSpace s"] trim_left_stuck)
qed

lemma normalize_word_trimmed: "TrimSpace (normalize_word (TrimSpace v)) = normalize_word (TrimSpace v)"
proof -
  have "TrimSpace ''true'' = ''true''" "TrimSpace ''false'' = ''false''" "TrimSpace ''sort'' = ''sort''"
    "TrimSpace ''asc'' = ''asc''" "TrimSpace ''desc'' = ''desc''" by code_simp+
  then show ?thesis by (simp add: normalize_word_def)
qed

lemma normalize_word_idem [simp]: "normalize_word (normalize_word v) = normalize_word v"
  by (simp add: normalize_word_def)

lemma normalize_pair_idem [simp]: "normalize_pair (normalize_pair pr) = normalize_pair pr"
  by (simp add: normalize_pair_def normalize_word_trimmed)

lemma normalize_query_pairs: "mset (url_Query (normalize_query u)) = image_mset normalize_pair (mset (url_Query u))"
proof (cases "list_ex (\<lambda>pr. normalize_pair pr \<noteq> pr) (url_Query u)")
  case True
  then have "u_rawQuery u \<noteq> []" by (auto simp: url_Query_def ParseQuery_def)
  with True show ?thesis by (simp add: normalize_query_def url_Query_Encode)
next
  case False
  then have "map normalize_pair (url_Query u) = url_Query u" by (simp add: list_ex_iff map_idI)
  with False show ?thesis by (simp add: normalize_query_def flip: mset_map)
qed

lemma normalized_pairs: "pr \<in> set (url_Query (normalize_query u)) \<Longrightarrow> normalize_pair pr = pr"
proof -
  assume "pr \<in> set (url_Query (normalize_query u))"
  then have "pr \<in># image_mset normalize_pair (mset (url_Query u))"
    by (metis normalize_query_pairs set_mset_mset)
  then show ?thesis by auto
qed

text \<open>
  Behind the normalization middleware the pairs of the query are, as a multiset, the original ones with keys and
  values trimmed and the spelled-out words in lower case; and normalizing the query a second time changes nothing.
\<close>
theorem normalized_query_stable:
  "mset (url_Query (normalize_query u)) = image_mset normalize_pair (mset (url_Query u)) \<and>
   normalize_query (normalize_query u) = normalize_query u"
proof
  have "\<not> list_ex (\<lambda>pr. normalize_pair pr \<noteq> pr) (url_Query (normalize_query u))"
    by (auto simp: list_ex_iff normalized_pairs)
  then show "normalize_query (normalize_query u) = normalize_query u"
    by (simp add: normalize_query_def [of "normalize_query u"])
qed (rule normalize_query_pairs)

text \<open>
  The path is not brought to a normal form: a run of slashes is only halved, a path of slashes only becomes empty, and
  the request URI keeps the query from before its normalization.
\<close>

lemma normalize_path_gaps:
  "normalize_path ''//'' = []" "normalize_path ''/a///b'' = ''/a//b''" "normalize_path ''/a//b'' = ''/a/b''"
  by code_simp+

lemma normalize_stale_uri:
  "case Normalization_decide (sample_request\<lparr>req_url := Some \<lparr>u_path = ''/a'', u_rawQuery = ''q=TRUE'', u_host = []\<rparr>\<rparr>) w s of
     Continue r _ _ \<Rightarrow> req_requestURI r = ''/a?q=TRUE'' \<and> map_option u_rawQuery (req_url r) = Some ''q=true''
   | Respond _ _ \<Rightarrow> False"
proof -
  have "normalize_path ''/a'' = ''/a''" by code_simp
  moreover have "normalize_query \<lparr>u_path = ''/a'', u_rawQuery = ''q=TRUE'', u_host = []\<rparr> =
      \<lparr>u_path = ''/a'', u_rawQuery = ''q=true'', u_host = []\<rparr>" by code_simp
  ultimately show ?thesis
    by (simp add: Normalization_decide_def normalizeQueryParams_def normalizeURL_def normalizeHeaders_def sample_request_def on_url_def)
qed

section \<open>Redaction\<close>

definition looks_bearerRE :: regexp where
  "looks_bearerRE =
     Seq TextBegin (Seq (Star (Class is_space_class)) (Seq (LitFold ''bearer'') (Seq (Plus (Class is_space_class))
       (Seq (Plus (Class bearer_token_byte)) (Seq (Star (Class (\<lambda>c. c = CHR ''=''))) TextEnd)))))"

definition longTokenRE :: regexp where
  "longTokenRE = Seq (Times 20 (Class bearer_token_byte)) (Star (Class bearer_token_byte))"

definition looksLikeToken :: "string \<Rightarrow> bool" where
  "looksLikeToken s =
     (if s = [] then False
      else if MatchString looks_bearerRE s then True
      else MatchString longTokenRE s \<and> length s > 30)"

definition REDACTED :: string where "REDACTED = ''REDACTED''"

definition redact_value :: "string \<Rightarrow> string" where
  "redact_value v = (if looksLikeToken v then REDACTED else v)"

definition redactHeaders :: "header \<Rightarrow> header" where
  "redactHeaders h =
     (\<lambda>k. map_option (\<lambda>vs. if IsSensitiveKey k then [REDACTED] else map redact_value vs) (h k))"

text \<open>
  \<open>redactQuery\<close> on the pairs of the query: a sensitive key keeps a single value. The pairs of other keys stay.
\<close>

definition redactQuery :: "(string \<times> string) list \<Rightarrow> (string \<times> string) list" where
  "redactQuery ps =
     map (\<lambda>k. (k, REDACTED)) (remdups (filter IsSensitiveKey (map fst ps))) @
     map (apsnd redact_value) (filter (\<lambda>pr. \<not> IsSensitiveKey (fst pr)) ps)"

definition redactBody :: "(string \<Rightarrow> gval option) \<Rightarrow> (gval \<Rightarrow> string option) \<Rightarrow> string \<Rightarrow> string \<Rightarrow> string" where
  "redactBody unmarshal marshal b contentType =
     (if b = [] then b
      else (case (if Contains (ToLower contentType) ''application/json''
                  then Option.bind (unmarshal b) (\<lambda>v. marshal (RedactValue v)) else None) of
              Some out \<Rightarrow> out
            | None \<Rightarrow> ReplaceAllString longTokenRE (ReplaceAllString looks_bearerRE b REDACTED) REDACTED))"

definition redacted_request :: "(string \<Rightarrow> gval option) \<Rightarrow> (gval \<Rightarrow> string option) \<Rightarrow> request \<Rightarrow> request" where
  "redacted_request unmarshal marshal req =
     (let r2 = on_url (\<lambda>u. u\<lparr>u_rawQuery := Values_Encode (redactQuery (url_Query u))\<rparr>)
                 (req\<lparr>req_header := redactHeaders (req_header req)\<rparr>)
      in case req_body req of
           Some (Body b) \<Rightarrow> r2\<lparr>req_body := Some (Body (redactBody unmarshal marshal b (Header_Get (req_header req) ''Content-Type'')))\<rparr>
         | Some (BrokenBody _) \<Rightarrow> r2\<lparr>req_body := Some (BrokenBody [])\<rparr>
         | None \<Rightarrow> r2)"

definition Redaction_decide :: "(string \<Rightarrow> gval option) \<Rightarrow> (gval \<Rightarrow> string option) \<Rightarrow> 's decision" where
  "Redaction_decide unmarshal marshal req w s = Continue (redacted_request unmarshal marshal req) w s"

definition RedactionMiddleware :: "(string \<Rightarrow> gval option) \<Rightarrow> (gval \<Rightarrow> string option) \<Rightarrow> 's middleware" where
  "RedactionMiddleware unmarshal marshal = middleware_of (Redaction_decide unmarshal marshal)"

lemma REDACTED_no_token: "\<not> looksLikeToken REDACTED"
  by code_simp

lemma redact_value_hides: "\<not> looksLikeToken (redact_value v)"
  by (simp add: redact_value_def REDACTED_no_token)

text \<open>
  The handler behind the redaction middleware finds no credential in the headers and the query: every value under
  a sensitive name is \<open>REDACTED\<close>, no other value looks like a token, and a JSON body it sees is the redacted
  document, with nothing under a sensitive key.
\<close>
theorem redaction_middleware_hides:
  assumes "Redaction_decide unmarshal marshal req w s = Continue r w' s'"
  shows "(req_header r k = Some vs \<and> v \<in> set vs \<longrightarrow> (if IsSensitiveKey k then v = REDACTED else \<not> looksLikeToken v)) \<and>
    (req_url r = Some u \<and> (k, v) \<in> set (url_Query u) \<longrightarrow> (if IsSensitiveKey k then v = REDACTED else \<not> looksLikeToken v)) \<and>
    (req_body req = Some (Body b) \<and> b \<noteq> [] \<and> Contains (ToLower (Header_Get (req_header req) ''Content-Type'')) ''application/json'' \<and>
       unmarshal b = Some doc \<and> marshal (RedactValue doc) = Some out \<longrightarrow>
       req_body r = Some (Body out) \<and> secrets_hidden (RedactValue doc))"
proof -
  have r: "r = redacted_request unmarshal marshal req" using assms by (simp add: Redaction_decide_def)
  have h: "req_header r = redactHeaders (req_header req)"
    by (auto simp: r redacted_request_def Let_def split: option.splits body.splits)
  have u: "req_url r = map_option (\<lambda>u. u\<lparr>u_rawQuery := Values_Encode (redactQuery (url_Query u))\<rparr>) (req_url req)"
    by (auto simp: r redacted_request_def Let_def split: option.splits body.splits)
  show ?thesis
    using h u by (auto simp: redactHeaders_def redact_value_hides url_Query_Encode redactQuery_def RedactValue_hides
        r redacted_request_def redactBody_def split: if_splits)
qed

theorem redaction_middleware_hides_witness:
  "\<exists>r. Redaction_decide (\<lambda>_. None) (\<lambda>_. None) (sample_request\<lparr>req_header := [''Cookie'' \<mapsto> [''id=7'']]\<rparr>) fresh_writer (0::nat) =
     Continue r fresh_writer 0 \<and> req_header r ''Cookie'' = Some [REDACTED]"
proof -
  have k: "IsSensitiveKey ''Cookie''" by code_simp
  let ?req = "sample_request\<lparr>req_header := [''Cookie'' \<mapsto> [''id=7'']]\<rparr>"
  let ?r = "redacted_request (\<lambda>_. None) (\<lambda>_. None) ?req"
  have d: "Redaction_decide (\<lambda>_. None) (\<lambda>_. None) ?req fresh_writer (0::nat) = Continue ?r fresh_writer 0"
    by (simp add: Redaction_decide_def)
  have "req_header ?r ''Cookie'' = Some [REDACTED]"
    using k by (simp add: redacted_request_def redactHeaders_def sample_request_def)
  with d redaction_middleware_hides [OF d, of "''Cookie''" "[REDACTED]" REDACTED] show ?thesis by blast
qed

section \<open>The middlewares as guards\<close>

lemmas [handler_defs] = SanitizationMiddleware_def NormalizationMiddleware_def RedactionMiddleware_def

text \<open>They change headers, so none of them is an \<open>identity_guard\<close>.\<close>

interpretation sanitization_guard: guard "SanitizationMiddleware unm m" "Sanitization_decide unm m" for unm m
  by unfold_locales (simp add: handler_defs)

interpretation normalization_guard: guard NormalizationMiddleware Normalization_decide
  by unfold_locales (simp add: handler_defs)

interpretation redaction_guard: guard "RedactionMiddleware unm m" "Redaction_decide unm m" for unm m
  by unfold_locales (simp add: handler_defs)

end
