(* ===== verification/Security.thy ===== *)
theory Security
  imports Base64 Regexp
begin

text \<open>
  Password hashing (\<open>security/hashing\<close>), authenticated encryption (\<open>security/encryption\<close>) and OAuth scopes
  (\<open>security/oauth\<close>). Argon2, its version number and the AEAD are arguments; the encoded form of a hash is written
  and read by the code, with \<open>fmt.Sprintf\<close> and \<open>fmt.Sscanf\<close> as modelled here.
\<close>

section \<open>Scanning\<close>

text \<open>
  \<open>fmt.Sscanf\<close> for literal text and the verb \<open>%d\<close>: the verb skips blanks (a newline is an error), needs at least one
  digit and checks the range of its operand; text after the last verb is not looked at.
\<close>

definition scan_space :: "string \<Rightarrow> string option" where
  "scan_space s = (let t = trim_left (filter (\<lambda>w. w \<noteq> [CHR 0x0A]) space_seqs) s in if HasPrefix t [CHR 0x0A] then None else Some t)"

definition scan_digits :: "string \<Rightarrow> (nat \<times> string) option" where
  "scan_digits s =
     (let ds = takeWhile is_digit s in if ds = [] then None else Some (digits_val ds, drop (length ds) s))"

definition scan_uint32 :: "string \<Rightarrow> (nat \<times> string) option" where
  "scan_uint32 s =
     Option.bind (scan_space s) (\<lambda>t. Option.bind (scan_digits t) (\<lambda>nr. if fst nr < 2 ^ 32 then Some nr else None))"

definition scan_int :: "string \<Rightarrow> (int \<times> string) option" where
  "scan_int s =
     Option.bind (scan_space s) (\<lambda>t.
       let neg = HasPrefix t ''-''; u = (if neg \<or> HasPrefix t ''+'' then tl t else t)
       in Option.bind (scan_digits u) (\<lambda>nr.
            let v = (if neg then - int (fst nr) else int (fst nr)) in if in_int64 v then Some (v, snd nr) else None))"

lemma scan_space_plain: "c \<notin> hd ` set space_seqs \<Longrightarrow> scan_space (c # s) = Some (c # s)"
proof -
  assume c: "c \<notin> hd ` set space_seqs"
  have "strip_one ws (c # s) = None" if "set ws \<subseteq> set space_seqs" for ws
    using that c
  proof (induction ws)
    case (Cons w ws)
    moreover have "w \<noteq> []" using Cons.prems(1) by (auto simp: space_seqs_def)
    ultimately show ?case by (cases w) (force simp: HasPrefix_iff)+
  qed simp
  then have "trim_left (filter (\<lambda>w. w \<noteq> [CHR 0x0A]) space_seqs) (c # s) = c # s"
    by (subst trim_left.simps) auto
  moreover have "c \<noteq> CHR 0x0A" using c by (auto simp: space_seqs_def)
  ultimately show ?thesis by (simp add: scan_space_def HasPrefix_def)
qed

lemma digit_not_space: "is_digit c \<Longrightarrow> c \<notin> hd ` set space_seqs"
  by (auto simp: space_seqs_def is_digit_def)

lemma scan_digits_nat: "\<not> is_digit (hd (rest @ ''x'')) \<Longrightarrow> scan_digits (nat_digits n @ rest) = Some (n, rest)"
proof -
  assume r: "\<not> is_digit (hd (rest @ ''x''))"
  note p = nat_digits_props [of n]
  have "takeWhile is_digit (nat_digits n @ rest) = nat_digits n"
    using p r by (cases rest) (auto simp: takeWhile_append list_all_iff)
  with p show ?thesis by (simp add: scan_digits_def)
qed

lemma scan_space_digits: "scan_space (nat_digits n @ rest) = Some (nat_digits n @ rest)"
proof -
  obtain c r where cr: "nat_digits n = c # r" using nat_digits_props [of n] by (cases "nat_digits n") auto
  with nat_digits_hd [OF cr] show ?thesis by (simp add: scan_space_plain digit_not_space)
qed

lemma scan_uint32_nat:
  "n < 2 ^ 32 \<Longrightarrow> \<not> is_digit (hd (rest @ ''x'')) \<Longrightarrow> scan_uint32 (nat_digits n @ rest) = Some (n, rest)"
  by (simp add: scan_uint32_def scan_space_digits scan_digits_nat)

lemma scan_int_nat:
  assumes "in_int64 (int n)" and "\<not> is_digit (hd (rest @ ''x''))"
  shows "scan_int (nat_digits n @ rest) = Some (int n, rest)"
proof -
  obtain c r where cr: "nat_digits n = c # r" using nat_digits_props [of n] by (cases "nat_digits n") auto
  then have "c \<noteq> CHR ''-'' \<and> c \<noteq> CHR ''+''" using nat_digits_hd [OF cr] by (auto simp: is_digit_def)
  then have "\<not> HasPrefix (nat_digits n @ rest) ''-''" "\<not> HasPrefix (nat_digits n @ rest) ''+''"
    by (simp_all add: cr HasPrefix_def)
  with assms show ?thesis by (simp add: scan_int_def scan_space_digits scan_digits_nat Let_def)
qed

section \<open>Hashing\<close>

definition DefaultMemory :: nat where "DefaultMemory = 64 * 1024"
definition DefaultTime :: nat where "DefaultTime = 3"
definition DefaultParallelism :: nat where "DefaultParallelism = 2"
definition DefaultSaltLen :: nat where "DefaultSaltLen = 16"
definition DefaultKeyLen :: nat where "DefaultKeyLen = 32"

text \<open>The configuration and the hasher; their fields are 32-bit numbers, the parallelism an 8-bit one.\<close>

record hashConfig =
  hc_Memory :: nat
  hc_Time :: nat
  hc_Parallelism :: nat
  hc_SaltLen :: nat
  hc_KeyLen :: nat

definition hash_fits :: "hashConfig \<Rightarrow> bool" where
  "hash_fits c \<longleftrightarrow> hc_Memory c < 2 ^ 32 \<and> hc_Time c < 2 ^ 32 \<and> hc_Parallelism c < 2 ^ 8 \<and> hc_SaltLen c < 2 ^ 32 \<and> hc_KeyLen c < 2 ^ 32"

datatype hash_error =
    TooLittleMemory | ShortSalt | ShortKey | SaltFailure
  | Malformed | UnsupportedAlgorithm string | BadVersion | UnsupportedVersion int | BadParameters | InvalidParameters
  | BadSalt | BadKey | EmptySaltOrKey

definition or_default :: "nat \<Rightarrow> nat \<Rightarrow> nat" where
  "or_default n d = (if n = 0 then d else n)"

definition hashing_New :: "hashConfig \<Rightarrow> (hash_error, hashConfig) res" where
  "hashing_New cfg0 =
     (let cfg = \<lparr>hc_Memory = or_default (hc_Memory cfg0) DefaultMemory, hc_Time = or_default (hc_Time cfg0) DefaultTime,
                 hc_Parallelism = or_default (hc_Parallelism cfg0) DefaultParallelism,
                 hc_SaltLen = or_default (hc_SaltLen cfg0) DefaultSaltLen, hc_KeyLen = or_default (hc_KeyLen cfg0) DefaultKeyLen\<rparr>
      in if hc_Memory cfg < 8 * hc_Parallelism cfg then Inl TooLittleMemory
         else if hc_SaltLen cfg < 8 then Inl ShortSalt
         else if hc_KeyLen cfg < 16 then Inl ShortKey
         else Inr cfg)"

text \<open>
  \<open>idkey\<close> stands for \<open>argon2.IDKey\<close> (password, salt, time, memory, threads, key length), \<open>ver\<close> for \<open>argon2.Version\<close>,
  \<open>rand n\<close> for \<open>n\<close> random bytes.
\<close>

type_synonym idkey = "string \<Rightarrow> string \<Rightarrow> nat \<Rightarrow> nat \<Rightarrow> nat \<Rightarrow> nat \<Rightarrow> string"

definition encode_hash :: "int \<Rightarrow> hashConfig \<Rightarrow> string \<Rightarrow> string \<Rightarrow> string" where
  "encode_hash ver h salt key =
     ''$argon2id$v='' @ Itoa ver @ ''$m='' @ Itoa (int (hc_Memory h)) @ '',t='' @ Itoa (int (hc_Time h)) @ '',p='' @
     Itoa (int (hc_Parallelism h)) @ ''$'' @ EncodeToString std_alphabet salt @ ''$'' @ EncodeToString std_alphabet key"

definition Hash :: "idkey \<Rightarrow> int \<Rightarrow> (nat \<Rightarrow> string option) \<Rightarrow> hashConfig \<Rightarrow> string \<Rightarrow> (hash_error, string) res" where
  "Hash idkey ver rand h plaintext =
     (case rand (hc_SaltLen h) of
        None \<Rightarrow> Inl SaltFailure
      | Some salt \<Rightarrow>
          Inr (encode_hash ver h salt (idkey plaintext salt (hc_Time h) (hc_Memory h) (hc_Parallelism h) (hc_KeyLen h))))"

record hashParams =
  hp_memory :: nat
  hp_time :: nat
  hp_parallelism :: nat

definition scan_version :: "string \<Rightarrow> int option" where
  "scan_version s = Option.bind (CutPrefix s ''v='') (\<lambda>t. map_option fst (scan_int t))"

definition scan_params :: "string \<Rightarrow> (nat \<times> nat \<times> nat) option" where
  "scan_params s =
     Option.bind (CutPrefix s ''m='') (\<lambda>a. Option.bind (scan_uint32 a) (\<lambda>(mem, b).
     Option.bind (CutPrefix b '',t='') (\<lambda>c. Option.bind (scan_uint32 c) (\<lambda>(tm, d).
     Option.bind (CutPrefix d '',p='') (\<lambda>e. Option.bind (scan_uint32 e) (\<lambda>(par, _). Some (mem, tm, par)))))))"

definition hash_decode :: "int \<Rightarrow> string \<Rightarrow> (hash_error, hashParams \<times> string \<times> string) res" where
  "hash_decode ver encodedHash =
     (let parts = Split encodedHash CHR ''$''
      in if length parts \<noteq> 6 \<or> parts ! 0 \<noteq> [] then Inl Malformed
         else if parts ! 1 \<noteq> ''argon2id'' then Inl (UnsupportedAlgorithm (parts ! 1))
         else case scan_version (parts ! 2) of
           None \<Rightarrow> Inl BadVersion
         | Some version \<Rightarrow>
             if version \<noteq> ver then Inl (UnsupportedVersion version)
             else case scan_params (parts ! 3) of
               None \<Rightarrow> Inl BadParameters
             | Some (mem, tm, par) \<Rightarrow>
                 if tm = 0 \<or> par = 0 \<or> par > 255 \<or> mem < 8 * par then Inl InvalidParameters
                 else case DecodeString std_alphabet (parts ! 4) of
                   None \<Rightarrow> Inl BadSalt
                 | Some salt \<Rightarrow>
                     (case DecodeString std_alphabet (parts ! 5) of
                        None \<Rightarrow> Inl BadKey
                      | Some key \<Rightarrow>
                          if length salt = 0 \<or> length key = 0 then Inl EmptySaltOrKey
                          else Inr (\<lparr>hp_memory = mem, hp_time = tm, hp_parallelism = par\<rparr>, salt, key)))"

definition Hash_Verify :: "idkey \<Rightarrow> int \<Rightarrow> string \<Rightarrow> string \<Rightarrow> (hash_error, bool) res" where
  "Hash_Verify idkey ver plaintext encodedHash =
     bind_res (hash_decode ver encodedHash) (\<lambda>(p, salt, key).
       Inr (idkey plaintext salt (hp_time p) (hp_memory p) (hp_parallelism p) (length key) = key))"

subsection \<open>Round trip\<close>

lemma no_dollar_digits: "CHR ''$'' \<notin> set (nat_digits n)"
  using nat_digits_props [of n] by (auto simp: list_all_iff is_digit_def)

lemma no_dollar_base64: "CHR ''$'' \<notin> set (EncodeToString std_alphabet bs)"
proof -
  have "CHR ''$'' \<notin> set std_alphabet" by code_simp
  then show ?thesis using EncodeToString_chars [OF alphabet_ok(1)] by blast
qed

lemma Split_encode_hash:
  assumes "0 \<le> ver"
  shows "Split (encode_hash ver h salt key) CHR ''$'' =
    [[], ''argon2id'', ''v='' @ nat_digits (nat ver),
     ''m='' @ nat_digits (hc_Memory h) @ '',t='' @ nat_digits (hc_Time h) @ '',p='' @ nat_digits (hc_Parallelism h),
     EncodeToString std_alphabet salt, EncodeToString std_alphabet key]" (is "_ = ?parts")
proof -
  have "encode_hash ver h salt key = Join ?parts ''$''"
    using assms by (simp add: encode_hash_def Itoa_def)
  moreover have "CHR ''$'' \<notin> set p" if "p \<in> set ?parts" for p
    using that by (auto simp: no_dollar_digits no_dollar_base64)
  ultimately show ?thesis using Split_Join [of ?parts "CHR ''$''"] by simp
qed

lemma scan_version_digits: "in_int64 (int n) \<Longrightarrow> scan_version (''v='' @ nat_digits n) = Some (int n)"
  using scan_int_nat [of n "[]"] by (simp add: scan_version_def CutPrefix_def HasPrefix_def is_digit_def)

lemma scan_params_digits:
  assumes "a < 2 ^ 32" "b < 2 ^ 32" "c < 2 ^ 32"
  shows "scan_params (''m='' @ nat_digits a @ '',t='' @ nat_digits b @ '',p='' @ nat_digits c) = Some (a, b, c)"
  using assms scan_uint32_nat [of c "[]"]
  by (simp add: scan_params_def CutPrefix_def HasPrefix_def scan_uint32_nat is_digit_def)

lemma hash_decode_encode:
  assumes "0 \<le> ver" "in_int64 ver" "hash_fits h" "0 < hc_Time h" "0 < hc_Parallelism h" "8 * hc_Parallelism h \<le> hc_Memory h"
    and "salt \<noteq> []" "key \<noteq> []"
  shows "hash_decode ver (encode_hash ver h salt key) =
    Inr (\<lparr>hp_memory = hc_Memory h, hp_time = hc_Time h, hp_parallelism = hc_Parallelism h\<rparr>, salt, key)"
proof -
  have b64: "DecodeString std_alphabet (EncodeToString std_alphabet bs) = Some bs" for bs
    by (rule Decode_Encode) (rule alphabet_ok)+
  have "scan_version (''v='' @ nat_digits (nat ver)) = Some ver"
    using scan_version_digits [of "nat ver"] assms(1,2) by simp
  then show ?thesis
    using assms by (simp add: hash_decode_def Split_encode_hash scan_params_digits hash_fits_def b64 del: append.simps append_Cons)
qed

lemma hashing_New_ok:
  assumes "hashing_New cfg = Inr h" and "hash_fits cfg"
  shows "hash_fits h \<and> 0 < hc_Time h \<and> 0 < hc_Parallelism h \<and> 8 * hc_Parallelism h \<le> hc_Memory h \<and> 8 \<le> hc_SaltLen h \<and> 16 \<le> hc_KeyLen h"
  using assms by (auto simp: hashing_New_def Let_def or_default_def hash_fits_def DefaultMemory_def DefaultTime_def
      DefaultParallelism_def DefaultSaltLen_def DefaultKeyLen_def split: if_splits)

text \<open>
  C32: A hash made by a hasher that \<open>New\<close> has accepted can be read back whatever its parameters: \<open>Verify\<close> answers, for any
  password, whether Argon2 gives it the same key under the stored salt and parameters; in particular the right
  password is accepted.
\<close>
theorem hash_verify_roundtrip:
  assumes "hashing_New cfg = Inr h" and "hash_fits cfg" and "0 \<le> ver" and "in_int64 ver"
    and "rand (hc_SaltLen h) = Some salt" and "length salt = hc_SaltLen h"
    and "\<And>p s t m l n. length (idkey p s t m l n) = n"
  shows "\<exists>enc. Hash idkey ver rand h pw = Inr enc \<and>
    Hash_Verify idkey ver pw' enc =
      Inr (idkey pw' salt (hc_Time h) (hc_Memory h) (hc_Parallelism h) (hc_KeyLen h) =
           idkey pw salt (hc_Time h) (hc_Memory h) (hc_Parallelism h) (hc_KeyLen h)) \<and>
    Hash_Verify idkey ver pw enc = Inr True"
proof -
  let ?key = "idkey pw salt (hc_Time h) (hc_Memory h) (hc_Parallelism h) (hc_KeyLen h)"
  note ok = hashing_New_ok [OF assms(1,2)]
  have "length salt \<noteq> 0" "length ?key \<noteq> 0" using ok assms(6,7) by simp_all
  then have "salt \<noteq> []" "?key \<noteq> []" by auto
  then have "hash_decode ver (encode_hash ver h salt ?key) =
      Inr (\<lparr>hp_memory = hc_Memory h, hp_time = hc_Time h, hp_parallelism = hc_Parallelism h\<rparr>, salt, ?key)"
    using ok assms(3,4) by (intro hash_decode_encode) auto
  then show ?thesis
    using assms(5,7) by (simp add: Hash_def Hash_Verify_def bind_res_def)
qed

theorem hash_verify_roundtrip_witness:
  "\<exists>h enc. hashing_New \<lparr>hc_Memory = 0, hc_Time = 0, hc_Parallelism = 0, hc_SaltLen = 0, hc_KeyLen = 0\<rparr> = Inr h \<and>
     Hash (\<lambda>p s t m l n. replicate n (if p = ''pw'' then CHR ''k'' else CHR ''x'')) 19 (\<lambda>n. Some (replicate n CHR ''s'')) h ''pw'' = Inr enc \<and>
     Hash_Verify (\<lambda>p s t m l n. replicate n (if p = ''pw'' then CHR ''k'' else CHR ''x'')) 19 ''pw'' enc = Inr True"
proof -
  let ?cfg = "\<lparr>hc_Memory = 0, hc_Time = 0, hc_Parallelism = 0, hc_SaltLen = 0, hc_KeyLen = 0\<rparr>"
  obtain h where h: "hashing_New ?cfg = Inr h"
    by (simp add: hashing_New_def or_default_def DefaultMemory_def DefaultParallelism_def DefaultSaltLen_def DefaultKeyLen_def)
  let ?idkey = "\<lambda>p s t m l n. replicate n (if p = ''pw'' then CHR ''k'' else CHR ''x'')"
  obtain enc where "Hash ?idkey 19 (\<lambda>n. Some (replicate n CHR ''s'')) h ''pw'' = Inr enc" "Hash_Verify ?idkey 19 ''pw'' enc = Inr True"
    using hash_verify_roundtrip [OF h, where ver = 19 and rand = "\<lambda>n. Some (replicate n CHR ''s'')" and
        salt = "replicate (hc_SaltLen h) CHR ''s''" and idkey = ?idkey and pw = "''pw''"]
    by (auto simp: hash_fits_def in_int64_def)
  with h show ?thesis by blast
qed

section \<open>Encryption\<close>

definition KeySize :: nat where "KeySize = 32"

text \<open>
  The AEAD for a key (AES-256 in GCM): the size of its nonces, \<open>Seal\<close> and \<open>Open\<close> without additional data. \<open>cipher\<close>
  makes it, and may fail.
\<close>

record aead =
  NonceSize :: nat
  Seal :: "string \<Rightarrow> string \<Rightarrow> string"
  Open :: "string \<Rightarrow> string \<Rightarrow> string option"

datatype enc_error = BadKeySize nat | CipherFailure | NonceFailure | CiphertextTooShort | OpenFailure

definition enc_New :: "(string \<Rightarrow> aead option) \<Rightarrow> string \<Rightarrow> (enc_error, aead) res" where
  "enc_New cipher key =
     (if length key \<noteq> KeySize then Inl (BadKeySize (length key))
      else (case cipher key of None \<Rightarrow> Inl CipherFailure | Some c \<Rightarrow> Inr c))"

definition Encrypt :: "(nat \<Rightarrow> string option) \<Rightarrow> aead \<Rightarrow> string \<Rightarrow> (enc_error, string) res" where
  "Encrypt rand c plaintext =
     (case rand (NonceSize c) of
        None \<Rightarrow> Inl NonceFailure
      | Some nonce \<Rightarrow> Inr (nonce @ Seal c nonce plaintext))"

definition Decrypt :: "aead \<Rightarrow> string \<Rightarrow> (enc_error, string) res" where
  "Decrypt c blob =
     (let ns = NonceSize c
      in if length blob < ns then Inl CiphertextTooShort
         else (case Open c (take ns blob) (drop ns blob) of None \<Rightarrow> Inl OpenFailure | Some p \<Rightarrow> Inr p))"

text \<open>
  What \<open>Encrypt\<close> returns \<open>Decrypt\<close> turns back into the plaintext, the nonce being the first bytes of the blob; a blob
  that \<open>Decrypt\<close> accepts is at least as long as a nonce, and its plaintext is what the AEAD opens the rest to. \<open>New\<close>
  gives a cipher only for keys of 32 bytes.
\<close>
theorem encrypt_decrypt_roundtrip:
  assumes "\<And>n p. length n = NonceSize c \<Longrightarrow> Open c n (Seal c n p) = Some p"
    and "\<And>n x. rand n = Some x \<Longrightarrow> length x = n"
  shows "(Encrypt rand c p = Inr blob \<longrightarrow> Decrypt c blob = Inr p) \<and>
    (Decrypt c b = Inr q \<longrightarrow> NonceSize c \<le> length b \<and> Open c (take (NonceSize c) b) (drop (NonceSize c) b) = Some q) \<and>
    (enc_New cipher key = Inr c' \<longrightarrow> length key = 32 \<and> cipher key = Some c')"
  using assms
  by (auto simp: Encrypt_def Decrypt_def Let_def enc_New_def KeySize_def split: option.splits if_splits)

definition sample_aead :: aead where
  "sample_aead = \<lparr>NonceSize = 2, Seal = (\<lambda>n p. n @ p), Open = (\<lambda>n x. if take 2 x = n then Some (drop 2 x) else None)\<rparr>"

theorem encrypt_decrypt_roundtrip_witness:
  "Encrypt (\<lambda>n. Some (replicate n CHR ''n'')) sample_aead ''hi'' = Inr ''nnnnhi'' \<and> Decrypt sample_aead ''nnnnhi'' = Inr ''hi''"
proof -
  have e: "Encrypt (\<lambda>n. Some (replicate n CHR ''n'')) sample_aead ''hi'' = Inr ''nnnnhi''" by code_simp
  have "Encrypt (\<lambda>n. Some (replicate n CHR ''n'')) sample_aead ''hi'' = Inr ''nnnnhi'' \<longrightarrow> Decrypt sample_aead ''nnnnhi'' = Inr ''hi''"
    by (rule encrypt_decrypt_roundtrip [THEN conjunct1]) (auto simp: sample_aead_def)
  with e show ?thesis by blast
qed

section \<open>OAuth scopes\<close>

text \<open>\<open>strings.Fields\<close>: the words between runs of white space.\<close>

function fields_loop :: "string \<Rightarrow> string \<Rightarrow> string list" where
  "fields_loop word s =
     (case strip_one space_seqs s of
        Some t \<Rightarrow> if length t < length s then (if word = [] then [] else [word]) @ fields_loop [] t else []
      | None \<Rightarrow> (case s of [] \<Rightarrow> if word = [] then [] else [word] | c # cs \<Rightarrow> fields_loop (word @ [c]) cs))"
  by pat_completeness auto

termination by (relation "measure (\<lambda>(word, s). length s)") auto

declare fields_loop.simps [simp del]

definition Fields :: "string \<Rightarrow> string list" where
  "Fields s = fields_loop [] s"

definition defaultAllowedScopes :: "string list" where
  "defaultAllowedScopes = [''read'', ''write'', ''admin'', ''checkout:read'', ''checkout:write'', ''orders:read'', ''users:profile'']"

definition oauth_New :: "string list \<Rightarrow> string set" where
  "oauth_New AllowedScopes = set (if length AllowedScopes = 0 then defaultAllowedScopes else AllowedScopes)"

definition scope_words :: "string \<Rightarrow> string list" where
  "scope_words scope = Fields (map (\<lambda>c. if c = CHR '','' then CHR '' '' else c) scope)"

primrec scopes_valid :: "string set \<Rightarrow> string list \<Rightarrow> bool" where
  "scopes_valid allowed [] \<longleftrightarrow> True"
| "scopes_valid allowed (s # ss) \<longleftrightarrow>
     (if HasPrefix s ''svc:'' then scopes_valid allowed ss
      else if s \<notin> allowed then False
      else scopes_valid allowed ss)"

definition IsValidScope :: "string set \<Rightarrow> string \<Rightarrow> bool" where
  "IsValidScope allowed scope = (if scope = [] then False else scopes_valid allowed (scope_words scope))"

primrec invalid_scopes :: "string set \<Rightarrow> string list \<Rightarrow> string list \<Rightarrow> string list" where
  "invalid_scopes allowed [] invalid = invalid"
| "invalid_scopes allowed (s # ss) invalid =
     (if HasPrefix s ''svc:'' then invalid_scopes allowed ss invalid
      else if s \<notin> allowed then invalid_scopes allowed ss (invalid @ [s])
      else invalid_scopes allowed ss invalid)"

definition GetInvalidScopes :: "string set \<Rightarrow> string \<Rightarrow> string list" where
  "GetInvalidScopes allowed scope = invalid_scopes allowed (scope_words scope) []"

definition IsValidGrantType :: "string \<Rightarrow> bool" where
  "IsValidGrantType grantType \<longleftrightarrow> grantType \<in> set [''client_credentials'', ''authorization_code'', ''refresh_token'']"

definition scope_ok :: "string set \<Rightarrow> string \<Rightarrow> bool" where
  "scope_ok allowed s \<longleftrightarrow> HasPrefix s ''svc:'' \<or> s \<in> allowed"

lemma scopes_valid_iff: "scopes_valid allowed ss \<longleftrightarrow> (\<forall>s \<in> set ss. scope_ok allowed s)"
  by (induction ss) (auto simp: scope_ok_def)

lemma invalid_scopes_filter: "invalid_scopes allowed ss invalid = invalid @ filter (\<lambda>s. \<not> scope_ok allowed s) ss"
  by (induction ss arbitrary: invalid) (auto simp: scope_ok_def)

text \<open>
  The two readings of a scope list agree: \<open>GetInvalidScopes\<close> lists exactly the words that are neither service scopes
  nor allowed, in order, and \<open>IsValidScope\<close> accepts a non-empty string exactly when that list is empty. A string of
  separators only therefore counts as valid, although it names no scope.
\<close>
theorem scope_checks_agree:
  "GetInvalidScopes allowed scope = filter (\<lambda>s. \<not> scope_ok allowed s) (scope_words scope) \<and>
   IsValidScope allowed scope = (scope \<noteq> [] \<and> GetInvalidScopes allowed scope = []) \<and>
   IsValidScope allowed '','' \<and> scope_words '','' = []"
proof -
  have w: "scope_words '','' = []" by code_simp
  have "IsValidScope al sc = (sc \<noteq> [] \<and> GetInvalidScopes al sc = [])" for al sc
    by (simp add: IsValidScope_def GetInvalidScopes_def invalid_scopes_filter scopes_valid_iff filter_empty_conv)
  then show ?thesis using w by (simp add: GetInvalidScopes_def invalid_scopes_filter)
qed

end
