(* ===== verification/Events.thy ===== *)
theory Events
  imports AwsConfig HttpContext
begin

text \<open>
  Messaging: the clients of SQS and SNS (\<open>aws/sqs\<close>, \<open>aws/sns\<close>) and the events built on them (\<open>events\<close>): the envelope,
  the publisher, and the subscriber's loop with its backoff. The AWS calls and JSON are arguments.
\<close>

section \<open>SQS and SNS\<close>

definition sqs_New :: "(string \<Rightarrow> (string \<times> string) option \<Rightarrow> string option) \<Rightarrow> awsConfig \<Rightarrow> (string, string option) res" where
  "sqs_New = aws_New ''failed to load config: ''"

definition sns_New :: "(string \<Rightarrow> (string \<times> string) option \<Rightarrow> string option) \<Rightarrow> awsConfig \<Rightarrow> (string, string option) res" where
  "sns_New = aws_New ''failed to load config: ''"

record sqsSendInput =
  si_QueueURL :: string
  si_Body :: string
  si_GroupID :: string
  si_DedupID :: string
  si_Attrs :: "(string \<times> string) list"

record sqsMessage =
  sm_ID :: string
  sm_Body :: string
  sm_ReceiptHandle :: string
  sm_Attrs :: "string \<rightharpoonup> string"

text \<open>The inputs of the SDK: optional group and deduplication IDs; attributes as (data type, value) by name.\<close>

record sdkSend =
  ss_target :: string
  ss_message :: string
  ss_group :: "string option"
  ss_dedup :: "string option"
  ss_attrs :: "string \<rightharpoonup> string \<times> string"

record sdkMessage =
  sd_id :: "string option"
  sd_body :: "string option"
  sd_receipt :: "string option"
  sd_attrs :: "string \<rightharpoonup> string option"

record 's sqs_api =
  api_SendMessage :: "sdkSend \<Rightarrow> (string option, 's) svc"
  api_ReceiveMessage :: "string \<Rightarrow> int \<Rightarrow> (sdkMessage list, 's) svc"
  api_DeleteMessage :: "string \<Rightarrow> string \<Rightarrow> (unit, 's) svc"

definition string_attrs :: "(string \<times> string) list \<Rightarrow> (string \<rightharpoonup> string \<times> string)" where
  "string_attrs attrs = map_of (map (\<lambda>a. (fst a, (''String'', snd a))) attrs)"

definition sqs_Send :: "'s sqs_api \<Rightarrow> sqsSendInput \<Rightarrow> (string, 's) svc" where
  "sqs_Send api input =
     svc_call ''failed to send message''
       (api_SendMessage api \<lparr>ss_target = si_QueueURL input, ss_message = si_Body input, ss_group = opt_string (si_GroupID input),
          ss_dedup = opt_string (si_DedupID input), ss_attrs = string_attrs (si_Attrs input)\<rparr>)
       ToString"

definition sqs_message :: "sdkMessage \<Rightarrow> sqsMessage" where
  "sqs_message m = \<lparr>sm_ID = ToString (sd_id m), sm_Body = ToString (sd_body m), sm_ReceiptHandle = ToString (sd_receipt m),
     sm_Attrs = (\<lambda>k. Option.bind (sd_attrs m k) id)\<rparr>"

definition sqs_Receive :: "'s sqs_api \<Rightarrow> string \<Rightarrow> int \<Rightarrow> (sqsMessage list, 's) svc" where
  "sqs_Receive api queueURL maxMessages =
     (let n = (if maxMessages > 10 then 10 else maxMessages)
      in svc_call ''failed to receive message'' (api_ReceiveMessage api queueURL n) (map sqs_message))"

definition sqs_Delete :: "'s sqs_api \<Rightarrow> string \<Rightarrow> string \<Rightarrow> (unit, 's) svc" where
  "sqs_Delete api queueURL receiptHandle = svc_call ''failed to delete message'' (api_DeleteMessage api queueURL receiptHandle) id"

record snsPublishInput =
  pi_TopicARN :: string
  pi_Message :: string
  pi_GroupID :: string
  pi_DedupID :: string
  pi_Attrs :: "(string \<times> string) list"

definition sns_Publish :: "(sdkSend \<Rightarrow> (string option, 's) svc) \<Rightarrow> snsPublishInput \<Rightarrow> (string, 's) svc" where
  "sns_Publish api input =
     svc_call ''failed to publish message''
       (api \<lparr>ss_target = pi_TopicARN input, ss_message = pi_Message input, ss_group = opt_string (pi_GroupID input),
          ss_dedup = opt_string (pi_DedupID input), ss_attrs = string_attrs (pi_Attrs input)\<rparr>)
       ToString"

section \<open>Events\<close>

definition EntityTypes :: "string list" where
  "EntityTypes = [''order'', ''user'', ''payment'', ''cart'', ''inventory'', ''product'', ''shipment'', ''review'']"

record 'p Event =
  ev_ID :: string
  ev_Type :: string
  ev_Source :: string
  ev_EntityID :: string
  ev_EntityType :: string
  ev_OccurredAt :: instant
  ev_Version :: string
  ev_Payload :: 'p
  ev_CorrelationID :: string

definition event_New :: "string \<Rightarrow> instant \<Rightarrow> string \<Rightarrow> string \<Rightarrow> string \<Rightarrow> string \<Rightarrow> 'p \<Rightarrow> 'p Event" where
  "event_New uuid now eventType source entityID entityType payload =
     \<lparr>ev_ID = uuid, ev_Type = eventType, ev_Source = source, ev_EntityID = entityID, ev_EntityType = entityType,
      ev_OccurredAt = now, ev_Version = ''1'', ev_Payload = payload, ev_CorrelationID = []\<rparr>"

definition WithCorrelation :: "string \<Rightarrow> 'p Event \<Rightarrow> 'p Event" where
  "WithCorrelation cid e = e\<lparr>ev_CorrelationID := cid\<rparr>"

definition WithCorrelationFromContext :: "ctx \<Rightarrow> 'p Event \<Rightarrow> 'p Event" where
  "WithCorrelationFromContext c e =
     (let i = HttpContext.GetCorrelationID c in if i \<noteq> [] then e\<lparr>ev_CorrelationID := i\<rparr> else e)"

text \<open>\<open>Publish\<close>: the entity is the message group, so the events of one entity keep their order; the ID deduplicates.\<close>

definition Publish ::
  "('p Event \<Rightarrow> string option) \<Rightarrow> (snsPublishInput \<Rightarrow> (string, 's) svc) \<Rightarrow> string \<Rightarrow> 'p Event \<Rightarrow> (unit, 's) svc" where
  "Publish marshal sns topicARN event s =
     (case marshal event of
        None \<Rightarrow> (Inl ''failed to marshal event'', s)
      | Some body \<Rightarrow>
          (case sns \<lparr>pi_TopicARN = topicARN, pi_Message = body, pi_GroupID = ev_EntityID event, pi_DedupID = ev_ID event, pi_Attrs = []\<rparr> s of
             (Inl e, s') \<Rightarrow> (Inl e, s')
           | (Inr _, s') \<Rightarrow> (Inr (), s')))"

section \<open>The subscriber\<close>

record Subscriber =
  sub_queueURL :: string
  sub_maxBatch :: int

definition NewSubscriber :: "string \<Rightarrow> int \<Rightarrow> Subscriber" where
  "NewSubscriber url MaxBatch = \<lparr>sub_queueURL = url, sub_maxBatch = (if MaxBatch \<le> 0 \<or> MaxBatch > 10 then 10 else MaxBatch)\<rparr>"

definition maxBackoff :: duration where "maxBackoff = 30 * Second"

text \<open>
  What the loop calls, on the state \<open>'s\<close> of the world: the queue, the handler (whether it succeeded), the JSON decoder,
  whether the context is done, and the wait of \<open>select\<close>, which tells whether the context was done first.
\<close>

record ('p, 's) sub_env =
  env_receive :: "string \<Rightarrow> int \<Rightarrow> (sqsMessage list, 's) svc"
  env_delete :: "string \<Rightarrow> string \<Rightarrow> (unit, 's) svc"
  env_handler :: "'p Event \<Rightarrow> 's \<Rightarrow> bool \<times> 's"
  env_decode :: "string \<Rightarrow> 'p Event option"
  env_done :: "'s \<Rightarrow> bool"
  env_wait :: "duration \<Rightarrow> 's \<Rightarrow> bool \<times> 's"

definition handle_message :: "('p, 's) sub_env \<Rightarrow> Subscriber \<Rightarrow> sqsMessage \<Rightarrow> 's \<Rightarrow> 's" where
  "handle_message env sub msg s =
     (case env_decode env (sm_Body msg) of
        None \<Rightarrow> snd (env_delete env (sub_queueURL sub) (sm_ReceiptHandle msg) s)
      | Some evt \<Rightarrow>
          (case env_handler env evt s of
             (False, s') \<Rightarrow> s'
           | (True, s') \<Rightarrow> snd (env_delete env (sub_queueURL sub) (sm_ReceiptHandle msg) s')))"

definition next_backoff :: "duration \<Rightarrow> duration" where
  "next_backoff b = (if b = 0 then Second else (let b' = b * 2 in if b' > maxBackoff then maxBackoff else b'))"

text \<open>One round of the loop: \<open>Inl\<close> when it returns, else the next backoff.\<close>

definition poll :: "('p, 's) sub_env \<Rightarrow> Subscriber \<Rightarrow> duration \<Rightarrow> 's \<Rightarrow> ('s, duration \<times> 's) res" where
  "poll env sub backoff s =
     (if env_done env s then Inl s
      else (case env_receive env (sub_queueURL sub) (sub_maxBatch sub) s of
              (Inl e, s1) \<Rightarrow>
                if env_done env s1 then Inl s1
                else (let b = next_backoff backoff
                      in case env_wait env b s1 of (True, s2) \<Rightarrow> Inl s2 | (False, s2) \<Rightarrow> Inr (b, s2))
            | (Inr msgs, s1) \<Rightarrow> Inr (0, fold (handle_message env sub) msgs s1)))"

partial_function (option) Subscribe :: "('p, 's) sub_env \<Rightarrow> Subscriber \<Rightarrow> duration \<Rightarrow> 's \<Rightarrow> 's option" where
  "Subscribe env sub backoff s =
     (case poll env sub backoff s of Inl s' \<Rightarrow> Some s' | Inr (b, s') \<Rightarrow> Subscribe env sub b s')"

subsection \<open>Deletion follows success\<close>

text \<open>
  The environment with a trace of what the loop did. The specification of the trace: per successful receive the
  messages, and then message by message its segment, for the outcomes \<open>ok\<close> of the handler.
\<close>

datatype 'p action = Got "sqsMessage list" | Handled "'p Event" bool | Deleted string

definition traced :: "('p, 's) sub_env \<Rightarrow> ('p, 's \<times> 'p action list) sub_env" where
  "traced env =
     \<lparr>env_receive = (\<lambda>url n st. case env_receive env url n (fst st) of
         (Inl e, s') \<Rightarrow> (Inl e, s', snd st) | (Inr msgs, s') \<Rightarrow> (Inr msgs, s', snd st @ [Got msgs])),
      env_delete = (\<lambda>url r st. case env_delete env url r (fst st) of (x, s') \<Rightarrow> (x, s', snd st @ [Deleted r])),
      env_handler = (\<lambda>e st. case env_handler env e (fst st) of (ok, s') \<Rightarrow> (ok, s', snd st @ [Handled e ok])),
      env_decode = env_decode env,
      env_done = (\<lambda>st. env_done env (fst st)),
      env_wait = (\<lambda>d st. case env_wait env d (fst st) of (x, s') \<Rightarrow> (x, s', snd st))\<rparr>"

definition segment :: "(string \<Rightarrow> 'p Event option) \<Rightarrow> sqsMessage \<times> bool \<Rightarrow> 'p action list" where
  "segment decode x =
     (case decode (sm_Body (fst x)) of
        None \<Rightarrow> [Deleted (sm_ReceiptHandle (fst x))]
      | Some e \<Rightarrow> Handled e (snd x) # (if snd x then [Deleted (sm_ReceiptHandle (fst x))] else []))"

definition round_trace :: "(string \<Rightarrow> 'p Event option) \<Rightarrow> (sqsMessage \<times> bool) list \<Rightarrow> 'p action list" where
  "round_trace decode xs = Got (map fst xs) # concat (map (segment decode) xs)"

lemma handle_message_trace:
  "\<exists>s' ok. handle_message (traced env) sub msg (s, t) = (s', t @ segment (env_decode env) (msg, ok))"
  by (auto simp: handle_message_def traced_def segment_def split: option.splits prod.splits bool.splits)

lemma handle_messages_trace:
  "\<exists>s' xs. map fst xs = msgs \<and>
     fold (handle_message (traced env) sub) msgs (s, t) = (s', t @ concat (map (segment (env_decode env)) xs))"
proof (induction msgs arbitrary: s t)
  case (Cons m msgs)
  obtain s1 ok where m: "handle_message (traced env) sub m (s, t) = (s1, t @ segment (env_decode env) (m, ok))"
    using handle_message_trace [of env sub m s t] by blast
  obtain s' xs where "map fst xs = msgs" "fold (handle_message (traced env) sub) msgs (s1, t @ segment (env_decode env) (m, ok)) =
      (s', (t @ segment (env_decode env) (m, ok)) @ concat (map (segment (env_decode env)) xs))"
    using Cons.IH [of s1 "t @ segment (env_decode env) (m, ok)"] by blast
  with m show ?case by (intro exI [of _ s'] exI [of _ "(m, ok) # xs"]) simp
qed simp

lemma poll_trace:
  assumes "poll (traced env) sub b (s, t) = r"
  shows "\<exists>rounds. length rounds \<le> 1 \<and>
    snd (case r of Inl st \<Rightarrow> st | Inr (_, st) \<Rightarrow> st) = t @ concat (map (round_trace (env_decode env)) rounds)"
proof (cases "env_done env s")
  case True
  with assms show ?thesis by (auto simp: poll_def traced_def intro: exI [of _ "[]"])
next
  case False
  show ?thesis
  proof (cases "env_receive env (sub_queueURL sub) (sub_maxBatch sub) s")
    case (Pair got s1)
    show ?thesis
    proof (cases got)
      case (Inl e)
      with assms False Pair show ?thesis
        by (auto simp: poll_def traced_def Let_def split: prod.splits bool.splits intro!: exI [of _ "[]"])
    next
      case (Inr msgs)
      obtain s' xs where "map fst xs = msgs" "fold (handle_message (traced env) sub) msgs (s1, t @ [Got msgs]) =
          (s', (t @ [Got msgs]) @ concat (map (segment (env_decode env)) xs))"
        using handle_messages_trace [of msgs env sub s1 "t @ [Got msgs]"] by blast
      with assms False Pair Inr show ?thesis
        by (intro exI [of _ "[xs]"]) (auto simp: poll_def round_trace_def traced_def)
    qed
  qed
qed

lemma Subscribe_trace:
  fixes env :: "('p, 's) sub_env"
  assumes "Subscribe (traced env) sub b st = Some r"
  shows "\<exists>rounds. snd r = snd st @ concat (map (round_trace (env_decode env)) rounds)"
proof -
  define P where "P = (\<lambda>e (sb :: Subscriber) (b :: duration) (st :: 's \<times> 'p action list) (r :: 's \<times> 'p action list).
    e = traced env \<longrightarrow> (\<exists>rounds. snd r = snd st @ concat (map (round_trace (env_decode env)) rounds)))"
  have "P (traced env) sub b st r"
  proof (rule Subscribe.raw_induct [where P = P, OF _ assms])
    fix Sub e sb b st r
    assume IH: "\<And>e sb b st r. Sub e sb b st = Some r \<Longrightarrow> P e sb b st r"
      and body: "(case poll e sb b st of Inl s' \<Rightarrow> Some s' | Inr (b, s') \<Rightarrow> Sub e sb b s') = Some r"
    show "P e sb b st r"
      unfolding P_def
    proof
      assume e: "e = traced env"
      obtain rounds where rounds: "snd (case poll e sb b st of Inl st \<Rightarrow> st | Inr (_, st) \<Rightarrow> st) =
          snd st @ concat (map (round_trace (env_decode env)) rounds)"
        using poll_trace [of env sb b "fst st" "snd st"] e by auto
      show "\<exists>rounds. snd r = snd st @ concat (map (round_trace (env_decode env)) rounds)"
      proof (cases "poll e sb b st")
        case (Inl x)
        with body rounds show ?thesis by auto
      next
        case (Inr y)
        with body have "P e sb (fst y) (snd y) r" by (intro IH) (simp split: prod.splits)
        then obtain more where "snd r = snd (snd y) @ concat (map (round_trace (env_decode env)) more)"
          using e by (auto simp: P_def)
        with rounds Inr have "snd r = snd st @ concat (map (round_trace (env_decode env)) (rounds @ more))"
          by (simp split: prod.splits)
        then show ?thesis by blast
      qed
    qed
  qed
  then show ?thesis by (simp add: P_def)
qed

text \<open>
  C33: Whenever the subscriber's loop returns, its trace is a sequence of rounds, each the messages of one receive
  followed, message by message and in their order, by the handler's call and, only after its success, the deletion;
  a message that does not decode is deleted without a call. So no message is deleted before it has been handled
  successfully, and a failed one stays in the queue.
\<close>
theorem subscriber_deletes_after_success:
  assumes "Subscribe (traced env) sub b (s, t) = Some (s', t')"
  shows "\<exists>rounds. t' = t @ concat (map (round_trace (env_decode env)) rounds)"
  using Subscribe_trace [OF assms] by simp


text \<open>One message, handled successfully; then the context is done.\<close>

definition sample_event :: "unit Event" where
  "sample_event = event_New ''1'' 0 ''order.created'' ''svc'' ''7'' ''order'' ()"

definition sample_msg :: sqsMessage where
  "sample_msg = \<lparr>sm_ID = ''m'', sm_Body = ''{}'', sm_ReceiptHandle = ''r'', sm_Attrs = Map.empty\<rparr>"

definition sample_env :: "(unit, nat) sub_env" where
  "sample_env = \<lparr>env_receive = (\<lambda>_ _ n. (Inr [sample_msg], Suc n)), env_delete = (\<lambda>_ _ n. (Inr (), n)),
     env_handler = (\<lambda>_ n. (True, n)), env_decode = (\<lambda>_. Some sample_event), env_done = (\<lambda>n. n > 0), env_wait = (\<lambda>_ n. (False, n))\<rparr>"

lemma sample_run:
  "Subscribe (traced sample_env) (NewSubscriber ''q'' 1) 0 (0, []) = Some (1, [Got [sample_msg], Handled sample_event True, Deleted ''r''])"
proof -
  have "poll (traced sample_env) (NewSubscriber ''q'' 1) 0 (0, []) = Inr (0, 1, [Got [sample_msg], Handled sample_event True, Deleted ''r''])"
    by (simp add: poll_def traced_def sample_env_def NewSubscriber_def handle_message_def sample_msg_def)
  moreover have "poll (traced sample_env) (NewSubscriber ''q'' 1) 0 (1, t) = Inl (1, t)" for t
    by (simp add: poll_def traced_def sample_env_def)
  ultimately show ?thesis by (subst Subscribe.simps, simp, subst Subscribe.simps, simp)
qed

theorem subscriber_deletes_after_success_witness:
  "\<exists>rounds. [Got [sample_msg], Handled sample_event True, Deleted ''r''] = concat (map (round_trace (env_decode sample_env)) rounds)"
  using subscriber_deletes_after_success [OF sample_run] by simp

subsection \<open>Backoff\<close>

lemma next_backoff_step: "0 < b \<Longrightarrow> next_backoff (min b maxBackoff) = min (2 * b) maxBackoff"
  by (auto simp: next_backoff_def maxBackoff_def Second_def Let_def)

lemma backoff_closed: "(next_backoff ^^ Suc n) 0 = min (2 ^ n * Second) maxBackoff"
proof (induction n)
  case 0
  show ?case by (simp add: next_backoff_def maxBackoff_def Second_def)
next
  case (Suc n)
  have "(next_backoff ^^ Suc (Suc n)) 0 = next_backoff (min (2 ^ n * Second) maxBackoff)" using Suc by simp
  also have "\<dots> = min (2 ^ Suc n * Second) maxBackoff"
    using next_backoff_step [of "2 ^ n * Second"] by (simp add: Second_def)
  finally show ?case .
qed

definition backoff_ok :: "duration \<Rightarrow> bool" where
  "backoff_ok b \<longleftrightarrow> b = 0 \<or> Second \<le> b \<and> b \<le> 30 * Second"

lemma next_backoff_ok: "backoff_ok b \<Longrightarrow> Second \<le> next_backoff b \<and> next_backoff b \<le> 30 * Second"
  by (auto simp: backoff_ok_def next_backoff_def maxBackoff_def Second_def Let_def)

lemma poll_backoff: "poll env sub b s = Inr (b', s') \<Longrightarrow> b' = 0 \<or> b' = next_backoff b"
  by (auto simp: poll_def Let_def split: prod.splits sum.splits bool.splits if_splits)

text \<open>
  After \<open>n + 1\<close> failed receives in a row the subscriber waits \<open>2 ^ n\<close> seconds, at most 30; in every round the
  backoff is reset to none or a wait between one and 30 seconds.
\<close>
theorem subscriber_backoff:
  "(next_backoff ^^ Suc n) 0 = min (2 ^ n * Second) (30 * Second) \<and>
   (backoff_ok b \<and> poll env sub b s = Inr (b', s') \<longrightarrow> b' = 0 \<or> b' = next_backoff b \<and> Second \<le> b' \<and> b' \<le> 30 * Second)"
  using backoff_closed [of n] next_backoff_ok [of b] poll_backoff [of env sub b s b' s'] by (auto simp: maxBackoff_def)

theorem subscriber_backoff_witness:
  "poll (sample_env\<lparr>env_receive := (\<lambda>_ _ n. (Inl ''down'', n))\<rparr>) (NewSubscriber ''q'' 1) Second 0 = Inr (2 * Second, 0) \<and>
   (2 * Second = (0 :: duration) \<or> 2 * Second = next_backoff Second \<and> Second \<le> 2 * Second \<and> 2 * Second \<le> 30 * Second)"
proof -
  let ?env = "sample_env\<lparr>env_receive := (\<lambda>_ _ n. (Inl ''down'', n))\<rparr>"
  have p: "poll ?env (NewSubscriber ''q'' 1) Second 0 = Inr (2 * Second, 0)"
    by (simp add: poll_def sample_env_def next_backoff_def maxBackoff_def Second_def)
  have "backoff_ok Second" by (simp add: backoff_ok_def Second_def)
  with p subscriber_backoff [of 0 Second ?env "NewSubscriber ''q'' 1" 0 "2 * Second" 0] show ?thesis by blast
qed

text \<open>When the context is done after finitely many rounds, the loop returns.\<close>

lemma Subscribe_returns:
  fixes m :: "'s \<Rightarrow> nat"
  assumes "\<And>b s b' s'. poll env sub b s = Inr (b', s') \<Longrightarrow> m s' < m s"
  shows "\<exists>s'. Subscribe env sub b s = Some s'"
proof (induction "m s" arbitrary: b s rule: less_induct)
  case less
  show ?case
  proof (cases "poll env sub b s")
    case (Inl s')
    then show ?thesis by (subst Subscribe.simps) simp
  next
    case (Inr y)
    obtain b' s' where y: "y = (b', s')" by (cases y)
    with Inr assms have "m s' < m s" by blast
    from less [OF this, of b'] Inr y show ?thesis by (subst Subscribe.simps) simp
  qed
qed

end
