(* ===== verification/Rds.thy ===== *)
theory Rds
  imports AwsConfig Complex_Main
begin

text \<open>
  The RDS Data API client (\<open>aws/rds\<close>): Go values to SQL parameters and result fields back to Go values
  (\<open>fields.go\<close>), rows by column name, statements, batches and transactions (\<open>client.go\<close>). The AWS calls are arguments.
\<close>

section \<open>Values and fields\<close>

text \<open>The dynamic types \<open>toField\<close> distinguishes; a value of any other type is \<open>VOther\<close> with the name of its type.\<close>

datatype goval =
    VNil | VString string | VInt int | VInt32 int | VInt64 int | VFloat32 rat | VFloat64 rat | VBool bool | VBytes string
  | VOther string

datatype field =
    StringValue string | LongValue int | DoubleValue rat | BooleanValue bool | BlobValue string | IsNull bool | ArrayValue
  | UnknownField string

definition toField :: "goval \<Rightarrow> (string, field) res" where
  "toField v =
     (case v of
        VNil \<Rightarrow> Inr (IsNull True)
      | VString x \<Rightarrow> Inr (StringValue x)
      | VInt x \<Rightarrow> Inr (LongValue x)
      | VInt32 x \<Rightarrow> Inr (LongValue x)
      | VInt64 x \<Rightarrow> Inr (LongValue x)
      | VFloat32 x \<Rightarrow> Inr (DoubleValue x)
      | VFloat64 x \<Rightarrow> Inr (DoubleValue x)
      | VBool x \<Rightarrow> Inr (BooleanValue x)
      | VBytes x \<Rightarrow> Inr (BlobValue x)
      | VOther ty \<Rightarrow> Inl (''unsupported parameter type '' @ ty @ '': use string, int, int32, int64, float32, float64, bool, []byte, or nil''))"

definition fromField :: "field \<Rightarrow> (string, goval) res" where
  "fromField f =
     (case f of
        StringValue x \<Rightarrow> Inr (VString x)
      | LongValue x \<Rightarrow> Inr (VInt64 x)
      | DoubleValue x \<Rightarrow> Inr (VFloat64 x)
      | BooleanValue x \<Rightarrow> Inr (VBool x)
      | BlobValue x \<Rightarrow> Inr (VBytes x)
      | IsNull _ \<Rightarrow> Inr VNil
      | ArrayValue \<Rightarrow> Inl ''array fields are not supported in v1: use scalar types only''
      | UnknownField ty \<Rightarrow> Inl (''unknown field type '' @ ty))"

text \<open>What a value becomes on its way through the API: integers and floats are widened.\<close>

definition widen :: "goval \<Rightarrow> goval" where
  "widen v = (case v of VInt x \<Rightarrow> VInt64 x | VInt32 x \<Rightarrow> VInt64 x | VFloat32 x \<Rightarrow> VFloat64 x | _ \<Rightarrow> v)"

lemma fromField_toField: "toField v = Inr f \<Longrightarrow> fromField f = Inr (widen v)"
  by (auto simp: toField_def fromField_def widen_def split: goval.splits)

lemma toField_error: "(\<exists>e. toField v = Inl e) \<longleftrightarrow> (\<exists>ty. v = VOther ty)"
  by (auto simp: toField_def split: goval.splits)

section \<open>Parameters and rows\<close>

text \<open>The verb \<open>%q\<close> on a name without control characters, quotes and backslashes.\<close>

definition quoted :: "string \<Rightarrow> string" where
  "quoted s = [CHR 0x22] @ s @ [CHR 0x22]"

record SqlParameter =
  sp_Name :: string
  sp_Value :: field

text \<open>The parameters of a statement; a map is the list of its entries in the order of the iteration.\<close>

primrec buildSQLParameters :: "(string \<times> goval) list \<Rightarrow> (string, SqlParameter list) res" where
  "buildSQLParameters [] = Inr []"
| "buildSQLParameters (x # rest) =
     (case toField (snd x) of
        Inl e \<Rightarrow> Inl (''failed to convert parameter '' @ quoted (fst x) @ '': '' @ e)
      | Inr f \<Rightarrow>
          (case buildSQLParameters rest of
             Inl e \<Rightarrow> Inl e
           | Inr ps \<Rightarrow> Inr (\<lparr>sp_Name = fst x, sp_Value = f\<rparr> # ps)))"

definition column_name :: "string option list \<Rightarrow> nat \<Rightarrow> string" where
  "column_name cols j =
     (let n = (if j < length cols then ToString (cols ! j) else []) in if n = [] then ''col_'' @ nat_digits j else n)"

primrec decode_row :: "string option list \<Rightarrow> nat \<Rightarrow> nat \<Rightarrow> field list \<Rightarrow> (string \<rightharpoonup> goval) \<Rightarrow> (string, string \<rightharpoonup> goval) res" where
  "decode_row cols i j [] row = Inr row"
| "decode_row cols i j (f # fs) row =
     (case fromField f of
        Inl e \<Rightarrow> Inl (''failed to decode field '' @ quoted (column_name cols j) @ '' in row '' @ nat_digits i @ '': '' @ e)
      | Inr v \<Rightarrow> decode_row cols i (Suc j) fs (row(column_name cols j \<mapsto> v)))"

primrec decode_rows :: "string option list \<Rightarrow> nat \<Rightarrow> field list list \<Rightarrow> (string, (string \<rightharpoonup> goval) list) res" where
  "decode_rows cols i [] = Inr []"
| "decode_rows cols i (r # rs) =
     (case decode_row cols i 0 r Map.empty of
        Inl e \<Rightarrow> Inl e
      | Inr row \<Rightarrow> (case decode_rows cols (Suc i) rs of Inl e \<Rightarrow> Inl e | Inr rows \<Rightarrow> Inr (row # rows)))"

definition decodeRecords :: "field list list \<Rightarrow> string option list \<Rightarrow> (string, (string \<rightharpoonup> goval) list) res" where
  "decodeRecords records cols = decode_rows cols 0 records"

primrec decode_fields_from :: "nat \<Rightarrow> field list \<Rightarrow> (string, goval list) res" where
  "decode_fields_from i [] = Inr []"
| "decode_fields_from i (f # fs) =
     (case fromField f of
        Inl e \<Rightarrow> Inl (''failed to decode field at index '' @ nat_digits i @ '': '' @ e)
      | Inr v \<Rightarrow> (case decode_fields_from (Suc i) fs of Inl e \<Rightarrow> Inl e | Inr vs \<Rightarrow> Inr (v # vs)))"

definition decodeFields :: "field list \<Rightarrow> (string, goval list) res" where
  "decodeFields fs = decode_fields_from 0 fs"

section \<open>The client\<close>

record rdsConfig = awsConfig +
  rc_ResourceArn :: string
  rc_SecretArn :: string
  rc_Database :: string

record rdsClient =
  rds_resourceARN :: string
  rds_secretARN :: string
  rds_database :: string

definition rds_newWithAPI :: "string \<Rightarrow> string \<Rightarrow> string \<Rightarrow> rdsClient" where
  "rds_newWithAPI resourceARN secretARN database =
     \<lparr>rds_resourceARN = resourceARN, rds_secretARN = secretARN, rds_database = database\<rparr>"

definition rds_New ::
  "(string \<Rightarrow> (string \<times> string) option \<Rightarrow> string option) \<Rightarrow> rdsConfig \<Rightarrow> (string, rdsClient \<times> string option) res" where
  "rds_New load c =
     (if ac_Region c = [] then Inl ''missing region''
      else if rc_ResourceArn c = [] then Inl ''missing ResourceArn''
      else if rc_SecretArn c = [] then Inl ''missing SecretArn''
      else bind_res (aws_New ''failed to load AWS config: '' load (awsConfig.truncate c))
             (\<lambda>ep. Inr (\<lparr>rds_resourceARN = rc_ResourceArn c, rds_secretARN = rc_SecretArn c, rds_database = rc_Database c\<rparr>, ep)))"

record stmtInput =
  st_SQL :: string
  st_Parameters :: "(string \<times> goval) list"
  st_TransactionID :: string
  st_Database :: string

record batchInput =
  bt_SQL :: string
  bt_ParameterSets :: "(string \<times> goval) list list"
  bt_TransactionID :: string
  bt_Database :: string

text \<open>A request of the SDK: the two ARNs, the statement, the optional database and transaction, the parameter sets.\<close>

record rdsRequest =
  rr_ResourceArn :: string
  rr_SecretArn :: string
  rr_Sql :: string
  rr_Database :: "string option"
  rr_TransactionId :: "string option"
  rr_Parameters :: "SqlParameter list list"

record rdsResult =
  ro_Records :: "field list list"
  ro_ColumnNames :: "string option list"
  ro_NumberOfRecordsUpdated :: int
  ro_GeneratedFields :: "field list"

record stmtOutput =
  so_Rows :: "(string \<rightharpoonup> goval) list"
  so_NumRecords :: int
  so_GeneratedFields :: "goval list"

record 's rds_api =
  api_Execute :: "rdsRequest \<Rightarrow> (rdsResult, 's) svc"
  api_BatchExecute :: "rdsRequest \<Rightarrow> (field list list, 's) svc"
  api_Begin :: "string \<Rightarrow> string \<Rightarrow> string option \<Rightarrow> (string option, 's) svc"
  api_Commit :: "string \<Rightarrow> string \<Rightarrow> string \<Rightarrow> (unit, 's) svc"
  api_Rollback :: "string \<Rightarrow> string \<Rightarrow> string \<Rightarrow> (unit, 's) svc"

definition choose_db :: "rdsClient \<Rightarrow> string \<Rightarrow> string option" where
  "choose_db c database = opt_string (if database \<noteq> [] then database else rds_database c)"

definition ExecuteStatement :: "'s rds_api \<Rightarrow> rdsClient \<Rightarrow> stmtInput \<Rightarrow> (stmtOutput, 's) svc" where
  "ExecuteStatement api c input s =
     (if st_SQL input = [] then (Inl ''SQL is required'', s)
      else (case buildSQLParameters (st_Parameters input) of
              Inl e \<Rightarrow> (Inl (''failed to build SQL parameters: '' @ e), s)
            | Inr params \<Rightarrow>
                (case api_Execute api \<lparr>rr_ResourceArn = rds_resourceARN c, rr_SecretArn = rds_secretARN c, rr_Sql = st_SQL input,
                         rr_Database = choose_db c (st_Database input), rr_TransactionId = opt_string (st_TransactionID input),
                         rr_Parameters = [params]\<rparr> s of
                   (Inl e, s') \<Rightarrow> (Inl (''failed to execute statement: '' @ e), s')
                 | (Inr out, s') \<Rightarrow>
                     (case decodeRecords (ro_Records out) (ro_ColumnNames out) of
                        Inl e \<Rightarrow> (Inl (''failed to decode result rows: '' @ e), s')
                      | Inr rows \<Rightarrow>
                          (case decodeFields (ro_GeneratedFields out) of
                             Inl e \<Rightarrow> (Inl (''failed to decode generated fields: '' @ e), s')
                           | Inr gen \<Rightarrow> (Inr \<lparr>so_Rows = rows, so_NumRecords = ro_NumberOfRecordsUpdated out, so_GeneratedFields = gen\<rparr>, s'))))))"

primrec build_sets :: "nat \<Rightarrow> (string \<times> goval) list list \<Rightarrow> (string, SqlParameter list list) res" where
  "build_sets i [] = Inr []"
| "build_sets i (ps # rest) =
     (case buildSQLParameters ps of
        Inl e \<Rightarrow> Inl (''failed to build SQL parameters for set '' @ nat_digits i @ '': '' @ e)
      | Inr built \<Rightarrow> (case build_sets (Suc i) rest of Inl e \<Rightarrow> Inl e | Inr tail \<Rightarrow> Inr (built # tail)))"

primrec decode_updates :: "nat \<Rightarrow> field list list \<Rightarrow> (string, goval list list) res" where
  "decode_updates i [] = Inr []"
| "decode_updates i (ur # rest) =
     (case decodeFields ur of
        Inl e \<Rightarrow> Inl (''failed to decode generated fields for update result '' @ nat_digits i @ '': '' @ e)
      | Inr gf \<Rightarrow> (case decode_updates (Suc i) rest of Inl e \<Rightarrow> Inl e | Inr tail \<Rightarrow> Inr (gf # tail)))"

definition BatchExecuteStatement :: "'s rds_api \<Rightarrow> rdsClient \<Rightarrow> batchInput \<Rightarrow> (goval list list, 's) svc" where
  "BatchExecuteStatement api c input s =
     (if bt_SQL input = [] then (Inl ''SQL is required'', s)
      else (case build_sets 0 (bt_ParameterSets input) of
              Inl e \<Rightarrow> (Inl e, s)
            | Inr sets \<Rightarrow>
                (case api_BatchExecute api \<lparr>rr_ResourceArn = rds_resourceARN c, rr_SecretArn = rds_secretARN c, rr_Sql = bt_SQL input,
                         rr_Database = choose_db c (bt_Database input), rr_TransactionId = opt_string (bt_TransactionID input),
                         rr_Parameters = sets\<rparr> s of
                   (Inl e, s') \<Rightarrow> (Inl (''failed to batch execute statement: '' @ e), s')
                 | (Inr out, s') \<Rightarrow> (decode_updates 0 out, s'))))"

definition BeginTransaction :: "'s rds_api \<Rightarrow> rdsClient \<Rightarrow> (string, 's) svc" where
  "BeginTransaction api c =
     svc_call ''failed to begin transaction''
       (api_Begin api (rds_resourceARN c) (rds_secretARN c) (opt_string (rds_database c))) ToString"

definition CommitTransaction :: "'s rds_api \<Rightarrow> rdsClient \<Rightarrow> string \<Rightarrow> (unit, 's) svc" where
  "CommitTransaction api c tx =
     svc_call ''failed to commit transaction'' (api_Commit api (rds_resourceARN c) (rds_secretARN c) tx) id"

definition RollbackTransaction :: "'s rds_api \<Rightarrow> rdsClient \<Rightarrow> string \<Rightarrow> (unit, 's) svc" where
  "RollbackTransaction api c tx =
     svc_call ''failed to rollback transaction'' (api_Rollback api (rds_resourceARN c) (rds_secretARN c) tx) id"

section \<open>Rows read back\<close>

definition field_of :: "goval \<Rightarrow> field" where
  "field_of v = projr (toField v)"

definition storable :: "goval \<Rightarrow> bool" where
  "storable v \<longleftrightarrow> (\<forall>ty. v \<noteq> VOther ty)"

lemma fromField_field_of: "storable v \<Longrightarrow> fromField (field_of v) = Inr (widen v)"
  using fromField_toField [of v] by (auto simp: storable_def field_of_def toField_def split: goval.splits)

text \<open>A later column of the same name replaces an earlier one.\<close>

lemma decode_row_values:
  "list_all storable vs \<Longrightarrow>
     decode_row cols i j (map field_of vs) row =
       Inr (row ++ map_of (rev (zip (map (column_name cols) [j..<j + length vs]) (map widen vs))))"
proof (induction vs arbitrary: j row)
  case (Cons v vs)
  have "[j..<j + length (v # vs)] = j # [Suc j..<Suc j + length vs]" by (simp add: upt_conv_Cons del: upt_Suc)
  then have "map_of (rev (zip (map (column_name cols) [j..<j + length (v # vs)]) (map widen (v # vs)))) =
      [column_name cols j \<mapsto> widen v] ++ map_of (rev (zip (map (column_name cols) [Suc j..<Suc j + length vs]) (map widen vs)))"
    by (simp del: upt_Suc)
  moreover have "row(k \<mapsto> v) ++ m = row ++ ([k \<mapsto> v] ++ m)" for k v m by simp
  ultimately show ?case using Cons by (simp add: fromField_field_of del: upt_Suc map_add_assoc)
qed simp

lemma column_name_Some:
  assumes "[] \<notin> set names"
  shows "map (column_name (map Some names)) [0..<length names] = names"
proof (rule nth_equalityI)
  show "map (column_name (map Some names)) [0..<length names] ! i = names ! i"
    if "i < length (map (column_name (map Some names)) [0..<length names])" for i
  proof -
    have "names ! i \<noteq> []" using that assms nth_mem [of i names] by fastforce
    then show ?thesis using that by (simp add: column_name_def ToString_def)
  qed
qed simp

lemma map_of_rev_distinct: "distinct (map fst xs) \<Longrightarrow> map_of (rev xs) = map_of xs"
  by (intro map_of_eqI) (auto simp: rev_map [symmetric] map_of_eq_Some_iff)

text \<open>
  C35: Rows whose columns have distinct, non-empty names are read back as written: each row of the result maps every
  column to its value, with integers and floats widened to 64 bits. Values of other types than those the client
  lists are refused before any call is made.
\<close>
theorem rds_rows_roundtrip:
  assumes "distinct names" and "[] \<notin> set names"
    and "\<And>vs. vs \<in> set rows \<Longrightarrow> length vs = length names \<and> list_all storable vs"
  shows "decodeRecords (map (map field_of) rows) (map Some names) = Inr (map (\<lambda>vs. map_of (zip names (map widen vs))) rows) \<and>
    (\<not> list_all (\<lambda>x. storable (snd x)) ps \<and> st_SQL input \<noteq> [] \<longrightarrow>
       (\<exists>e. ExecuteStatement api c (input\<lparr>st_Parameters := ps\<rparr>) s = (Inl e, s)))"
proof
  have row: "decode_row (map Some names) i 0 (map field_of vs) Map.empty = Inr (map_of (zip names (map widen vs)))"
    if "length vs = length names" "list_all storable vs" for vs i
  proof -
    have "map (column_name (map Some names)) [0..<0 + length vs] = names"
      using that(1) column_name_Some [OF assms(2)] by simp
    then show ?thesis
      using decode_row_values [OF that(2), of "map Some names" i 0 Map.empty] that(1) assms(1)
      by (simp add: map_of_rev_distinct)
  qed
  have "decode_rows (map Some names) i (map (map field_of) rows) = Inr (map (\<lambda>vs. map_of (zip names (map widen vs))) rows)" for i
    using assms(3) by (induction rows arbitrary: i) (simp_all add: row)
  then show "decodeRecords (map (map field_of) rows) (map Some names) = Inr (map (\<lambda>vs. map_of (zip names (map widen vs))) rows)"
    by (simp add: decodeRecords_def)
  have "\<exists>e. buildSQLParameters ps = Inl e" if "\<not> list_all (\<lambda>x. storable (snd x)) ps"
    using that by (induction ps) (auto simp: storable_def toField_def split: sum.splits)
  then show "\<not> list_all (\<lambda>x. storable (snd x)) ps \<and> st_SQL input \<noteq> [] \<longrightarrow>
      (\<exists>e. ExecuteStatement api c (input\<lparr>st_Parameters := ps\<rparr>) s = (Inl e, s))"
    by (auto simp: ExecuteStatement_def)
qed

theorem rds_rows_roundtrip_witness:
  "decodeRecords [[LongValue 7, IsNull True]] [Some ''id'', Some ''name''] = Inr [[''id'' \<mapsto> VInt64 7, ''name'' \<mapsto> VNil]]"
proof -
  have "decodeRecords (map (map field_of) [[VInt 7, VNil]]) (map Some [''id'', ''name'']) =
      Inr (map (\<lambda>vs. map_of (zip [''id'', ''name''] (map widen vs))) [[VInt 7, VNil]])"
    by (rule rds_rows_roundtrip [THEN conjunct1]) (auto simp: storable_def)
  then show ?thesis by (simp add: field_of_def toField_def widen_def fun_upd_twist)
qed

text \<open>Two columns of one name (as in a join) leave one value.\<close>

lemma duplicate_column_lost:
  "decodeRecords [[LongValue 1, LongValue 2]] [Some ''id'', Some ''id''] = Inr [[''id'' \<mapsto> VInt64 2]]"
  by (simp add: decodeRecords_def fromField_def column_name_def ToString_def)

end
