(* ===== verification/AwsClients.thy ===== *)
theory AwsClients
  imports AwsConfig Batching "HOL-Library.Char_ord" "HOL-Library.List_Lexorder"
begin

text \<open>
  The smaller AWS clients: \<open>aws/connect\<close> with \<open>contactlens\<close>, \<open>aws/elasticache\<close>, \<open>aws/opensearch\<close>, \<open>aws/lambda\<close>, \<open>aws/s3\<close>
  and \<open>aws/bedrock\<close>. The AWS calls are arguments over a state of the service; the listings run the loop of \<open>Batching\<close>.
\<close>

definition paged ::
  "string \<Rightarrow> ('k option \<Rightarrow> ('i list \<times> 'k option, 's) svc) \<Rightarrow> ('i \<Rightarrow> 'o) \<Rightarrow> 's \<Rightarrow> ((string, 'o list) res \<times> 's) option" where
  "paged prefix fetch conv = read_pages (\<lambda>k. svc_call prefix (fetch k) (\<lambda>p. (map conv (fst p), snd p))) None []"

section \<open>Connect\<close>

definition connect_New :: "(string \<Rightarrow> (string \<times> string) option \<Rightarrow> string option) \<Rightarrow> awsConfig \<Rightarrow> (string, string option) res" where
  "connect_New = aws_New ''failed to load AWS config: ''"

record voiceInput =
  vi_InstanceID :: string
  vi_ContactFlowID :: string
  vi_DestinationPhone :: string
  vi_SourcePhone :: string
  vi_Attributes :: "(string \<times> string) list"

record sdkVoice =
  sv_InstanceId :: string
  sv_ContactFlowId :: string
  sv_Destination :: string
  sv_Source :: "string option"
  sv_Attributes :: "(string \<times> string) list option"

definition StartOutboundVoiceContact :: "(sdkVoice \<Rightarrow> (string option, 's) svc) \<Rightarrow> voiceInput \<Rightarrow> (string, 's) svc" where
  "StartOutboundVoiceContact api input =
     (if vi_InstanceID input = [] then svc_fail ''missing InstanceID''
      else if vi_ContactFlowID input = [] then svc_fail ''missing ContactFlowID''
      else if vi_DestinationPhone input = [] then svc_fail ''missing DestinationPhone''
      else svc_call ''failed to start outbound voice contact''
        (api \<lparr>sv_InstanceId = vi_InstanceID input, sv_ContactFlowId = vi_ContactFlowID input,
              sv_Destination = vi_DestinationPhone input, sv_Source = opt_string (vi_SourcePhone input),
              sv_Attributes = (if vi_Attributes input \<noteq> [] then Some (vi_Attributes input) else None)\<rparr>) ToString)"

definition GetContactAttributes ::
  "(string \<Rightarrow> string \<Rightarrow> ((string \<rightharpoonup> string) option, 's) svc) \<Rightarrow> string \<Rightarrow> string \<Rightarrow> (string \<rightharpoonup> string, 's) svc" where
  "GetContactAttributes api instanceID contactID =
     (if instanceID = [] then svc_fail ''missing instanceID''
      else if contactID = [] then svc_fail ''missing contactID''
      else svc_call ''failed to get contact attributes'' (api instanceID contactID)
             (\<lambda>a. case a of None \<Rightarrow> Map.empty | Some m \<Rightarrow> m))"

definition UpdateContactAttributes ::
  "(string \<Rightarrow> string \<Rightarrow> (string \<times> string) list \<Rightarrow> (unit, 's) svc) \<Rightarrow> string \<Rightarrow> string \<Rightarrow> (string \<times> string) list \<Rightarrow> (unit, 's) svc" where
  "UpdateContactAttributes api instanceID contactID attrs =
     (if instanceID = [] then svc_fail ''missing instanceID''
      else if contactID = [] then svc_fail ''missing contactID''
      else if attrs = [] then svc_fail ''missing attrs''
      else svc_call ''failed to update contact attributes'' (api instanceID contactID attrs) id)"

record flowSummary =
  fl_Id :: "string option"
  fl_Arn :: "string option"
  fl_Name :: "string option"
  fl_Type :: string

record ContactFlow =
  cf_ID :: string
  cf_ARN :: string
  cf_Name :: string
  cf_Type :: string

definition contact_flow :: "flowSummary \<Rightarrow> ContactFlow" where
  "contact_flow s = \<lparr>cf_ID = ToString (fl_Id s), cf_ARN = ToString (fl_Arn s), cf_Name = ToString (fl_Name s), cf_Type = fl_Type s\<rparr>"

definition ListContactFlows ::
  "(string \<Rightarrow> string option \<Rightarrow> (flowSummary list \<times> string option, 's) svc) \<Rightarrow> string \<Rightarrow> 's \<Rightarrow> ((string, ContactFlow list) res \<times> 's) option" where
  "ListContactFlows api instanceID s =
     (if instanceID = [] then Some (Inl ''missing instanceID'', s)
      else paged ''failed to list contact flows'' (api instanceID) contact_flow s)"

definition contactlens_New :: "(string \<Rightarrow> (string \<times> string) option \<Rightarrow> string option) \<Rightarrow> awsConfig \<Rightarrow> (string, string option) res" where
  "contactlens_New = aws_New ''failed to load AWS config: ''"

record transcript =
  tr_Content :: "string option"
  tr_Begin :: "int option"
  tr_End :: "int option"
  tr_ParticipantId :: "string option"
  tr_Sentiment :: string

record Segment =
  sg_Type :: string
  sg_Content :: string
  sg_Begin :: int
  sg_End :: int
  sg_ParticipantID :: string
  sg_Sentiment :: string

definition mapSegment :: "transcript option \<Rightarrow> Segment" where
  "mapSegment raw =
     (case raw of
        None \<Rightarrow> \<lparr>sg_Type = ''UNKNOWN'', sg_Content = [], sg_Begin = 0, sg_End = 0, sg_ParticipantID = [], sg_Sentiment = []\<rparr>
      | Some t \<Rightarrow> \<lparr>sg_Type = ''TRANSCRIPT'', sg_Content = ToString (tr_Content t),
                   sg_Begin = (case tr_Begin t of None \<Rightarrow> 0 | Some b \<Rightarrow> b), sg_End = (case tr_End t of None \<Rightarrow> 0 | Some e \<Rightarrow> e),
                   sg_ParticipantID = ToString (tr_ParticipantId t), sg_Sentiment = tr_Sentiment t\<rparr>)"

definition ListRealtimeContactAnalysisSegments ::
  "(string \<Rightarrow> string \<Rightarrow> string option \<Rightarrow> (transcript option list \<times> string option, 's) svc) \<Rightarrow> string \<Rightarrow> string \<Rightarrow> 's
     \<Rightarrow> ((string, Segment list) res \<times> 's) option" where
  "ListRealtimeContactAnalysisSegments api instanceID contactID s =
     (if instanceID = [] then Some (Inl ''missing instanceID'', s)
      else if contactID = [] then Some (Inl ''missing contactID'', s)
      else paged ''failed to list realtime contact analysis segments'' (api instanceID contactID) mapSegment s)"

section \<open>ElastiCache\<close>

definition elasticache_New :: "(string \<Rightarrow> (string \<times> string) option \<Rightarrow> string option) \<Rightarrow> awsConfig \<Rightarrow> (string, string option) res" where
  "elasticache_New = aws_New ''failed to load config: ''"

text \<open>A replication group with its configuration endpoint and the primary endpoints of its node groups, all optional.\<close>

record sdkGroup =
  gr_Id :: "string option"
  gr_Status :: "string option"
  gr_NodeType :: "string option"
  gr_ConfigurationEndpoint :: "string option option"
  gr_NodeGroups :: "string option option list"

record ReplicationGroup =
  rg_ID :: string
  rg_Status :: string
  rg_NodeType :: string
  rg_NumNodeGroups :: int
  rg_Endpoint :: string

definition replication_group :: "sdkGroup \<Rightarrow> ReplicationGroup" where
  "replication_group g =
     \<lparr>rg_ID = ToString (gr_Id g), rg_Status = ToString (gr_Status g), rg_NodeType = ToString (gr_NodeType g),
      rg_NumNodeGroups = wrap32 (int (length (gr_NodeGroups g))),
      rg_Endpoint = (case gr_ConfigurationEndpoint g of
          Some address \<Rightarrow> ToString address
        | None \<Rightarrow> (case gr_NodeGroups g of Some address # _ \<Rightarrow> ToString address | _ \<Rightarrow> []))\<rparr>"

definition DescribeReplicationGroups ::
  "(string option \<Rightarrow> (sdkGroup list \<times> string option, 's) svc) \<Rightarrow> 's \<Rightarrow> ((string, ReplicationGroup list) res \<times> 's) option" where
  "DescribeReplicationGroups api = paged ''failed to describe replication groups'' api replication_group"

record sdkCluster =
  cl_Id :: "string option"
  cl_Status :: "string option"
  cl_NodeType :: "string option"
  cl_Engine :: "string option"
  cl_EngineVersion :: "string option"
  cl_NumCacheNodes :: "int option"

record CacheCluster =
  cc_ID :: string
  cc_Status :: string
  cc_NodeType :: string
  cc_Engine :: string
  cc_EngineVersion :: string
  cc_NumCacheNodes :: int

definition cache_cluster :: "sdkCluster \<Rightarrow> CacheCluster" where
  "cache_cluster c =
     \<lparr>cc_ID = ToString (cl_Id c), cc_Status = ToString (cl_Status c), cc_NodeType = ToString (cl_NodeType c),
      cc_Engine = ToString (cl_Engine c), cc_EngineVersion = ToString (cl_EngineVersion c),
      cc_NumCacheNodes = (case cl_NumCacheNodes c of None \<Rightarrow> 0 | Some n \<Rightarrow> n)\<rparr>"

definition DescribeCacheClusters ::
  "(string option \<Rightarrow> (sdkCluster list \<times> string option, 's) svc) \<Rightarrow> 's \<Rightarrow> ((string, CacheCluster list) res \<times> 's) option" where
  "DescribeCacheClusters api = paged ''failed to describe cache clusters'' api cache_cluster"

section \<open>OpenSearch\<close>

definition opensearch_New :: "(string \<Rightarrow> (string \<times> string) option \<Rightarrow> string option) \<Rightarrow> awsConfig \<Rightarrow> (string, string option) res" where
  "opensearch_New = aws_New ''failed to load config: ''"

record domainStatus =
  do_DomainName :: "string option"
  do_ARN :: "string option"
  do_Created :: "bool option"
  do_Processing :: "bool option"
  do_EngineVersion :: "string option"
  do_Endpoint :: "string option"

record Domain =
  dn_Name :: string
  dn_Endpoint :: string
  dn_EngineVersion :: string
  dn_ARN :: string
  dn_Created :: bool
  dn_Processing :: bool

definition domain_of :: "domainStatus \<Rightarrow> Domain" where
  "domain_of d = \<lparr>dn_Name = ToString (do_DomainName d), dn_Endpoint = ToString (do_Endpoint d),
     dn_EngineVersion = ToString (do_EngineVersion d), dn_ARN = ToString (do_ARN d),
     dn_Created = (do_Created d = Some True), dn_Processing = (do_Processing d = Some True)\<rparr>"

definition DescribeDomain :: "(string \<Rightarrow> (domainStatus option, 's) svc) \<Rightarrow> string \<Rightarrow> (Domain, 's) svc" where
  "DescribeDomain api name s =
     (if name = [] then (Inl ''domain name is required'', s)
      else (case api name s of
              (Inl e, s') \<Rightarrow> (Inl (''failed to describe domain: '' @ e), s')
            | (Inr None, s') \<Rightarrow> (Inl ''describe domain returned empty status'', s')
            | (Inr (Some d), s') \<Rightarrow> (Inr (domain_of d), s')))"

definition ListDomainNames :: "(string option list, 's) svc \<Rightarrow> (string list, 's) svc" where
  "ListDomainNames api = svc_call ''failed to list domain names'' api (map ToString)"

section \<open>Lambda\<close>

definition lambda_New :: "(string \<Rightarrow> (string \<times> string) option \<Rightarrow> string option) \<Rightarrow> awsConfig \<Rightarrow> (string, string option) res" where
  "lambda_New = aws_New ''failed to load config: ''"

datatype invocation = RequestResponse | InvokeEvent

record invokeResult =
  ir_FunctionError :: "string option"
  ir_Payload :: string

text \<open>\<open>Invoke\<close> returns the payload also when the function has failed, together with the error.\<close>

definition lambda_Invoke ::
  "(string \<Rightarrow> invocation \<Rightarrow> string \<Rightarrow> (invokeResult, 's) svc) \<Rightarrow> string \<Rightarrow> string \<Rightarrow> 's \<Rightarrow> (string option \<times> string option) \<times> 's" where
  "lambda_Invoke api functionName payload s =
     (if functionName = [] then ((None, Some ''missing function name''), s)
      else (case api functionName RequestResponse payload s of
              (Inl e, s') \<Rightarrow> ((None, Some (''failed to invoke function: '' @ e)), s')
            | (Inr out, s') \<Rightarrow>
                (case ir_FunctionError out of
                   Some e \<Rightarrow> ((Some (ir_Payload out), Some (''failed to invoke function: function returned '' @ [CHR 0x22] @ e @ [CHR 0x22] @ '': '' @ ir_Payload out)), s')
                 | None \<Rightarrow> ((Some (ir_Payload out), None), s'))))"

definition InvokeAsync :: "(string \<Rightarrow> invocation \<Rightarrow> string \<Rightarrow> (invokeResult, 's) svc) \<Rightarrow> string \<Rightarrow> string \<Rightarrow> (unit, 's) svc" where
  "InvokeAsync api functionName payload =
     (if functionName = [] then svc_fail ''missing function name''
      else svc_call ''failed to invoke function async'' (api functionName InvokeEvent payload) (\<lambda>_. ()))"

section \<open>S3\<close>

definition s3_wrapError :: "string \<Rightarrow> string" where
  "s3_wrapError e = ''failed to execute s3 request: '' @ e"

definition s3_New :: "(string \<Rightarrow> (string \<times> string) option \<Rightarrow> string option) \<Rightarrow> awsConfig \<Rightarrow> (string, string option) res" where
  "s3_New = aws_New ''failed to execute s3 request: ''"

record putInput =
  pu_Bucket :: string
  pu_Key :: string
  pu_Body :: "string option"
  pu_ContentType :: "string option"
  pu_ContentLength :: "int option"

text \<open>\<open>api_GetObject\<close> yields the body, which itself may fail to be read.\<close>

record 's s3_api =
  api_HeadBucket :: "string \<Rightarrow> (unit, 's) svc"
  api_GetObject :: "string \<Rightarrow> string \<Rightarrow> ((string, string) res, 's) svc"
  api_PutObject :: "putInput \<Rightarrow> (unit, 's) svc"
  api_DeleteObject :: "string \<Rightarrow> string \<Rightarrow> (unit, 's) svc"
  api_PresignPutObject :: "putInput \<Rightarrow> duration \<Rightarrow> (string, 's) svc"

definition s3_call :: "('a, 's) svc \<Rightarrow> ('a, 's) svc" where
  "s3_call api s = apfst (map_sum s3_wrapError id) (api s)"

definition HeadBucket :: "'s s3_api \<Rightarrow> string \<Rightarrow> (unit, 's) svc" where
  "HeadBucket api bucket = s3_call (api_HeadBucket api bucket)"

definition GetObject :: "'s s3_api \<Rightarrow> string \<Rightarrow> string \<Rightarrow> (string, 's) svc" where
  "GetObject api bucket key s =
     (case api_GetObject api bucket key s of
        (Inl e, s') \<Rightarrow> (Inl (s3_wrapError e), s')
      | (Inr body, s') \<Rightarrow> (map_sum s3_wrapError id body, s'))"

definition GetObjectAs :: "(string \<Rightarrow> (string, 'a) res) \<Rightarrow> 's s3_api \<Rightarrow> string \<Rightarrow> string \<Rightarrow> ('a, 's) svc" where
  "GetObjectAs unmarshal api bucket key s =
     (case GetObject api bucket key s of
        (Inl e, s') \<Rightarrow> (Inl e, s')
      | (Inr data, s') \<Rightarrow> (map_sum s3_wrapError id (unmarshal data), s'))"

definition PutObject :: "'s s3_api \<Rightarrow> string \<Rightarrow> string \<Rightarrow> string \<Rightarrow> string \<Rightarrow> (unit, 's) svc" where
  "PutObject api bucket key data contentType =
     s3_call (api_PutObject api \<lparr>pu_Bucket = bucket, pu_Key = key, pu_Body = Some data, pu_ContentType = opt_string contentType,
                                 pu_ContentLength = None\<rparr>)"

definition DeleteObject :: "'s s3_api \<Rightarrow> string \<Rightarrow> string \<Rightarrow> (unit, 's) svc" where
  "DeleteObject api bucket key = s3_call (api_DeleteObject api bucket key)"

definition PresignPut :: "'s s3_api \<Rightarrow> string \<Rightarrow> string \<Rightarrow> duration \<Rightarrow> string \<Rightarrow> int \<Rightarrow> (string, 's) svc" where
  "PresignPut api bucket key ttl contentType contentLength =
     (if ttl \<le> 0 then svc_fail ''ttl must be greater than zero''
      else s3_call (api_PresignPutObject api
             \<lparr>pu_Bucket = bucket, pu_Key = key, pu_Body = None, pu_ContentType = opt_string contentType,
              pu_ContentLength = (if contentLength > 0 then Some contentLength else None)\<rparr> ttl))"

section \<open>Bedrock\<close>

definition bedrock_New :: "(string \<Rightarrow> (string \<times> string) option \<Rightarrow> string option) \<Rightarrow> awsConfig \<Rightarrow> (string, string option) res" where
  "bedrock_New = aws_New ''failed to load aws config: ''"

definition MODEL_CLAUDE_DEFAULT :: string where "MODEL_CLAUDE_DEFAULT = ''anthropic.claude-sonnet-4-20250514-v1:0''"
definition MODEL_CLAUDE_HAIKU :: string where "MODEL_CLAUDE_HAIKU = ''anthropic.claude-haiku-4-5-20251001-v1:0''"
definition MODEL_GEMINI_DEFAULT :: string where "MODEL_GEMINI_DEFAULT = ''google.gemini-2.5-flash''"
definition MODEL_GPT_DEFAULT :: string where "MODEL_GPT_DEFAULT = ''openai.gpt-oss-120b''"
definition MODEL_DEEPSEEK_DEFAULT :: string where "MODEL_DEEPSEEK_DEFAULT = ''deepseek-v3.1''"

definition validModels :: "string list" where
  "validModels = [MODEL_CLAUDE_DEFAULT, MODEL_CLAUDE_HAIKU, MODEL_GEMINI_DEFAULT, MODEL_GPT_DEFAULT, MODEL_DEEPSEEK_DEFAULT]"

definition ErrUnknownModel :: string where "ErrUnknownModel = ''unknown bedrock model''"

definition ParseModel :: "string \<Rightarrow> (string, string) res" where
  "ParseModel s = (if s \<notin> set validModels then Inl ErrUnknownModel else Inr s)"

definition IsValid :: "string \<Rightarrow> bool" where
  "IsValid m \<longleftrightarrow> m \<in> set validModels"

definition Models :: "string list" where
  "Models = sort validModels"

text \<open>The body of an Anthropic request: version, token limit, messages as (role, content).\<close>

record anthropicRequestBody =
  ab_AnthropicVersion :: string
  ab_MaxTokens :: int
  ab_Messages :: "(string \<times> string) list"

record invokeModelInput =
  im_ModelId :: string
  im_Body :: string
  im_ContentType :: string
  im_Accept :: string

definition InvokeJSON :: "(invokeModelInput \<Rightarrow> (string, 's) svc) \<Rightarrow> string \<Rightarrow> string \<Rightarrow> (string, 's) svc" where
  "InvokeJSON api model body =
     (if \<not> IsValid model then svc_fail (ErrUnknownModel @ '': '' @ model)
      else svc_call ''failed to invoke model''
        (api \<lparr>im_ModelId = model, im_Body = body, im_ContentType = ''application/json'', im_Accept = ''application/json''\<rparr>) id)"

primrec first_text :: "(string \<times> string) list \<Rightarrow> string option" where
  "first_text [] = None"
| "first_text (b # bs) = (if fst b = ''text'' then Some (snd b) else first_text bs)"

text \<open>\<open>decode\<close> reads the content blocks of the response as (type, text).\<close>

definition bedrock_Invoke ::
  "(anthropicRequestBody \<Rightarrow> (string, string) res) \<Rightarrow> (string \<Rightarrow> (string, (string \<times> string) list) res)
     \<Rightarrow> (invokeModelInput \<Rightarrow> (string, 's) svc) \<Rightarrow> string \<Rightarrow> string \<Rightarrow> (string, 's) svc" where
  "bedrock_Invoke encode decode api model prompt s =
     (if \<not> IsValid model then (Inl (ErrUnknownModel @ '': '' @ model), s)
      else if \<not> HasPrefix model ''anthropic.'' then (Inl (''convenience Invoke not implemented for model family of '' @ model), s)
      else (case encode \<lparr>ab_AnthropicVersion = ''bedrock-2023-05-31'', ab_MaxTokens = 1024, ab_Messages = [(''user'', prompt)]\<rparr> of
              Inl e \<Rightarrow> (Inl (''failed to marshal invoke request body: '' @ e), s)
            | Inr body \<Rightarrow>
                (case InvokeJSON api model body s of
                   (Inl e, s') \<Rightarrow> (Inl e, s')
                 | (Inr resp, s') \<Rightarrow>
                     (case decode resp of
                        Inl e \<Rightarrow> (Inl (''failed to unmarshal invoke response: '' @ e), s')
                      | Inr blocks \<Rightarrow>
                          (case first_text blocks of
                             Some t \<Rightarrow> (Inr t, s')
                           | None \<Rightarrow> (Inl ''invoke response contained no text content'', s'))))))"

record 'f converseInput =
  ci_Model :: string
  ci_Messages :: "(string \<times> string) list"
  ci_System :: string
  ci_MaxTokens :: int
  ci_Temperature :: "'f option"

datatype conversationRole = RoleUser | RoleAssistant

record 'f sdkConverse =
  sc_ModelId :: string
  sc_Messages :: "(conversationRole \<times> string) list"
  sc_System :: "string list"
  sc_InferenceConfig :: "(int option \<times> 'f option) option"

datatype contentBlock = TextBlock string | OtherBlock

record sdkConverseOutput =
  sco_StopReason :: string
  sco_Usage :: "(int option \<times> int option) option"
  sco_Message :: "contentBlock list option"

record ConverseOutput =
  co_Text :: string
  co_StopReason :: string
  co_InputTokens :: int
  co_OutputTokens :: int

definition converse_input :: "'f converseInput \<Rightarrow> 'f sdkConverse" where
  "converse_input input =
     \<lparr>sc_ModelId = ci_Model input,
      sc_Messages = map (\<lambda>m. (if fst m = ''assistant'' then RoleAssistant else RoleUser, snd m)) (ci_Messages input),
      sc_System = (if ci_System input \<noteq> [] then [ci_System input] else []),
      sc_InferenceConfig =
        (if ci_MaxTokens input > 0 \<or> ci_Temperature input \<noteq> None
         then Some (if ci_MaxTokens input > 0 then Some (ci_MaxTokens input) else None, ci_Temperature input) else None)\<rparr>"

primrec first_text_block :: "contentBlock list \<Rightarrow> string" where
  "first_text_block [] = []"
| "first_text_block (b # bs) = (case b of TextBlock t \<Rightarrow> t | OtherBlock \<Rightarrow> first_text_block bs)"

definition converse_output :: "sdkConverseOutput \<Rightarrow> ConverseOutput" where
  "converse_output out =
     \<lparr>co_Text = (case sco_Message out of None \<Rightarrow> [] | Some blocks \<Rightarrow> first_text_block blocks),
      co_StopReason = sco_StopReason out,
      co_InputTokens = (case sco_Usage out of Some (Some n, _) \<Rightarrow> n | _ \<Rightarrow> 0),
      co_OutputTokens = (case sco_Usage out of Some (_, Some n) \<Rightarrow> n | _ \<Rightarrow> 0)\<rparr>"

definition Converse :: "('f sdkConverse \<Rightarrow> (sdkConverseOutput, 's) svc) \<Rightarrow> 'f converseInput \<Rightarrow> (ConverseOutput, 's) svc" where
  "Converse api input =
     (if \<not> IsValid (ci_Model input) then svc_fail (ErrUnknownModel @ '': '' @ ci_Model input)
      else svc_call ''failed to converse'' (api (converse_input input)) converse_output)"

lemma Models_valid: "set Models = {m. ParseModel m = Inr m} \<and> sorted Models \<and> (m \<in> set Models \<longleftrightarrow> IsValid m)"
  by (auto simp: Models_def ParseModel_def IsValid_def split: if_splits)

section \<open>The listings\<close>

text \<open>Fetches that always answer make the loop end with all items, converted.\<close>

lemma pages_from_map: "pages_from page k xs \<Longrightarrow> pages_from (\<lambda>k. (map f (fst (page k)), snd (page k))) k (map f xs)"
  by (induction rule: pages_from.induct) (auto intro: pages_from.intros)

lemma paged_all:
  assumes "pager page rank" and "\<And>k s. fetch k s = (Inr (page k), after k s)"
  shows "\<exists>xs s'. paged prefix fetch conv s = Some (Inr (map conv xs), s') \<and> pages_from page None xs"
proof -
  let ?page = "\<lambda>k. (map conv (fst (page k)), snd (page k))"
  have p: "pager ?page rank" using assms(1) by (fastforce simp: pager_def intro: prod_eqI)
  let ?call = "\<lambda>k. svc_call prefix (fetch k) (\<lambda>p. (map conv (fst p), snd p))"
  have "?call k s = (Inr (?page k), after k s)" for k s
    by (simp add: svc_call_def assms(2))
  from pager.read_pages_all [OF p, where fetch = ?call and after = after and k = None and acc = "[]" and s = s, OF this] obtain ys s' where
    "paged prefix fetch conv s = Some (Inr ys, s')" and ys: "pages_from ?page None ys"
    unfolding paged_def by auto
  moreover obtain xs where xs: "pages_from page None xs" using pager.pages_exist [OF assms(1)] by blast
  moreover have "ys = map conv xs" using pages_from_unique [OF ys pages_from_map [OF xs]] .
  ultimately show ?thesis by blast
qed

text \<open>
  Against services whose pages make progress, the listings of contact flows, analysis segments, replication groups
  and cache clusters end and return the entries of all pages in order.
\<close>
theorem aws_listings_complete:
  assumes "instanceID \<noteq> []" and "contactID \<noteq> []"
    and "pager fp fr" and "\<And>k s. flows instanceID k s = (Inr (fp k), s)"
    and "pager sp sr" and "\<And>k s. segs instanceID contactID k s = (Inr (sp k), s)"
    and "pager gp gr" and "\<And>k s. groups k s = (Inr (gp k), s)"
    and "pager cp cr" and "\<And>k s. clusters k s = (Inr (cp k), s)"
  shows "(\<exists>xs s'. ListContactFlows flows instanceID s1 = Some (Inr (map contact_flow xs), s') \<and> pages_from fp None xs) \<and>
    (\<exists>xs s'. ListRealtimeContactAnalysisSegments segs instanceID contactID s2 = Some (Inr (map mapSegment xs), s') \<and> pages_from sp None xs) \<and>
    (\<exists>xs s'. DescribeReplicationGroups groups s3 = Some (Inr (map replication_group xs), s') \<and> pages_from gp None xs) \<and>
    (\<exists>xs s'. DescribeCacheClusters clusters s4 = Some (Inr (map cache_cluster xs), s') \<and> pages_from cp None xs)"
proof (intro conjI)
  show "\<exists>xs s'. ListContactFlows flows instanceID s1 = Some (Inr (map contact_flow xs), s') \<and> pages_from fp None xs"
    unfolding ListContactFlows_def using assms(1) paged_all [OF assms(3), where after = "\<lambda>_ s. s", OF assms(4)] by simp
  show "\<exists>xs s'. ListRealtimeContactAnalysisSegments segs instanceID contactID s2 = Some (Inr (map mapSegment xs), s') \<and> pages_from sp None xs"
    unfolding ListRealtimeContactAnalysisSegments_def
    using assms(1,2) paged_all [OF assms(5), where after = "\<lambda>_ s. s", OF assms(6)] by simp
  show "\<exists>xs s'. DescribeReplicationGroups groups s3 = Some (Inr (map replication_group xs), s') \<and> pages_from gp None xs"
    unfolding DescribeReplicationGroups_def by (rule paged_all [OF assms(7), where after = "\<lambda>_ s. s", OF assms(8)])
  show "\<exists>xs s'. DescribeCacheClusters clusters s4 = Some (Inr (map cache_cluster xs), s') \<and> pages_from cp None xs"
    unfolding DescribeCacheClusters_def by (rule paged_all [OF assms(9), where after = "\<lambda>_ s. s", OF assms(10)])
qed

text \<open>A listing of two pages, keyed by a token.\<close>

definition two_pages :: "'a \<Rightarrow> string option \<Rightarrow> 'a list \<times> string option" where
  "two_pages x k = (case k of None \<Rightarrow> ([x], Some ''t'') | Some _ \<Rightarrow> ([x], None))"

interpretation two_pages: pager "two_pages x" "\<lambda>k. case k of None \<Rightarrow> 1 | Some _ \<Rightarrow> 0" for x
  by unfold_locales (auto simp: two_pages_def split: option.splits)

text \<open>Entries for the example: a flow, a replication group and a cluster.\<close>

abbreviation example_flow :: flowSummary where "example_flow \<equiv> \<lparr>fl_Id = None, fl_Arn = None, fl_Name = None, fl_Type = []\<rparr>"

abbreviation example_group :: sdkGroup where
  "example_group \<equiv> \<lparr>gr_Id = None, gr_Status = None, gr_NodeType = None, gr_ConfigurationEndpoint = None, gr_NodeGroups = []\<rparr>"

abbreviation example_cluster :: sdkCluster where
  "example_cluster \<equiv> \<lparr>cl_Id = Some ''c'', cl_Status = None, cl_NodeType = None, cl_Engine = None, cl_EngineVersion = None, cl_NumCacheNodes = None\<rparr>"

theorem aws_listings_complete_witness:
  "\<exists>xs s'. DescribeCacheClusters (\<lambda>k s. (Inr (two_pages example_cluster k), s)) () = Some (Inr (map cache_cluster xs), s') \<and>
     pages_from (two_pages example_cluster) None xs"
proof -
  have n: "''i'' \<noteq> []" "''c'' \<noteq> []" by simp_all
  show ?thesis
    using aws_listings_complete [OF n two_pages.pager_axioms [of example_flow] refl two_pages.pager_axioms [of None] refl
        two_pages.pager_axioms [of example_group] refl two_pages.pager_axioms [of example_cluster] refl, of "()" "()" "()" "()"]
    by blast
qed

end
