(* ===== verification/Mime.thy ===== *)
theory Mime
  imports Base64 UrlValues "HOL-Library.Char_ord" "HOL-Library.List_Lexorder"
begin

text \<open>
  The parts of \<open>mime\<close>, \<open>mime/quotedprintable\<close>, \<open>mime/multipart\<close> and the padded \<open>encoding/base64\<close> that \<open>aws/ses\<close> writes
  messages with: encoded words of header values, the line-wrapping quoted-printable writer, the writer of multipart
  bodies. Writing to a \<open>bytes.Buffer\<close> never fails, so the writers have no error branch.
\<close>

definition CR :: char where "CR = CHR 0x0D"
definition LF :: char where "LF = CHR 0x0A"
definition CRLF :: string where "CRLF = [CR, LF]"

definition no_break :: "string \<Rightarrow> bool" where
  "no_break s \<longleftrightarrow> CR \<notin> set s \<and> LF \<notin> set s"

lemma no_break_append [simp]: "no_break (s @ t) \<longleftrightarrow> no_break s \<and> no_break t"
  by (auto simp: no_break_def)

lemma no_break_Nil [simp]: "no_break []"
  by (simp add: no_break_def)

lemma no_break_Cons [simp]: "no_break (c # s) \<longleftrightarrow> c \<noteq> CR \<and> c \<noteq> LF \<and> no_break s"
  by (auto simp: no_break_def)

lemma no_break_concat: "no_break (concat ss) \<longleftrightarrow> (\<forall>s \<in> set ss. no_break s)"
  by (auto simp: no_break_def)

lemma no_break_Join: "no_break sep \<Longrightarrow> \<forall>s \<in> set ss. no_break s \<Longrightarrow> no_break (Join ss sep)"
  by (induction ss sep rule: Join.induct) auto

lemma no_break_alnum: "is_alnum c \<Longrightarrow> c \<noteq> CR \<and> c \<noteq> LF"
  by (auto simp: is_alnum_def is_alpha_def is_digit_def CR_def LF_def)

definition hex_byte :: "char \<Rightarrow> string" where
  "hex_byte c = [CHR ''='', hex_digit (of_char c div 16), hex_digit (of_char c mod 16)]"

lemma no_break_hex_byte [simp]: "no_break (hex_byte c)"
proof -
  have "of_char c div 16 < (16 :: nat)" using of_char_less_256 [of c] by (simp add: less_mult_imp_div_less)
  then show ?thesis
    using no_break_alnum [OF hex_digit_alnum [of "of_char c div 16"]] no_break_alnum [OF hex_digit_alnum [of "of_char c mod 16"]]
    by (simp add: hex_byte_def CR_def LF_def)
qed

lemma length_hex_byte [simp]: "length (hex_byte c) = 3"
  by (simp add: hex_byte_def)

section \<open>Encoded words\<close>

text \<open>Printable ASCII.\<close>

definition printable :: "char \<Rightarrow> bool" where
  "printable c \<longleftrightarrow> 32 \<le> (of_char c :: nat) \<and> (of_char c :: nat) \<le> 126"

definition needsEncoding :: "string \<Rightarrow> bool" where
  "needsEncoding s \<longleftrightarrow> (\<exists>c \<in> set s. \<not> printable c \<and> c \<noteq> CHR 0x09)"

text \<open>
  The width of the first UTF-8 sequence of \<open>s\<close>, 1 for a malformed one. The bounds of the second byte are those of
  \<open>unicode/utf8\<close>, which exclude overlong forms and surrogates.
\<close>

definition cont :: "string \<Rightarrow> nat \<Rightarrow> bool" where
  "cont s i \<longleftrightarrow> i < length s \<and> 128 \<le> (of_char (s ! i) :: nat) \<and> (of_char (s ! i) :: nat) < 192"

definition second_in :: "string \<Rightarrow> nat \<Rightarrow> nat \<Rightarrow> bool" where
  "second_in s lo hi \<longleftrightarrow> 1 < length s \<and> lo \<le> of_char (s ! 1) \<and> of_char (s ! 1) \<le> hi"

definition rune_width :: "string \<Rightarrow> nat" where
  "rune_width s =
     (case s of [] \<Rightarrow> 0 | c # _ \<Rightarrow>
        let b = of_char c :: nat in
        if 194 \<le> b \<and> b \<le> 223 \<and> cont s 1 then 2
        else if 224 \<le> b \<and> b \<le> 239 \<and> second_in s (if b = 224 then 160 else 128) (if b = 237 then 159 else 191) \<and> cont s 2 then 3
        else if 240 \<le> b \<and> b \<le> 244 \<and> second_in s (if b = 240 then 144 else 128) (if b = 244 then 143 else 191) \<and> cont s 2 \<and> cont s 3 then 4
        else 1)"

lemma cont_length: "cont s i \<Longrightarrow> Suc i \<le> length s"
  by (simp add: cont_def)

lemma rune_width_bounds:
  assumes "s \<noteq> []"
  shows "0 < rune_width s \<and> rune_width s \<le> length s"
proof (cases s)
  case (Cons c r)
  then show ?thesis
    using cont_length [of s 1] cont_length [of s 2] cont_length [of s 3] by (simp add: rune_width_def Let_def)
qed (use assms in simp)

definition q_plain :: "char \<Rightarrow> bool" where
  "q_plain c \<longleftrightarrow> printable c \<and> c \<noteq> CHR ''='' \<and> c \<noteq> CHR ''?'' \<and> c \<noteq> CHR ''_''"

definition q_byte :: "char \<Rightarrow> string" where
  "q_byte c = (if c = CHR '' '' then ''_'' else if q_plain c then [c] else hex_byte c)"

definition writeQString :: "string \<Rightarrow> string" where
  "writeQString s = concat (map q_byte s)"

definition openWord :: string where "openWord = ''=?utf-8?q?''"
definition closeWord :: string where "closeWord = ''?=''"
definition splitWord :: string where "splitWord = closeWord @ '' '' @ openWord"
definition maxContentLen :: nat where "maxContentLen = 63"

function qEncode :: "nat \<Rightarrow> string \<Rightarrow> string" where
  "qEncode cur s =
     (case s of [] \<Rightarrow> []
      | c # _ \<Rightarrow>
          let runeLen = (if q_plain c then 1 else rune_width s);
              encLen = (if q_plain c then 1 else 3 * runeLen);
              split = cur + encLen > maxContentLen
          in (if split then splitWord else []) @ writeQString (take runeLen s) @
             qEncode ((if split then 0 else cur) + encLen) (drop runeLen s))"
  by pat_completeness auto
termination
  by (relation "measure (\<lambda>(_, s). length s)") (use rune_width_bounds in \<open>auto simp: Let_def\<close>)

declare qEncode.simps [simp del]

definition QEncoding_Encode :: "string \<Rightarrow> string" where
  "QEncoding_Encode s = (if needsEncoding s then openWord @ qEncode 0 s @ closeWord else s)"

lemma printable_no_break: "printable c \<Longrightarrow> c \<noteq> CR \<and> c \<noteq> LF"
  by (auto simp: printable_def CR_def LF_def)

lemma no_break_writeQString [simp]: "no_break (writeQString s)"
  by (auto simp: writeQString_def no_break_concat q_byte_def q_plain_def CR_def LF_def printable_def)

lemma no_break_splitWord [simp]: "no_break splitWord"
  by (simp add: splitWord_def closeWord_def openWord_def CR_def LF_def)

lemma no_break_qEncode: "no_break (qEncode cur s)"
proof (induction cur s rule: qEncode.induct)
  case (1 cur s)
  then show ?case
    by (subst qEncode.simps) (auto simp: Let_def split: list.splits)
qed

text \<open>The encoded value of a header has no line break, whatever the text.\<close>

lemma no_break_QEncoding: "no_break (QEncoding_Encode s)"
proof (cases "needsEncoding s")
  case True
  then show ?thesis by (simp add: QEncoding_Encode_def no_break_qEncode openWord_def closeWord_def CR_def LF_def)
next
  case False
  then have "c \<noteq> CR \<and> c \<noteq> LF" if "c \<in> set s" for c
    using that printable_no_break by (auto simp: needsEncoding_def CR_def LF_def)
  with False show ?thesis by (auto simp: QEncoding_Encode_def no_break_def)
qed

section \<open>Quoted-printable\<close>

text \<open>The writer holds the current line, whether the last byte was a carriage return, and the lines written.\<close>

record qp =
  qp_line :: string
  qp_cr :: bool
  qp_out :: string

definition lineMaxLen :: nat where "lineMaxLen = 76"

definition qp_flush :: "qp \<Rightarrow> qp" where
  "qp_flush w = w\<lparr>qp_out := qp_out w @ qp_line w, qp_line := []\<rparr>"

definition insertCRLF :: "qp \<Rightarrow> qp" where
  "insertCRLF w = qp_flush (w\<lparr>qp_line := qp_line w @ CRLF\<rparr>)"

definition insertSoftLineBreak :: "qp \<Rightarrow> qp" where
  "insertSoftLineBreak w = insertCRLF (w\<lparr>qp_line := qp_line w @ ''=''\<rparr>)"

definition qp_encode :: "char \<Rightarrow> qp \<Rightarrow> qp" where
  "qp_encode b w =
     (let w1 = (if lineMaxLen - 1 - length (qp_line w) < 3 then insertSoftLineBreak w else w)
      in w1\<lparr>qp_line := qp_line w1 @ hex_byte b\<rparr>)"

definition is_blank :: "char \<Rightarrow> bool" where
  "is_blank c \<longleftrightarrow> c = CHR '' '' \<or> c = CHR 0x09"

definition checkLastByte :: "qp \<Rightarrow> qp" where
  "checkLastByte w =
     (if qp_line w = [] then w
      else if is_blank (last (qp_line w)) then qp_encode (last (qp_line w)) (w\<lparr>qp_line := butlast (qp_line w)\<rparr>)
      else w)"

definition qp_byte :: "char \<Rightarrow> qp \<Rightarrow> qp" where
  "qp_byte b w =
     (if b = LF \<or> b = CR then
        if qp_cr w \<and> b = LF then w\<lparr>qp_cr := False\<rparr>
        else (let w1 = insertCRLF (checkLastByte w) in if b = CR then w1\<lparr>qp_cr := True\<rparr> else w1)
      else
        (let w1 = (if length (qp_line w) = lineMaxLen - 1 then insertSoftLineBreak w else w)
         in w1\<lparr>qp_line := qp_line w1 @ [b], qp_cr := False\<rparr>))"

definition qp_Write :: "string \<Rightarrow> qp \<Rightarrow> qp" where
  "qp_Write p w =
     fold (\<lambda>b. if (printable b \<and> b \<noteq> CHR ''='') \<or> is_blank b \<or> b = LF \<or> b = CR then qp_byte b else qp_encode b) p w"

definition qp_Close :: "qp \<Rightarrow> string" where
  "qp_Close w = (let w1 = qp_flush (checkLastByte w) in qp_out w1)"

definition quotedprintable :: "string \<Rightarrow> string" where
  "quotedprintable body = qp_Close (qp_Write body \<lparr>qp_line = [], qp_cr = False, qp_out = []\<rparr>)"

text \<open>
  What a quoted-printable text denotes (RFC 2045, 6.7): a literal byte, an escaped byte, a soft break that denotes
  nothing, a hard break. Lines are at most 76 bytes long.
\<close>

inductive qp_means :: "string \<Rightarrow> string \<Rightarrow> bool" where
  qp_empty: "qp_means [] []"
| qp_plain: "qp_means t m \<Longrightarrow> printable c \<or> is_blank c \<Longrightarrow> c \<noteq> CHR ''='' \<Longrightarrow> qp_means (t @ [c]) (m @ [c])"
| qp_hex: "qp_means t m \<Longrightarrow> qp_means (t @ hex_byte c) (m @ [c])"
| qp_soft: "qp_means t m \<Longrightarrow> qp_means (t @ ''='' @ CRLF) m"
| qp_break: "qp_means t m \<Longrightarrow> qp_means (t @ CRLF) (m @ CRLF)"

lemma blank_not_hex: "is_blank c \<Longrightarrow> n < 16 \<Longrightarrow> c \<noteq> hex_digit n"
  using hex_digit_alnum [of n] by (auto simp: is_blank_def is_alnum_def is_alpha_def is_digit_def)

lemma qp_means_blank:
  assumes "qp_means (t @ [c]) m" and "is_blank c"
  shows "\<exists>m'. m = m' @ [c] \<and> qp_means t m'"
  using assms(1)
proof cases
  case (qp_hex t' m' d)
  then have "c = hex_digit (of_char d mod 16)" by (simp add: hex_byte_def)
  with blank_not_hex [OF assms(2), of "of_char d mod 16"] show ?thesis by simp
qed (use assms(2) in \<open>auto simp: CRLF_def is_blank_def LF_def\<close>)

definition qp_lines :: "string \<Rightarrow> bool" where
  "qp_lines t \<longleftrightarrow> (\<exists>ls. t = concat (map (\<lambda>l. l @ CRLF) ls) \<and> (\<forall>l \<in> set ls. no_break l \<and> length l \<le> lineMaxLen))"

lemma qp_lines_Nil [simp]: "qp_lines []"
  unfolding qp_lines_def by (rule exI [of _ "[]"]) simp

lemma qp_lines_snoc: "qp_lines t \<Longrightarrow> no_break l \<Longrightarrow> length l \<le> lineMaxLen \<Longrightarrow> qp_lines (t @ l @ CRLF)"
  unfolding qp_lines_def by (elim exE) (rename_tac ls, rule_tac x = "ls @ [l]" in exI, auto)

text \<open>The writer keeps whole short lines written, and the text so far denotes what was written to it.\<close>

definition qp_inv :: "string \<Rightarrow> qp \<Rightarrow> bool" where
  "qp_inv m w \<longleftrightarrow> qp_means (qp_out w @ qp_line w) m \<and> qp_lines (qp_out w) \<and> no_break (qp_line w) \<and>
     length (qp_line w) \<le> lineMaxLen - 1 \<and> \<not> qp_cr w"

lemma qp_inv_soft: "qp_inv m w \<Longrightarrow> qp_inv m (insertSoftLineBreak w) \<and> qp_line (insertSoftLineBreak w) = []"
  using qp_soft [of "qp_out w @ qp_line w" m] qp_lines_snoc [of "qp_out w" "qp_line w @ ''=''"]
  by (auto simp: qp_inv_def insertSoftLineBreak_def insertCRLF_def qp_flush_def lineMaxLen_def CR_def LF_def)

lemma qp_inv_encode: "qp_inv m w \<Longrightarrow> qp_inv (m @ [b]) (qp_encode b w)"
  using qp_inv_soft [of m w] qp_hex [of _ m b]
  by (auto simp: qp_encode_def qp_inv_def Let_def lineMaxLen_def simp flip: append_assoc)

lemma qp_inv_last:
  assumes "qp_inv m w"
  shows "qp_inv m (checkLastByte w)"
proof (cases "qp_line w = [] \<or> \<not> is_blank (last (qp_line w))")
  case False
  then have l: "qp_line w = butlast (qp_line w) @ [last (qp_line w)]" by simp
  with assms have "qp_means ((qp_out w @ butlast (qp_line w)) @ [last (qp_line w)]) m" by (simp add: qp_inv_def)
  from qp_means_blank [OF this] False obtain m' where m: "m = m' @ [last (qp_line w)]"
    and m': "qp_means (qp_out w @ butlast (qp_line w)) m'" by auto
  have "no_break (butlast (qp_line w))" using assms l by (metis no_break_append qp_inv_def)
  with assms m' have "qp_inv m' (w\<lparr>qp_line := butlast (qp_line w)\<rparr>)" by (auto simp: qp_inv_def)
  from qp_inv_encode [OF this] False m show ?thesis by (simp add: checkLastByte_def)
qed (use assms in \<open>auto simp: checkLastByte_def\<close>)

lemma qp_inv_CRLF: "qp_inv m w \<Longrightarrow> qp_inv (m @ CRLF) (insertCRLF w)"
  using qp_break [of "qp_out w @ qp_line w" m] qp_lines_snoc [of "qp_out w" "qp_line w"]
  by (auto simp: qp_inv_def insertCRLF_def qp_flush_def)

lemma qp_inv_byte:
  assumes "qp_inv m w" and "printable b \<or> is_blank b" and "b \<noteq> CHR ''=''"
  shows "qp_inv (m @ [b]) (qp_byte b w)"
proof -
  have b: "b \<noteq> CR" "b \<noteq> LF" using assms(2) printable_no_break by (auto simp: is_blank_def CR_def LF_def)
  define w1 where "w1 = (if length (qp_line w) = lineMaxLen - 1 then insertSoftLineBreak w else w)"
  have w1: "qp_inv m w1" "length (qp_line w1) < lineMaxLen - 1"
    using assms(1) qp_inv_soft [OF assms(1)] by (auto simp: w1_def lineMaxLen_def qp_inv_def)
  then have "qp_means (qp_out w1 @ qp_line w1 @ [b]) (m @ [b])"
    using qp_plain [OF _ assms(2,3), of "qp_out w1 @ qp_line w1" m] by (simp add: qp_inv_def)
  moreover have "qp_byte b w = w1\<lparr>qp_line := qp_line w1 @ [b], qp_cr := False\<rparr>"
    using b by (simp add: qp_byte_def w1_def Let_def)
  ultimately show ?thesis using w1 b by (simp add: qp_inv_def)
qed

text \<open>Line ends of the text become CRLF.\<close>

definition crlf_text :: "string \<Rightarrow> string" where
  "crlf_text s = concat (map (\<lambda>c. if c = LF then CRLF else [c]) s)"

lemma qp_inv_Write: "CR \<notin> set p \<Longrightarrow> qp_inv m w \<Longrightarrow> qp_inv (m @ crlf_text p) (qp_Write p w)"
proof (induction p arbitrary: m w)
  case (Cons b p)
  let ?step = "if (printable b \<and> b \<noteq> CHR ''='') \<or> is_blank b \<or> b = LF \<or> b = CR then qp_byte b else qp_encode b"
  have "qp_inv (m @ (if b = LF then CRLF else [b])) (?step w)"
  proof (cases "b = LF")
    case True
    then show ?thesis
      using qp_inv_CRLF [OF qp_inv_last [OF Cons.prems(2)]] Cons.prems(2) by (auto simp: qp_byte_def Let_def qp_inv_def CR_def LF_def)
  next
    case False
    then show ?thesis
      using qp_inv_byte [OF Cons.prems(2), of b] qp_inv_encode [OF Cons.prems(2), of b] Cons.prems(1) by (auto simp: is_blank_def)
  qed
  from Cons.IH [OF _ this] Cons.prems(1) show ?case by (simp add: qp_Write_def crlf_text_def)
qed (simp add: qp_Write_def crlf_text_def)

theorem quotedprintable_faithful:
  assumes "CR \<notin> set body"
  shows "qp_means (quotedprintable body) (crlf_text body) \<and>
    (\<exists>t l. quotedprintable body = t @ l \<and> qp_lines t \<and> no_break l \<and> length l < lineMaxLen)"
proof -
  let ?w = "checkLastByte (qp_Write body \<lparr>qp_line = [], qp_cr = False, qp_out = []\<rparr>)"
  have "qp_inv (crlf_text body) ?w"
    using qp_inv_last [OF qp_inv_Write [OF assms, of "[]" "\<lparr>qp_line = [], qp_cr = False, qp_out = []\<rparr>"]]
    by (simp add: qp_inv_def qp_empty)
  moreover have "quotedprintable body = qp_out ?w @ qp_line ?w"
    by (simp add: quotedprintable_def qp_Close_def qp_flush_def Let_def)
  ultimately show ?thesis by (fastforce simp: qp_inv_def lineMaxLen_def)
qed

section \<open>Padded base64\<close>

definition StdEncoding :: "string \<Rightarrow> string" where
  "StdEncoding data = (let s = EncodeToString std_alphabet data in s @ replicate ((4 - length s mod 4) mod 4) CHR ''='')"

section \<open>Multipart bodies\<close>

record mw =
  mw_buf :: string
  mw_boundary :: string
  mw_started :: bool

definition multipart_NewWriter :: "string \<Rightarrow> string \<Rightarrow> mw" where
  "multipart_NewWriter boundary buf = \<lparr>mw_buf = buf, mw_boundary = boundary, mw_started = False\<rparr>"

definition header_line :: "string \<times> string \<Rightarrow> string" where
  "header_line h = fst h @ '': '' @ snd h @ CRLF"

text \<open>The writer sorts the header by name.\<close>

definition CreatePart :: "(string \<times> string) list \<Rightarrow> mw \<Rightarrow> mw" where
  "CreatePart h w =
     w\<lparr>mw_buf := mw_buf w @ (if mw_started w then CRLF else []) @ ''--'' @ mw_boundary w @ CRLF @
                 concat (map header_line (sort_key fst h)) @ CRLF,
       mw_started := True\<rparr>"

definition part_Write :: "string \<Rightarrow> mw \<Rightarrow> mw" where
  "part_Write p w = w\<lparr>mw_buf := mw_buf w @ p\<rparr>"

definition mw_Close :: "mw \<Rightarrow> string" where
  "mw_Close w = mw_buf w @ CRLF @ ''--'' @ mw_boundary w @ ''--'' @ CRLF"

end
