(* ===== verification/Ses.thy ===== *)
theory Ses
  imports AwsConfig Mime
begin

text \<open>
  The email client \<open>aws/ses\<close>: validation of header values, the raw MIME message for mails with attachments, the call of
  the AWS API. The two multipart boundaries, which Go draws at random, are arguments.
\<close>

definition ses_New :: "(string \<Rightarrow> (string \<times> string) option \<Rightarrow> string option) \<Rightarrow> awsConfig \<Rightarrow> (string, string option) res" where
  "ses_New = aws_New ''failed to load aws config: ''"

record Attachment =
  at_Filename :: string
  at_ContentType :: string
  at_Data :: string

record SendEmailInput =
  se_From :: string
  se_To :: "string list"
  se_Cc :: "string list"
  se_Bcc :: "string list"
  se_Subject :: string
  se_TextBody :: string
  se_HTMLBody :: string
  se_ReplyTo :: "string list"
  se_Attachments :: "Attachment list"

definition validateAddressHeaders :: "SendEmailInput \<Rightarrow> string option" where
  "validateAddressHeaders input =
     (if \<exists>f \<in> set ([se_From input, se_Subject input] @ se_To input @ se_Cc input @ se_Bcc input @ se_ReplyTo input). ContainsAny f CRLF
      then Some ''failed to build email: header value contains CR or LF'' else None)"

definition writeQPPart :: "string \<Rightarrow> string \<Rightarrow> mw \<Rightarrow> mw" where
  "writeQPPart contentType body w =
     part_Write (quotedprintable body)
       (CreatePart [(''Content-Type'', contentType), (''Content-Transfer-Encoding'', ''quoted-printable'')] w)"

definition writeBodyParts :: "string \<Rightarrow> SendEmailInput \<Rightarrow> mw \<Rightarrow> mw" where
  "writeBodyParts altBoundary input w =
     (if se_TextBody input \<noteq> [] \<and> se_HTMLBody input \<noteq> [] then
        let alt = writeQPPart ''text/html; charset=UTF-8'' (se_HTMLBody input)
                    (writeQPPart ''text/plain; charset=UTF-8'' (se_TextBody input) (multipart_NewWriter altBoundary []))
        in part_Write (mw_Close alt)
             (CreatePart [(''Content-Type'', ''multipart/alternative; boundary=\"'' @ altBoundary @ ''\"'')] w)
      else if se_TextBody input \<noteq> [] then writeQPPart ''text/plain; charset=UTF-8'' (se_TextBody input) w
      else if se_HTMLBody input \<noteq> [] then writeQPPart ''text/html; charset=UTF-8'' (se_HTMLBody input) w
      else w)"

definition write_attachment :: "Attachment \<Rightarrow> mw \<Rightarrow> mw" where
  "write_attachment att w =
     part_Write (StdEncoding (at_Data att))
       (CreatePart [(''Content-Type'', if at_ContentType att = [] then ''application/octet-stream'' else at_ContentType att),
                    (''Content-Transfer-Encoding'', ''base64''),
                    (''Content-Disposition'', ''attachment; filename=\"'' @ at_Filename att @ ''\"'')] w)"

definition message_headers :: "string \<Rightarrow> SendEmailInput \<Rightarrow> (string \<times> string) list" where
  "message_headers boundary input =
     [(''From'', se_From input), (''To'', Join (se_To input) '', '')] @
     (if se_Cc input \<noteq> [] then [(''Cc'', Join (se_Cc input) '', '')] else []) @
     (if se_ReplyTo input \<noteq> [] then [(''Reply-To'', Join (se_ReplyTo input) '', '')] else []) @
     [(''Subject'', QEncoding_Encode (se_Subject input)), (''MIME-Version'', ''1.0''),
      (''Content-Type'', ''multipart/mixed; boundary=\"'' @ boundary @ ''\"'')]"

definition buildRawMessage :: "string \<Rightarrow> string \<Rightarrow> SendEmailInput \<Rightarrow> string" where
  "buildRawMessage boundary altBoundary input =
     mw_Close (fold write_attachment (se_Attachments input)
       (writeBodyParts altBoundary input
         (multipart_NewWriter boundary (concat (map header_line (message_headers boundary input)) @ CRLF))))"

text \<open>The content sent: a raw message, or a subject with an optional HTML and text body.\<close>

datatype email_content = RawMessage string | SimpleMessage string "string option" "string option"

record sdkEmail =
  em_From :: string
  em_To :: "string list"
  em_Cc :: "string list"
  em_Bcc :: "string list"
  em_Content :: email_content
  em_ReplyTo :: "string list"

definition email_of :: "string \<Rightarrow> string \<Rightarrow> SendEmailInput \<Rightarrow> sdkEmail" where
  "email_of boundary altBoundary input =
     \<lparr>em_From = se_From input, em_To = se_To input, em_Cc = se_Cc input, em_Bcc = se_Bcc input,
      em_Content = (if se_Attachments input \<noteq> [] then RawMessage (buildRawMessage boundary altBoundary input)
                    else SimpleMessage (se_Subject input) (opt_string (se_HTMLBody input)) (opt_string (se_TextBody input))),
      em_ReplyTo = (if se_ReplyTo input \<noteq> [] then se_ReplyTo input else [])\<rparr>"

definition SendEmail ::
  "(sdkEmail \<Rightarrow> (string option, 's) svc) \<Rightarrow> string \<Rightarrow> string \<Rightarrow> SendEmailInput \<Rightarrow> (string, 's) svc" where
  "SendEmail api boundary altBoundary input =
     (if se_From input = [] then svc_fail ''missing from address''
      else if se_To input = [] then svc_fail ''missing To address''
      else (case validateAddressHeaders input of
              Some e \<Rightarrow> svc_fail e
            | None \<Rightarrow> svc_call ''failed to send email'' (api (email_of boundary altBoundary input)) ToString))"

section \<open>Header values\<close>

lemma ContainsAny_CRLF: "ContainsAny f CRLF \<longleftrightarrow> \<not> no_break f"
  by (auto simp: ContainsAny_def no_break_def CRLF_def list_ex_iff)

lemma validated_headers:
  assumes "validateAddressHeaders input = None"
  shows "no_break (se_From input) \<and> no_break (se_Subject input) \<and> (\<forall>a \<in> set (se_To input @ se_Cc input @ se_Bcc input @ se_ReplyTo input). no_break a)"
  using assms by (auto simp: validateAddressHeaders_def ContainsAny_CRLF split: if_splits)

lemma message_headers_no_break:
  assumes "validateAddressHeaders input = None" and "no_break boundary" and "h \<in> set (message_headers boundary input)"
  shows "no_break (fst h) \<and> no_break (snd h)"
  using assms(2,3) validated_headers [OF assms(1)]
  by (auto simp: message_headers_def no_break_QEncoding no_break_Join CR_def LF_def split: if_splits)

text \<open>The writers only append to the message.\<close>

definition extends :: "mw \<Rightarrow> mw \<Rightarrow> bool" where
  "extends w w' \<longleftrightarrow> (\<exists>t. mw_buf w' = mw_buf w @ t)"

lemma extends_trans: "extends w w' \<Longrightarrow> extends w' w'' \<Longrightarrow> extends w w''"
  by (auto simp: extends_def)

lemma extends_refl [simp]: "extends w w"
  by (simp add: extends_def)

lemma extends_part [simp]: "extends w (part_Write p (CreatePart h w))"
  by (simp add: extends_def part_Write_def CreatePart_def)

lemma extends_attachments: "extends w (fold write_attachment atts w)"
proof (induction atts arbitrary: w)
  case (Cons a atts)
  have "extends w (write_attachment a w)" by (simp add: write_attachment_def)
  from extends_trans [OF this Cons.IH] show ?case by simp
qed simp

lemma extends_body [simp]: "extends w (writeBodyParts alt input w)"
  by (simp add: writeBodyParts_def writeQPPart_def Let_def)

lemma raw_message_starts:
  "\<exists>t. buildRawMessage b alt input = concat (map header_line (message_headers b input)) @ CRLF @ t"
  using extends_trans [OF extends_body extends_attachments,
      of "multipart_NewWriter b (concat (map header_line (message_headers b input)) @ CRLF)" "se_Attachments input" alt input]
  by (auto simp: buildRawMessage_def mw_Close_def extends_def multipart_NewWriter_def)

text \<open>
  C34: Whatever SendEmail passes to the mail service, the addresses and the subject cannot add a header: when an input
  is accepted, none of its address values has a line break, and a raw message starts with exactly the header lines of
  the mail (sender, recipients, copies and reply address when given, subject, MIME version, content type), one per
  line, each free of further line breaks, and the empty line that ends them. An input that is refused makes no call.
\<close>
theorem email_headers_not_injectable:
  assumes "no_break boundary" and "SendEmail api boundary alt input s = (r, s')"
  shows "(r = Inl ''missing from address'' \<or> r = Inl ''missing To address'' \<or> r = Inl ''failed to build email: header value contains CR or LF'') \<and> s' = s \<or>
    (let m = email_of boundary alt input in
       s' = snd (api m s) \<and> (\<forall>a \<in> set (em_From m # em_To m @ em_Cc m @ em_Bcc m @ em_ReplyTo m). no_break a) \<and>
       (\<forall>raw. em_Content m = RawMessage raw \<longrightarrow>
          (\<exists>hs t. raw = concat (map header_line hs) @ CRLF @ t \<and> (\<forall>h \<in> set hs. no_break (fst h) \<and> no_break (snd h)) \<and>
            map fst hs = [''From'', ''To''] @ (if se_Cc input = [] then [] else [''Cc'']) @ (if se_ReplyTo input = [] then [] else [''Reply-To'']) @
              [''Subject'', ''MIME-Version'', ''Content-Type''])))"
proof (cases "se_From input = [] \<or> se_To input = [] \<or> validateAddressHeaders input \<noteq> None")
  case True
  then show ?thesis
    using assms(2) by (auto simp: SendEmail_def svc_fail_def validateAddressHeaders_def split: if_splits)
next
  case False
  let ?m = "email_of boundary alt input"
  from False have v: "validateAddressHeaders input = None" by simp
  have "s' = snd (api ?m s)"
    using assms(2) False by (auto simp: SendEmail_def svc_call_def split: prod.splits sum.splits)
  moreover have "\<forall>a \<in> set (em_From ?m # em_To ?m @ em_Cc ?m @ em_Bcc ?m @ em_ReplyTo ?m). no_break a"
    using validated_headers [OF v] by (auto simp: email_of_def split: if_splits)
  moreover have "map fst (message_headers boundary input) = [''From'', ''To''] @ (if se_Cc input = [] then [] else [''Cc'']) @
      (if se_ReplyTo input = [] then [] else [''Reply-To'']) @ [''Subject'', ''MIME-Version'', ''Content-Type'']"
    by (simp add: message_headers_def)
  moreover have "em_Content ?m = RawMessage raw \<Longrightarrow> raw = buildRawMessage boundary alt input" for raw
    by (auto simp: email_of_def split: if_splits)
  ultimately show ?thesis
    using raw_message_starts [of boundary alt input] message_headers_no_break [OF v assms(1)] unfolding Let_def by blast
qed

text \<open>A mail with a copy and an attachment, and a service that records what it is sent.\<close>

definition sample_mail :: SendEmailInput where
  "sample_mail = \<lparr>se_From = ''a@x.io'', se_To = [''b@x.io''], se_Cc = [''c@x.io''], se_Bcc = [], se_Subject = ''hi'', se_TextBody = ''text'',
     se_HTMLBody = [], se_ReplyTo = [], se_Attachments = [\<lparr>at_Filename = ''f'', at_ContentType = [], at_Data = ''data''\<rparr>]\<rparr>"

definition recording_api :: "sdkEmail \<Rightarrow> (string option, sdkEmail list) svc" where
  "recording_api m log = (Inr (Some ''id''), log @ [m])"

theorem email_headers_not_injectable_witness:
  "\<exists>raw hs t. SendEmail recording_api ''B'' ''A'' sample_mail [] = (Inr ''id'', [email_of ''B'' ''A'' sample_mail]) \<and>
     em_Content (email_of ''B'' ''A'' sample_mail) = RawMessage raw \<and>
     raw = concat (map header_line hs) @ CRLF @ t \<and> map fst hs = [''From'', ''To'', ''Cc'', ''Subject'', ''MIME-Version'', ''Content-Type'']"
proof -
  have v: "validateAddressHeaders sample_mail = None"
    by (simp add: validateAddressHeaders_def sample_mail_def ContainsAny_def CRLF_def CR_def LF_def)
  then have run: "SendEmail recording_api ''B'' ''A'' sample_mail [] = (Inr ''id'', [email_of ''B'' ''A'' sample_mail])"
    by (simp add: SendEmail_def svc_call_def recording_api_def ToString_def) (simp add: sample_mail_def)
  have b: "no_break ''B''" by (simp add: CR_def LF_def)
  obtain raw where c: "em_Content (email_of ''B'' ''A'' sample_mail) = RawMessage raw" by (simp add: email_of_def sample_mail_def)
  have cc: "se_Cc sample_mail \<noteq> []" "se_ReplyTo sample_mail = []" by (simp_all add: sample_mail_def)
  from email_headers_not_injectable [OF b run] c have "\<exists>hs t. raw = concat (map header_line hs) @ CRLF @ t \<and>
      map fst hs = [''From'', ''To''] @ (if se_Cc sample_mail = [] then [] else [''Cc'']) @
        (if se_ReplyTo sample_mail = [] then [] else [''Reply-To'']) @ [''Subject'', ''MIME-Version'', ''Content-Type'']"
    unfolding Let_def by blast
  with run c cc show ?thesis by simp
qed

section \<open>Bodies\<close>

text \<open>A body without carriage returns reaches the reader as written, in lines of at most 76 bytes.\<close>

lemma body_part_faithful:
  assumes "CR \<notin> set body"
  shows "\<exists>q. mw_buf (writeQPPart ct body w) =
      mw_buf (CreatePart [(''Content-Type'', ct), (''Content-Transfer-Encoding'', ''quoted-printable'')] w) @ q \<and> qp_means q (crlf_text body) \<and>
      (\<exists>t l. q = t @ l \<and> qp_lines t \<and> no_break l \<and> length l < lineMaxLen)"
  using quotedprintable_faithful [OF assms] by (simp add: writeQPPart_def part_Write_def)

section \<open>Attachments\<close>

text \<open>
  The name and the content type of an attachment are not validated: a name with a line break puts a header line of
  its own into the part.
\<close>

lemma part_header_written: "h \<in> set hs \<Longrightarrow> \<exists>t u. mw_buf (part_Write p (CreatePart hs w)) = t @ header_line h @ u"
proof -
  assume "h \<in> set hs"
  then have "h \<in> set (sort_key fst hs)" by simp
  then obtain as bs where "sort_key fst hs = as @ h # bs" by (meson split_list)
  then have "mw_buf (part_Write p (CreatePart hs w)) =
      (mw_buf w @ (if mw_started w then CRLF else []) @ ''--'' @ mw_boundary w @ CRLF @ concat (map header_line as)) @
      header_line h @ (concat (map header_line bs) @ CRLF @ p)"
    by (simp add: part_Write_def CreatePart_def)
  then show ?thesis by blast
qed

lemma attachment_name_injects:
  "\<exists>t u. mw_buf (write_attachment \<lparr>at_Filename = name @ CRLF @ field, at_ContentType = ct, at_Data = d\<rparr> w) = t @ CRLF @ field @ ''\"'' @ CRLF @ u"
proof -
  let ?h = "(''Content-Disposition'', ''attachment; filename=\"'' @ (name @ CRLF @ field) @ ''\"'')"
  obtain t u where "mw_buf (write_attachment \<lparr>at_Filename = name @ CRLF @ field, at_ContentType = ct, at_Data = d\<rparr> w) = t @ header_line ?h @ u"
    unfolding write_attachment_def using part_header_written [of ?h] by (metis Attachment.select_convs(1) list.set_intros)
  then have "mw_buf (write_attachment \<lparr>at_Filename = name @ CRLF @ field, at_ContentType = ct, at_Data = d\<rparr> w) =
      (t @ ''Content-Disposition: attachment; filename=\"'' @ name) @ CRLF @ field @ ''\"'' @ CRLF @ u"
    by (simp add: header_line_def)
  then show ?thesis by blast
qed

text \<open>An attachment is written as one line, of four characters for each three bytes.\<close>

lemma length_to_sextets: "3 * length (to_sextets bs) \<ge> 4 * length bs"
  by (induction bs rule: to_sextets.induct) auto

lemma attachment_single_line: "4 * length d \<le> 3 * length (StdEncoding d)"
  using length_to_sextets [of "map of_char d"] by (simp add: StdEncoding_def EncodeToString_def Let_def)

end
