(* ===== verification/Jwt.thy ===== *)
theory Jwt
  imports Headers
begin

text \<open>
  The token client \<open>security/jwt\<close>: construction from PEM keys (with the private key from a secrets provider), signing,
  and the three ways of parsing. \<open>golang-jwt\<close> is the record \<open>jwt_api\<close>; the locale \<open>jwt_api_laws\<close> states what its
  documentation promises of it. Keys are values of abstract types.
\<close>

record CustomClaims =
  cc_Scopes :: "string list"
  cc_IsAdmin :: bool
  cc_Subject :: string
  cc_Issuer :: string
  cc_Audience :: "string list"
  cc_ExpiresAt :: "instant option"
  cc_IssuedAt :: "instant option"
  cc_NotBefore :: "instant option"
  cc_ID :: string

text \<open>Parser options: the allowed methods, the leeway, the issuer and the audience to check, if any.\<close>

record parser_opts =
  po_ValidMethods :: "string list"
  po_Leeway :: duration
  po_Issuer :: "string option"
  po_Audience :: "string option"

text \<open>
  The library: parsing of PEM keys, the public half of a private key, signing with RS256 and a key ID, parsing with a
  key function that sees the method of the token (whether it is an RSA method, and its name), the precision of dates.
\<close>

record ('priv, 'pub) jwt_api =
  ParseRSAPublicKeyFromPEM :: "string \<Rightarrow> (string, 'pub) res"
  ParseRSAPrivateKeyFromPEM :: "string \<Rightarrow> (string, 'priv) res"
  PublicKey :: "'priv \<Rightarrow> 'pub"
  SignedString :: "'priv \<Rightarrow> string \<Rightarrow> CustomClaims \<Rightarrow> (string, string) res"
  jwt_Parse :: "parser_opts \<Rightarrow> (bool \<times> string \<Rightarrow> (string, 'pub) res) \<Rightarrow> instant \<Rightarrow> string \<Rightarrow> (string, bool \<times> CustomClaims) res"
  NewNumericDate :: "instant \<Rightarrow> instant"

section \<open>The client\<close>

definition defaultLeeway :: duration where "defaultLeeway = 30 * Second"

record jwtConfig =
  jw_PrivateKeyPEM :: string
  jw_PublicKeyPEM :: string
  jw_KID :: string
  jw_Issuer :: string
  jw_Audience :: string
  jw_Leeway :: duration
  jw_Secrets :: "(string \<Rightarrow> (string, string) res) option"
  jw_PrivateKeyName :: string

record ('priv, 'pub) jwtClient =
  jk_privateKey :: "'priv option"
  jk_publicKey :: 'pub
  jk_kid :: string
  jk_iss :: string
  jk_aud :: string
  jk_leeway :: duration

definition private_pem :: "jwtConfig \<Rightarrow> (string, string) res" where
  "private_pem cfg =
     (if jw_PrivateKeyPEM cfg = [] \<and> jw_PrivateKeyName cfg \<noteq> [] then
        (case jw_Secrets cfg of
           None \<Rightarrow> Inr (jw_PrivateKeyPEM cfg)
         | Some get \<Rightarrow> (case get (jw_PrivateKeyName cfg) of
                          Inl e \<Rightarrow> Inl (''failed to load private key from secrets: '' @ e) | Inr pem \<Rightarrow> Inr pem))
      else Inr (jw_PrivateKeyPEM cfg))"

definition load_private :: "('priv, 'pub) jwt_api \<Rightarrow> 'pub \<Rightarrow> string \<Rightarrow> (string, 'priv option) res" where
  "load_private lib pub pem =
     (if pem = [] then Inr None
      else (case ParseRSAPrivateKeyFromPEM lib pem of
              Inl e \<Rightarrow> Inl (''failed to parse private key: '' @ e)
            | Inr priv \<Rightarrow> if PublicKey lib priv \<noteq> pub then Inl ''private and public keys do not match'' else Inr (Some priv)))"

definition jwt_New :: "('priv, 'pub) jwt_api \<Rightarrow> jwtConfig \<Rightarrow> (string, ('priv, 'pub) jwtClient) res" where
  "jwt_New lib cfg =
     (if jw_PublicKeyPEM cfg = [] then Inl ''missing public key''
      else if jw_Issuer cfg = [] then Inl ''missing issuer''
      else if jw_Audience cfg = [] then Inl ''missing audience''
      else (case ParseRSAPublicKeyFromPEM lib (jw_PublicKeyPEM cfg) of
              Inl e \<Rightarrow> Inl (''failed to parse public key: '' @ e)
            | Inr pub \<Rightarrow>
                bind_res (private_pem cfg) (\<lambda>pem.
                bind_res (load_private lib pub pem) (\<lambda>priv.
                  Inr \<lparr>jk_privateKey = priv, jk_publicKey = pub, jk_kid = jw_KID cfg, jk_iss = jw_Issuer cfg, jk_aud = jw_Audience cfg,
                       jk_leeway = (if jw_Leeway cfg = 0 then defaultLeeway else jw_Leeway cfg)\<rparr>))))"

text \<open>The claims of a token for \<open>ttl\<close> seconds, issued at \<open>now\<close> with a fresh ID; the lifetime is a 64-bit product.\<close>

definition token_claims :: "('priv, 'pub) jwt_api \<Rightarrow> instant \<Rightarrow> string \<Rightarrow> string \<Rightarrow> string \<Rightarrow> string \<Rightarrow> int \<Rightarrow> string list \<Rightarrow> CustomClaims" where
  "token_claims lib now jti issuer subject audience ttl scopes =
     \<lparr>cc_Scopes = scopes, cc_IsAdmin = False, cc_Subject = subject, cc_Issuer = issuer, cc_Audience = [audience],
      cc_ExpiresAt = Some (NewNumericDate lib (now + wrap64 (ttl * Second))), cc_IssuedAt = Some (NewNumericDate lib now),
      cc_NotBefore = Some (NewNumericDate lib now), cc_ID = jti\<rparr>"

definition SignToken ::
  "('priv, 'pub) jwt_api \<Rightarrow> ('priv, 'pub) jwtClient \<Rightarrow> instant \<Rightarrow> string \<Rightarrow> string \<Rightarrow> string \<Rightarrow> string \<Rightarrow> int \<Rightarrow> string list \<Rightarrow> (string, string) res" where
  "SignToken lib c now jti issuer subject audience ttl scopes =
     (case jk_privateKey c of
        None \<Rightarrow> Inl ''failed to sign token: no private key configured''
      | Some priv \<Rightarrow>
          if ttl \<le> 0 then Inl ''failed to sign token: ttl must be positive''
          else SignedString lib priv (jk_kid c) (token_claims lib now jti issuer subject audience ttl scopes))"

definition keyFunc :: "('priv, 'pub) jwtClient \<Rightarrow> bool \<times> string \<Rightarrow> (string, 'pub) res" where
  "keyFunc c m = (if \<not> fst m then Inl (''unexpected signing method '' @ snd m) else Inr (jk_publicKey c))"

definition parse_opts :: "('priv, 'pub) jwtClient \<Rightarrow> bool \<Rightarrow> parser_opts" where
  "parse_opts c checkIssAud =
     \<lparr>po_ValidMethods = [''RS256''], po_Leeway = jk_leeway c,
      po_Issuer = (if checkIssAud then Some (jk_iss c) else None), po_Audience = (if checkIssAud then Some (jk_aud c) else None)\<rparr>"

definition jwt_parse ::
  "('priv, 'pub) jwt_api \<Rightarrow> ('priv, 'pub) jwtClient \<Rightarrow> instant \<Rightarrow> string \<Rightarrow> bool \<Rightarrow> (string, bool \<times> CustomClaims) res" where
  "jwt_parse lib c now token checkIssAud =
     (case jwt_Parse lib (parse_opts c checkIssAud) (keyFunc c) now token of
        Inl e \<Rightarrow> Inl (''failed to verify token: '' @ e)
      | Inr r \<Rightarrow> Inr r)"

definition ValidateToken :: "('priv, 'pub) jwt_api \<Rightarrow> ('priv, 'pub) jwtClient \<Rightarrow> instant \<Rightarrow> string \<Rightarrow> (string, bool) res" where
  "ValidateToken lib c now token = bind_res (jwt_parse lib c now token True) (\<lambda>(valid, _). Inr valid)"

definition ValidateAndParseClaims :: "('priv, 'pub) jwt_api \<Rightarrow> ('priv, 'pub) jwtClient \<Rightarrow> instant \<Rightarrow> string \<Rightarrow> (string, CustomClaims) res" where
  "ValidateAndParseClaims lib c now token = bind_res (jwt_parse lib c now token True) (\<lambda>(_, claims). Inr claims)"

definition ParseClaims :: "('priv, 'pub) jwt_api \<Rightarrow> ('priv, 'pub) jwtClient \<Rightarrow> instant \<Rightarrow> string \<Rightarrow> (string, CustomClaims) res" where
  "ParseClaims lib c now token = bind_res (jwt_parse lib c now token False) (\<lambda>(_, claims). Inr claims)"

section \<open>What the library promises\<close>

text \<open>The time claims hold at \<open>now\<close>, with the leeway.\<close>

definition in_time :: "duration \<Rightarrow> instant \<Rightarrow> CustomClaims \<Rightarrow> bool" where
  "in_time leeway now c \<longleftrightarrow>
     (case cc_ExpiresAt c of None \<Rightarrow> True | Some e \<Rightarrow> now < e + leeway) \<and>
     (case cc_NotBefore c of None \<Rightarrow> True | Some n \<Rightarrow> n - leeway \<le> now)"

definition addressed :: "parser_opts \<Rightarrow> CustomClaims \<Rightarrow> bool" where
  "addressed opts c \<longleftrightarrow>
     (case po_Issuer opts of None \<Rightarrow> True | Some i \<Rightarrow> cc_Issuer c = i) \<and>
     (case po_Audience opts of None \<Rightarrow> True | Some a \<Rightarrow> a \<in> set (cc_Audience c))"

text \<open>
  A parsed token carries the signature of the key the key function chose for its method, one of the allowed ones, its
  claims hold; a token signed by a private key with claims that hold is parsed with its public key, and parsing yields
  the claims that were signed, when their dates were made by \<open>NewNumericDate\<close> (a finer date is cut when it is encoded).
  It cuts a date to a precision of at most a second.
\<close>

definition dates_cut :: "('priv, 'pub) jwt_api \<Rightarrow> CustomClaims \<Rightarrow> bool" where
  "dates_cut lib c \<longleftrightarrow>
     (\<forall>d \<in> set_option (cc_ExpiresAt c) \<union> set_option (cc_IssuedAt c) \<union> set_option (cc_NotBefore c). d \<in> range (NewNumericDate lib))"

locale jwt_api_laws =
  fixes lib :: "('priv, 'pub) jwt_api" and sig_ok :: "string \<Rightarrow> 'pub \<Rightarrow> CustomClaims \<Rightarrow> bool"
  assumes parsed: "jwt_Parse lib opts kf now t = Inr (v, c) \<Longrightarrow>
      v \<and> (\<exists>rsa alg k. alg \<in> set (po_ValidMethods opts) \<and> kf (rsa, alg) = Inr k \<and> sig_ok t k c) \<and> in_time (po_Leeway opts) now c \<and> addressed opts c"
    and signed: "SignedString lib priv kid c = Inr t \<Longrightarrow> dates_cut lib c \<Longrightarrow> ''RS256'' \<in> set (po_ValidMethods opts) \<Longrightarrow>
      kf (True, ''RS256'') = Inr (PublicKey lib priv) \<Longrightarrow> in_time (po_Leeway opts) now c \<Longrightarrow> addressed opts c \<Longrightarrow>
      jwt_Parse lib opts kf now t = Inr (True, c)"
    and decoded: "SignedString lib priv kid c = Inr t \<Longrightarrow> dates_cut lib c \<Longrightarrow> jwt_Parse lib opts kf now t = Inr (v, c') \<Longrightarrow> c' = c"
    and date: "NewNumericDate lib d \<le> d \<and> d < NewNumericDate lib d + Second"
begin

lemma accepted:
  assumes "ValidateAndParseClaims lib c now t = Inr cl"
  shows "sig_ok t (jk_publicKey c) cl" "cc_Issuer cl = jk_iss c" "jk_aud c \<in> set (cc_Audience cl)" "in_time (jk_leeway c) now cl"
proof -
  obtain v where "jwt_Parse lib (parse_opts c True) (keyFunc c) now t = Inr (v, cl)"
    using assms by (auto simp: ValidateAndParseClaims_def jwt_parse_def bind_res_eq_Inr split: sum.splits)
  from parsed [OF this]
  show "sig_ok t (jk_publicKey c) cl" "cc_Issuer cl = jk_iss c" "jk_aud c \<in> set (cc_Audience cl)" "in_time (jk_leeway c) now cl"
    by (auto simp: keyFunc_def parse_opts_def addressed_def split: if_splits)
qed

lemma signed_accepted:
  assumes "SignedString lib priv kid cl = Inr t" and "dates_cut lib cl" and "PublicKey lib priv = jk_publicKey c"
    and "in_time (jk_leeway c) now cl" and "cc_Issuer cl = jk_iss c" and "jk_aud c \<in> set (cc_Audience cl)"
  shows "ValidateAndParseClaims lib c now t = Inr cl" "ValidateToken lib c now t = Inr True"
  using signed [OF assms(1,2), of "parse_opts c True" "keyFunc c" now] assms(3-)
  by (simp_all add: ValidateAndParseClaims_def ValidateToken_def jwt_parse_def keyFunc_def parse_opts_def addressed_def)

lemma expired_refused:
  assumes "SignedString lib priv kid cl = Inr t" and "dates_cut lib cl" and "\<not> in_time (jk_leeway c) now cl"
  shows "\<exists>e. ValidateAndParseClaims lib c now t = Inl e"
proof (cases "ValidateAndParseClaims lib c now t")
  case (Inr cl')
  then have "cl' = cl" using decoded [OF assms(1,2)]
    by (auto simp: ValidateAndParseClaims_def jwt_parse_def bind_res_eq_Inr split: sum.splits)
  with accepted(4) [OF Inr] assms(3) show ?thesis by simp
qed simp

end

lemma jwt_New_ok:
  assumes "jwt_New lib cfg = Inr c"
  shows "jk_iss c = jw_Issuer cfg" "jk_aud c = jw_Audience cfg" "jk_iss c \<noteq> []" "jk_aud c \<noteq> []"
    "jk_leeway c = (if jw_Leeway cfg = 0 then defaultLeeway else jw_Leeway cfg)"
    "jk_privateKey c = Some priv \<Longrightarrow> PublicKey lib priv = jk_publicKey c"
  using assms by (auto simp: jwt_New_def load_private_def bind_res_eq_Inr split: if_splits sum.splits)

text \<open>
  C25: A token the client signs for its own issuer and audience is accepted by the client with the claims it was signed
  with, from the moment it is issued until one second before the end of its lifetime and the leeway, and the client
  refuses it from that end on. (Dates are cut to whole seconds, so within the last second it depends on the fraction
  of a second at which the token was issued.) The configured leeway is not negative, and the lifetime is at most
  9223372036 seconds, where the conversion to a duration does not overflow.
\<close>
theorem jwt_sign_validate:
  assumes "jwt_api_laws lib sig_ok" and "jwt_New lib cfg = Inr c" and "0 \<le> jw_Leeway cfg"
    and "SignToken lib c issued jti (jw_Issuer cfg) sub (jw_Audience cfg) ttl scopes = Inr t" and "ttl \<le> 9223372036"
  shows "(issued \<le> now \<and> now + Second \<le> issued + ttl * Second + jk_leeway c \<longrightarrow>
      (\<exists>cl. ValidateAndParseClaims lib c now t = Inr cl \<and> ValidateToken lib c now t = Inr True \<and>
        cc_Subject cl = sub \<and> cc_Scopes cl = scopes \<and> \<not> cc_IsAdmin cl)) \<and>
    (issued + ttl * Second + jk_leeway c \<le> now \<longrightarrow>
      (\<exists>e. ValidateAndParseClaims lib c now t = Inl e))"
proof -
  note new = jwt_New_ok [OF assms(2)]
  let ?cl = "token_claims lib issued jti (jw_Issuer cfg) sub (jw_Audience cfg) ttl scopes"
  obtain priv where priv: "jk_privateKey c = Some priv" and t: "SignedString lib priv (jk_kid c) ?cl = Inr t" and ttl: "0 < ttl"
    using assms(4) by (auto simp: SignToken_def split: option.splits if_splits)
  have w: "wrap64 (ttl * Second) = ttl * Second"
    using ttl assms(5) by (intro wrap64_id) (auto simp: in_int64_def Second_def)
  have lw: "0 < jk_leeway c" using new(5) assms(3) by (auto simp: defaultLeeway_def Second_def)
  note d = jwt_api_laws.date [OF assms(1)]
  have fresh: "in_time (jk_leeway c) now ?cl" if "issued \<le> now" "now + Second \<le> issued + ttl * Second + jk_leeway c"
    using that w lw d [of issued] d [of "issued + ttl * Second"] by (simp add: in_time_def token_claims_def)
  have late: "\<not> in_time (jk_leeway c) now ?cl" if "issued + ttl * Second + jk_leeway c \<le> now"
    using that w d [of "issued + ttl * Second"] by (simp add: in_time_def token_claims_def)
  have "cc_Issuer ?cl = jk_iss c" "jk_aud c \<in> set (cc_Audience ?cl)" using new(1,2) by (simp_all add: token_claims_def)
  moreover have cut: "dates_cut lib ?cl" by (simp add: dates_cut_def token_claims_def)
  ultimately have "issued \<le> now \<and> now + Second \<le> issued + ttl * Second + jk_leeway c \<longrightarrow>
      ValidateAndParseClaims lib c now t = Inr ?cl \<and> ValidateToken lib c now t = Inr True"
    using jwt_api_laws.signed_accepted [OF assms(1) t cut new(6) [OF priv]] fresh by blast
  then show ?thesis using jwt_api_laws.expired_refused [OF assms(1) t cut] late by (auto simp: token_claims_def)
qed

text \<open>A library with these properties: one key pair and one token, for the given claims.\<close>

definition one_token_api :: "CustomClaims \<Rightarrow> (unit, unit) jwt_api" where
  "one_token_api cl =
     \<lparr>ParseRSAPublicKeyFromPEM = (\<lambda>_. Inr ()), ParseRSAPrivateKeyFromPEM = (\<lambda>_. Inr ()), PublicKey = (\<lambda>_. ()),
      SignedString = (\<lambda>_ _ c. if c = cl then Inr ''tok'' else Inl ''unknown claims''),
      jwt_Parse = (\<lambda>opts kf now t.
        if t \<noteq> ''tok'' then Inl ''token is malformed''
        else if ''RS256'' \<notin> set (po_ValidMethods opts) then Inl ''signing method is invalid''
        else (case kf (True, ''RS256'') of
                Inl e \<Rightarrow> Inl e
              | Inr _ \<Rightarrow> if in_time (po_Leeway opts) now cl \<and> addressed opts cl then Inr (True, cl) else Inl ''token has invalid claims'')),
      NewNumericDate = (\<lambda>d. d div Second * Second)\<rparr>"

interpretation one_token: jwt_api_laws "one_token_api cl" "\<lambda>t _ c. t = ''tok'' \<and> c = cl" for cl
proof unfold_locales
  fix d :: instant
  show "NewNumericDate (one_token_api cl) d \<le> d \<and> d < NewNumericDate (one_token_api cl) d + Second"
    by (simp add: one_token_api_def minus_mod_eq_div_mult [symmetric] Second_def)
qed (auto simp: one_token_api_def split: if_splits sum.splits)

definition sample_jwt_cfg :: jwtConfig where
  "sample_jwt_cfg = \<lparr>jw_PrivateKeyPEM = ''priv'', jw_PublicKeyPEM = ''pub'', jw_KID = ''k'', jw_Issuer = ''iss'', jw_Audience = ''aud'',
     jw_Leeway = 0, jw_Secrets = None, jw_PrivateKeyName = []\<rparr>"

definition sample_jwt_claims :: CustomClaims where
  "sample_jwt_claims = \<lparr>cc_Scopes = [''read''], cc_IsAdmin = False, cc_Subject = ''user'', cc_Issuer = ''iss'', cc_Audience = [''aud''],
     cc_ExpiresAt = Some (60 * Second), cc_IssuedAt = Some 0, cc_NotBefore = Some 0, cc_ID = ''id''\<rparr>"

definition sample_jwt_client :: "(unit, unit) jwtClient" where
  "sample_jwt_client = \<lparr>jk_privateKey = Some (), jk_publicKey = (), jk_kid = ''k'', jk_iss = ''iss'', jk_aud = ''aud'', jk_leeway = 30 * Second\<rparr>"

lemma sample_jwt_new: "jwt_New (one_token_api cl) sample_jwt_cfg = Inr sample_jwt_client"
  by (simp add: jwt_New_def sample_jwt_cfg_def sample_jwt_client_def one_token_api_def private_pem_def load_private_def defaultLeeway_def)

theorem jwt_sign_validate_witness:
  "(\<exists>cl. ValidateAndParseClaims (one_token_api sample_jwt_claims) sample_jwt_client (80 * Second) ''tok'' = Inr cl \<and>
      ValidateToken (one_token_api sample_jwt_claims) sample_jwt_client (80 * Second) ''tok'' = Inr True \<and>
      cc_Subject cl = ''user'' \<and> cc_Scopes cl = [''read''] \<and> \<not> cc_IsAdmin cl)"
proof -
  let ?lib = "one_token_api sample_jwt_claims"
  have "wrap64 (60 * Second) = 60 * Second" by (simp add: wrap64_id in_int64_def Second_def)
  then have s: "SignToken ?lib sample_jwt_client 0 ''id'' (jw_Issuer sample_jwt_cfg) ''user'' (jw_Audience sample_jwt_cfg) 60 [''read''] = Inr ''tok''"
    by (simp add: SignToken_def sample_jwt_client_def token_claims_def one_token_api_def sample_jwt_claims_def sample_jwt_cfg_def)
  show ?thesis
    using jwt_sign_validate [OF one_token.jwt_api_laws_axioms sample_jwt_new _ s, of "80 * Second"]
    by (simp add: sample_jwt_cfg_def sample_jwt_client_def Second_def)
qed

text \<open>
  Claims are accepted only from a token signed with the configured key, for the configured issuer and audience and
  within its time (up to the leeway); a configuration whose private key does not belong to the public key is refused.
\<close>
theorem jwt_validate_sound:
  assumes "jwt_api_laws lib sig_ok" and "jwt_New lib cfg = Inr c" and "ValidateAndParseClaims lib c now t = Inr cl"
  shows "sig_ok t (jk_publicKey c) cl \<and> cc_Issuer cl = jw_Issuer cfg \<and> jw_Audience cfg \<in> set (cc_Audience cl) \<and>
    in_time (jk_leeway c) now cl \<and> (\<forall>priv. jk_privateKey c = Some priv \<longrightarrow> PublicKey lib priv = jk_publicKey c)"
  using jwt_api_laws.accepted [OF assms(1,3)] jwt_New_ok [OF assms(2)] by simp

theorem jwt_validate_sound_witness:
  "''aud'' \<in> set (cc_Audience sample_jwt_claims) \<and> in_time (30 * Second) (80 * Second) sample_jwt_claims"
proof -
  let ?lib = "one_token_api sample_jwt_claims"
  have "ValidateAndParseClaims ?lib sample_jwt_client (80 * Second) ''tok'' = Inr sample_jwt_claims"
    by (simp add: ValidateAndParseClaims_def jwt_parse_def one_token_api_def parse_opts_def keyFunc_def sample_jwt_client_def
        in_time_def addressed_def sample_jwt_claims_def Second_def)
  from jwt_validate_sound [OF one_token.jwt_api_laws_axioms sample_jwt_new this] show ?thesis
    by (simp add: sample_jwt_cfg_def sample_jwt_client_def)
qed

text \<open>A lifetime above that bound overflows: the token is expired when it is issued.\<close>

lemma SignToken_overflow:
  "cc_ExpiresAt (token_claims lib now jti issuer sub aud (9223372037) scopes) = Some (NewNumericDate lib (now - 9223372036709551616))"
proof -
  have "wrap64 (9223372037 * Second) = - 9223372036709551616" by code_simp
  then show ?thesis by (simp add: token_claims_def)
qed

end
