(* ===== verification/Telemetry.thy ===== *)
theory Telemetry
  imports HttpErrors
begin

text \<open>
  The capturing response writer of \<open>api/response\<close>, the telemetry middleware (\<open>api/telemetry\<close>) with its recovery from
  panics, and the server start (\<open>api/server\<close>). A handler is what it does to the response writer, in order, and how it
  ends; the writer below is the one of \<open>net/http\<close>, with informational answers, statuses without a body, declared lengths and
  \<open>HEAD\<close> requests.
\<close>

section \<open>The writer of the server\<close>

text \<open>
  \<open>n_wtr\<close> is the answer as the server has accepted it. To a \<open>HEAD\<close> request it sends the answer without the body, which it
  has counted as written. \<open>n_length\<close> is the length the handler declared, \<open>n_written\<close> what it tried to write.
\<close>

record net =
  n_wtr :: writer
  n_info :: "int list"
  n_head :: bool
  n_length :: "int option"
  n_written :: int

definition fresh_net :: "request \<Rightarrow> net" where
  "fresh_net req = \<lparr>n_wtr = fresh_writer, n_info = [], n_head = (req_method req = ''HEAD''), n_length = None, n_written = 0\<rparr>"

text \<open>The final header: a declared length that is not a number is dropped.\<close>

definition final_header :: "int \<Rightarrow> net \<Rightarrow> net" where
  "final_header code n =
     (let w = wtr_WriteHeader (n_wtr n) code;
          cl = Header_Get (w_header w) ''Content-Length'';
          w' = w\<lparr>w_header := (w_header w)(CanonicalMIMEHeaderKey ''Content-Length'' := None)\<rparr>
      in if cl = [] then n\<lparr>n_wtr := w\<rparr>
         else (case Atoi cl of
                 Some v \<Rightarrow> if v \<ge> 0 then n\<lparr>n_wtr := w, n_length := Some v\<rparr> else n\<lparr>n_wtr := w'\<rparr>
               | None \<Rightarrow> n\<lparr>n_wtr := w'\<rparr>))"

text \<open>\<open>None\<close> is the panic of \<open>net/http\<close> on a code that is not of three digits.\<close>

definition net_WriteHeader :: "int \<Rightarrow> net \<Rightarrow> net option" where
  "net_WriteHeader code n =
     (if w_status (n_wtr n) \<noteq> None then Some n
      else if code < 100 \<or> code > 999 then None
      else if code \<le> 199 \<and> code \<noteq> 101 then Some (n\<lparr>n_info := n_info n @ [code]\<rparr>)
      else Some (final_header code n))"

definition body_allowed :: "int \<Rightarrow> bool" where
  "body_allowed status \<longleftrightarrow> \<not> (100 \<le> status \<and> status \<le> 199) \<and> status \<noteq> 204 \<and> status \<noteq> 304"

text \<open>The result is the number of bytes taken as written; a write past the declared length is refused as a whole.\<close>

definition net_Write :: "string \<Rightarrow> net \<Rightarrow> nat \<times> net" where
  "net_Write b n =
     (let n1 = (if w_status (n_wtr n) = None then final_header 200 n else n) in
      if b = [] then (0, n1)
      else if \<not> body_allowed (the (w_status (n_wtr n1))) then (0, n1)
      else
        (let n2 = n1\<lparr>n_written := n_written n1 + int (length b)\<rparr> in
         if (case n_length n2 of None \<Rightarrow> False | Some l \<Rightarrow> n_written n2 > l) then (0, n2)
         else (length b, n2\<lparr>n_wtr := wtr_Write (n_wtr n2) (Bytes b)\<rparr>)))"

section \<open>Package response\<close>

record ResponseWriter =
  rw_inner :: net
  rw_Status :: int
  rw_BytesWritten :: nat
  rw_WroteHeader :: bool

definition mark_header :: "int \<Rightarrow> ResponseWriter \<Rightarrow> ResponseWriter" where
  "mark_header code r = (if \<not> rw_WroteHeader r then r\<lparr>rw_Status := code, rw_WroteHeader := True\<rparr> else r)"

text \<open>A panic of the inner writer leaves the captured fields set: the flag says whether it happened.\<close>

definition rw_WriteHeader :: "int \<Rightarrow> ResponseWriter \<Rightarrow> bool \<times> ResponseWriter" where
  "rw_WriteHeader code r =
     (let r1 = mark_header code r in
      case net_WriteHeader code (rw_inner r1) of None \<Rightarrow> (True, r1) | Some n \<Rightarrow> (False, r1\<lparr>rw_inner := n\<rparr>))"

definition rw_Write :: "string \<Rightarrow> ResponseWriter \<Rightarrow> ResponseWriter" where
  "rw_Write b r =
     (let r1 = (if \<not> rw_WroteHeader r then snd (rw_WriteHeader 200 r) else r);
          (num, n) = net_Write b (rw_inner r1)
      in r1\<lparr>rw_inner := n, rw_BytesWritten := rw_BytesWritten r1 + num\<rparr>)"

definition rw_Unwrap :: "ResponseWriter \<Rightarrow> net" where
  "rw_Unwrap r = rw_inner r"

definition IsSuccess :: "int \<Rightarrow> bool" where "IsSuccess status \<longleftrightarrow> status \<ge> 200 \<and> status < 300"
definition IsError :: "int \<Rightarrow> bool" where "IsError status \<longleftrightarrow> status \<ge> 400 \<and> status < 600"
definition IsRedirect :: "int \<Rightarrow> bool" where "IsRedirect status \<longleftrightarrow> status \<ge> 300 \<and> status < 400"
definition IsInformational :: "int \<Rightarrow> bool" where "IsInformational status \<longleftrightarrow> status \<ge> 100 \<and> status < 200"

text \<open>The bound response; \<open>marshal\<close> is what \<open>json.Marshal\<close> makes of the body reader. The target is never read.\<close>

record APIResponse =
  ar_Status :: int
  ar_Body :: string
  ar_Headers :: header
  ar_RequestID :: string
  ar_Error :: "ErrorCode option"

definition Bind :: "(string, string) res \<Rightarrow> (int \<times> header) option \<Rightarrow> 'target \<Rightarrow> (string, APIResponse) res" where
  "Bind marshalled res target =
     (case res of
        None \<Rightarrow> Inl ''failed to bind response - response is nil''
      | Some (status, hdr) \<Rightarrow>
          (case marshalled of
             Inl e \<Rightarrow> Inl (''failed to bind response - failed to marshal response body: '' @ e)
           | Inr body \<Rightarrow> Inr \<lparr>ar_Status = status, ar_Body = body, ar_Headers = hdr, ar_RequestID = Header_Get hdr ''X-Request-ID'', ar_Error = None\<rparr>))"

section \<open>Handlers that can panic\<close>

datatype wop = OpSetHeader string string | OpWriteHeader int | OpWrite string

text \<open>Performing operations on the captured writer: the value of the panic, if one ended them.\<close>

definition set_header :: "string \<Rightarrow> string \<Rightarrow> ResponseWriter \<Rightarrow> ResponseWriter" where
  "set_header k v r = r\<lparr>rw_inner := (rw_inner r)\<lparr>n_wtr := wtr_SetHeader (n_wtr (rw_inner r)) k v\<rparr>\<rparr>"

primrec perform :: "wop list \<Rightarrow> ResponseWriter \<Rightarrow> string option \<times> ResponseWriter" where
  "perform [] r = (None, r)"
| "perform (op # ops) r =
     (case op of
        OpSetHeader k v \<Rightarrow> perform ops (set_header k v r)
      | OpWrite b \<Rightarrow> perform ops (rw_Write b r)
      | OpWriteHeader code \<Rightarrow>
          (case rw_WriteHeader code r of (True, r1) \<Rightarrow> (Some ''invalid WriteHeader code'', r1) | (False, r1) \<Rightarrow> perform ops r1))"

text \<open>A handler: its operations, and the panic it ends with.\<close>

type_synonym phandler = "request \<Rightarrow> wop list \<times> string option"

definition serve :: "phandler \<Rightarrow> request \<Rightarrow> ResponseWriter \<Rightarrow> string option \<times> ResponseWriter" where
  "serve next req r =
     (case perform (fst (next req)) r of (Some p, r1) \<Rightarrow> (Some p, r1) | (None, r1) \<Rightarrow> (snd (next req), r1))"

section \<open>Telemetry\<close>

datatype log_entry =
  RequestCompleted int nat int
| RequestFailed int nat int
| TelemetryPanicked string

definition Milliseconds :: "duration \<Rightarrow> int" where
  "Milliseconds d = quot d Millisecond"

text \<open>
  The handler runs from \<open>start\<close> to \<open>finish\<close>, which stamps an error answer. That answer is made on the server's writer; a
  length the handler had declared before its panic is not applied to it.
\<close>

definition TelemetryMiddleware :: "instant \<Rightarrow> instant \<Rightarrow> phandler \<Rightarrow> request \<Rightarrow> net \<Rightarrow> log_entry \<times> net" where
  "TelemetryMiddleware start finish next req n =
     (let (panic, r) = serve next req \<lparr>rw_inner = n, rw_Status = 0, rw_BytesWritten = 0, rw_WroteHeader = False\<rparr>;
          ms = Milliseconds (Sub finish start)
      in case panic of
           Some rec \<Rightarrow>
             (TelemetryPanicked rec,
              if rw_Status r = 0
              then (rw_inner r)\<lparr>n_wtr := SendError finish (n_wtr (rw_inner r)) req Global_Internal
                                  [WithDetail ''error occured while logging telemetry'']\<rparr>
              else rw_inner r)
         | None \<Rightarrow>
             (let status = (if rw_Status r = 0 then 200 else rw_Status r) in
              (if status \<ge> 400 then RequestFailed status (rw_BytesWritten r) ms else RequestCompleted status (rw_BytesWritten r) ms,
               rw_inner r)))"

section \<open>What is reported is what was sent\<close>

text \<open>
  The bytes of the body the server accepted, those it sends, and the status the client sees: 200 when the handler
  never set one.
\<close>

fun chunk_bytes :: "chunk \<Rightarrow> nat" where
  "chunk_bytes (Bytes b) = length b"
| "chunk_bytes _ = 0"

definition body_bytes :: "net \<Rightarrow> nat" where
  "body_bytes n = sum_list (map chunk_bytes (w_body (n_wtr n)))"

definition sent_bytes :: "net \<Rightarrow> nat" where
  "sent_bytes n = (if n_head n then 0 else body_bytes n)"

definition sent_status :: "net \<Rightarrow> int" where
  "sent_status n = (case w_status (n_wtr n) of None \<Rightarrow> 200 | Some s \<Rightarrow> s)"

text \<open>A handler that answers with final codes only.\<close>

definition final_code :: "int \<Rightarrow> bool" where
  "final_code code \<longleftrightarrow> code = 101 \<or> 200 \<le> code \<and> code \<le> 999"

fun final_op :: "wop \<Rightarrow> bool" where
  "final_op (OpWriteHeader code) = final_code code"
| "final_op _ = True"

definition captured :: "net \<Rightarrow> ResponseWriter \<Rightarrow> bool" where
  "captured n0 r \<longleftrightarrow>
     (if rw_WroteHeader r then w_status (n_wtr (rw_inner r)) = Some (rw_Status r) \<and> rw_Status r \<noteq> 0
      else w_status (n_wtr (rw_inner r)) = None \<and> w_body (n_wtr (rw_inner r)) = [] \<and> rw_Status r = 0) \<and>
     body_bytes (rw_inner r) = body_bytes n0 + rw_BytesWritten r \<and> n_head (rw_inner r) = n_head n0"

lemma final_header_fields [simp]:
  "w_status (n_wtr (final_header code n)) = Some (case w_status (n_wtr n) of None \<Rightarrow> code | Some d \<Rightarrow> d)"
  "w_body (n_wtr (final_header code n)) = w_body (n_wtr n)" "n_head (final_header code n) = n_head n"
  by (simp_all add: final_header_def Let_def split: option.splits)

lemma captured_WriteHeader:
  assumes "captured n0 r" and "final_code code"
  shows "\<exists>r1. rw_WriteHeader code r = (False, r1) \<and> captured n0 r1 \<and> rw_WroteHeader r1"
  using assms
  by (auto simp: captured_def rw_WriteHeader_def mark_header_def net_WriteHeader_def final_code_def body_bytes_def Let_def split: if_splits option.splits)

lemma net_Write_captured:
  assumes "w_status (n_wtr n) = Some c" and "net_Write b n = (num, n')"
  shows "w_status (n_wtr n') = Some c \<and> body_bytes n' = body_bytes n + num \<and> n_head n' = n_head n"
  using assms by (auto simp: net_Write_def body_bytes_def Let_def split: if_splits)

lemma captured_Write: "captured n0 r \<Longrightarrow> captured n0 (rw_Write b r)"
proof -
  assume c: "captured n0 r"
  let ?r1 = "if \<not> rw_WroteHeader r then snd (rw_WriteHeader 200 r) else r"
  have r1: "captured n0 ?r1" "rw_WroteHeader ?r1" using c captured_WriteHeader [OF c, of 200] by (auto simp: final_code_def)
  obtain num n where w: "net_Write b (rw_inner ?r1) = (num, n)" by fastforce
  have "rw_Write b r = ?r1\<lparr>rw_inner := n, rw_BytesWritten := rw_BytesWritten ?r1 + num\<rparr>"
    using w by (simp add: rw_Write_def Let_def)
  moreover have "captured n0 (?r1\<lparr>rw_inner := n, rw_BytesWritten := rw_BytesWritten ?r1 + num\<rparr>)"
    using r1 net_Write_captured [OF _ w, of "rw_Status ?r1"] by (simp add: captured_def)
  ultimately show ?thesis by (simp only:)
qed

lemma captured_perform:
  "captured n0 r \<Longrightarrow> list_all final_op ops \<Longrightarrow> \<exists>r1. perform ops r = (None, r1) \<and> captured n0 r1"
proof (induction ops arbitrary: r)
  case (Cons op ops)
  show ?case
  proof (cases op)
    case (OpSetHeader k v)
    have "captured n0 (set_header k v r)" using Cons.prems(1) by (simp add: set_header_def captured_def body_bytes_def)
    with Cons OpSetHeader show ?thesis by simp
  next
    case (OpWriteHeader code)
    with captured_WriteHeader [OF Cons.prems(1), of code] Cons show ?thesis by auto
  next
    case (OpWrite b)
    with captured_Write [OF Cons.prems(1)] Cons show ?thesis by simp
  qed
qed simp

text \<open>
  C29: On a fresh connection, and for a handler that answers with final status codes, telemetry logs the status the
  client receives, as a failure exactly from 400 on, and the number of body bytes sent; only for a \<open>HEAD\<close> request,
  to which no body is sent, it logs the bytes of the body that a \<open>GET\<close> would have been sent. A handler that panics
  before it has answered, and before it has declared a \<open>Content-Length\<close>, is answered with the 500 error response;
  after that the answer is left as the handler made it.
\<close>
theorem telemetry_reports_response:
  assumes "list_all final_op (fst (next req))"
    and "TelemetryMiddleware start finish next req (fresh_net req) = (entry, n')"
  shows "case snd (next req) of
      None \<Rightarrow>
        entry = (if sent_status n' \<ge> 400 then RequestFailed else RequestCompleted) (sent_status n')
          (if req_method req = ''HEAD'' then body_bytes n' else sent_bytes n') (Milliseconds (Sub finish start)) \<and>
        (req_method req = ''HEAD'' \<longrightarrow> sent_bytes n' = 0)
    | Some rec \<Rightarrow> entry = TelemetryPanicked rec \<and>
        (\<exists>r. perform (fst (next req)) \<lparr>rw_inner = fresh_net req, rw_Status = 0, rw_BytesWritten = 0, rw_WroteHeader = False\<rparr> = (None, r) \<and>
          (if w_status (n_wtr (rw_inner r)) \<noteq> None then n' = rw_inner r
           else Header_Get (w_header (n_wtr (rw_inner r))) ''Content-Length'' = [] \<longrightarrow>
             is_error_response (n_wtr n') 500 (ec_ID Global_Internal)))"
proof -
  let ?r0 = "\<lparr>rw_inner = fresh_net req, rw_Status = 0, rw_BytesWritten = 0, rw_WroteHeader = False\<rparr>"
  have "captured (fresh_net req) ?r0" by (simp add: captured_def fresh_net_def fresh_writer_def)
  from captured_perform [OF this assms(1)] obtain r where r: "perform (fst (next req)) ?r0 = (None, r)"
    and c: "captured (fresh_net req) r" by blast
  have b: "body_bytes (fresh_net req) = 0" "n_head (fresh_net req) \<longleftrightarrow> req_method req = ''HEAD''"
    by (simp_all add: body_bytes_def fresh_net_def fresh_writer_def)
  show ?thesis
  proof (cases "snd (next req)")
    case None
    then show ?thesis
      using assms(2) r c b
      by (auto simp: TelemetryMiddleware_def serve_def Let_def captured_def sent_status_def sent_bytes_def split: if_splits)
  next
    case (Some rec)
    have "is_error_response (SendError finish (n_wtr (rw_inner r)) req Global_Internal
        [WithDetail ''error occured while logging telemetry'']) 500 (ec_ID Global_Internal)" if "w_status (n_wtr (rw_inner r)) = None"
      using SendError_fresh [of "n_wtr (rw_inner r)" "[WithDetail ''error occured while logging telemetry'']" finish req Global_Internal] that c
      by (simp add: captured_def Global_Internal_def mk_code_def split: if_splits)
    then show ?thesis
      using assms(2) r c Some by (auto simp: TelemetryMiddleware_def serve_def Let_def captured_def split: if_splits)
  qed
qed

text \<open>A handler that answers 404 with a body, to a \<open>GET\<close> and to a \<open>HEAD\<close> request.\<close>

definition sample_missing :: phandler where
  "sample_missing = (\<lambda>_. ([OpWriteHeader 404, OpWrite ''gone''], None))"

definition sample_missing_net :: "bool \<Rightarrow> net" where
  "sample_missing_net head = \<lparr>n_wtr = fresh_writer\<lparr>w_status := Some 404, w_body := [Bytes ''gone'']\<rparr>, n_info = [], n_head = head,
     n_length = None, n_written = 4\<rparr>"

lemma sample_missing_run:
  "\<exists>entry. TelemetryMiddleware 0 (2 * Millisecond) sample_missing req (fresh_net req) =
     (entry, sample_missing_net (req_method req = ''HEAD''))"
  by (simp add: TelemetryMiddleware_def serve_def sample_missing_def rw_WriteHeader_def rw_Write_def mark_header_def net_WriteHeader_def
      net_Write_def final_header_def fresh_writer_def fresh_net_def wtr_WriteHeader_def wtr_Write_def body_allowed_def
      sample_missing_net_def Header_Get_def Let_def)

definition sample_with_method :: "string \<Rightarrow> request" where
  "sample_with_method m = sample_request\<lparr>req_method := m\<rparr>"

theorem telemetry_reports_response_witness:
  "(\<exists>n'. TelemetryMiddleware 0 (2 * Millisecond) sample_missing (sample_with_method ''GET'') (fresh_net (sample_with_method ''GET'')) =
     (RequestFailed 404 4 (Milliseconds (Sub (2 * Millisecond) 0)), n') \<and> sent_bytes n' = 4) \<and>
   (\<exists>n'. TelemetryMiddleware 0 (2 * Millisecond) sample_missing (sample_with_method ''HEAD'') (fresh_net (sample_with_method ''HEAD'')) =
     (RequestFailed 404 4 (Milliseconds (Sub (2 * Millisecond) 0)), n') \<and> sent_bytes n' = 0)"
proof -
  have run: "\<exists>n'. TelemetryMiddleware 0 (2 * Millisecond) sample_missing (sample_with_method m) (fresh_net (sample_with_method m)) =
     (RequestFailed 404 4 (Milliseconds (Sub (2 * Millisecond) 0)), n') \<and> sent_bytes n' = (if m = ''HEAD'' then 0 else 4)" for m
  proof -
    let ?req = "sample_with_method m" and ?n = "sample_missing_net (m = ''HEAD'')"
    obtain entry where run: "TelemetryMiddleware 0 (2 * Millisecond) sample_missing ?req (fresh_net ?req) = (entry, ?n)"
      using sample_missing_run [of ?req] by (auto simp: sample_with_method_def)
    have "sent_status ?n = 404" "body_bytes ?n = 4" "sent_bytes ?n = (if m = ''HEAD'' then 0 else 4)"
      by (simp_all add: sent_status_def body_bytes_def sent_bytes_def sample_missing_net_def)
    with telemetry_reports_response [OF _ run] run show ?thesis
      by (auto simp: final_code_def sample_missing_def sample_with_method_def)
  qed
  from run [of "''GET''"] run [of "''HEAD''"] show ?thesis by simp
qed

text \<open>
  With informational answers the captured status is the first code, not the one the client ends with: early hints
  followed by a 404 are logged as completed with status 103. After a code that is not of three digits the panic is
  taken for one after the answer, and the client gets an empty 200.
\<close>

lemma telemetry_early_hints:
  "\<exists>n'. TelemetryMiddleware 0 0 (\<lambda>_. ([OpWriteHeader 103, OpWriteHeader 404], None)) req (fresh_net req) =
     (RequestCompleted 103 0 0, n') \<and> sent_status n' = 404"
  by (simp add: TelemetryMiddleware_def serve_def rw_WriteHeader_def mark_header_def net_WriteHeader_def fresh_writer_def
      final_header_def fresh_net_def Header_Get_def wtr_WriteHeader_def sent_status_def Milliseconds_def quot_def Let_def)

lemma telemetry_invalid_code:
  "\<exists>e n'. TelemetryMiddleware 0 0 (\<lambda>_. ([OpWriteHeader 0042], None)) req (fresh_net req) = (TelemetryPanicked e, n') \<and>
     n_wtr n' = fresh_writer"
  by (simp add: TelemetryMiddleware_def serve_def rw_WriteHeader_def mark_header_def net_WriteHeader_def fresh_writer_def fresh_net_def
      Let_def)

section \<open>Package server\<close>

record server =
  sv_Addr :: string
  sv_ReadHeaderTimeout :: duration
  sv_ReadTimeout :: duration
  sv_WriteTimeout :: duration
  sv_IdleTimeout :: duration

definition DefaultReadHeaderTimeout :: duration where "DefaultReadHeaderTimeout = 10 * Second"
definition DefaultReadTimeout :: duration where "DefaultReadTimeout = 30 * Second"
definition DefaultWriteTimeout :: duration where "DefaultWriteTimeout = 30 * Second"
definition DefaultIdleTimeout :: duration where "DefaultIdleTimeout = 120 * Second"

definition applyTimeoutDefaults :: "server \<Rightarrow> server" where
  "applyTimeoutDefaults srv =
     srv\<lparr>sv_ReadHeaderTimeout := (if sv_ReadHeaderTimeout srv = 0 then DefaultReadHeaderTimeout else sv_ReadHeaderTimeout srv),
         sv_ReadTimeout := (if sv_ReadTimeout srv = 0 then DefaultReadTimeout else sv_ReadTimeout srv),
         sv_WriteTimeout := (if sv_WriteTimeout srv = 0 then DefaultWriteTimeout else sv_WriteTimeout srv),
         sv_IdleTimeout := (if sv_IdleTimeout srv = 0 then DefaultIdleTimeout else sv_IdleTimeout srv)\<rparr>"

text \<open>
  What a run does, up to its end. \<open>listen\<close> is the error \<open>ListenAndServe\<close> returns with before a signal arrives, if it
  does; either it or the signal cancels the context, and the server is shut down within the timeout.
\<close>

datatype server_act = StartLambda | Listen server | ServerFailed string | ShutDown duration | Exit int | ShutdownComplete

definition InitAndServe :: "string option \<Rightarrow> (duration \<Rightarrow> string option) \<Rightarrow> server \<Rightarrow> string \<Rightarrow> duration \<Rightarrow> server_act list" where
  "InitAndServe listen shutdown srv p t =
     Listen (applyTimeoutDefaults (srv\<lparr>sv_Addr := p\<rparr>)) #
     (case listen of None \<Rightarrow> [] | Some e \<Rightarrow> [ServerFailed e]) @
     ShutDown t # (case shutdown t of Some _ \<Rightarrow> [Exit 1] | None \<Rightarrow> [ShutdownComplete])"

definition server_Run ::
  "(string \<Rightarrow> string) \<Rightarrow> string option \<Rightarrow> (duration \<Rightarrow> string option) \<Rightarrow> server \<Rightarrow> string \<Rightarrow> duration \<Rightarrow> server_act list" where
  "server_Run getenv listen shutdown srv port gracefulTimeout =
     (if getenv ''AWS_LAMBDA_FUNCTION_NAME'' \<noteq> [] then [StartLambda] else InitAndServe listen shutdown srv port gracefulTimeout)"

text \<open>No timeout of a listening server is zero; set ones are kept.\<close>

lemma listening_timeouts:
  assumes "Listen srv' \<in> set (server_Run getenv listen shutdown srv port t)"
  shows "sv_ReadHeaderTimeout srv' \<noteq> 0 \<and> sv_ReadTimeout srv' \<noteq> 0 \<and> sv_WriteTimeout srv' \<noteq> 0 \<and> sv_IdleTimeout srv' \<noteq> 0 \<and>
    (sv_ReadTimeout srv \<noteq> 0 \<longrightarrow> sv_ReadTimeout srv' = sv_ReadTimeout srv) \<and> sv_Addr srv' = port"
  using assms
  by (auto simp: server_Run_def InitAndServe_def applyTimeoutDefaults_def DefaultReadHeaderTimeout_def DefaultReadTimeout_def
      DefaultWriteTimeout_def DefaultIdleTimeout_def Second_def split: if_splits option.splits)

text \<open>A server that cannot listen ends as if it had been shut down: the exit code stays 0.\<close>

lemma failed_start_not_an_error:
  assumes "getenv ''AWS_LAMBDA_FUNCTION_NAME'' = []" and "shutdown t = None"
  shows "\<nexists>code. Exit code \<in> set (server_Run getenv (Some e) shutdown srv port t)"
  using assms by (simp add: server_Run_def InitAndServe_def)

end
