(* ===== verification/Logger.thy ===== *)
theory Logger
  imports Redaction Mime Request
begin

text \<open>
  The runtime logger (\<open>logging/runtime\<close>): attributes and their redaction, the text handler, the rewriting of attributes
  for the JSON handler of \<open>log/slog\<close>, levels, and the process-wide logger with its initialization and closing. The
  queues behind the writers are in \<open>AsyncLog\<close>; here a writer is the lines it took and whether it is closed.
\<close>

section \<open>Attributes\<close>

text \<open>
  Values of \<open>slog\<close>: a float is given by its shortest text, an error by its message, any other value by the model of
  \<open>security/redaction\<close>, times and durations by their text.
\<close>

datatype attr_value =
    VString string
  | VInt int
  | VUint nat
  | VFloat string
  | VBool bool
  | VGroup "(string \<times> attr_value) list"
  | VErr string
  | VAny gval
  | VText string
  | VLevel int \<comment> \<open>a value of type \<open>slog.Level\<close>\<close>
  | VValuer attr_value \<comment> \<open>a \<open>LogValuer\<close>, with the value it resolves to\<close>

type_synonym attr = "string \<times> attr_value"

datatype RedactMode = RedactStrict | RedactKeysOnly | RedactOff

text \<open>\<open>slog.GroupValue\<close> leaves out empty groups.\<close>

definition GroupValue :: "attr list \<Rightarrow> attr_value" where
  "GroupValue as = VGroup (filter (\<lambda>a. snd a \<noteq> VGroup []) as)"

fun redact_value_strict :: "attr_value \<Rightarrow> attr_value" where
  "redact_value_strict (VGroup sub) =
     GroupValue (map (\<lambda>a. (fst a, if IsSensitiveKey (fst a) then VString ''[REDACTED]'' else redact_value_strict (snd a))) sub)"
| "redact_value_strict (VString s) = VString (RedactString s)"
| "redact_value_strict (VAny g) = VAny (RedactValue g)"
| "redact_value_strict v = v"

definition redactAttr :: "RedactMode \<Rightarrow> attr \<Rightarrow> attr" where
  "redactAttr mode a =
     (if mode = RedactOff then a
      else if IsSensitiveKey (fst a) then (fst a, VString ''[REDACTED]'')
      else if mode = RedactKeysOnly then a
      else (fst a, redact_value_strict (snd a)))"

text \<open>The rewriting for JSON; \<open>slog\<close> applies it to the attributes inside a group, never to the group itself.\<close>

definition LevelFatal :: int where "LevelFatal = 8 + 4"

definition jsonReplaceAttr :: "RedactMode \<Rightarrow> string list \<Rightarrow> attr \<Rightarrow> attr" where
  "jsonReplaceAttr mode groups a =
     (if groups = [] \<and> fst a = ''level'' then
        (case snd a of VLevel lv \<Rightarrow> if lv \<ge> LevelFatal then (''level'', VString ''FATAL'') else a | _ \<Rightarrow> a)
      else if groups = [] \<and> fst a \<in> {''time'', ''msg'', ''source''} then a
      else if mode = RedactOff then a
      else redactAttr mode a)"

text \<open>\<open>slog\<close> resolves values before it rewrites them.\<close>

fun json_attr :: "RedactMode \<Rightarrow> string list \<Rightarrow> string \<Rightarrow> attr_value \<Rightarrow> attr" where
  "json_attr mode groups k (VGroup sub) = (k, VGroup (map (\<lambda>a. json_attr mode (groups @ [k]) (fst a) (snd a)) sub))"
| "json_attr mode groups k (VValuer v) = json_attr mode groups k v"
| "json_attr mode groups k v = jsonReplaceAttr mode groups (k, v)"

section \<open>Formatting\<close>

definition needsQuoting :: "string \<Rightarrow> bool" where
  "needsQuoting s \<longleftrightarrow> ContainsAny s ([CHR '' '', CHR 0x09, LF, CR, CHR 0x22] @ ''='')"

text \<open>\<open>strconv.Quote\<close>; \<open>isPrint\<close> says whether a multi-byte rune is printable.\<close>

definition hexes :: "nat \<Rightarrow> nat \<Rightarrow> string" where
  "hexes width n = map (\<lambda>i. Request.hex_digit (n div 16 ^ i mod 16)) (rev [0..<width])"

definition rune_value :: "string \<Rightarrow> nat" where
  "rune_value s =
     (let b = (\<lambda>i. of_char (s ! i) :: nat) in
      if rune_width s = 2 then (b 0 mod 32) * 64 + b 1 mod 64
      else if rune_width s = 3 then (b 0 mod 16) * 4096 + (b 1 mod 64) * 64 + b 2 mod 64
      else if rune_width s = 4 then (b 0 mod 8) * 262144 + (b 1 mod 64) * 4096 + (b 2 mod 64) * 64 + b 3 mod 64
      else b 0)"

definition quote_ascii :: "char \<Rightarrow> string" where
  "quote_ascii c =
     (if c = CHR 0x22 \<or> c = CHR 0x5C then [CHR 0x5C, c]
      else if printable c then [c]
      else (case map_of [(7, CHR ''a''), (8, CHR ''b''), (12, CHR ''f''), (10, CHR ''n''), (13, CHR ''r''), (9, CHR ''t''), (11, CHR ''v'')]
                (of_char c :: nat) of
              Some e \<Rightarrow> [CHR 0x5C, e]
            | None \<Rightarrow> [CHR 0x5C, CHR ''x''] @ hexes 2 (of_char c)))"

function quote_from :: "(string \<Rightarrow> bool) \<Rightarrow> string \<Rightarrow> string" where
  "quote_from isPrint s =
     (case s of [] \<Rightarrow> []
      | c # r \<Rightarrow>
          if rune_width s = 1 then quote_ascii c @ quote_from isPrint r
          else let rune = take (rune_width s) s in
               (if isPrint rune then rune
                else if rune_value s < 65536 then [CHR 0x5C, CHR ''u''] @ hexes 4 (rune_value s)
                else [CHR 0x5C, CHR ''U''] @ hexes 8 (rune_value s)) @
               quote_from isPrint (drop (rune_width s) s))"
  by pat_completeness auto
termination
  by (relation "measure (\<lambda>(_, s). length s)") (use rune_width_bounds in \<open>auto simp: Let_def\<close>)

declare quote_from.simps [simp del]

definition Quote :: "(string \<Rightarrow> bool) \<Rightarrow> string \<Rightarrow> string" where
  "Quote isPrint s = [CHR 0x22] @ quote_from isPrint s @ [CHR 0x22]"

text \<open>Printing of other values: \<open>json.Marshal\<close>, the \<open>%+v\<close> of the \<open>String\<close> method, printable runes.\<close>

record printers =
  pr_marshal :: "gval \<Rightarrow> string option"
  pr_plusv :: "attr_value \<Rightarrow> string"
  pr_isPrint :: "string \<Rightarrow> bool"

definition quoted_if :: "printers \<Rightarrow> string \<Rightarrow> string" where
  "quoted_if pr s = (if needsQuoting s then Quote (pr_isPrint pr) s else s)"

definition format_any :: "printers \<Rightarrow> gval \<Rightarrow> string" where
  "format_any pr g =
     (case pr_marshal pr g of
        None \<Rightarrow> ''<error>''
      | Some s \<Rightarrow> quoted_if pr (if length s > 200 then take 197 s @ ''...'' else s))"

text \<open>\<open>slog.Level.String\<close>, the name of the next lower level and the distance to it.\<close>

definition level_String :: "int \<Rightarrow> string" where
  "level_String l =
     (let (base, d) = (if l < 0 then (''DEBUG'', l + 4) else if l < 4 then (''INFO'', l) else if l < 8 then (''WARN'', l - 4) else (''ERROR'', l - 8))
      in if d = 0 then base else if d < 0 then base @ Itoa d else base @ ''+'' @ Itoa d)"

fun formatAttr :: "printers \<Rightarrow> string \<Rightarrow> attr_value \<Rightarrow> string" where
  "formatAttr pr k (VString s) = k @ ''='' @ quoted_if pr s"
| "formatAttr pr k (VInt i) = k @ ''='' @ Itoa i"
| "formatAttr pr k (VUint n) = k @ ''='' @ nat_digits n"
| "formatAttr pr k (VFloat f) = k @ ''='' @ f"
| "formatAttr pr k (VBool b) = k @ ''='' @ (if b then ''true'' else ''false'')"
| "formatAttr pr k (VGroup sub) =
     (if sub = [] then []
      else Join (filter (\<lambda>s. s \<noteq> []) (map (\<lambda>a. formatAttr pr (k @ ''.'' @ fst a) (snd a)) sub)) '' '')"
| "formatAttr pr k (VErr e) = k @ ''='' @ Quote (pr_isPrint pr) e"
| "formatAttr pr k (VAny g) = k @ ''='' @ format_any pr g"
| "formatAttr pr k (VText s) = k @ ''='' @ quoted_if pr s"
| "formatAttr pr k (VLevel l) = k @ ''='' @ quoted_if pr (Quote (pr_isPrint pr) (level_String l))"
| "formatAttr pr k (VValuer v) = formatAttr pr k v"

definition levelLabel :: "int \<Rightarrow> string" where
  "levelLabel level =
     (if level \<ge> LevelFatal then ''[FATAL]'' else if level \<ge> 8 then ''[ERROR]'' else if level \<ge> 4 then ''[WARN]''
      else if level \<ge> 0 then ''[INFO]'' else ''[DEBUG]'')"

definition value_String :: "printers \<Rightarrow> attr_value \<Rightarrow> string" where
  "value_String pr v =
     (case v of VString s \<Rightarrow> s | VInt i \<Rightarrow> Itoa i | VUint n \<Rightarrow> nat_digits n | VFloat f \<Rightarrow> f
      | VBool b \<Rightarrow> (if b then ''true'' else ''false'') | VText s \<Rightarrow> s | VLevel l \<Rightarrow> level_String l | _ \<Rightarrow> pr_plusv pr v)"

text \<open>Collecting the attributes: the request ID is taken out, the others are redacted and formatted.\<close>

definition collect :: "printers \<Rightarrow> RedactMode \<Rightarrow> attr \<Rightarrow> string \<times> string list \<Rightarrow> string \<times> string list" where
  "collect pr mode a acc =
     (if fst a = ''request_id'' then (value_String pr (snd a), snd acc)
      else let r = redactAttr mode a; s = formatAttr pr (fst r) (snd r) in
           if s \<noteq> [] then (fst acc, snd acc @ [s]) else acc)"

record log_record =
  lr_Time :: string
  lr_Level :: int
  lr_Message :: string
  lr_Attrs :: "attr list"

definition text_Handle :: "printers \<Rightarrow> RedactMode \<Rightarrow> attr list \<Rightarrow> log_record \<Rightarrow> string" where
  "text_Handle pr mode preAttrs rec =
     (let (requestID, attrs) = fold (collect pr mode) (preAttrs @ lr_Attrs rec) (''-'', []) in
      lr_Time rec @ '' '' @ levelLabel (lr_Level rec) @ '' '' @ requestID @ '' | '' @ lr_Message rec @
      (if Join attrs '' '' \<noteq> [] then '' | '' @ Join attrs '' '' else []) @ [LF])"

definition text_Enabled :: "int \<Rightarrow> int \<Rightarrow> bool" where
  "text_Enabled threshold level \<longleftrightarrow> level \<ge> threshold"

definition text_WithAttrs :: "attr list \<Rightarrow> attr list \<Rightarrow> attr list" where
  "text_WithAttrs preAttrs attrs = preAttrs @ attrs"

section \<open>Attributes of the SDK\<close>

definition AttrError :: "string \<Rightarrow> attr" where "AttrError e = (''error'', VErr e)"
definition AttrRequestID :: "string \<Rightarrow> attr" where "AttrRequestID x = (''request_id'', VString x)"
definition AttrCorrelationID :: "string \<Rightarrow> attr" where "AttrCorrelationID x = (''correlation_id'', VString x)"
definition AttrUserID :: "string \<Rightarrow> attr" where "AttrUserID x = (''user_id'', VString x)"
definition AttrSessionID :: "string \<Rightarrow> attr" where "AttrSessionID x = (''session_id'', VString x)"
definition AttrDetails :: "(string \<times> gval) list \<Rightarrow> attr" where "AttrDetails details = (''details'', VAny (GMap details))"

definition ctx_attr :: "ctx \<Rightarrow> ctxKey \<Rightarrow> (string \<Rightarrow> attr) \<Rightarrow> attr list" where
  "ctx_attr c key mk = (let x = stringValue c key in if x \<noteq> [] then [mk x] else [])"

definition FromContext :: "ctx \<Rightarrow> attr list" where
  "FromContext c =
     ctx_attr c REQUEST_ID_KEY AttrRequestID @ ctx_attr c CORRELATION_ID_KEY AttrCorrelationID @
     ctx_attr c USER_ID_KEY AttrUserID @ ctx_attr c SESSION_ID_KEY AttrSessionID"

definition AttrRequest :: "(string \<times> string) option \<Rightarrow> attr" where
  "AttrRequest req =
     (case req of None \<Rightarrow> (''request'', VAny (GOther ''null''))
      | Some (method, path) \<Rightarrow> (''request'', VGroup [(''method'', VString method), (''path'', VString path)]))"

definition AttrResponse :: "int option \<Rightarrow> attr" where
  "AttrResponse res =
     (case res of None \<Rightarrow> (''response'', VAny (GOther ''null''))
      | Some status \<Rightarrow> (''response'', VGroup [(''status'', VInt status)]))"

section \<open>Secrets do not reach the log\<close>

text \<open>The attributes with everything under a sensitive key blanked out, at any depth.\<close>

fun blank_val :: "gval \<Rightarrow> gval" where
  "blank_val (GMap t) = GMap (map (\<lambda>kv. (fst kv, if IsSensitiveKey (fst kv) then GString [] else blank_val (snd kv))) t)"
| "blank_val (GStrMap t) = GStrMap (map (\<lambda>kv. (fst kv, if IsSensitiveKey (fst kv) then [] else snd kv)) t)"
| "blank_val (GList t) = GList (map blank_val t)"
| "blank_val v = v"

fun blank_value :: "attr_value \<Rightarrow> attr_value" where
  "blank_value (VGroup sub) = VGroup (map (\<lambda>a. (fst a, if IsSensitiveKey (fst a) then VString [] else blank_value (snd a))) sub)"
| "blank_value (VAny g) = VAny (blank_val g)"
| "blank_value v = v"

definition blank :: "attr \<Rightarrow> attr" where
  "blank a = (if fst a = ''request_id'' then a else (fst a, if IsSensitiveKey (fst a) then VString [] else blank_value (snd a)))"

lemma RedactValue_blank: "RedactValue (blank_val g) = RedactValue g"
  by (induction g rule: blank_val.induct) auto

lemma redact_blank: "redact_value_strict (blank_value v) = redact_value_strict v"
proof (induction v rule: blank_value.induct)
  case (1 sub)
  then have "map ((\<lambda>a. (fst a, if IsSensitiveKey (fst a) then VString ''[REDACTED]'' else redact_value_strict (snd a))) \<circ>
      (\<lambda>a. (fst a, if IsSensitiveKey (fst a) then VString [] else blank_value (snd a)))) sub =
    map (\<lambda>a. (fst a, if IsSensitiveKey (fst a) then VString ''[REDACTED]'' else redact_value_strict (snd a))) sub" by auto
  then show ?case by (simp only: blank_value.simps redact_value_strict.simps map_map)
qed (simp_all add: RedactValue_blank)

lemma redactAttr_blank: "fst a \<noteq> ''request_id'' \<Longrightarrow> redactAttr RedactStrict (blank a) = redactAttr RedactStrict a"
  by (simp add: redactAttr_def blank_def redact_blank)

lemma collect_blank: "collect pr RedactStrict (blank a) = collect pr RedactStrict a"
  using redactAttr_blank [of a] by (cases "fst a = ''request_id''") (auto simp: collect_def blank_def fun_eq_iff)

text \<open>
  C26: In strict mode a line of the text handler does not depend on what stands under a sensitive key, in attributes,
  groups, and values of the four container types the redaction looks into (\<open>map[string]any\<close>, \<open>map[string]string\<close>,
  \<open>[]any\<close>, \<open>[]string\<close>) at any depth: blanking it out gives the same line. Excepted is what is written as it is: a
  value of any other type, also of a container type such as \<open>http.Header\<close> or \<open>[]map[string]any\<close>, whose keys are not looked
  at; the request ID; and what a \<open>LogValuer\<close> resolves to.
\<close>
theorem log_line_independent_of_secrets:
  "text_Handle pr RedactStrict pre rec = text_Handle pr RedactStrict (map blank pre) (rec\<lparr>lr_Attrs := map blank (lr_Attrs rec)\<rparr>)"
proof -
  have "fold (collect pr RedactStrict) (map blank as) acc = fold (collect pr RedactStrict) as acc" for as acc
    by (induction as arbitrary: acc) (simp_all add: collect_blank)
  then have "fold (collect pr RedactStrict) (map blank pre @ map blank (lr_Attrs rec)) (''-'', []) =
      fold (collect pr RedactStrict) (pre @ lr_Attrs rec) (''-'', [])"
    by simp
  then show ?thesis by (simp add: text_Handle_def)
qed

section \<open>A record is one line\<close>

lemma no_break_if_plain: "\<not> needsQuoting s \<Longrightarrow> no_break s"
  by (auto simp: needsQuoting_def ContainsAny_def no_break_def list_ex_iff)

lemma lower_hex_no_break: "n < 16 \<Longrightarrow> Request.hex_digit n \<noteq> CR \<and> Request.hex_digit n \<noteq> LF"
  by (auto simp: Request.hex_digit_def CR_def LF_def dest!: arg_cong [where f = "of_char :: char \<Rightarrow> nat"])

lemma no_break_hexes [simp]: "no_break (hexes width n)"
proof -
  have "CR \<noteq> Request.hex_digit (n div 16 ^ i mod 16) \<and> LF \<noteq> Request.hex_digit (n div 16 ^ i mod 16)" for i
    using lower_hex_no_break [of "n div 16 ^ i mod 16"] by auto
  then show ?thesis by (auto simp: hexes_def no_break_def)
qed

lemma no_break_quote_ascii [simp]: "no_break (quote_ascii c)"
  by (auto simp: quote_ascii_def printable_def CR_def LF_def split: option.splits if_splits)

lemma rune_bytes_high:
  assumes "rune_width s \<noteq> 1" and "c \<in> set (take (rune_width s) s)"
  shows "128 \<le> (of_char c :: nat)"
proof -
  obtain a r where s: "s = a # r" using assms by (cases s) (auto simp: rune_width_def)
  let ?b = "of_char a :: nat"
  consider "rune_width s = 2" "194 \<le> ?b" "cont s 1" | "rune_width s = 3" "194 \<le> ?b" "cont s 1" "cont s 2"
    | "rune_width s = 4" "194 \<le> ?b" "cont s 1" "cont s 2" "cont s 3"
    using assms(1) s by (auto simp: rune_width_def Let_def second_in_def cont_def split: if_splits)
  then show ?thesis
    using assms(2) s by cases (auto simp: cont_def numeral_2_eq_2 numeral_3_eq_3 take_Suc_conv_app_nth)
qed

lemma no_break_rune: "rune_width s \<noteq> 1 \<Longrightarrow> no_break (take (rune_width s) s)"
  using rune_bytes_high [of s] by (fastforce simp: no_break_def CR_def LF_def)

lemma no_break_quote: "no_break (quote_from isPrint s)"
proof (induction isPrint s rule: quote_from.induct)
  case (1 isPrint s)
  then show ?case
    using no_break_rune [of s] by (subst quote_from.simps) (auto simp: Let_def CR_def LF_def split: list.splits)
qed

lemma no_break_Quote [simp]: "no_break (Quote isPrint s)"
  by (simp add: Quote_def no_break_quote) (simp add: CR_def LF_def)

lemma no_break_quoted_if [simp]: "no_break (quoted_if pr s)"
  by (simp add: quoted_if_def no_break_if_plain)

lemma no_break_format_any [simp]: "no_break (format_any pr g)"
  by (auto simp: format_any_def CR_def LF_def split: option.splits)

lemma no_break_digits [simp]: "no_break (nat_digits n)"
  using nat_digits_props [of n] by (auto simp: no_break_def is_digit_def CR_def LF_def list_all_iff)

lemma no_break_Itoa [simp]: "no_break (Itoa i)"
  by (simp add: Itoa_def CR_def LF_def)

text \<open>Names of attributes, and texts of floats, that have no line break.\<close>

fun plain_value :: "attr_value \<Rightarrow> bool" where
  "plain_value (VGroup sub) \<longleftrightarrow> (\<forall>a \<in> set sub. no_break (fst a) \<and> plain_value (snd a))"
| "plain_value (VFloat f) \<longleftrightarrow> no_break f"
| "plain_value (VValuer v) \<longleftrightarrow> plain_value v"
| "plain_value v \<longleftrightarrow> True"

definition plain_attr :: "attr \<Rightarrow> bool" where
  "plain_attr a \<longleftrightarrow> no_break (fst a) \<and> plain_value (snd a)"

lemma no_break_formatAttr: "no_break k \<Longrightarrow> plain_value v \<Longrightarrow> no_break (formatAttr pr k v)"
proof (induction pr k v rule: formatAttr.induct)
  case (6 pr k sub)
  then show ?case by (auto intro!: no_break_Join simp: CR_def LF_def)
qed (auto simp: CR_def LF_def)

lemma plain_redacted: "plain_value v \<Longrightarrow> plain_value (redact_value_strict v)"
  by (induction v rule: redact_value_strict.induct) (auto simp: GroupValue_def)

lemma plain_redactAttr: "plain_attr a \<Longrightarrow> plain_attr (redactAttr mode a)"
  by (auto simp: plain_attr_def redactAttr_def plain_redacted)

lemma collect_no_break:
  assumes "\<forall>a \<in> set as. plain_attr a" and "\<forall>s \<in> set (snd acc). no_break s" and "no_break (fst acc)"
    and "\<forall>a \<in> set as. fst a = ''request_id'' \<longrightarrow> no_break (value_String pr (snd a))"
  shows "no_break (fst (fold (collect pr mode) as acc)) \<and> (\<forall>s \<in> set (snd (fold (collect pr mode) as acc)). no_break s)"
  using assms
proof (induction as arbitrary: acc)
  case (Cons a as)
  have "plain_attr (redactAttr mode a)" using Cons.prems(1) plain_redactAttr by simp
  then have "no_break (formatAttr pr (fst (redactAttr mode a)) (snd (redactAttr mode a)))"
    using no_break_formatAttr by (simp add: plain_attr_def)
  then have "no_break (fst (collect pr mode a acc)) \<and> (\<forall>s \<in> set (snd (collect pr mode a acc)). no_break s)"
    using Cons.prems by (auto simp: collect_def Let_def)
  then show ?case using Cons.IH [of "collect pr mode a acc"] Cons.prems(1,4) by simp
qed simp

text \<open>
  Whatever the values of the attributes are, a log record is one line: if its time, message, request ID and the
  names of its attributes have no line break, the only line break of the text is its last byte.
\<close>
lemma text_Handle_one_line:
  assumes "no_break (lr_Time rec)" and "no_break (lr_Message rec)" and "\<forall>a \<in> set (pre @ lr_Attrs rec). plain_attr a"
    and "\<forall>a \<in> set (pre @ lr_Attrs rec). fst a = ''request_id'' \<longrightarrow> no_break (value_String pr (snd a))"
  shows "\<exists>line. text_Handle pr mode pre rec = line @ [LF] \<and> no_break line"
proof -
  have "no_break ''-''" by (simp add: CR_def LF_def)
  with collect_no_break [OF assms(3), of "(''-'', [])" pr mode] assms(4)
  have "no_break (fst (fold (collect pr mode) (pre @ lr_Attrs rec) (''-'', [])))"
    "no_break (Join (snd (fold (collect pr mode) (pre @ lr_Attrs rec) (''-'', []))) '' '')"
    by (simp_all add: no_break_Join CR_def LF_def)
  moreover have "no_break (levelLabel l)" for l by (simp add: levelLabel_def CR_def LF_def)
  moreover have "no_break '' ''" "no_break '' | ''" by (simp_all add: CR_def LF_def)
  ultimately show ?thesis
    using assms(1,2) unfolding text_Handle_def case_prod_beta Let_def by (auto simp flip: append_assoc)
qed

text \<open>
  Outside of these: in the mode for keys only the members of a group are not redacted, in JSON a group with a sensitive
  name is not, the text of an error never is, and in text neither is what a \<open>LogValuer\<close> resolves to.
\<close>

lemma redaction_leaks:
  assumes "\<not> IsSensitiveKey g"
  shows "redactAttr RedactKeysOnly (g, VGroup [(''password'', VString p)]) = (g, VGroup [(''password'', VString p)])"
    and "json_attr RedactKeysOnly [] ''password'' (VGroup [(g, VString p)]) = (''password'', VGroup [(g, VString p)])"
    and "redactAttr RedactStrict (g, VErr e) = (g, VErr e)"
    and "redactAttr RedactStrict (g, VValuer v) = (g, VValuer v)"
  using assms by (simp_all add: redactAttr_def jsonReplaceAttr_def)

end
