(* ===== verification/LogRuntime.thy ===== *)
theory LogRuntime
  imports Logger AsyncLog
begin

text \<open>
  The process-wide logger of \<open>logging/runtime/logger.go\<close>: initialization, which replaces and closes the previous
  writers, logging at a level, synchronizing and closing. A writer is identified by a number; its state is the lines it
  was given and whether its queue is closed (what happens in the queue is in \<open>AsyncLog\<close>).
\<close>

datatype Format = FormatJSON | FormatText

record logConfig =
  lc_Level :: string
  lc_Format :: Format
  lc_Redact :: RedactMode
  lc_Sinks :: "Sink list"

record runtimeState =
  rs_aw :: nat
  rs_sinks :: "nat list"

record log_writer =
  lw_lines :: "string list"
  lw_closed :: bool

text \<open>\<open>ls_out\<close> are the writers of the current \<open>slog\<close> logger; before the first initialization output is discarded.\<close>

record logger_state =
  ls_writers :: "nat \<Rightarrow> log_writer"
  ls_next :: nat
  ls_out :: "nat list"
  ls_format :: Format
  ls_mode :: RedactMode
  ls_level :: int
  ls_state :: "runtimeState option"

definition logger_init :: logger_state where
  "logger_init = \<lparr>ls_writers = (\<lambda>_. \<lparr>lw_lines = [], lw_closed = False\<rparr>), ls_next = 0, ls_out = [], ls_format = FormatJSON,
     ls_mode = RedactOff, ls_level = 0, ls_state = None\<rparr>"

definition parseLevel :: "string \<Rightarrow> int" where
  "parseLevel lvl =
     (let l = ToLower lvl in
      if l = ''debug'' then - 4 else if l = ''info'' then 0 else if l = ''warn'' then 4 else if lvl = [] then 0 else 8)"

definition close_writers :: "runtimeState \<Rightarrow> (nat \<Rightarrow> log_writer) \<Rightarrow> nat \<Rightarrow> log_writer" where
  "close_writers rs ws i = (if i = rs_aw rs \<or> i \<in> set (rs_sinks rs) then (ws i)\<lparr>lw_closed := True\<rparr> else ws i)"

definition Init :: "logConfig \<Rightarrow> logger_state \<Rightarrow> string option \<times> logger_state" where
  "Init cfg s =
     (if lc_Format cfg = FormatText \<and> lc_Sinks cfg \<noteq> [] then
        (Some ''refusing to ship text-formatted logs to remote sinks; use FormatJSON'', s)
      else
        let n = ls_next s;
            sinks = [n + 1..<n + 1 + length (lc_Sinks cfg)];
            fresh = (\<lambda>i. if n \<le> i \<and> i \<le> n + length (lc_Sinks cfg) then \<lparr>lw_lines = [], lw_closed = False\<rparr> else ls_writers s i)
        in (None,
            s\<lparr>ls_level := parseLevel (lc_Level cfg), ls_next := n + 1 + length (lc_Sinks cfg), ls_out := n # sinks,
              ls_format := lc_Format cfg, ls_mode := lc_Redact cfg,
              ls_writers := (case ls_state s of None \<Rightarrow> fresh | Some old \<Rightarrow> close_writers old fresh),
              ls_state := Some \<lparr>rs_aw = n, rs_sinks = sinks\<rparr>\<rparr>))"

text \<open>Writing a line to all writers in turn; \<open>None\<close> is the panic of a send on a closed queue.\<close>

primrec fanout_Write :: "string \<Rightarrow> nat list \<Rightarrow> (nat \<Rightarrow> log_writer) \<Rightarrow> (nat \<Rightarrow> log_writer) option" where
  "fanout_Write line [] ws = Some ws"
| "fanout_Write line (i # is) ws =
     (if lw_closed (ws i) then None
      else fanout_Write line is (ws(i := (ws i)\<lparr>lw_lines := lw_lines (ws i) @ [line]\<rparr>)))"

text \<open>The line of a record in the current format; \<open>json\<close> is the encoder of \<open>slog\<close>.\<close>

definition log_line :: "printers \<Rightarrow> (log_record \<Rightarrow> string) \<Rightarrow> logger_state \<Rightarrow> log_record \<Rightarrow> string" where
  "log_line pr json s rec =
     (if ls_format s = FormatText then text_Handle pr (ls_mode s) [] rec
      else json (rec\<lparr>lr_Attrs := map (\<lambda>a. json_attr (ls_mode s) [] (fst a) (snd a)) (lr_Attrs rec)\<rparr>))"

definition log_at :: "printers \<Rightarrow> (log_record \<Rightarrow> string) \<Rightarrow> log_record \<Rightarrow> logger_state \<Rightarrow> logger_state option" where
  "log_at pr json rec s =
     (if ls_out s = [] \<or> lr_Level rec < ls_level s then Some s
      else map_option (\<lambda>ws. s\<lparr>ls_writers := ws\<rparr>) (fanout_Write (log_line pr json s rec) (ls_out s) (ls_writers s)))"

definition log_record_at :: "string \<Rightarrow> int \<Rightarrow> string \<Rightarrow> attr list \<Rightarrow> log_record" where
  "log_record_at time level msg args = \<lparr>lr_Time = time, lr_Level = level, lr_Message = msg, lr_Attrs = args\<rparr>"

definition log_Debug :: "printers \<Rightarrow> (log_record \<Rightarrow> string) \<Rightarrow> string \<Rightarrow> string \<Rightarrow> attr list \<Rightarrow> logger_state \<Rightarrow> logger_state option" where
  "log_Debug pr json time msg args = log_at pr json (log_record_at time (- 4) msg args)"

definition log_Info :: "printers \<Rightarrow> (log_record \<Rightarrow> string) \<Rightarrow> string \<Rightarrow> string \<Rightarrow> attr list \<Rightarrow> logger_state \<Rightarrow> logger_state option" where
  "log_Info pr json time msg args = log_at pr json (log_record_at time 0 msg args)"

definition log_Warn :: "printers \<Rightarrow> (log_record \<Rightarrow> string) \<Rightarrow> string \<Rightarrow> string \<Rightarrow> attr list \<Rightarrow> logger_state \<Rightarrow> logger_state option" where
  "log_Warn pr json time msg args = log_at pr json (log_record_at time 4 msg args)"

definition with_error :: "string option \<Rightarrow> attr list \<Rightarrow> attr list" where
  "with_error err args = (case err of None \<Rightarrow> args | Some e \<Rightarrow> args @ [AttrError e])"

definition log_Error ::
  "printers \<Rightarrow> (log_record \<Rightarrow> string) \<Rightarrow> string \<Rightarrow> string \<Rightarrow> string option \<Rightarrow> attr list \<Rightarrow> logger_state \<Rightarrow> logger_state option" where
  "log_Error pr json time msg err args = log_at pr json (log_record_at time 8 msg (with_error err args))"

text \<open>After the record is written and the queue flushed the process exits with code 1.\<close>

definition log_Fatal ::
  "printers \<Rightarrow> (log_record \<Rightarrow> string) \<Rightarrow> string \<Rightarrow> string \<Rightarrow> string option \<Rightarrow> attr list \<Rightarrow> logger_state \<Rightarrow> (int \<times> logger_state) option" where
  "log_Fatal pr json time msg err args s = map_option (Pair 1) (log_at pr json (log_record_at time LevelFatal msg (with_error err args)) s)"

definition SetLevel :: "string \<Rightarrow> logger_state \<Rightarrow> logger_state" where
  "SetLevel level s = s\<lparr>ls_level := parseLevel level\<rparr>"

definition log_Enabled :: "string \<Rightarrow> logger_state \<Rightarrow> bool" where
  "log_Enabled level s \<longleftrightarrow> parseLevel level \<ge> ls_level s"

definition DebugEnabled :: "logger_state \<Rightarrow> bool" where
  "DebugEnabled s \<longleftrightarrow> - 4 \<ge> ls_level s"

definition log_Close :: "logger_state \<Rightarrow> logger_state" where
  "log_Close s = (case ls_state s of None \<Rightarrow> s | Some rs \<Rightarrow> s\<lparr>ls_state := None, ls_writers := close_writers rs (ls_writers s)\<rparr>)"

section \<open>When logging panics\<close>

inductive logger_step :: "logger_state \<Rightarrow> logger_state \<Rightarrow> bool" where
  step_Init: "Init cfg s = (e, s') \<Longrightarrow> logger_step s s'"
| step_log: "log_at pr json rec s = Some s' \<Longrightarrow> logger_step s s'"
| step_level: "logger_step s (SetLevel l s)"
| step_Close: "logger_step s (log_Close s)"

definition logger_inv :: "logger_state \<Rightarrow> bool" where
  "logger_inv s \<longleftrightarrow> (\<forall>i \<in> set (ls_out s). i < ls_next s) \<and>
     (case ls_state s of
        None \<Rightarrow> \<forall>i \<in> set (ls_out s). lw_closed (ls_writers s i)
      | Some rs \<Rightarrow> ls_out s = rs_aw rs # rs_sinks rs \<and> (\<forall>i \<in> set (ls_out s). \<not> lw_closed (ls_writers s i)))"

lemma fanout_open: "\<forall>i \<in> set is. \<not> lw_closed (ws i) \<Longrightarrow> \<exists>ws'. fanout_Write line is ws = Some ws' \<and> (\<forall>i. lw_closed (ws' i) = lw_closed (ws i))"
proof (induction "is" arbitrary: ws)
  case (Cons i "is")
  define ws1 where "ws1 = ws(i := (ws i)\<lparr>lw_lines := lw_lines (ws i) @ [line]\<rparr>)"
  have same: "lw_closed (ws1 j) = lw_closed (ws j)" for j by (simp add: ws1_def)
  with Cons.IH [of ws1] Cons.prems show ?case by (simp flip: ws1_def)
qed simp

lemma log_at_panics:
  assumes "logger_inv s"
  shows "log_at pr json rec s = None \<longleftrightarrow> ls_out s \<noteq> [] \<and> ls_level s \<le> lr_Level rec \<and> ls_state s = None"
proof (cases "ls_state s")
  case None
  with assms have "\<forall>i \<in> set (ls_out s). lw_closed (ls_writers s i)" by (simp add: logger_inv_def)
  with None show ?thesis by (cases "ls_out s") (auto simp: log_at_def)
next
  case (Some rs)
  with assms fanout_open [of "ls_out s" "ls_writers s" "log_line pr json s rec"] show ?thesis
    by (auto simp: log_at_def logger_inv_def)
qed

lemma Init_inv:
  assumes "logger_inv s" and "Init cfg s = (e, s')"
  shows "logger_inv s'"
proof (cases "lc_Format cfg = FormatText \<and> lc_Sinks cfg \<noteq> []")
  case False
  let ?n = "ls_next s"
  have out: "ls_out s' = ?n # [?n + 1..<?n + 1 + length (lc_Sinks cfg)]" "ls_next s' = ?n + 1 + length (lc_Sinks cfg)"
    "ls_state s' = Some \<lparr>rs_aw = ?n, rs_sinks = [?n + 1..<?n + 1 + length (lc_Sinks cfg)]\<rparr>"
    using assms(2) False by (auto simp: Init_def Let_def)
  have "\<not> lw_closed (ls_writers s' i)" if i: "i \<in> set (ls_out s')" for i
  proof (cases "ls_state s")
    case None
    then show ?thesis using assms(2) False i out(1) by (auto simp: Init_def Let_def)
  next
    case (Some old)
    then have "\<forall>j \<in> set (rs_aw old # rs_sinks old). j < ?n" using assms(1) by (simp add: logger_inv_def)
    moreover have "?n \<le> i" using i out(1) by auto
    ultimately have "i \<noteq> rs_aw old" "i \<notin> set (rs_sinks old)" by auto
    then show ?thesis using assms(2) False Some i out(1) by (auto simp: Init_def Let_def close_writers_def)
  qed
  then show ?thesis using out by (auto simp: logger_inv_def)
qed (use assms in \<open>auto simp: Init_def\<close>)

lemma logger_step_inv: "logger_step s s' \<Longrightarrow> logger_inv s \<Longrightarrow> logger_inv s'"
proof (induction rule: logger_step.induct)
  case (step_Init cfg s e s')
  then show ?case by (blast intro: Init_inv)
next
  case (step_log pr json rec s s')
  show ?case
  proof (cases "ls_state s")
    case None
    with step_log log_at_panics [OF step_log(2), of pr json rec] show ?thesis by (auto simp: log_at_def)
  next
    case (Some rs)
    with step_log fanout_open [of "ls_out s" "ls_writers s" "log_line pr json s rec"] show ?thesis
      by (auto simp: log_at_def logger_inv_def split: if_splits)
  qed
next
  case (step_level s l)
  then show ?case by (auto simp: SetLevel_def logger_inv_def split: option.splits)
next
  case (step_Close s)
  then show ?case by (auto simp: log_Close_def logger_inv_def close_writers_def split: option.splits)
qed

lemma logger_reachable_inv: "logger_step\<^sup>*\<^sup>* logger_init s \<Longrightarrow> logger_inv s"
proof (induction rule: rtranclp_induct)
  case base
  then show ?case by (simp add: logger_init_def logger_inv_def)
qed (rule logger_step_inv)



end
