(* ===== verification/Websocket.thy ===== *)
theory Websocket
  imports Http
begin

text \<open>
  The WebSocket wrapper \<open>http/websocket\<close>: the allowlist of origins, the hardened upgrade, reads and writes with
  deadlines. \<open>gorilla/websocket\<close> is the record \<open>ws_api\<close>: its upgrade, which consults the origin check, and the
  transfer of messages on a connection; the limits and deadlines set on a connection are its state.
\<close>

definition maxMessageBytes :: nat where "maxMessageBytes = 2 ^ 20"
definition readTimeout :: duration where "readTimeout = 60 * Second"
definition writeTimeout :: duration where "writeTimeout = 10 * Second"
definition handshakeTimeout :: duration where "handshakeTimeout = 10 * Second"

definition SetAllowedOrigins :: "string list \<Rightarrow> string set" where
  "SetAllowedOrigins origins = set (map ToLower origins)"

definition checkOrigin :: "string set \<Rightarrow> request \<Rightarrow> bool" where
  "checkOrigin allowedOrigins r =
     (let origin = Header_Get (req_header r) ''Origin'' in origin = [] \<or> ToLower origin \<in> allowedOrigins)"

record conn =
  cn_readLimit :: "nat option"
  cn_readDeadline :: "instant option"
  cn_writeDeadline :: "instant option"

definition new_conn :: conn where
  "new_conn = \<lparr>cn_readLimit = None, cn_readDeadline = None, cn_writeDeadline = None\<rparr>"

text \<open>
  The library over the state of the peer: the handshake (given the origin check and its timeout), writing a message by
  the write deadline, reading one by the read deadline within the read limit.
\<close>

record 's ws_api =
  ws_Upgrade :: "(request \<Rightarrow> bool) \<Rightarrow> duration \<Rightarrow> request \<Rightarrow> 's \<Rightarrow> string option \<times> 's"
  ws_WriteMessage :: "conn \<Rightarrow> int \<Rightarrow> string \<Rightarrow> 's \<Rightarrow> string option \<times> 's"
  ws_ReadMessage :: "conn \<Rightarrow> 's \<Rightarrow> (string, int \<times> string) res \<times> 's"
  ws_Close :: "'s \<Rightarrow> string option \<times> 's"

definition Upgrade :: "'s ws_api \<Rightarrow> string set \<Rightarrow> instant \<Rightarrow> request \<Rightarrow> 's \<Rightarrow> (string, conn) res \<times> 's" where
  "Upgrade api allowedOrigins now req s =
     (case ws_Upgrade api (checkOrigin allowedOrigins) handshakeTimeout req s of
        (Some err, s1) \<Rightarrow> (Inl err, s1)
      | (None, s1) \<Rightarrow> (Inr (new_conn\<lparr>cn_readLimit := Some maxMessageBytes, cn_readDeadline := Some (now + readTimeout)\<rparr>), s1))"

definition pong :: "instant \<Rightarrow> conn \<Rightarrow> conn" where
  "pong now c = c\<lparr>cn_readDeadline := Some (now + readTimeout)\<rparr>"

definition ws_NewClient :: "conn \<Rightarrow> conn" where "ws_NewClient c = c"

definition ws_Write :: "'s ws_api \<Rightarrow> instant \<Rightarrow> int \<Rightarrow> string \<Rightarrow> conn \<times> 's \<Rightarrow> string option \<times> conn \<times> 's" where
  "ws_Write api now messageType data cs =
     (let c = (fst cs)\<lparr>cn_writeDeadline := Some (now + writeTimeout)\<rparr>;
          (err, s) = ws_WriteMessage api c messageType data (snd cs)
      in (err, c, s))"

definition ws_Read :: "'s ws_api \<Rightarrow> instant \<Rightarrow> conn \<times> 's \<Rightarrow> (string, int \<times> string) res \<times> conn \<times> 's" where
  "ws_Read api now cs =
     (case ws_ReadMessage api (fst cs) (snd cs) of
        (Inl e, s) \<Rightarrow> (Inl e, fst cs, s)
      | (Inr m, s) \<Rightarrow> (Inr m, (fst cs)\<lparr>cn_readDeadline := Some (now + readTimeout)\<rparr>, s))"

definition ws_Close_client :: "'s ws_api \<Rightarrow> conn \<times> 's \<Rightarrow> string option \<times> 's" where
  "ws_Close_client api cs = ws_Close api (snd cs)"

section \<open>Hardened connections\<close>

text \<open>What the library documents: an upgrade succeeds only for requests that pass the origin check.\<close>

locale origin_checking =
  fixes api :: "'s ws_api"
  assumes upgrade_checked: "ws_Upgrade api check timeout req s = (None, s1) \<Longrightarrow> check req"
begin

lemma upgraded_origin:
  assumes "Upgrade api (SetAllowedOrigins origins) now req s = (Inr c, s1)"
  shows "Header_Get (req_header req) ''Origin'' = [] \<or> (\<exists>ori \<in> set origins. EqualFold ori (Header_Get (req_header req) ''Origin''))"
proof -
  have "checkOrigin (SetAllowedOrigins origins) req"
    using assms upgrade_checked by (fastforce simp: Upgrade_def split: prod.splits option.splits)
  then show ?thesis by (auto simp: checkOrigin_def SetAllowedOrigins_def EqualFold_def Let_def)
qed

end

text \<open>The connections a client can have at time \<open>now\<close>: upgraded, then read, written and kept alive in any order.\<close>

inductive conn_at :: "'s ws_api \<Rightarrow> string set \<Rightarrow> instant \<Rightarrow> conn \<Rightarrow> 's \<Rightarrow> bool" for api allowed where
  upgraded: "Upgrade api allowed now req s = (Inr c, s1) \<Longrightarrow> conn_at api allowed now c s1"
| later: "conn_at api allowed now c s \<Longrightarrow> now \<le> now1 \<Longrightarrow> conn_at api allowed now1 c s"
| peer: "conn_at api allowed now c s \<Longrightarrow> conn_at api allowed now c s1"
| ponged: "conn_at api allowed now c s \<Longrightarrow> conn_at api allowed now (pong now c) s"
| written: "conn_at api allowed now c s \<Longrightarrow> ws_Write api now mt d (c, s) = (e, c1, s1) \<Longrightarrow> conn_at api allowed now c1 s1"
| read: "conn_at api allowed now c s \<Longrightarrow> ws_Read api now (c, s) = (m, c1, s1) \<Longrightarrow> conn_at api allowed now c1 s1"

lemma conn_hardened:
  "conn_at api allowed now c s \<Longrightarrow> cn_readLimit c = Some maxMessageBytes \<and> (\<exists>d. cn_readDeadline c = Some d \<and> d \<le> now + readTimeout)"
  by (induction rule: conn_at.induct)
    (fastforce simp: Upgrade_def new_conn_def pong_def ws_Write_def ws_Read_def Let_def split: prod.splits option.splits sum.splits)+

text \<open>
  C30: An upgrade is granted only to requests without an origin or with one that is in the allowlist up to letter case;
  and on a connection it granted, whatever is read, written or answered to pings afterwards, a message is read with
  the limit of one MiB and a deadline at most 60 seconds ahead, and written with a deadline 10 seconds ahead.
\<close>
theorem websocket_hardened:
  assumes "origin_checking api" and "Upgrade api (SetAllowedOrigins origins) now0 req s0 = (Inr c0, s1)"
    and "conn_at api (SetAllowedOrigins origins) now c s"
  shows "(Header_Get (req_header req) ''Origin'' = [] \<or> (\<exists>ori \<in> set origins. EqualFold ori (Header_Get (req_header req) ''Origin''))) \<and>
    cn_readLimit c = Some (2 ^ 20) \<and> (\<exists>d. cn_readDeadline c = Some d \<and> d \<le> now + 60 * Second) \<and>
    (\<forall>mt data e c1 s2. ws_Write api now mt data (c, s) = (e, c1, s2) \<longrightarrow>
       cn_writeDeadline c1 = Some (now + 10 * Second) \<and> (e, s2) = ws_WriteMessage api c1 mt data s)"
  using origin_checking.upgraded_origin [OF assms(1,2)] conn_hardened [OF assms(3)]
  by (auto simp: maxMessageBytes_def readTimeout_def ws_Write_def writeTimeout_def Let_def split: prod.splits)

text \<open>A library that upgrades what passes the check, and echoes.\<close>

definition echo_api :: "string list ws_api" where
  "echo_api = \<lparr>ws_Upgrade = (\<lambda>check _ req s. if check req then (None, s) else (Some ''bad handshake'', s)),
     ws_WriteMessage = (\<lambda>_ _ d s. (None, s @ [d])), ws_ReadMessage = (\<lambda>_ s. case s of [] \<Rightarrow> (Inl ''EOF'', []) | d # r \<Rightarrow> (Inr (1, d), r)),
     ws_Close = (\<lambda>s. (None, s))\<rparr>"

interpretation echo: origin_checking echo_api
  by unfold_locales (auto simp: echo_api_def split: if_splits)

definition ws_request :: request where
  "ws_request = \<lparr>req_method = ''GET'', req_url = None, req_header = Header_Set Map.empty ''Origin'' ''https://App.io'', req_body = None,
     req_contentLength = 0, req_remoteAddr = [], req_ctx = Map.empty, req_requestURI = [], req_pattern = [], req_pathValues = (\<lambda>_. [])\<rparr>"

theorem websocket_hardened_witness:
  "\<exists>c s1. Upgrade echo_api (SetAllowedOrigins [''https://app.io'']) 0 ws_request [] = (Inr c, s1) \<and> cn_readLimit c = Some (2 ^ 20)"
proof -
  have "ToLower ''https://App.io'' = ''https://app.io''" "ToLower ''https://app.io'' = ''https://app.io''" by code_simp+
  then obtain c s1 where u: "Upgrade echo_api (SetAllowedOrigins [''https://app.io'']) 0 ws_request [] = (Inr c, s1)"
    by (simp add: Upgrade_def echo_api_def checkOrigin_def SetAllowedOrigins_def ws_request_def Let_def)
  with websocket_hardened [OF echo.origin_checking_axioms u upgraded [OF u]] show ?thesis by blast
qed

end
