(* ===== verification/Otel.thy ===== *)
theory Otel
  imports GoStrings "HOL-Library.AList"
begin

text \<open>
  The OpenTelemetry logger \<open>logging/otel\<close>: configuration, severity filter, merged attributes, and the exporter that
  appends records to a file as JSON lines. The OpenTelemetry SDK, which hands emitted records to the exporters, and the
  JSON encoder are arguments. Severities are numbers, 0 the undefined one.
\<close>

section \<open>Records\<close>

datatype log_value =
    KString string
  | KInt int
  | KFloat string
  | KBool bool
  | KBytes string
  | KSlice "log_value list"
  | KMap "(string \<times> log_value) list"
  | KEmpty

type_synonym key_value = "string \<times> log_value"

text \<open>The Go values they become; a map keeps the last value of a key.\<close>

datatype go_any =
    AString string
  | AInt int
  | AFloat string
  | ABool bool
  | ABytes string
  | ASlice "go_any list"
  | AMap "(string \<times> go_any) list"
  | ANil

definition go_map :: "(string \<times> 'v) list \<Rightarrow> (string \<times> 'v) list" where
  "go_map kvs = fold (\<lambda>kv m. AList.update (fst kv) (snd kv) m) kvs []"

fun kvToAny :: "log_value \<Rightarrow> go_any" where
  "kvToAny (KString s) = AString s"
| "kvToAny (KInt i) = AInt i"
| "kvToAny (KFloat f) = AFloat f"
| "kvToAny (KBool b) = ABool b"
| "kvToAny (KBytes b) = ABytes b"
| "kvToAny (KSlice sl) = ASlice (map kvToAny sl)"
| "kvToAny (KMap m) = AMap (go_map (map (\<lambda>kv. (fst kv, kvToAny (snd kv))) m))"
| "kvToAny KEmpty = ANil"

record otel_record =
  or_Timestamp :: instant
  or_Severity :: int
  or_Body :: string
  or_Attributes :: "key_value list"

section \<open>The logger\<close>

datatype Transport = TransportHTTP | TransportGRPC

record otelConfig =
  oc_ServiceName :: string
  oc_ServiceVersion :: string
  oc_Environment :: string
  oc_Level :: int
  oc_FilePath :: string
  oc_Endpoint :: string
  oc_Transport :: Transport
  oc_Headers :: "(string \<times> string) list"
  oc_Insecure :: bool

definition SeverityInfo :: int where "SeverityInfo = 9"

definition or_env :: "(string \<Rightarrow> string) \<Rightarrow> string \<Rightarrow> string \<Rightarrow> string" where
  "or_env getenv v name = (if v = [] then getenv name else v)"

definition buildResource :: "(string \<Rightarrow> string) \<Rightarrow> otelConfig \<Rightarrow> (string \<times> string) list" where
  "buildResource getenv cfg =
     (let n0 = or_env getenv (oc_ServiceName cfg) ''OTEL_SERVICE_NAME'';
          svcName = (if n0 = [] then ''unknown_service'' else n0);
          svcVersion = or_env getenv (oc_ServiceVersion cfg) ''OTEL_SERVICE_VERSION'';
          env = or_env getenv (oc_Environment cfg) ''OTEL_DEPLOYMENT_ENVIRONMENT''
      in [(''service.name'', svcName)] @
         (if svcVersion \<noteq> [] then [(''service.version'', svcVersion)] else []) @
         (if env \<noteq> [] then [(''deployment.environment'', env)] else []))"

text \<open>The options of the OTLP exporter: endpoint, whether insecure, headers when there are any.\<close>

record otlp_opts =
  ox_Transport :: Transport
  ox_Endpoint :: string
  ox_Insecure :: bool
  ox_Headers :: "(string \<times> string) list option"

text \<open>\<open>create\<close> is the error of \<open>otlploghttp.New\<close> or \<open>otlploggrpc.New\<close>, by the transport of the options.\<close>

definition newHTTPExporter :: "(otlp_opts \<Rightarrow> string option) \<Rightarrow> otelConfig \<Rightarrow> (string, otlp_opts) res" where
  "newHTTPExporter create cfg =
     (let o1 = \<lparr>ox_Transport = TransportHTTP, ox_Endpoint = oc_Endpoint cfg, ox_Insecure = oc_Insecure cfg,
                ox_Headers = (if oc_Headers cfg \<noteq> [] then Some (oc_Headers cfg) else None)\<rparr>
      in case create o1 of Some e \<Rightarrow> Inl e | None \<Rightarrow> Inr o1)"

definition newGRPCExporter :: "(otlp_opts \<Rightarrow> string option) \<Rightarrow> otelConfig \<Rightarrow> (string, otlp_opts) res" where
  "newGRPCExporter create cfg =
     (let o1 = \<lparr>ox_Transport = TransportGRPC, ox_Endpoint = oc_Endpoint cfg, ox_Insecure = oc_Insecure cfg,
                ox_Headers = (if oc_Headers cfg \<noteq> [] then Some (oc_Headers cfg) else None)\<rparr>
      in case create o1 of Some e \<Rightarrow> Inl e | None \<Rightarrow> Inr o1)"

definition newOTLPExporter :: "(otlp_opts \<Rightarrow> string option) \<Rightarrow> otelConfig \<Rightarrow> (string, otlp_opts) res" where
  "newOTLPExporter create cfg =
     (case oc_Transport cfg of TransportGRPC \<Rightarrow> newGRPCExporter create cfg | TransportHTTP \<Rightarrow> newHTTPExporter create cfg)"

record OtelLogger =
  ol_file :: "string option"
  ol_otlp :: "otlp_opts option"
  ol_resource :: "(string \<times> string) list"
  ol_level :: int
  ol_attrs :: "key_value list"

text \<open>
  \<open>openFile\<close> and \<open>create\<close> are the errors of opening the file and of creating the OTLP exporter. The second component
  tells which file stays open.
\<close>

definition otel_New ::
  "(string \<Rightarrow> string) \<Rightarrow> (string \<Rightarrow> string option) \<Rightarrow> (otlp_opts \<Rightarrow> string option) \<Rightarrow> otelConfig \<Rightarrow> (string, OtelLogger) res \<times> string option" where
  "otel_New getenv openFile create cfg =
     (if oc_FilePath cfg = [] \<and> oc_Endpoint cfg = [] then
        (Inl ''at least one output (FilePath or Endpoint) is required'', None)
      else
        let level = (if oc_Level cfg = 0 then SeverityInfo else oc_Level cfg);
            file = (if oc_FilePath cfg \<noteq> [] then Some (oc_FilePath cfg) else None)
        in case (case file of None \<Rightarrow> None | Some p \<Rightarrow> openFile p) of
             Some e \<Rightarrow> (Inl e, None)
           | None \<Rightarrow>
               if oc_Endpoint cfg \<noteq> [] then
                 (case newOTLPExporter create cfg of
                    Inl e \<Rightarrow> (Inl e, file)
                  | Inr x \<Rightarrow> (Inr \<lparr>ol_file = file, ol_otlp = Some x, ol_resource = buildResource getenv cfg, ol_level = level, ol_attrs = []\<rparr>, file))
               else (Inr \<lparr>ol_file = file, ol_otlp = None, ol_resource = buildResource getenv cfg, ol_level = level, ol_attrs = []\<rparr>, file))"

definition otel_Enabled :: "OtelLogger \<Rightarrow> int \<Rightarrow> bool" where
  "otel_Enabled l severity \<longleftrightarrow> severity \<ge> ol_level l"

definition WithAttributes :: "key_value list \<Rightarrow> OtelLogger \<Rightarrow> OtelLogger" where
  "WithAttributes attrs l = l\<lparr>ol_attrs := ol_attrs l @ attrs\<rparr>"

text \<open>The record handed to the SDK, if the severity is enabled.\<close>

definition emit :: "instant \<Rightarrow> int \<Rightarrow> string \<Rightarrow> key_value list \<Rightarrow> OtelLogger \<Rightarrow> otel_record option" where
  "emit now sev msg attrs l =
     (if sev < ol_level l then None
      else Some \<lparr>or_Timestamp = now, or_Severity = sev, or_Body = msg, or_Attributes = ol_attrs l @ attrs\<rparr>)"

text \<open>The methods by level, as calls of \<open>emit\<close>.\<close>

datatype log_method = Trace | Debug | Info | Warn | Error | Fatal

primrec method_severity :: "log_method \<Rightarrow> int" where
  "method_severity Trace = 1"
| "method_severity Debug = 5"
| "method_severity Info = SeverityInfo"
| "method_severity Warn = 13"
| "method_severity Error = 17"
| "method_severity Fatal = 21"

definition log_method_call :: "log_method \<Rightarrow> instant \<Rightarrow> string \<Rightarrow> key_value list \<Rightarrow> OtelLogger \<Rightarrow> otel_record option" where
  "log_method_call m now msg attrs l = emit now (method_severity m) msg attrs l"

text \<open>\<open>Publish\<close> hands a record to the SDK without looking at the level or the attributes of the logger.\<close>

definition Publish :: "otel_record \<Rightarrow> OtelLogger \<Rightarrow> otel_record option" where
  "Publish rec l = Some rec"

definition attr_String :: "string \<Rightarrow> string \<Rightarrow> key_value" where "attr_String key v = (key, KString v)"
definition attr_Int :: "string \<Rightarrow> int \<Rightarrow> key_value" where "attr_Int key v = (key, KInt v)"
definition attr_Int64 :: "string \<Rightarrow> int \<Rightarrow> key_value" where "attr_Int64 key v = (key, KInt v)"
definition attr_Float64 :: "string \<Rightarrow> string \<Rightarrow> key_value" where "attr_Float64 key v = (key, KFloat v)"
definition attr_Bool :: "string \<Rightarrow> bool \<Rightarrow> key_value" where "attr_Bool key v = (key, KBool v)"
definition attr_Bytes :: "string \<Rightarrow> string \<Rightarrow> key_value" where "attr_Bytes key v = (key, KBytes v)"

section \<open>The file exporter\<close>

record fileRecord =
  fr_Timestamp :: instant
  fr_Severity :: int
  fr_Body :: string
  fr_Attributes :: "(string \<times> go_any) list"
  fr_TraceID :: string
  fr_SpanID :: string
  fr_Resource :: "(string \<times> string) list"

record fileExporter =
  fe_written :: "fileRecord list"
  fe_done :: bool
  fe_closes :: nat

definition newFileExporter :: fileExporter where
  "newFileExporter = \<lparr>fe_written = [], fe_done = False, fe_closes = 0\<rparr>"

text \<open>Trace and span identifiers and the resource come with the SDK's record.\<close>

record sdk_record = otel_record +
  sr_TraceID :: "string option"
  sr_SpanID :: "string option"
  sr_Resource :: "(string \<times> string) list"

definition file_record :: "sdk_record \<Rightarrow> fileRecord" where
  "file_record rec =
     \<lparr>fr_Timestamp = or_Timestamp rec, fr_Severity = or_Severity rec, fr_Body = or_Body rec,
      fr_Attributes = go_map (map (\<lambda>kv. (fst kv, kvToAny (snd kv))) (or_Attributes rec)),
      fr_TraceID = (case sr_TraceID rec of None \<Rightarrow> [] | Some t \<Rightarrow> t), fr_SpanID = (case sr_SpanID rec of None \<Rightarrow> [] | Some t \<Rightarrow> t),
      fr_Resource = go_map (sr_Resource rec)\<rparr>"

text \<open>\<open>encode\<close> is the error of encoding a record, which ends the export of the batch.\<close>

primrec export_records :: "(fileRecord \<Rightarrow> string option) \<Rightarrow> sdk_record list \<Rightarrow> fileExporter \<Rightarrow> string option \<times> fileExporter" where
  "export_records encode [] e = (None, e)"
| "export_records encode (r # rs) e =
     (case encode (file_record r) of
        Some err \<Rightarrow> (Some err, e)
      | None \<Rightarrow> export_records encode rs (e\<lparr>fe_written := fe_written e @ [file_record r]\<rparr>))"

definition Export :: "(fileRecord \<Rightarrow> string option) \<Rightarrow> sdk_record list \<Rightarrow> fileExporter \<Rightarrow> string option \<times> fileExporter" where
  "Export encode records e = (if fe_done e then (None, e) else export_records encode records e)"

definition file_Shutdown :: "string option \<Rightarrow> fileExporter \<Rightarrow> string option \<times> fileExporter" where
  "file_Shutdown closeErr e = (if fe_done e then (None, e) else (closeErr, e\<lparr>fe_done := True, fe_closes := fe_closes e + 1\<rparr>))"

definition file_ForceFlush :: "string option \<Rightarrow> fileExporter \<Rightarrow> string option" where
  "file_ForceFlush syncErr e = (if fe_done e then None else syncErr)"

section \<open>What the file holds\<close>

datatype file_op = OpExport "sdk_record list" | OpShutdown "string option"

definition file_do :: "(fileRecord \<Rightarrow> string option) \<Rightarrow> file_op \<Rightarrow> fileExporter \<Rightarrow> fileExporter" where
  "file_do encode op e =
     (case op of OpExport rs \<Rightarrow> snd (Export encode rs e) | OpShutdown err \<Rightarrow> snd (file_Shutdown err e))"

definition before_shutdown :: "file_op list \<Rightarrow> sdk_record list" where
  "before_shutdown ops = concat (map (\<lambda>op. case op of OpExport rs \<Rightarrow> rs | _ \<Rightarrow> []) (takeWhile (\<lambda>op. case op of OpExport _ \<Rightarrow> True | _ \<Rightarrow> False) ops))"

lemma export_records_ok: "\<forall>r. encode r = None \<Longrightarrow> export_records encode rs e = (None, e\<lparr>fe_written := fe_written e @ map file_record rs\<rparr>)"
  by (induction rs arbitrary: e) simp_all

lemma file_done_stays: "fe_done e \<Longrightarrow> fold (file_do encode) ops e = e"
  by (induction ops) (auto simp: file_do_def Export_def file_Shutdown_def split: file_op.splits)

text \<open>
  When records can be encoded, the file of the exporter holds exactly the records exported before the first shutdown,
  in order, and is closed at most once, however often the exporter is shut down and used afterwards.
\<close>
theorem file_exporter_history:
  assumes "\<forall>r. encode r = None"
  shows "fe_written (fold (file_do encode) ops newFileExporter) = map file_record (before_shutdown ops) \<and>
    fe_closes (fold (file_do encode) ops newFileExporter) = (if list_ex (\<lambda>op. case op of OpShutdown _ \<Rightarrow> True | _ \<Rightarrow> False) ops then 1 else 0)"
proof -
  have "\<not> fe_done e \<Longrightarrow> fe_written (fold (file_do encode) ops e) = fe_written e @ map file_record (before_shutdown ops) \<and>
      fe_closes (fold (file_do encode) ops e) = fe_closes e + (if list_ex (\<lambda>op. case op of OpShutdown _ \<Rightarrow> True | _ \<Rightarrow> False) ops then 1 else 0)" for e
  proof (induction ops arbitrary: e)
    case (Cons op ops)
    show ?case
    proof (cases op)
      case (OpExport rs)
      let ?e = "e\<lparr>fe_written := fe_written e @ map file_record rs\<rparr>"
      have "file_do encode op e = ?e" using OpExport Cons.prems export_records_ok [OF assms] by (simp add: file_do_def Export_def)
      with Cons.IH [of ?e] Cons.prems OpExport show ?thesis by (simp add: before_shutdown_def)
    next
      case (OpShutdown err)
      then have "file_do encode op e = e\<lparr>fe_done := True, fe_closes := fe_closes e + 1\<rparr>"
        using Cons.prems by (simp add: file_do_def file_Shutdown_def)
      with file_done_stays [of "e\<lparr>fe_done := True, fe_closes := fe_closes e + 1\<rparr>" encode ops] OpShutdown show ?thesis
        by (simp add: before_shutdown_def)
    qed
  qed (simp add: before_shutdown_def)
  from this [of newFileExporter] show ?thesis by (simp add: newFileExporter_def)
qed

theorem file_exporter_history_witness:
  "fe_closes (fold (file_do (\<lambda>_. None)) [OpExport [], OpShutdown None, OpShutdown None] newFileExporter) = 1"
  using file_exporter_history [of "\<lambda>_. None" "[OpExport [], OpShutdown None, OpShutdown None]"] by simp

text \<open>
  A logger with a file: the SDK's simple processor exports each record as it is emitted, \<open>sdk\<close> adding the resource and
  the identifiers of the trace. A call goes through the logger with some attributes added by \<open>WithAttributes\<close>.
\<close>

datatype otel_call =
    CallMethod "key_value list" log_method instant string "key_value list"
  | CallPublish otel_record

fun call_record :: "OtelLogger \<Rightarrow> otel_call \<Rightarrow> otel_record option" where
  "call_record l (CallMethod extra m now msg attrs) = log_method_call m now msg attrs (WithAttributes extra l)"
| "call_record l (CallPublish rec) = Publish rec l"

definition file_ops :: "(otel_record \<Rightarrow> sdk_record) \<Rightarrow> OtelLogger \<Rightarrow> otel_call list \<Rightarrow> file_op list" where
  "file_ops sdk l calls = map (\<lambda>rec. OpExport [sdk rec]) (List.map_filter (call_record l) calls)"

lemma before_shutdown_exports: "before_shutdown (map (\<lambda>r. OpExport [f r]) rs) = map f rs"
  by (induction rs) (simp_all add: before_shutdown_def)

text \<open>
  The file of a logger holds one line per call of enabled severity and per published record, in the order of the
  calls, with the attributes of the logger, of \<open>WithAttributes\<close> and of the call, the last one of a key winning.
\<close>
lemma file_log_complete:
  assumes "\<forall>r. encode r = None"
  shows "fe_written (fold (file_do encode) (file_ops sdk l calls) newFileExporter) =
    map (\<lambda>rec. file_record (sdk rec)) (List.map_filter (call_record l) calls)"
  unfolding file_exporter_history [OF assms, THEN conjunct1] file_ops_def before_shutdown_exports by simp

lemma call_record_iff:
  "call_record l (CallMethod extra m now msg attrs) = Some rec \<longleftrightarrow>
     ol_level l \<le> method_severity m \<and> or_Severity rec = method_severity m \<and> or_Timestamp rec = now \<and> or_Body rec = msg \<and>
     or_Attributes rec = ol_attrs l @ extra @ attrs"
  by (cases rec) (auto simp: log_method_call_def emit_def WithAttributes_def)

text \<open>When the OTLP exporter cannot be created, the file that was opened before stays open.\<close>

lemma otel_New_leaks_file:
  assumes "oc_FilePath cfg \<noteq> []" and "openFile (oc_FilePath cfg) = None" and "oc_Endpoint cfg \<noteq> []" and "\<And>o1. create o1 = Some err"
  shows "otel_New getenv openFile create cfg = (Inl err, Some (oc_FilePath cfg))"
  using assms by (simp add: otel_New_def newOTLPExporter_def newHTTPExporter_def newGRPCExporter_def Let_def split: Transport.splits)

end
