(* ===== verification/Moxtox.thy ===== *)
theory Moxtox
  imports HttpErrors UrlValues "HOL-Library.AList" "HOL-Library.Multiset"
begin

text \<open>
  The mock middleware \<open>testing/moxtox\<close>: parsing of the configuration's mappings, the two lookup structures, matching of
  a request against the conditions of scenarios, mock answers, and the middleware with its one-time initialization.
  Values of the configuration are the Go values the YAML decoder makes: a \<open>map[any]any\<close> is \<open>YMap\<close>, a
  \<open>map[string]any\<close> is \<open>YStrMap\<close>. Maps are lists of entries in the order in which they are ranged over. A failed
  type assertion is a panic, the value \<open>None\<close>. Files, YAML, JSON, MD5 and \<open>sort.Slice\<close> are arguments.
\<close>

datatype yval =
    YStr string
  | YBool bool
  | YInt int
  | YText string \<comment> \<open>any other scalar, by its printed form\<close>
  | YList "yval list"
  | YMap "(yval \<times> yval) list"
  | YStrMap "(string \<times> yval) list"

record Scenario =
  sc_Name :: string
  sc_File :: string
  sc_Dynamic :: bool
  sc_Template :: string
  sc_Delay :: int
  sc_Log :: bool
  sc_Priority :: int
  sc_Conditions :: "(string \<times> yval) list"

type_synonym methods = "(string \<times> Scenario list) list"

section \<open>Parsing the mappings\<close>

primrec add_conditions :: "(yval \<times> yval) list \<Rightarrow> (string \<times> yval) list \<Rightarrow> (string \<times> yval) list option" where
  "add_conditions [] acc = Some acc"
| "add_conditions (kv # rest) acc =
     (case fst kv of YStr k \<Rightarrow> add_conditions rest (AList.update k (snd kv) acc) | _ \<Rightarrow> None)"

definition scenario_field :: "string \<Rightarrow> yval \<Rightarrow> Scenario \<Rightarrow> Scenario option" where
  "scenario_field key v s =
     (if key = ''name'' then Some (case v of YStr x \<Rightarrow> s\<lparr>sc_Name := x\<rparr> | _ \<Rightarrow> s)
      else if key = ''file'' then Some (case v of YStr x \<Rightarrow> s\<lparr>sc_File := x\<rparr> | _ \<Rightarrow> s)
      else if key = ''dynamic'' then Some (case v of YBool b \<Rightarrow> s\<lparr>sc_Dynamic := b\<rparr> | _ \<Rightarrow> s)
      else if key = ''template'' then Some (case v of YStr x \<Rightarrow> s\<lparr>sc_Template := x\<rparr> | _ \<Rightarrow> s)
      else if key = ''delay'' then Some (case v of YInt i \<Rightarrow> s\<lparr>sc_Delay := i\<rparr> | _ \<Rightarrow> s)
      else if key = ''log'' then Some (case v of YBool b \<Rightarrow> s\<lparr>sc_Log := b\<rparr> | _ \<Rightarrow> s)
      else if key = ''priority'' then Some (case v of YInt i \<Rightarrow> s\<lparr>sc_Priority := i\<rparr> | _ \<Rightarrow> s)
      else if key = ''conditions'' then
        (case v of YMap m \<Rightarrow> map_option (\<lambda>c. s\<lparr>sc_Conditions := c\<rparr>) (add_conditions m (sc_Conditions s)) | _ \<Rightarrow> Some s)
      else Some s)"

definition empty_scenario :: Scenario where
  "empty_scenario = \<lparr>sc_Name = [], sc_File = [], sc_Dynamic = False, sc_Template = [], sc_Delay = 0, sc_Log = False, sc_Priority = 0, sc_Conditions = []\<rparr>"

primrec scenario_fields :: "(yval \<times> yval) list \<Rightarrow> Scenario \<Rightarrow> Scenario option" where
  "scenario_fields [] s = Some s"
| "scenario_fields (kv # rest) s =
     (case fst kv of
        YStr k \<Rightarrow> (case scenario_field k (snd kv) s of None \<Rightarrow> None | Some s1 \<Rightarrow> scenario_fields rest s1)
      | _ \<Rightarrow> None)"

definition parseScenario :: "(yval \<times> yval) list \<Rightarrow> Scenario option" where
  "parseScenario data = scenario_fields data empty_scenario"

primrec add_scenarios :: "yval list \<Rightarrow> Scenario list \<Rightarrow> Scenario list option" where
  "add_scenarios [] acc = Some acc"
| "add_scenarios (v # rest) acc =
     (case v of
        YMap m \<Rightarrow> (case parseScenario m of None \<Rightarrow> None | Some s \<Rightarrow> add_scenarios rest (acc @ [s]))
      | _ \<Rightarrow> add_scenarios rest acc)"

primrec method_entries :: "(yval \<times> yval) list \<Rightarrow> Scenario list \<Rightarrow> Scenario list option" where
  "method_entries [] acc = Some acc"
| "method_entries (kv # rest) acc =
     (case fst kv of
        YStr k \<Rightarrow>
          if k = ''scenarios'' then
            (case snd kv of YList l \<Rightarrow> (case add_scenarios l acc of None \<Rightarrow> None | Some acc1 \<Rightarrow> method_entries rest acc1)
             | _ \<Rightarrow> method_entries rest acc)
          else method_entries rest acc
      | _ \<Rightarrow> None)"

definition parseMethod :: "(yval \<times> yval) list \<Rightarrow> Scenario list option" where
  "parseMethod data = method_entries data []"

primrec add_methods :: "(yval \<times> yval) list \<Rightarrow> methods \<Rightarrow> methods option" where
  "add_methods [] acc = Some acc"
| "add_methods (kv # rest) acc =
     (case fst kv of
        YStr k \<Rightarrow>
          (case snd kv of
             YMap m \<Rightarrow> (case parseMethod m of None \<Rightarrow> None | Some ss \<Rightarrow> add_methods rest (AList.update k ss acc))
           | _ \<Rightarrow> add_methods rest acc)
      | _ \<Rightarrow> None)"

text \<open>Entries other than \<open>methods\<close> are taken for sub-paths, whose methods are copied into the mapping itself.\<close>

fun mapping_entries :: "(yval \<times> yval) list \<Rightarrow> methods \<Rightarrow> methods option" where
  "mapping_entries [] acc = Some acc"
| "mapping_entries ((k, v) # rest) acc =
     (case k of
        YStr key \<Rightarrow>
          if key = ''methods'' then
            (case v of YMap ms \<Rightarrow> (case add_methods ms acc of None \<Rightarrow> None | Some acc1 \<Rightarrow> mapping_entries rest acc1)
             | _ \<Rightarrow> mapping_entries rest acc)
          else
            (case v of
               YMap sub \<Rightarrow> (case mapping_entries sub [] of None \<Rightarrow> None | Some m \<Rightarrow> mapping_entries rest (AList.updates (map fst m) (map snd m) acc))
             | _ \<Rightarrow> mapping_entries rest acc)
      | _ \<Rightarrow> None)"

definition parseMapping :: "(yval \<times> yval) list \<Rightarrow> methods option" where
  "parseMapping data = mapping_entries data []"

section \<open>The configuration and its lookup structures\<close>

record MoxtoxConfig =
  mc_EnableMoxtox :: bool
  mc_Debug :: bool
  mc_DefaultDelay :: int
  mc_PerformanceMode :: string
  mc_AllowedEnvironments :: "string list"
  mc_IgnoredRoutes :: "string list"
  mc_Mappings :: "(string \<times> yval) list"
  mc_LookupMap :: "(string \<times> methods) list"
  mc_HashLookupMap :: "(string \<times> (string \<times> (string \<times> Scenario) list) list) list"

text \<open>The parsed mappings by path; entries that are not a \<open>map[any]any\<close> are skipped.\<close>

primrec parsed_mappings :: "(string \<times> yval) list \<Rightarrow> (string \<times> methods) list option" where
  "parsed_mappings [] = Some []"
| "parsed_mappings (pv # rest) =
     (case snd pv of
        YMap data \<Rightarrow>
          (case parseMapping data of None \<Rightarrow> None
           | Some m \<Rightarrow> map_option (Cons (fst pv, m)) (parsed_mappings rest))
      | _ \<Rightarrow> parsed_mappings rest)"

definition countTotalScenarios :: "MoxtoxConfig \<Rightarrow> nat option" where
  "countTotalScenarios cfg =
     map_option (\<lambda>ps. sum_list (map (\<lambda>pm. sum_list (map (\<lambda>ms. length (snd ms)) (snd pm))) ps)) (parsed_mappings (mc_Mappings cfg))"

definition buildSliceLookupMap :: "(Scenario list \<Rightarrow> Scenario list) \<Rightarrow> MoxtoxConfig \<Rightarrow> MoxtoxConfig option" where
  "buildSliceLookupMap by_priority cfg =
     map_option (\<lambda>ps. cfg\<lparr>mc_LookupMap := map (\<lambda>pm. (fst pm, map (\<lambda>ms. (fst ms, by_priority (snd ms))) (snd pm))) ps\<rparr>) (parsed_mappings (mc_Mappings cfg))"

text \<open>\<open>fmt\<close>'s \<open>%v\<close>: maps with their entries sorted by key (by the text of the key, exact for string keys).\<close>

fun sprint :: "yval \<Rightarrow> string" where
  "sprint (YStr s) = s"
| "sprint (YBool b) = (if b then ''true'' else ''false'')"
| "sprint (YInt i) = Itoa i"
| "sprint (YText s) = s"
| "sprint (YList l) = ''['' @ Join (map sprint l) '' '' @ '']''"
| "sprint (YMap m) =
     ''map['' @ Join (map (\<lambda>kv. fst kv @ '':'' @ snd kv) (sort_key fst (map (\<lambda>kv. (sprint (fst kv), sprint (snd kv))) m))) '' '' @ '']''"
| "sprint (YStrMap m) =
     ''map['' @ Join (map (\<lambda>kv. fst kv @ '':'' @ snd kv) (sort_key fst (map (\<lambda>kv. (fst kv, sprint (snd kv))) m))) '' '' @ '']''"

text \<open>\<open>md5\<close> yields the digest in hexadecimal.\<close>

definition hashConditions :: "(string \<Rightarrow> string) \<Rightarrow> (string \<times> yval) list \<Rightarrow> string" where
  "hashConditions md5 conditions =
     (if conditions = [] then ''default''
      else md5 (Join (map (\<lambda>kv. fst kv @ '':'' @ sprint (snd kv)) (sort_key fst conditions)) ''|''))"

definition hash_scenarios :: "(string \<Rightarrow> string) \<Rightarrow> Scenario list \<Rightarrow> (string \<times> Scenario) list" where
  "hash_scenarios md5 ss = fold (\<lambda>s. AList.update (hashConditions md5 (sc_Conditions s)) s) ss []"

definition buildHashLookupMap :: "(string \<Rightarrow> string) \<Rightarrow> MoxtoxConfig \<Rightarrow> MoxtoxConfig option" where
  "buildHashLookupMap md5 cfg =
     map_option (\<lambda>ps. cfg\<lparr>mc_HashLookupMap := map (\<lambda>pm. (fst pm, map (\<lambda>ms. (fst ms, hash_scenarios md5 (snd ms))) (snd pm))) ps\<rparr>)
       (parsed_mappings (mc_Mappings cfg))"

section \<open>Matching\<close>

text \<open>
  Decoding the body consumes it: \<open>decode\<close> yields the decoded object (empty on an error) and what is left to read.
\<close>

definition read_json :: "(string \<Rightarrow> (string \<times> yval) list \<times> string) \<Rightarrow> request \<Rightarrow> (string \<times> yval) list \<times> request" where
  "read_json decode req =
     (case req_body req of
        Some (Body s) \<Rightarrow> (fst (decode s), req\<lparr>req_body := Some (Body (snd (decode s)))\<rparr>)
      | Some (BrokenBody s) \<Rightarrow> (fst (decode s), req\<lparr>req_body := Some (BrokenBody (snd (decode s)))\<rparr>)
      | None \<Rightarrow> ([], req))"

definition has_json :: "request \<Rightarrow> bool" where
  "has_json req \<longleftrightarrow> req_body req \<noteq> None \<and> Contains (Header_Get (req_header req) ''Content-Type'') ''application/json''"

text \<open>Checking the entries of a condition one by one; a key that is not a string panics when it is reached.\<close>

primrec all_keys :: "(string \<Rightarrow> yval \<Rightarrow> bool) \<Rightarrow> (yval \<times> yval) list \<Rightarrow> bool option" where
  "all_keys p [] = Some True"
| "all_keys p (kv # rest) =
     (case fst kv of YStr k \<Rightarrow> if p k (snd kv) then all_keys p rest else Some False | _ \<Rightarrow> None)"

definition matchesBody :: "(string \<Rightarrow> (string \<times> yval) list \<times> string) \<Rightarrow> (yval \<times> yval) list \<Rightarrow> request \<Rightarrow> bool option \<times> request" where
  "matchesBody decode cond req =
     (if \<not> has_json req then (Some False, req)
      else let (body, req1) = read_json decode req
           in (all_keys (\<lambda>k v. case map_of body k of None \<Rightarrow> False | Some x \<Rightarrow> sprint x = sprint v) cond, req1))"

definition url_of :: "request \<Rightarrow> url" where
  "url_of req = (case req_url req of None \<Rightarrow> \<lparr>u_path = [], u_rawQuery = [], u_host = []\<rparr> | Some u \<Rightarrow> u)"

definition query_Get :: "request \<Rightarrow> string \<Rightarrow> string" where
  "query_Get req k = (case map_of (url_Query (url_of req)) k of None \<Rightarrow> [] | Some v \<Rightarrow> v)"

definition matchesQuery :: "(yval \<times> yval) list \<Rightarrow> request \<Rightarrow> bool option" where
  "matchesQuery cond req = all_keys (\<lambda>k v. query_Get req k = sprint v) cond"

definition matchesHeaders :: "(yval \<times> yval) list \<Rightarrow> request \<Rightarrow> bool option" where
  "matchesHeaders cond req = all_keys (\<lambda>k v. Header_Get (req_header req) k = sprint v) cond"

definition matchesPath :: "(yval \<times> yval) list \<Rightarrow> request \<Rightarrow> bool option" where
  "matchesPath cond req = all_keys (\<lambda>k v. Contains (u_path (url_of req)) (''/'' @ k @ ''/'' @ sprint v)) cond"

definition match_one :: "(string \<Rightarrow> (string \<times> yval) list \<times> string) \<Rightarrow> string \<Rightarrow> yval \<Rightarrow> request \<Rightarrow> bool option \<times> request" where
  "match_one decode kind cond req =
     (if kind \<notin> {''body'', ''query'', ''headers'', ''path''} then (Some True, req)
      else (case cond of
              YMap m \<Rightarrow>
                if kind = ''body'' then matchesBody decode m req
                else if kind = ''query'' then (matchesQuery m req, req)
                else if kind = ''headers'' then (matchesHeaders m req, req)
                else (matchesPath m req, req)
            | _ \<Rightarrow> (None, req)))"

primrec matchesConditions ::
  "(string \<Rightarrow> (string \<times> yval) list \<times> string) \<Rightarrow> (string \<times> yval) list \<Rightarrow> request \<Rightarrow> bool option \<times> request" where
  "matchesConditions decode [] req = (Some True, req)"
| "matchesConditions decode (c # cs) req =
     (case match_one decode (fst c) (snd c) req of
        (None, req1) \<Rightarrow> (None, req1)
      | (Some b, req1) \<Rightarrow> if b then matchesConditions decode cs req1 else (Some False, req1))"

text \<open>The first matching scenario; the outer option is a panic.\<close>

primrec first_match ::
  "(string \<Rightarrow> (string \<times> yval) list \<times> string) \<Rightarrow> Scenario list \<Rightarrow> request \<Rightarrow> Scenario option option \<times> request" where
  "first_match decode [] req = (Some None, req)"
| "first_match decode (s # ss) req =
     (case matchesConditions decode (sc_Conditions s) req of
        (None, req1) \<Rightarrow> (None, req1)
      | (Some b, req1) \<Rightarrow> if b then (Some (Some s), req1) else first_match decode ss req1)"

definition scenarios_for :: "'v list \<Rightarrow> (string \<times> 'v list) list \<Rightarrow> string \<Rightarrow> 'v list" where
  "scenarios_for none ms method = (case map_of ms method of None \<Rightarrow> none | Some ss \<Rightarrow> ss)"

definition matchesRequestSlice ::
  "(string \<Rightarrow> (string \<times> yval) list \<times> string) \<Rightarrow> MoxtoxConfig \<Rightarrow> request \<Rightarrow> Scenario option option \<times> request" where
  "matchesRequestSlice decode cfg req =
     (case map_of (mc_LookupMap cfg) (u_path (url_of req)) of
        None \<Rightarrow> (Some None, req)
      | Some ms \<Rightarrow>
          (case first_match decode (scenarios_for [] ms (req_method req)) req of
             (Some None, req1) \<Rightarrow> first_match decode (scenarios_for [] ms ''*'') req1
           | r \<Rightarrow> r))"

text \<open>The conditions a request stands for in quick mode; \<open>names\<close> are the names of its headers.\<close>

definition extractRequestConditions ::
  "(string \<Rightarrow> (string \<times> yval) list \<times> string) \<Rightarrow> string list \<Rightarrow> request \<Rightarrow> (string \<times> yval) list \<times> request" where
  "extractRequestConditions decode names req =
     (let (body, req1) = (if has_json req then (let (b, r) = read_json decode req in ([(''body'', YStrMap b)], r)) else ([], req));
          query = fold (\<lambda>kv m. if map_of m (fst kv) = None then m @ [(fst kv, YStr (snd kv))] else m) (url_Query (url_of req)) [];
          headers = fold (\<lambda>n m. case req_header req n of Some (v # _) \<Rightarrow> AList.update (ToLower n) (YStr v) m | _ \<Rightarrow> m) names []
      in (body @ (if query \<noteq> [] then [(''query'', YStrMap query)] else []) @
          (if headers \<noteq> [] then [(''headers'', YStrMap headers)] else []) @
          [(''path'', YStrMap [(''path'', YStr (u_path (url_of req)))])], req1))"

definition matchesRequestHash ::
  "(string \<Rightarrow> (string \<times> yval) list \<times> string) \<Rightarrow> (string \<Rightarrow> string) \<Rightarrow> string list \<Rightarrow> MoxtoxConfig \<Rightarrow> request \<Rightarrow> Scenario option \<times> request" where
  "matchesRequestHash decode md5 names cfg req =
     (let (conds, req1) = extractRequestConditions decode names req; hash = hashConditions md5 conds
      in (case map_of (mc_HashLookupMap cfg) (u_path (url_of req)) of
            None \<Rightarrow> None
          | Some ms \<Rightarrow>
              (case map_of (scenarios_for [] ms (req_method req)) hash of
                 Some s \<Rightarrow> Some s
               | None \<Rightarrow> map_of (scenarios_for [] ms ''*'') hash), req1))"

definition matchesRequest ::
  "(string \<Rightarrow> (string \<times> yval) list \<times> string) \<Rightarrow> (string \<Rightarrow> string) \<Rightarrow> string list \<Rightarrow> MoxtoxConfig \<Rightarrow> request \<Rightarrow> Scenario option option \<times> request" where
  "matchesRequest decode md5 names cfg req =
     (let quick = (let (s, r) = matchesRequestHash decode md5 names cfg req in (Some s, r)) in
      if mc_PerformanceMode cfg = ''quick'' then quick
      else if mc_PerformanceMode cfg = ''dynamic'' then
        (case countTotalScenarios cfg of
           None \<Rightarrow> (None, req)
         | Some n \<Rightarrow> if n > 10 then quick else matchesRequestSlice decode cfg req)
      else matchesRequestSlice decode cfg req)"

section \<open>Mock answers\<close>

record MockResponse =
  mr_Status :: int
  mr_Body :: string
  mr_Headers :: "(string \<times> string) list"

text \<open>\<open>strings.ReplaceAll\<close> for a pattern that is not empty: occurrences from the left, without overlap.\<close>

function ReplaceAll :: "string \<Rightarrow> string \<Rightarrow> string \<Rightarrow> string" where
  "ReplaceAll s old new =
     (if old = [] \<or> s = [] then s
      else if HasPrefix s old then new @ ReplaceAll (drop (length old) s) old new
      else hd s # ReplaceAll (tl s) old new)"
  by pat_completeness auto
termination
  by (relation "measure (\<lambda>(s, _, _). length s)") auto

declare ReplaceAll.simps [simp del]

definition generateDynamicResponse ::
  "(string \<Rightarrow> (string \<times> yval) list \<times> string) \<Rightarrow> request \<Rightarrow> string \<Rightarrow> string" where
  "generateDynamicResponse decode req template =
     (let body = (if has_json req then fst (read_json decode req) else []) in
      fold (\<lambda>kv result. ReplaceAll result (''{{.body.'' @ fst kv @ ''}}'') (sprint (snd kv))) body template)"

text \<open>
  The answer: an error, the panic of \<open>net/http\<close> on a status that is not of three digits, or the response. Waiting for
  the delay does not change the answer and is left out.
\<close>

datatype mock_result = MockFailed string | MockPanics | Mocked writer

definition mock_delay :: "MoxtoxConfig \<Rightarrow> Scenario \<Rightarrow> int" where
  "mock_delay cfg sc = (if sc_Delay sc = 0 then mc_DefaultDelay cfg else sc_Delay sc)"

definition write_mock :: "int \<Rightarrow> string \<Rightarrow> (string \<times> string) list \<Rightarrow> writer \<Rightarrow> mock_result" where
  "write_mock status body headers w =
     (if status < 100 \<or> status > 999 then MockPanics
      else Mocked (wtr_Write (wtr_WriteHeader (fold (\<lambda>kv w. wtr_SetHeader w (fst kv) (snd kv)) headers w) status) (Bytes body)))"

definition injectMock ::
  "(string \<Rightarrow> (string \<times> yval) list \<times> string) \<Rightarrow> (string \<Rightarrow> (string, string) res) \<Rightarrow> (string \<Rightarrow> (string, MockResponse) res) \<Rightarrow>
   Scenario \<Rightarrow> request \<Rightarrow> writer \<Rightarrow> mock_result" where
  "injectMock decode readFile unmarshal sc req w =
     (if sc_Dynamic sc then write_mock 200 (generateDynamicResponse decode req (sc_Template sc)) [] w
      else (case readFile (sc_File sc) of
              Inl e \<Rightarrow> MockFailed (''failed to read mock file '' @ sc_File sc @ '': '' @ e)
            | Inr data \<Rightarrow>
                (case unmarshal data of
                   Inl e \<Rightarrow> MockFailed (''failed to parse mock file '' @ sc_File sc @ '': '' @ e)
                 | Inr m \<Rightarrow> write_mock (mr_Status m) (mr_Body m) (mr_Headers m) w)))"

section \<open>The middleware\<close>

record moxtox =
  mx_done :: bool
  mx_config :: MoxtoxConfig
  mx_allowMocks :: bool

text \<open>The environment: working directory, files, the YAML decoder, the sort and the hash.\<close>

record mox_env =
  me_Getwd :: "(string, string) res"
  me_ReadFile :: "string \<Rightarrow> (string, string) res"
  me_Yaml :: "string \<Rightarrow> (string, MoxtoxConfig) res"
  me_sort :: "Scenario list \<Rightarrow> Scenario list"
  me_md5 :: "string \<Rightarrow> string"
  me_decode :: "string \<Rightarrow> (string \<times> yval) list \<times> string"
  me_mock :: "string \<Rightarrow> (string, MockResponse) res"

definition build_lookup :: "mox_env \<Rightarrow> MoxtoxConfig \<Rightarrow> MoxtoxConfig option" where
  "build_lookup env cfg =
     (if mc_PerformanceMode cfg = ''quick'' then buildHashLookupMap (me_md5 env) cfg
      else if mc_PerformanceMode cfg = ''dynamic'' then
        (case countTotalScenarios cfg of
           None \<Rightarrow> None
         | Some n \<Rightarrow> if n > 10 then buildHashLookupMap (me_md5 env) cfg else buildSliceLookupMap (me_sort env) cfg)
      else buildSliceLookupMap (me_sort env) cfg)"

definition config_dir :: "mox_env \<Rightarrow> string list \<Rightarrow> (string, string) res" where
  "config_dir env configPath =
     (case configPath of
        p # _ \<Rightarrow> if p = [] then map_sum id (\<lambda>cwd. cwd @ ''/test/moxtox'') (me_Getwd env) else Inr p
      | [] \<Rightarrow> map_sum id (\<lambda>cwd. cwd @ ''/test/moxtox'') (me_Getwd env))"

text \<open>The work done once; the outer option is a panic of the mappings' type assertions.\<close>

definition moxtox_load :: "mox_env \<Rightarrow> string \<Rightarrow> string list \<Rightarrow> moxtox \<Rightarrow> moxtox option" where
  "moxtox_load env name configPath m =
     (let off = Some (m\<lparr>mx_done := True, mx_allowMocks := False\<rparr>) in
      case config_dir env configPath of
        Inl _ \<Rightarrow> off
      | Inr dir \<Rightarrow>
          (case me_ReadFile env (dir @ ''/moxtox_config.yml'') of
             Inl _ \<Rightarrow> off
           | Inr data \<Rightarrow>
               (case me_Yaml env data of
                  Inl _ \<Rightarrow> off
                | Inr cfg \<Rightarrow>
                    let m1 = m\<lparr>mx_done := True, mx_config := cfg\<rparr> in
                    if \<not> mc_EnableMoxtox cfg then Some (m1\<lparr>mx_allowMocks := False\<rparr>)
                    else if name \<notin> set (mc_AllowedEnvironments cfg) then Some (m1\<lparr>mx_allowMocks := False\<rparr>)
                    else map_option (\<lambda>cfg1. m1\<lparr>mx_config := cfg1\<rparr>) (build_lookup env cfg))))"

datatype mock_answer = Forward | Answer writer | Crash

definition mockResponseHandler :: "mox_env \<Rightarrow> instant \<Rightarrow> string list \<Rightarrow> MoxtoxConfig \<Rightarrow> request \<Rightarrow> writer \<Rightarrow> mock_answer" where
  "mockResponseHandler env now names cfg req w =
     (if u_path (url_of req) \<in> set (mc_IgnoredRoutes cfg) then Forward
      else (case matchesRequest (me_decode env) (me_md5 env) names cfg req of
              (None, _) \<Rightarrow> Crash
            | (Some (Some sc), req1) \<Rightarrow>
                (case injectMock (me_decode env) (me_ReadFile env) (me_mock env) sc req1 w of
                   MockFailed _ \<Rightarrow> Answer (SendError now w req1 Global_UnprocessableEntity [WithDetail ''failed to inject mock''])
                 | MockPanics \<Rightarrow> Crash
                 | Mocked w1 \<Rightarrow> Answer w1)
            | (Some None, req1) \<Rightarrow> Answer (SendCustomError now w req1 418 ''no mocks found'' [] ''MOXTOX_001'')))"

definition InitMoxtoxMiddleware ::
  "mox_env \<Rightarrow> string \<Rightarrow> string list \<Rightarrow> moxtox \<Rightarrow> ((instant \<Rightarrow> string list \<Rightarrow> request \<Rightarrow> writer \<Rightarrow> mock_answer) \<times> moxtox) option" where
  "InitMoxtoxMiddleware env name configPath m =
     map_option (\<lambda>m1. (\<lambda>now names req w. if mx_allowMocks m1 then mockResponseHandler env now names (mx_config m1) req w else Forward, m1))
       (if mx_done m then Some m else moxtox_load env name configPath m)"

section \<open>Priorities\<close>

text \<open>What the code relies on of \<open>sort.Slice\<close>: the same scenarios, by descending priority.\<close>

locale priority_sort =
  fixes srt :: "Scenario list \<Rightarrow> Scenario list"
  assumes srt_mset: "mset (srt ss) = mset ss"
    and srt_sorted: "sorted_wrt (\<lambda>a b. sc_Priority b \<le> sc_Priority a) (srt ss)"
begin

lemma set_srt [simp]: "set (srt ss) = set ss"
  using srt_mset [of ss] by (metis set_mset_mset)

lemma earlier_is_higher: "srt ss = pre @ s # post \<Longrightarrow> t \<in> set post \<Longrightarrow> sc_Priority t \<le> sc_Priority s"
  using srt_sorted [of ss] by (simp add: sorted_wrt_append)

end

interpretation insertion: priority_sort "sort_key (\<lambda>s. - sc_Priority s)"
proof
  fix ss :: "Scenario list"
  have "sorted (map (\<lambda>s. - sc_Priority s) (sort_key (\<lambda>s. - sc_Priority s) ss))" by (rule sorted_sort_key)
  then show "sorted_wrt (\<lambda>a b. sc_Priority b \<le> sc_Priority a) (sort_key (\<lambda>s. - sc_Priority s) ss)" by (simp add: sorted_map)
qed simp

lemma match_one_keeps: "kind \<noteq> ''body'' \<Longrightarrow> snd (match_one decode kind cond req) = req"
  by (auto simp: match_one_def split: yval.splits)

lemma matchesConditions_keeps: "''body'' \<notin> fst ` set cs \<Longrightarrow> snd (matchesConditions decode cs req) = req"
proof (induction cs)
  case (Cons c cs)
  then have "snd (match_one decode (fst c) (snd c) req) = req" by (intro match_one_keeps) auto
  with Cons show ?case by (auto split: prod.splits option.splits)
qed simp

text \<open>A scenario's conditions hold for a request.\<close>

definition holds_for :: "(string \<Rightarrow> (string \<times> yval) list \<times> string) \<Rightarrow> request \<Rightarrow> Scenario \<Rightarrow> bool" where
  "holds_for decode req s \<longleftrightarrow> fst (matchesConditions decode (sc_Conditions s) req) = Some True"

lemma first_match_found:
  assumes "first_match decode ss req = (Some (Some s), req1)" and "\<forall>t \<in> set ss. ''body'' \<notin> fst ` set (sc_Conditions t)"
  shows "\<exists>pre post. ss = pre @ s # post \<and> holds_for decode req s \<and> (\<forall>t \<in> set pre. \<not> holds_for decode req t)"
  using assms
proof (induction ss)
  case (Cons t ss)
  obtain b where m: "matchesConditions decode (sc_Conditions t) req = (b, req)"
    using matchesConditions_keeps [of "sc_Conditions t" decode req] Cons.prems(2) by (metis list.set_intros(1) prod.collapse)
  show ?case
  proof (cases "b = Some True")
    case True
    with m Cons.prems(1) show ?thesis by (intro exI [of _ "[]"] exI [of _ ss]) (auto simp: holds_for_def)
  next
    case False
    with m Cons.prems(1) have "first_match decode ss req = (Some (Some s), req1)" by (auto split: option.splits if_splits)
    with Cons obtain pre post where "ss = pre @ s # post" "holds_for decode req s" "\<forall>u \<in> set pre. \<not> holds_for decode req u" by auto
    with m False show ?thesis by (intro exI [of _ "t # pre"] exI [of _ post]) (simp add: holds_for_def)
  qed
qed simp

lemma first_match_none:
  assumes "first_match decode ss req = (Some None, req1)" and "\<forall>t \<in> set ss. ''body'' \<notin> fst ` set (sc_Conditions t)"
  shows "\<forall>t \<in> set ss. \<not> holds_for decode req t"
  using assms
proof (induction ss)
  case (Cons t ss)
  obtain b where m: "matchesConditions decode (sc_Conditions t) req = (b, req)"
    using matchesConditions_keeps [of "sc_Conditions t" decode req] Cons.prems(2) by (metis list.set_intros(1) prod.collapse)
  with Cons show ?case by (auto simp: holds_for_def split: option.splits if_splits)
qed simp

text \<open>
  In the default mode a request is answered with a scenario of its path and method whose conditions hold and that
  has the highest priority of those, whatever order the sort leaves scenarios of equal priority in (for scenarios
  without a condition on the body, which can be read only once).
\<close>
theorem moxtox_highest_priority:
  assumes "priority_sort srt" and "buildSliceLookupMap srt cfg = Some cfg1" and "parsed_mappings (mc_Mappings cfg) = Some ps"
    and "map_of ps (u_path (url_of req)) = Some ms" and "map_of ms (req_method req) = Some ss"
    and "\<forall>t \<in> set ss. ''body'' \<notin> fst ` set (sc_Conditions t)" and "\<exists>t \<in> set ss. holds_for decode req t"
    and "matchesRequestSlice decode cfg1 req = (Some found, req1)"
  shows "\<exists>s \<in> set ss. found = Some s \<and> holds_for decode req s \<and> (\<forall>t \<in> set ss. holds_for decode req t \<longrightarrow> sc_Priority t \<le> sc_Priority s)"
proof -
  let ?sort = "\<lambda>ms. map (\<lambda>m. (fst m, srt (snd m))) ms"
  have srt: "set (srt ss) = set ss" by (rule priority_sort.set_srt [OF assms(1)])
  have "mc_LookupMap cfg1 = map (\<lambda>pm. (fst pm, ?sort (snd pm))) ps"
    using assms(2,3) by (auto simp: buildSliceLookupMap_def)
  then have "map_of (mc_LookupMap cfg1) (u_path (url_of req)) = Some (?sort ms)"
    using assms(4) map_of_map [of ?sort ps] by (simp add: case_prod_beta')
  moreover have "map_of (?sort ms) (req_method req) = Some (srt ss)"
    using assms(5) map_of_map [of srt ms] by (simp add: case_prod_beta')
  moreover obtain r req2 where f: "first_match decode (srt ss) req = (r, req2)" by fastforce
  moreover have "r \<noteq> Some None" using first_match_none [of decode "srt ss" req] f assms(6,7) srt by auto
  ultimately have "r = Some found"
    using assms(8) by (auto simp: matchesRequestSlice_def scenarios_for_def split: option.splits)
  with \<open>r \<noteq> Some None\<close> obtain s where s: "found = Some s" "first_match decode (srt ss) req = (Some (Some s), req2)" using f by auto
  from first_match_found [OF s(2)] assms(6) srt obtain pre post where p: "srt ss = pre @ s # post" "holds_for decode req s"
      "\<forall>t \<in> set pre. \<not> holds_for decode req t" by auto
  have "t \<in> set post \<or> t = s" if "t \<in> set ss" "holds_for decode req t" for t using that p srt by auto
  then show ?thesis
    using s(1) p(1,2) srt priority_sort.earlier_is_higher [OF assms(1) p(1)] by fastforce
qed

text \<open>Two scenarios of one method, the second with the higher priority.\<close>

definition sample_scenario :: "string \<Rightarrow> int \<Rightarrow> yval" where
  "sample_scenario name prio = YMap [(YStr ''name'', YStr name), (YStr ''priority'', YInt prio)]"

definition sample_mox_config :: MoxtoxConfig where
  "sample_mox_config = \<lparr>mc_EnableMoxtox = True, mc_Debug = False, mc_DefaultDelay = 0, mc_PerformanceMode = ''default'',
     mc_AllowedEnvironments = [''test''], mc_IgnoredRoutes = [],
     mc_Mappings = [(''/a'', YMap [(YStr ''methods'', YMap [(YStr ''GET'', YMap [(YStr ''scenarios'',
        YList [sample_scenario ''low'' 1, sample_scenario ''high'' 2])])])])], mc_LookupMap = [], mc_HashLookupMap = []\<rparr>"

definition sample_mox_request :: request where
  "sample_mox_request = sample_request\<lparr>req_method := ''GET'', req_url := Some \<lparr>u_path = ''/a'', u_rawQuery = [], u_host = []\<rparr>\<rparr>"

definition sample_priority :: "string \<Rightarrow> int \<Rightarrow> Scenario" where
  "sample_priority name prio = empty_scenario\<lparr>sc_Name := name, sc_Priority := prio\<rparr>"

lemma sample_parsed:
  "parsed_mappings (mc_Mappings sample_mox_config) = Some [(''/a'', [(''GET'', [sample_priority ''low'' 1, sample_priority ''high'' 2])])]"
  by (simp add: sample_mox_config_def sample_scenario_def sample_priority_def parseMapping_def parseMethod_def parseScenario_def
      scenario_field_def empty_scenario_def)

theorem moxtox_highest_priority_witness:
  "\<exists>s \<in> {sample_priority ''low'' 1, sample_priority ''high'' 2}. sc_Priority s = 2 \<and> holds_for (\<lambda>s. ([], [])) sample_mox_request s"
proof -
  let ?srt = "sort_key (\<lambda>s. - sc_Priority s)"
  let ?ss = "[sample_priority ''low'' 1, sample_priority ''high'' 2]"
  obtain cfg1 where c: "buildSliceLookupMap ?srt sample_mox_config = Some cfg1"
    by (simp add: buildSliceLookupMap_def sample_parsed)
  have u: "map_of [(''/a'', [(''GET'', ?ss)])] (u_path (url_of sample_mox_request)) = Some [(''GET'', ?ss)]"
    by (simp add: url_of_def sample_mox_request_def)
  have m: "map_of [(''GET'', ?ss)] (req_method sample_mox_request) = Some ?ss" by (simp add: sample_mox_request_def)
  have h: "holds_for (\<lambda>s. ([], [])) sample_mox_request (sample_priority n p)" for n p
    by (simp add: holds_for_def sample_priority_def empty_scenario_def)
  have b: "\<forall>t \<in> set ?ss. ''body'' \<notin> fst ` set (sc_Conditions t)" by (simp add: sample_priority_def empty_scenario_def)
  have e: "\<exists>t \<in> set ?ss. holds_for (\<lambda>s. ([], [])) sample_mox_request t" using h by simp
  have "mc_LookupMap cfg1 = [(''/a'', [(''GET'', ?srt ?ss)])]" using c by (auto simp: buildSliceLookupMap_def sample_parsed)
  then obtain found req1 where r: "matchesRequestSlice (\<lambda>s. ([], [])) cfg1 sample_mox_request = (Some found, req1)"
    by (simp add: matchesRequestSlice_def url_of_def sample_mox_request_def scenarios_for_def sample_priority_def empty_scenario_def)
  from moxtox_highest_priority [OF insertion.priority_sort_axioms c sample_parsed u m b e r] h
  show ?thesis by (auto simp: sample_priority_def)
qed

section \<open>What the configuration loader loses\<close>

text \<open>
  The YAML library decodes mappings with string keys into \<open>map[string]any\<close>, which the type switches on \<open>map[any]any\<close>
  skip: then no scenario is ever found, and every request that is not ignored is answered 418.
\<close>

lemma string_maps_skipped: "\<forall>pv \<in> set ms. \<exists>m. snd pv = YStrMap m \<Longrightarrow> parsed_mappings ms = Some []"
  by (induction ms) auto

theorem moxtox_string_maps_never_mock:
  assumes "\<forall>pv \<in> set (mc_Mappings cfg). \<exists>m. snd pv = YStrMap m" and "mc_LookupMap cfg = []" and "mc_HashLookupMap cfg = []"
    and "build_lookup env cfg = Some cfg1" and "u_path (url_of req) \<notin> set (mc_IgnoredRoutes cfg)"
  shows "\<exists>req1. mockResponseHandler env now names cfg1 req w = Answer (SendCustomError now w req1 418 ''no mocks found'' [] ''MOXTOX_001'')"
proof -
  note p = string_maps_skipped [OF assms(1)]
  have c: "cfg1 = cfg"
    using assms(2-4) p by (auto simp: build_lookup_def buildHashLookupMap_def buildSliceLookupMap_def countTotalScenarios_def split: if_splits)
  have h: "fst (matchesRequestHash (me_decode env) (me_md5 env) names cfg req) = None"
    using assms(3) by (simp add: matchesRequestHash_def case_prod_beta Let_def)
  have s: "matchesRequestSlice (me_decode env) cfg req = (Some None, req)"
    using assms(2) by (simp add: matchesRequestSlice_def)
  have "fst (matchesRequest (me_decode env) (me_md5 env) names cfg req) = Some None"
    using h s p by (simp add: matchesRequest_def countTotalScenarios_def case_prod_beta Let_def)
  then show ?thesis using assms(5) c by (cases "matchesRequest (me_decode env) (me_md5 env) names cfg req") (auto simp: mockResponseHandler_def)
qed

text \<open>In quick mode a scenario without conditions is stored under a hash that no request has.\<close>

lemma quick_mode_default_unreachable:
  assumes "\<And>s. length (md5 s) = 32"
  shows "hashConditions md5 [] \<noteq> hashConditions md5 (fst (extractRequestConditions decode names req))"
proof -
  have "fst (extractRequestConditions decode names req) \<noteq> []"
    by (auto simp: extractRequestConditions_def Let_def split: prod.splits if_splits)
  then have "length (hashConditions md5 (fst (extractRequestConditions decode names req))) = 32"
    using assms by (simp add: hashConditions_def)
  moreover have "length (hashConditions md5 []) = 7" by (simp add: hashConditions_def)
  ultimately show ?thesis by (auto dest: arg_cong [where f = length])
qed

text \<open>After one condition on the body was checked, nothing is left of it for the next scenario or the template.\<close>

lemma body_read_once:
  assumes "req_body req = Some (Body s)" and "has_json req" and "snd (decode s) = []" and "decode [] = ([], [])"
    and "matchesBody decode cond req = (r, req1)"
  shows "matchesBody decode ((YStr k, v) # cond') req1 = (Some False, req1)" "generateDynamicResponse decode req1 template = template"
  using assms by (auto simp: matchesBody_def read_json_def has_json_def generateDynamicResponse_def Let_def)

end
