(* ===== verification/Tiers.thy ===== *)
theory Tiers
  imports GoStrings
begin

text \<open>
  The test tiers of \<open>testing/testutil\<close>: an ordered enumeration, the tier the environment asks for, and which tests it
  skips.
\<close>

datatype tier = unit_tier | component | integration | e2e | chaos

primrec tier_rank :: "tier \<Rightarrow> nat" where
  "tier_rank unit_tier = 0"
| "tier_rank component = 1"
| "tier_rank integration = 2"
| "tier_rank e2e = 3"
| "tier_rank chaos = 4"

lemma tier_rank_inj [simp]: "tier_rank a = tier_rank b \<longleftrightarrow> a = b"
  by (cases a; cases b) simp_all

instantiation tier :: linorder
begin

definition less_eq_tier :: "tier \<Rightarrow> tier \<Rightarrow> bool" where
  "less_eq_tier a b \<longleftrightarrow> tier_rank a \<le> tier_rank b"

definition less_tier :: "tier \<Rightarrow> tier \<Rightarrow> bool" where
  "less_tier a b \<longleftrightarrow> tier_rank a < tier_rank b"

instance
  by standard (auto simp: less_eq_tier_def less_tier_def)

end

definition resolve_tier :: "bool \<Rightarrow> string \<Rightarrow> tier" where
  "resolve_tier short env =
     (if short then unit_tier
      else if env = ''unit'' then unit_tier
      else if env = ''component'' then component
      else if env = ''integration'' then integration
      else if env = ''e2e'' then e2e
      else if env = ''chaos'' then chaos
      else unit_tier)"

definition active_tier :: "bool \<Rightarrow> (string \<Rightarrow> string) \<Rightarrow> tier" where
  "active_tier short getenv = resolve_tier short (getenv ''TEST_TIER'')"

text \<open>The message a test is skipped with, if it is.\<close>

definition require_tier :: "bool \<Rightarrow> (string \<Rightarrow> string) \<Rightarrow> tier \<Rightarrow> string \<Rightarrow> string option" where
  "require_tier short getenv want label =
     (if active_tier short getenv < want
      then Some (''skipping '' @ label @ '' test: set TEST_TIER='' @ label @ '' or higher to run'') else None)"

definition Component :: "bool \<Rightarrow> (string \<Rightarrow> string) \<Rightarrow> string option" where
  "Component short getenv = require_tier short getenv component ''component''"

definition Integration :: "bool \<Rightarrow> (string \<Rightarrow> string) \<Rightarrow> string option" where
  "Integration short getenv = require_tier short getenv integration ''integration''"

definition E2E :: "bool \<Rightarrow> (string \<Rightarrow> string) \<Rightarrow> string option" where
  "E2E short getenv = require_tier short getenv e2e ''e2e''"

definition Chaos :: "bool \<Rightarrow> (string \<Rightarrow> string) \<Rightarrow> string option" where
  "Chaos short getenv = require_tier short getenv chaos ''chaos''"

text \<open>Where the tests of a tier run, those of all lower ones do; with \<open>-short\<close> all four are skipped.\<close>

lemma tiers_cumulative:
  assumes "require_tier short getenv want l = None" and "want' \<le> want"
  shows "require_tier short getenv want' l' = None"
  using assms by (auto simp: require_tier_def split: if_splits)

lemma short_skips_all:
  "Component True getenv \<noteq> None \<and> Integration True getenv \<noteq> None \<and> E2E True getenv \<noteq> None \<and> Chaos True getenv \<noteq> None"
  by (simp add: Component_def Integration_def E2E_def Chaos_def require_tier_def active_tier_def resolve_tier_def less_tier_def)

end
