(* ===== verification/Contexts.thy ===== *)
theory Contexts
  imports Rules Normalization
begin

text \<open>
  What a handler can rely on in the context of a request (\<open>http/context\<close>) behind any chain of the SDK's middlewares:
  every value has the type and the range that the getters document, and what describes the caller is there only
  after authentication.
\<close>

section \<open>The middlewares of the SDK\<close>

text \<open>
  The decisions of the middlewares that \<open>api/middleware/exports.go\<close> lists, with any arguments, and the two that are no
  decisions: CORS, and telemetry, which has the next handler write through its own writer and then logs. What the
  logger does to the process is the argument \<open>logged\<close>, told the request and the answer; handlers that panic are the subject of the theory \<open>Telemetry\<close>.
\<close>

inductive sdk_decision :: "('r, 'a) sdk_scheme decision \<Rightarrow> bool" where
  authentication: "sdk_decision (auth_decide verify)"
| jwt_authentication: "sdk_decision (AuthMiddleware_decide validate)"
| service_scope: "sdk_decision RequireServiceScope_decide"
| any_scope: "sdk_decision (RequireAnyScope_decide scopes)"
| rate_limiter: "sdk_decision (RateLimiter_decide pf)"
| ip_access: "sdk_decision IPAccess_decide"
| idempotency: "sdk_decision (Idempotency_decide rc j)"
| csrf: "sdk_decision (CSRF_decide j)"
| content_length: "sdk_decision (MaxContentLength_decide n)"
| security_headers: "sdk_decision SecurityHeaders_decide"
| request_id: "sdk_decision RequestID_decide"
| client_source: "sdk_decision ClientSource_decide"
| validation: "sdk_decision (validation_decide st b j decode)"
| sanitization: "sdk_decision (Sanitization_decide unmarshal marshal)"
| normalization: "sdk_decision Normalization_decide"
| redaction: "sdk_decision (Redaction_decide unm mar)"

definition telemetry_of :: "(request \<Rightarrow> writer \<Rightarrow> 's \<Rightarrow> 's) \<Rightarrow> 's middleware" where
  "telemetry_of logged nxt req w s = (case nxt req w s of (w', s') \<Rightarrow> (w', logged req w' s'))"

inductive sdk_middleware :: "('r, 'a) sdk_scheme middleware \<Rightarrow> bool" where
  deciding: "sdk_decision d \<Longrightarrow> sdk_middleware (middleware_of d)"
| cors: "sdk_middleware CORSMiddleware"
| telemetry: "sdk_middleware (telemetry_of logged)"

inductive_cases sdk_middlewareE [consumes 1, case_names deciding cors telemetry]: "sdk_middleware m"

section \<open>Well-formed contexts\<close>

definition string_keys :: "ctxKey set" where
  "string_keys = {REQUEST_ID_KEY, CORRELATION_ID_KEY, USER_ID_KEY, SESSION_ID_KEY, CLIENT_TYPE_KEY, REQUEST_TYPE_KEY,
     CLIENT_IP_KEY, USER_AGENT_KEY, METHOD_KEY, URI_KEY, VERSION_KEY, CSRF_TOKEN_KEY, IDEMPOTENCY_KEY}"

definition flag_keys :: "ctxKey set" where
  "flag_keys = {AUTH_VALID_KEY, IS_ADMIN_KEY, SESSION_VALID_KEY, CSRF_VALID_KEY, IDEMPOTENCY_VALID_KEY}"

text \<open>What describes the authenticated caller.\<close>

definition caller_keys :: "ctxKey set" where
  "caller_keys = {USER_ID_KEY, SESSION_ID_KEY, SCOPES_KEY, IS_ADMIN_KEY, REQUEST_TYPE_KEY}"

text \<open>The type that the getter of a key asserts, and the range its comment states.\<close>

primrec slot_ok :: "ctxKey \<Rightarrow> ctxval \<Rightarrow> bool" where
  "slot_ok k (CStr s) \<longleftrightarrow> k \<in> string_keys \<and> (k = CLIENT_TYPE_KEY \<longrightarrow> s \<in> {''browser'', ''api''}) \<and>
     (k = REQUEST_TYPE_KEY \<longrightarrow> s \<in> {''ui'', ''api''})"
| "slot_ok k (CBool b) \<longleftrightarrow> k \<in> flag_keys \<and> b"
| "slot_ok k (CStrs ss) \<longleftrightarrow> k = SCOPES_KEY \<and> ss \<noteq> []"
| "slot_ok k (CStrMap m) \<longleftrightarrow> k \<in> {PATH_PARAMS_KEY, QUERY_PARAMS_KEY}"

definition ctx_wf :: "ctx \<Rightarrow> bool" where
  "ctx_wf c \<longleftrightarrow> (\<forall>k v. c k = Some v \<longrightarrow> slot_ok k v) \<and>
     (\<forall>k \<in> caller_keys. c k \<noteq> None \<longrightarrow> c AUTH_VALID_KEY = Some (CBool True))"

lemma ctx_wf_empty [simp]: "ctx_wf Map.empty"
  by (simp add: ctx_wf_def)

lemma ctx_wf_set:
  assumes "ctx_wf c" and "slot_ok k v" and "k \<in> caller_keys \<Longrightarrow> c AUTH_VALID_KEY = Some (CBool True)"
  shows "ctx_wf (WithValue c k v)"
proof -
  have "AUTH_VALID_KEY \<notin> string_keys" "AUTH_VALID_KEY \<noteq> SCOPES_KEY" "AUTH_VALID_KEY \<notin> {PATH_PARAMS_KEY, QUERY_PARAMS_KEY}"
    by (simp_all add: string_keys_def key_defs)
  with assms(2) have "v = CBool True" if "k = AUTH_VALID_KEY" using that by (cases v) auto
  with assms show ?thesis by (auto simp: ctx_wf_def)
qed

lemmas slot_simps = slot_ok.simps string_keys_def flag_keys_def caller_keys_def

lemma ctx_wf_set_if:
  assumes "ctx_wf c" and "b \<Longrightarrow> slot_ok k v" and "c AUTH_VALID_KEY = Some (CBool True)"
  shows "ctx_wf (set_if b k v c)"
  using assms by (simp add: set_if_def ctx_wf_set)

lemma claims_ctx_wf: "ctx_wf c \<Longrightarrow> ctx_wf (claims_ctx cl c)"
  unfolding claims_ctx_def Let_def
  by (intro ctx_wf_set_if ctx_wf_set) (auto simp: slot_simps set_if_def key_defs)

lemma jwt_claims_ctx_wf: "ctx_wf c \<Longrightarrow> ctx_wf (jwt_claims_ctx cl c)"
  unfolding jwt_claims_ctx_def Let_def
  by (intro ctx_wf_set_if ctx_wf_set) (auto simp: slot_simps set_if_def key_defs)

section \<open>Every middleware keeps contexts well-formed\<close>

text \<open>Middlewares that leave the context as it is.\<close>

lemma same_ctx:
  "RequireServiceScope_decide req w s = Continue r' w' s' \<Longrightarrow> req_ctx r' = req_ctx req"
  "RequireAnyScope_decide scopes req w s = Continue r' w' s' \<Longrightarrow> req_ctx r' = req_ctx req"
  "MaxContentLength_decide n req w s = Continue r' w' s' \<Longrightarrow> req_ctx r' = req_ctx req"
  "SecurityHeaders_decide req w s = Continue r' w' s' \<Longrightarrow> req_ctx r' = req_ctx req"
  by (auto simp: handler_defs split: option.splits ctxval.splits if_splits)

lemma same_ctx_limits:
  "RateLimiter_decide pf req w t = Continue r' w' t' \<Longrightarrow> req_ctx r' = req_ctx req"
  "IPAccess_decide req w t = Continue r' w' t' \<Longrightarrow> req_ctx r' = req_ctx req"
  by (auto simp: handler_defs split: option.splits prod.splits if_splits)

lemma on_url_ctx [simp]: "req_ctx (on_url f r) = req_ctx r"
  by (simp add: on_url_def split: option.splits)

lemma same_ctx_rewriting:
  "Sanitization_decide unmarshal marshal req w s = Continue r' w' s' \<Longrightarrow> req_ctx r' = req_ctx req"
  "Redaction_decide unm mar req w t = Continue r' w' t' \<Longrightarrow> req_ctx r' = req_ctx req"
  by (auto simp: Sanitization_decide_def sanitizeBody_def sanitizeQueryParams_def sanitizePathParams_def sanitizeHeaders_def
      Redaction_decide_def redacted_request_def Let_def split: option.splits if_splits body.splits prod.splits)

lemma normalizeURL_ctx [simp]: "req_ctx (normalizeURL r) = req_ctx r"
  by (simp add: normalizeURL_def Let_def split: option.splits)

lemma same_ctx_normalization: "Normalization_decide req w t = Continue r' w' t' \<Longrightarrow> req_ctx r' = req_ctx req"
  by (auto simp: Normalization_decide_def normalizeQueryParams_def normalizeHeaders_def Let_def)

lemma same_ctx_validation: "validation_decide st b j decode req w s = Continue r' w' s' \<Longrightarrow> req_ctx r' = req_ctx req"
  by (auto simp: validation_decide_def IsRuleValid_def isValidBody_def Let_def
      split: option.splits prod.splits bool.splits if_splits)

lemma sdk_decision_wf:
  assumes "sdk_decision d" and "d req w s = Continue r' w' s'" and "ctx_wf (req_ctx req)"
  shows "ctx_wf (req_ctx r')"
  using assms
proof (cases rule: sdk_decision.cases)
  case (authentication verify)
  then show ?thesis
    using assms(2,3) by (auto elim!: auth_decide_Continue simp: claims_ctx_wf)
next
  case (jwt_authentication validate)
  then show ?thesis
    using assms(2,3) by (auto simp: AuthMiddleware_decide_def jwt_claims_ctx_wf split: option.splits)
next
  case (idempotency rc j)
  then show ?thesis
    using assms(2,3)
    by (auto simp: Idempotency_decide_def Let_def slot_simps key_defs intro!: ctx_wf_set split: if_splits prod.splits sum.splits)
next
  case (csrf j)
  then show ?thesis
    using assms(2,3)
    by (auto simp: CSRF_decide_def Let_def slot_simps key_defs intro!: ctx_wf_set split: if_splits prod.splits option.splits)
next
  case request_id
  then show ?thesis
    using assms(2,3)
    by (auto simp: RequestID_decide_def Let_def slot_simps key_defs intro!: ctx_wf_set split: if_splits prod.splits)
next
  case client_source
  then show ?thesis
    using assms(2,3)
    by (auto simp: ClientSource_decide_def Let_def slot_simps key_defs ClientTypeAPI_def ClientTypeBrowser_def intro!: ctx_wf_set)
qed (use assms(2,3) in \<open>auto dest: same_ctx same_ctx_limits same_ctx_rewriting same_ctx_normalization same_ctx_validation\<close>)

text \<open>A middleware calls the next handler with well-formed contexts only: it does not notice what else that handler does.\<close>

lemma sdk_middleware_wf:
  assumes "sdk_middleware m" and "\<And>r w s. ctx_wf (req_ctx r) \<Longrightarrow> f r w s = g r w s" and "ctx_wf (req_ctx req)"
  shows "m f req w s = m g req w s"
  using assms(1)
proof (cases rule: sdk_middlewareE)
  case (deciding d)
  then show ?thesis
    using assms(2,3) sdk_decision_wf [of d req w s] by (auto simp: middleware_of_def split: verdict.splits)
qed (use assms(2,3) in \<open>simp_all add: CORSMiddleware_def telemetry_of_def\<close>)

lemma chain_wf:
  assumes "list_all sdk_middleware mws" and "\<And>r w s. ctx_wf (req_ctx r) \<Longrightarrow> f r w s = g r w s" and "ctx_wf (req_ctx req)"
  shows "Chain f mws req w s = Chain g mws req w s"
  using assms(1,3)
proof (induction mws arbitrary: req w s)
  case (Cons m mws)
  have m: "sdk_middleware m" and "list_all sdk_middleware mws" using Cons.prems(1) by simp_all
  then have "Chain f mws r w s = Chain g mws r w s" if "ctx_wf (req_ctx r)" for r w s using Cons.IH that by simp
  from sdk_middleware_wf [OF m this Cons.prems(2)] show ?case by (simp add: Chain_Cons)
qed (use assms(2) in \<open>simp add: Chain_def\<close>)

section \<open>Properties\<close>

text \<open>What the getters document: types, ranges, and that only authentication describes a caller.\<close>

definition documented :: "ctx \<Rightarrow> bool" where
  "documented c \<longleftrightarrow>
     (\<forall>k v. c k = Some v \<longrightarrow>
        k \<in> string_keys \<and> v = CStr (stringValue c k) \<or> k \<in> flag_keys \<and> v = CBool (boolValue c k) \<or>
        k = SCOPES_KEY \<and> v = CStrs (GetScopes c) \<and> GetScopes c \<noteq> [] \<or> k = PATH_PARAMS_KEY \<and> v = CStrMap (GetCtxPathParams c) \<or>
        k = QUERY_PARAMS_KEY \<and> v = CStrMap (GetCtxQueryParams c)) \<and>
     GetCtxClientType c \<in> {[], ''browser'', ''api''} \<and> GetRequestType c \<in> {[], ''ui'', ''api''} \<and>
     (\<not> IsAuthValid c \<longrightarrow>
        GetUserID c = [] \<and> GetSessionID c = [] \<and> GetScopes c = [] \<and> GetRequestType c = [] \<and> \<not> IsAdmin c)"

lemma wf_documented:
  assumes "ctx_wf c"
  shows "documented c"
proof -
  have slot: "slot_ok k v" if "c k = Some v" for k v using assms that by (simp add: ctx_wf_def)
  have t: "k \<in> string_keys \<and> v = CStr (stringValue c k) \<or> k \<in> flag_keys \<and> v = CBool (boolValue c k) \<or>
        k = SCOPES_KEY \<and> v = CStrs (GetScopes c) \<and> GetScopes c \<noteq> [] \<or> k = PATH_PARAMS_KEY \<and> v = CStrMap (GetCtxPathParams c) \<or>
        k = QUERY_PARAMS_KEY \<and> v = CStrMap (GetCtxQueryParams c)" if "c k = Some v" for k v
    using slot [OF that] that
    by (cases v) (auto simp: stringValue_def boolValue_def GetScopes_def GetCtxPathParams_def GetCtxQueryParams_def)
  have r: "GetCtxClientType c \<in> {[], ''browser'', ''api''}" "GetRequestType c \<in> {[], ''ui'', ''api''}"
    using slot [of CLIENT_TYPE_KEY] slot [of REQUEST_TYPE_KEY]
    by (auto simp: GetCtxClientType_def GetRequestType_def stringValue_def split: option.splits ctxval.splits)
  have "c k = None" if "\<not> IsAuthValid c" "k \<in> caller_keys" for k
    using assms that by (auto simp: ctx_wf_def IsAuthValid_def boolValue_def)
  then have "\<not> IsAuthValid c \<longrightarrow>
        GetUserID c = [] \<and> GetSessionID c = [] \<and> GetScopes c = [] \<and> GetRequestType c = [] \<and> \<not> IsAdmin c"
    by (simp add: getter_defs caller_keys_def)
  with t r show ?thesis unfolding documented_def by blast
qed



end
