(* ===== verification/RateWindow.thy ===== *)
theory RateWindow
  imports RateLimit
begin

text \<open>
  The rate the token buckets of \<open>api/ratelimit\<close> enforce over time: the rounding errors of the float64 arithmetic are
  bounded, and a potential (the tokens a key could have by now) bounds the number of calls that are allowed in a
  window, evictions included.
\<close>

section \<open>Rounding errors\<close>

text \<open>The relative error of one operation, and the absolute error below the smallest normal number.\<close>

definition unit_roundoff :: rat where "unit_roundoff = 1 / 2 ^ 53"

definition underflow :: rat where "underflow = pow2 (- 1075)"

lemma unit_roundoff_pos [simp]: "0 < unit_roundoff" "0 \<le> unit_roundoff"
  by (simp_all add: unit_roundoff_def)

lemma underflow_nonneg [simp]: "0 \<le> underflow"
  by (simp add: underflow_def)

lemma fl_pos_ulp: "0 < x \<Longrightarrow> fl x \<le> x + pow2 (ulp_exp x) / 2"
proof -
  let ?p = "pow2 (ulp_exp x)"
  assume "0 < x"
  then have "fl x = of_int (rne (x / ?p)) * ?p" by (simp add: fl_def fl_pos_def)
  also have "\<dots> \<le> (x / ?p + 1 / 2) * ?p" by (rule mult_right_mono [OF rne_bounds(1)]) simp
  also have "\<dots> = x + ?p / 2" by (simp add: distrib_right)
  finally show ?thesis .
qed

lemma half_ulp:
  assumes "0 < x"
  shows "- 1022 \<le> lg x \<Longrightarrow> pow2 (ulp_exp x) / 2 \<le> x * unit_roundoff"
    and "lg x < - 1022 \<Longrightarrow> pow2 (ulp_exp x) / 2 = underflow"
proof -
  have half: "pow2 (k - 1) = pow2 k / 2" for k
    using pow2_add [of k "- 1"] by (simp add: pow2_def power_int_minus)
  have u: "pow2 (- 53) = unit_roundoff" by (simp add: pow2_def power_int_minus unit_roundoff_def)
  show "pow2 (ulp_exp x) / 2 \<le> x * unit_roundoff" if "- 1022 \<le> lg x"
  proof -
    have "pow2 (ulp_exp x) / 2 = pow2 (lg x - 53)"
      using that half [of "lg x - 52"] by (simp add: ulp_exp_def)
    also have "\<dots> = pow2 (lg x) * unit_roundoff" using pow2_add [of "lg x" "- 53"] u by simp
    also have "\<dots> \<le> x * unit_roundoff" using lg_bounds(1) [OF assms] by (simp add: mult_right_mono)
    finally show ?thesis .
  qed
  show "pow2 (ulp_exp x) / 2 = underflow" if "lg x < - 1022"
    using that half [of "- 1074"] by (simp add: ulp_exp_def underflow_def)
qed

lemma fl_upper: "0 \<le> x \<Longrightarrow> fl x \<le> x * (1 + unit_roundoff) + underflow"
proof (cases "x = 0")
  case False
  assume "0 \<le> x"
  with False have x: "0 < x" by simp
  have "pow2 (ulp_exp x) / 2 \<le> x * unit_roundoff + underflow"
    using half_ulp [OF x] x by (cases "- 1022 \<le> lg x") (simp_all add: add_increasing add_increasing2)
  with fl_pos_ulp [OF x] show ?thesis by (simp add: distrib_left)
qed simp

lemma fl_upper_normal: "pow2 (- 1022) \<le> x \<Longrightarrow> fl x \<le> x * (1 + unit_roundoff)"
proof -
  assume le: "pow2 (- 1022) \<le> x"
  then have x: "0 < x" by (meson less_le_trans pow2_pos)
  have "- 1022 \<le> lg x"
    using le lg_bounds(2) [OF x] pow2_less [of "- 1022" "lg x + 1"] by (simp add: order_le_less_trans)
  from half_ulp(1) [OF x this] fl_pos_ulp [OF x] show ?thesis by (simp add: distrib_left)
qed

lemma fl_nonpos: "x \<le> 0 \<Longrightarrow> fl x \<le> 0"
  using fl_mono [of x 0] by simp

lemma tiny_le: "pow2 (- 1022) \<le> 1 / 1000000000"
proof -
  have "pow2 (- 1022) \<le> pow2 (- 30)" by (rule pow2_mono) simp
  also have "\<dots> \<le> 1 / 1000000000" by (simp add: pow2_def power_int_minus)
  finally show ?thesis .
qed

lemma Seconds_upper:
  assumes "0 \<le> d" and "d < 2 ^ 63"
  shows "Seconds d \<le> of_int d / 1000000000 * (1 + unit_roundoff)\<^sup>2"
proof (cases "d = 0")
  case True
  then show ?thesis by (simp add: Seconds_def rem_trunc_def quot_def)
next
  case False
  let ?u = "1 + unit_roundoff"
  define q r where "q = d div Second" and "r = d mod Second"
  have d: "d = q * 1000000000 + r" "0 \<le> q" "0 \<le> r" using assms by (simp_all add: q_def r_def Second_def)
  have "q < 2 ^ 53" using assms(2) d by simp
  then have q: "fl (of_int q) = of_int q" using d(2) by (intro fl_of_int) simp
  have r: "fl (of_int r / 1000000000) \<le> of_int r / 1000000000 * ?u"
  proof (cases "r = 0")
    case False
    with d(3) have "1 / 1000000000 \<le> (of_int r / 1000000000 :: rat)" by simp
    then show ?thesis by (intro fl_upper_normal order_trans [OF tiny_le])
  qed simp
  have u1: "1 \<le> ?u" by simp
  have "of_int q + fl (of_int r / 1000000000) \<le> of_int d / 1000000000 * ?u"
  proof -
    have "of_int q \<le> of_int q * ?u" using d(2) u1 by (simp add: mult_le_cancel_left1)
    with r have "of_int q + fl (of_int r / 1000000000) \<le> (of_int q + of_int r / 1000000000) * ?u"
      by (simp add: distrib_right)
    also have "of_int q + of_int r / 1000000000 = (of_int d / 1000000000 :: rat)" using d(1) by simp
    finally show ?thesis .
  qed
  moreover have "1 / 1000000000 \<le> of_int d / 1000000000 * ?u"
  proof -
    have "(1 :: rat) \<le> of_int d" using assms(1) False by simp
    then have "1 * 1 \<le> of_int d * ?u" using u1 by (intro mult_mono) simp_all
    then show ?thesis by simp
  qed
  ultimately have "fl (of_int q + fl (of_int r / 1000000000)) \<le> of_int d / 1000000000 * ?u * ?u"
    by (intro order_trans [OF fl_mono fl_upper_normal] order_trans [OF tiny_le])
  moreover have "Seconds d = fl (of_int q + fl (of_int r / 1000000000))"
    using assms(1) q by (simp add: Seconds_def rem_trunc_def q_def r_def Second_def minus_mult_div_eq_mod)
  ultimately show ?thesis by (simp add: power2_eq_square mult.assoc)
qed

lemma Seconds_nonpos: "d \<le> 0 \<Longrightarrow> Seconds d \<le> 0"
proof -
  assume "d \<le> 0"
  then have q: "quot d Second \<le> 0" "rem_trunc d Second \<le> 0"
    by (auto simp: quot_def rem_trunc_def Second_def sgn_if)
  show ?thesis
    unfolding Seconds_def using q by (intro fl_nonpos add_nonpos_nonpos) (simp_all add: divide_nonpos_pos)
qed

section \<open>The potential of a key\<close>

text \<open>Four roundings of a refill, and what one refill can add to a bucket of at most \<open>M\<close> tokens beyond that.\<close>

definition rate_slack :: rat where "rate_slack = 1 + 1 / 2 ^ 50"

definition refill_slack :: "rat \<Rightarrow> rat" where "refill_slack M = M / 2 ^ 52"

text \<open>The tokens a key can have at time \<open>t\<close>: a key without a bucket, or with one never used, starts full.\<close>

definition refilled :: "rlCfg \<Rightarrow> instant \<Rightarrow> instant \<Rightarrow> rat" where
  "refilled c l t = rps c * rate_slack * (of_int (max 0 (t - l)) / 1000000000)"

definition potential :: "rat \<Rightarrow> rlCfg \<Rightarrow> bucket option \<Rightarrow> instant \<Rightarrow> rat" where
  "potential M c b t =
     (case b of
        Some b \<Rightarrow> (case b_last b of Some l \<Rightarrow> min M (b_tokens b + refilled c l t) | None \<Rightarrow> M)
      | None \<Rightarrow> M)"

lemma roundoff_powers: "(1 + unit_roundoff) ^ 4 \<le> rate_slack"
  unfolding unit_roundoff_def rate_slack_def by (simp add: power_divide field_simps)

lemma underflow_small: "1 \<le> M \<Longrightarrow> underflow * (1 + unit_roundoff) + underflow \<le> M * unit_roundoff"
proof -
  assume "1 \<le> M"
  then have M: "1 * unit_roundoff \<le> M * unit_roundoff" by (intro mult_right_mono) simp_all
  have "underflow \<le> pow2 (- 55)" unfolding underflow_def by (rule pow2_mono) simp
  then have u: "underflow \<le> unit_roundoff / 4" by (simp add: pow2_def power_int_minus unit_roundoff_def)
  have "underflow * (1 + unit_roundoff) \<le> underflow * 2"
    by (rule mult_left_mono) (simp_all add: unit_roundoff_def)
  with u M show ?thesis using unit_roundoff_pos(2) by linarith
qed

lemma elapsed_upper: "Seconds (Sub now l) \<le> of_int (max 0 (now - l)) / 1000000000 * (1 + unit_roundoff)\<^sup>2"
proof (cases "l \<le> now")
  case True
  let ?d = "Sub now l"
  have d: "0 \<le> ?d" "?d < 2 ^ 63" "?d \<le> now - l" using True by (simp_all add: Sub_def)
  have "Seconds ?d \<le> of_int ?d / 1000000000 * (1 + unit_roundoff)\<^sup>2" by (rule Seconds_upper [OF d(1,2)])
  also have "\<dots> \<le> of_int (now - l) / 1000000000 * (1 + unit_roundoff)\<^sup>2"
    using d(3) by (intro mult_right_mono divide_right_mono) (simp_all del: of_int_diff)
  finally show ?thesis using True by simp
next
  case False
  then have "Sub now l \<le> 0" by (simp add: Sub_def)
  with False show ?thesis using Seconds_nonpos by simp
qed

text \<open>A refill gives at most what the elapsed time is worth, and the slack.\<close>

lemma refill_upper:
  assumes c: "cfg_ok M c" and b: "bucket_ok M b" and M: "1 \<le> M" and l: "b_last b = Some l"
  shows "refill c now b \<le> b_tokens b + refilled c l now + refill_slack M"
proof -
  let ?u = "1 + unit_roundoff" and ?e = "Seconds (Sub now l)" and ?D = "of_int (max 0 (now - l)) / 1000000000 :: rat"
  have pos: "0 \<le> rps c" "0 \<le> b_tokens b" "b_tokens b \<le> M" using c b by (auto simp: cfg_ok_def bucket_ok_def)
  have base: "b_tokens b \<le> b_tokens b + refilled c l now + refill_slack M"
    using pos M by (simp add: refilled_def refill_slack_def rate_slack_def)
  show ?thesis
  proof (cases "0 < ?e")
    case True
    have "fl (?e * rps c) \<le> ?e * rps c * ?u + underflow" using True pos by (intro fl_upper) simp
    then have "(b_tokens b + fl (?e * rps c)) * ?u \<le> (b_tokens b + (?e * rps c * ?u + underflow)) * ?u"
      by (intro mult_right_mono add_left_mono) simp_all
    moreover have "0 \<le> b_tokens b + fl (?e * rps c)" using True pos by (intro add_nonneg_nonneg fl_nonneg) simp_all
    ultimately have "fl (b_tokens b + fl (?e * rps c)) \<le> (b_tokens b + (?e * rps c * ?u + underflow)) * ?u + underflow"
      using fl_upper order_trans add_right_mono by metis
    also have "\<dots> = b_tokens b + b_tokens b * unit_roundoff + rps c * (?e * ?u\<^sup>2) + (underflow * ?u + underflow)"
      by (simp add: power2_eq_square algebra_simps)
    also have "rps c * (?e * ?u\<^sup>2) \<le> refilled c l now"
    proof -
      have "?e * ?u\<^sup>2 \<le> ?D * ?u\<^sup>2 * ?u\<^sup>2" by (rule mult_right_mono [OF elapsed_upper]) simp
      also have "\<dots> = ?D * ?u ^ 4" by (simp add: power2_eq_square power4_eq_xxxx)
      also have "\<dots> \<le> ?D * rate_slack" by (rule mult_left_mono [OF roundoff_powers]) simp
      finally have "rps c * (?e * ?u\<^sup>2) \<le> rps c * (?D * rate_slack)" by (rule mult_left_mono) (rule pos(1))
      then show ?thesis by (simp add: refilled_def mult.assoc mult.left_commute mult.commute)
    qed
    also have "b_tokens b * unit_roundoff \<le> M * unit_roundoff" using pos by (intro mult_right_mono) simp_all
    also have "underflow * ?u + underflow \<le> M * unit_roundoff" by (rule underflow_small [OF M])
    finally have "fl (b_tokens b + fl (?e * rps c)) \<le> b_tokens b + refilled c l now + refill_slack M"
      by (simp add: refill_slack_def unit_roundoff_def)
    then show ?thesis using True l by (simp add: refill_def Let_def)
  next
    case False
    then show ?thesis using base l by (simp add: refill_def)
  qed
qed

lemma refill_potential:
  assumes "cfg_ok M c" and "bucket_ok M b" and "1 \<le> M"
  shows "refill c now b \<le> potential M c (Some b) now + refill_slack M"
proof (cases "b_last b")
  case None
  then show ?thesis using refill_ok(2) [OF assms(1,2), of now] assms(3) by (simp add: potential_def refill_slack_def)
next
  case (Some l)
  then show ?thesis
    using refill_ok(2) [OF assms(1,2), of now] refill_upper [OF assms Some, of now] assms(3)
    by (simp add: potential_def refill_slack_def min_def)
qed

section \<open>Windows\<close>

text \<open>
  The operations of a window from \<open>t\<close> to \<open>t'\<close>, in the order of their times; no bucket is reset and the limiter is
  not reconfigured.
\<close>

fun window :: "instant \<Rightarrow> rl_op list \<Rightarrow> instant \<Rightarrow> bool" where
  "window t [] t' \<longleftrightarrow> t \<le> t'"
| "window t (OpAllow now k # ops) t' \<longleftrightarrow> t \<le> now \<and> window now ops t'"
| "window t (OpUsage now k # ops) t' \<longleftrightarrow> t \<le> now \<and> window now ops t'"
| "window t (OpTick now # ops) t' \<longleftrightarrow> t \<le> now \<and> window now ops t'"
| "window t (OpFailOpen # ops) t' \<longleftrightarrow> window t ops t'"
| "window t (OpReset k # ops) t' \<longleftrightarrow> False"
| "window t (OpLoadConfig c # ops) t' \<longleftrightarrow> False"

text \<open>The calls for a key, and how many of them are allowed.\<close>

primrec calls_for :: "string \<Rightarrow> rl_op \<Rightarrow> bool" where
  "calls_for k (OpAllow now k') \<longleftrightarrow> k' = k"
| "calls_for k (OpUsage now k') \<longleftrightarrow> False"
| "calls_for k (OpReset k') \<longleftrightarrow> False"
| "calls_for k (OpTick now) \<longleftrightarrow> False"
| "calls_for k (OpLoadConfig c) \<longleftrightarrow> False"
| "calls_for k OpFailOpen \<longleftrightarrow> False"

primrec lets_through :: "(string \<Rightarrow> rat option) \<Rightarrow> (string \<Rightarrow> string) \<Rightarrow> string \<Rightarrow> rl_op \<Rightarrow> rl_state \<Rightarrow> bool" where
  "lets_through pf env k (OpAllow now k') st \<longleftrightarrow> k' = k \<and> fst (fst (Allow pf env now k st))"
| "lets_through pf env k (OpUsage now k') st \<longleftrightarrow> False"
| "lets_through pf env k (OpReset k') st \<longleftrightarrow> False"
| "lets_through pf env k (OpTick now) st \<longleftrightarrow> False"
| "lets_through pf env k (OpLoadConfig c) st \<longleftrightarrow> False"
| "lets_through pf env k OpFailOpen st \<longleftrightarrow> False"

primrec passed :: "(string \<Rightarrow> rat option) \<Rightarrow> (string \<Rightarrow> string) \<Rightarrow> string \<Rightarrow> rl_op list \<Rightarrow> rl_state \<Rightarrow> nat" where
  "passed pf env k [] st = 0"
| "passed pf env k (opn # ops) st =
     of_bool (lets_through pf env k opn st) + passed pf env k ops (rl_step pf env opn st)"

text \<open>The evictor's TTL, also when it has not been started yet.\<close>

definition bucket_ttl :: "(string \<Rightarrow> string) \<Rightarrow> rl_state \<Rightarrow> duration" where
  "bucket_ttl env st =
     (case evictTtl st of Some d \<Rightarrow> d | None \<Rightarrow> the (evictTtl (startBucketEvictor env st)))"

text \<open>No bucket holds more than \<open>M\<close> tokens.\<close>

definition buckets_upto :: "rat \<Rightarrow> rl_state \<Rightarrow> bool" where
  "buckets_upto M st \<longleftrightarrow> (\<forall>k. pred_option (bucket_ok M) (buckets st k))"

lemma buckets_upto_init [simp]: "buckets_upto M rl_init"
  by (simp add: buckets_upto_def rl_init_def)

lemma buckets_uptoD: "buckets_upto M st \<Longrightarrow> buckets st k = Some b \<Longrightarrow> bucket_ok M b"
  unfolding buckets_upto_def by (metis option.pred_inject(2))

lemma getBucket_upto:
  assumes "buckets_upto M st" and "1 \<le> M"
  shows "bucket_ok M (fst (getBucket env now k st))" and "buckets_upto M (snd (getBucket env now k st))"
proof -
  show b: "bucket_ok M (fst (getBucket env now k st))"
    using assms by (auto simp: fst_getBucket bucket_ok_def dest: buckets_uptoD split: option.splits)
  with assms(1) show "buckets_upto M (snd (getBucket env now k st))" by (simp add: buckets_upto_def getBucket_buckets)
qed

text \<open>What stays the same in a window.\<close>

definition steady_limiter ::
  "(string \<Rightarrow> rat option) \<Rightarrow> (string \<Rightarrow> string) \<Rightarrow> rat \<Rightarrow> rlCfg \<Rightarrow> duration \<Rightarrow> rl_state \<Rightarrow> bool" where
  "steady_limiter pf env M c ttl st \<longleftrightarrow>
     local_env env st \<and> buckets_upto M st \<and> fst (loadCfg pf env st) = c \<and> bucket_ttl env st = ttl"

lemma getBucket_ttl: "bucket_ttl env (snd (getBucket env now k st)) = bucket_ttl env st"
  by (auto simp: getBucket_def bucket_ttl_def startBucketEvictor_def split_beta Let_def split: option.splits)

lemma loaders_ttl [simp]:
  "bucket_ttl env (snd (loadEnv env st)) = bucket_ttl env st" "bucket_ttl env (snd (loadCfg pf env st)) = bucket_ttl env st"
  by (auto simp: bucket_ttl_def startBucketEvictor_def split_beta Let_def loadCfg_def loadEnv_def split: option.splits)

lemma buckets_ttl [simp]: "bucket_ttl env (st\<lparr>buckets := m\<rparr>) = bucket_ttl env st"
  by (auto simp: bucket_ttl_def startBucketEvictor_def split_beta Let_def loadEnv_def split: option.splits)

lemma steady_step:
  assumes "steady_limiter pf env M c ttl st" and "1 \<le> M" and "cfg_ok M c" and "window t [opn] t'"
  shows "steady_limiter pf env M c ttl (rl_step pf env opn st)"
proof -
  have s: "local_env env st" "buckets_upto M st" "fst (loadCfg pf env st) = c" "bucket_ttl env st = ttl"
    using assms(1) by (simp_all add: steady_limiter_def)
  show ?thesis
  proof (cases opn)
    case (OpAllow now k)
    have l: "ec_env (fst (loadEnv env st)) \<notin> {''prod'', ''staging''}" using s(1) by (simp add: local_env_def)
    note step = Allow_local_step [OF s(1), where pf = pf and now = now and k = k]
    have "bucket_ok M (snd (bucket_allow c now (fst (getBucket env now k st))))"
      by (rule bucket_allow_ok [OF assms(3) getBucket_upto(1) [OF s(2) assms(2)]])
    then have "pred_option (bucket_ok M) (buckets (snd (Allow pf env now k st)) k')" for k'
      using step(4,5) s(2,3) by (cases "k' = k") (simp_all add: buckets_upto_def)
    then have inv: "buckets_upto M (rl_step pf env opn st)" by (simp add: OpAllow buckets_upto_def)
    show ?thesis
      using Allow_local_step(2,3) [OF s(1), of pf now k] s inv Allow_local [OF l, of pf now k]
      by (simp add: OpAllow steady_limiter_def Let_def getBucket_ttl)
  next
    case (OpUsage now k)
    let ?g = "snd (getBucket env now k st)"
    have e: "fst (loadEnv env ?g) = fst (loadEnv env st)"
      by (auto simp: getBucket_def startBucketEvictor_def split_beta Let_def loadEnv_def split: option.splits)
    have "fst (loadEnv env (snd (loadCfg pf env ?g))) = fst (loadEnv env ?g)"
      by (simp add: loadEnv_def Let_def)
    moreover have "fst (loadCfg pf env ?g) = c" using s(3) fst_loadCfg_cong [of ?g st pf env] by simp
    moreover have inv: "buckets_upto M (rl_step pf env opn st)"
      using getBucket_upto(2) [OF s(2) assms(2), of env now k] by (simp add: OpUsage GetUsage_def split_beta Let_def buckets_upto_def)
    ultimately show ?thesis
      using s e by (simp add: OpUsage steady_limiter_def local_env_def GetUsage_def split_beta Let_def loadCfg_stable getBucket_ttl)
  next
    case (OpTick now)
    have "fst (loadCfg pf env (evict_tick now st)) = fst (loadCfg pf env st)"
      by (rule fst_loadCfg_cong) (simp_all add: evict_tick_def split: option.splits)
    moreover have "buckets_upto M (rl_step pf env opn st)"
      using s(2) by (auto simp: OpTick buckets_upto_def evict_tick_def pred_option_def split: option.splits)
    ultimately show ?thesis
      using s by (auto simp: OpTick steady_limiter_def local_env_def evict_tick_def loadEnv_def Let_def split: option.splits)
  next
    case OpFailOpen
    have "fst (loadCfg pf env (snd (ShouldFailOpen env st))) = fst (loadCfg pf env st)"
      by (rule fst_loadCfg_cong) (simp_all add: ShouldFailOpen_def Let_def)
    moreover have "bucket_ttl env (snd (ShouldFailOpen env st)) = bucket_ttl env st"
      by (simp add: ShouldFailOpen_def Let_def bucket_ttl_def startBucketEvictor_def split_beta loadEnv_def split: option.splits)
    moreover have "fst (loadEnv env (snd (ShouldFailOpen env st))) = fst (loadEnv env st)"
      by (simp add: ShouldFailOpen_def loadEnv_def Let_def)
    moreover have "buckets_upto M (rl_step pf env opn st)"
      using s(2) by (simp add: OpFailOpen buckets_upto_def ShouldFailOpen_def Let_def)
    ultimately show ?thesis
      using s by (simp add: OpFailOpen steady_limiter_def local_env_def)
  qed (use assms(4) in auto)
qed

section \<open>The rate\<close>

lemma refilled_simps:
  "refilled c t t = 0" "t \<le> t' \<Longrightarrow> t' \<le> t'' \<Longrightarrow> refilled c t t' + refilled c t' t'' = refilled c t t''"
  by (simp_all add: refilled_def algebra_simps diff_divide_distrib)

lemma refilled_nonneg: "0 \<le> rps c \<Longrightarrow> 0 \<le> refilled c t t'"
  by (simp add: refilled_def rate_slack_def)

lemma potential_later:
  assumes "cfg_ok M c" and "t \<le> t'"
  shows "potential M c b t' \<le> potential M c b t + refilled c t t'"
proof -
  have r: "0 \<le> rps c" using assms(1) by (simp add: cfg_ok_def)
  have "refilled c l t' \<le> refilled c l t + refilled c t t'" for l
  proof -
    have "of_int (max 0 (t' - l)) / 1000000000 \<le> (of_int (max 0 (t - l)) + of_int (t' - t)) / (1000000000 :: rat)"
      using assms(2) by (intro divide_right_mono) simp_all
    from mult_left_mono [OF this, of "rps c * rate_slack"] show ?thesis
      using assms(2) r by (simp add: refilled_def rate_slack_def add_divide_distrib distrib_left)
  qed
  then have "min M (x + refilled c l t') \<le> min M (x + refilled c l t) + refilled c t t'" for x l
    using refilled_nonneg [OF r, of t t'] by (simp add: min_def) (metis add.assoc add_left_mono order_trans)
  then show ?thesis
    using refilled_nonneg [OF r, of t t'] by (simp add: potential_def split: option.splits)
qed

text \<open>Each operation pays for what it lets through.\<close>

lemma potential_Allow:
  fixes now :: instant and k :: string
  assumes "steady_limiter pf env M c ttl st" and "1 \<le> M" and "M < 2 ^ 52" and "cfg_ok M c"
  defines "st' \<equiv> snd (Allow pf env now k st)"
  shows "of_bool (fst (fst (Allow pf env now k st))) + potential M c (buckets st' k) now
    \<le> potential M c (buckets st k) now + refill_slack M"
proof -
  have s: "local_env env st" "buckets_upto M st" "fst (loadCfg pf env st) = c" using assms(1) by (simp_all add: steady_limiter_def)
  let ?b = "fst (getBucket env now k st)"
  let ?t = "refill c now ?b"
  note c = assms(4)
  note b = getBucket_upto(1) [OF s(2) assms(2), of env now k]
  note t = refill_ok [OF c b, of now]
  have "?t < 2 ^ 52" using t(2) assms(3) by (rule order_le_less_trans)
  note ba = bucket_allow_tokens [OF t(3) refl t(1) this]
  note step = Allow_local_step(1,4) [OF s(1), of pf now k, unfolded s(3), folded st'_def]
  have "potential M c (buckets st' k) now = (if 1 \<le> ?t then ?t - 1 else ?t)"
    using t(2) ba step(2) assms(2) by (simp add: potential_def refilled_simps)
  moreover have "fst (fst (Allow pf env now k st)) = (1 \<le> ?t)" using step(1) ba(1) by simp
  moreover have "potential M c (Some ?b) now = potential M c (buckets st k) now"
    by (simp add: fst_getBucket potential_def split: option.splits)
  ultimately show ?thesis using refill_potential [OF c b assms(2), of now] by simp
qed

text \<open>An evicted bucket was full again.\<close>

lemma potential_tick:
  assumes "steady_limiter pf env M c ttl st" and "cfg_ok M c" and "M \<le> rps c * (of_int ttl / 1000000000)"
  shows "potential M c (buckets (evict_tick now st) k) now \<le> potential M c (buckets st k) now"
proof (cases "buckets (evict_tick now st) k = buckets st k")
  case False
  then obtain d b where d: "evictTtl st = Some d" and b: "buckets st k = Some b"
    and idle: "d < Sub now (case b_last b of None \<Rightarrow> b_created b | Some l \<Rightarrow> l)"
    and gone: "buckets (evict_tick now st) k = None"
    by (auto simp: evict_tick_def map_sweep_def split: option.splits if_splits)
  have ttl: "d = ttl" using assms(1) d by (simp add: steady_limiter_def bucket_ttl_def)
  have r: "0 < rps c" "0 < M" using assms(2) by (auto simp: cfg_ok_def)
  then have "0 < rps c * (of_int ttl / 1000000000)" using assms(3) by linarith
  then have pos: "0 < ttl" using r(1) by (simp add: zero_less_mult_iff)
  have "M \<le> b_tokens b + refilled c l now" if l: "b_last b = Some l" and tok: "0 \<le> b_tokens b" for l
  proof -
    have "ttl \<le> now - l" using idle l ttl pos by (auto simp: Sub_def)
    then have "rps c * (of_int ttl / 1000000000) \<le> rps c * (of_int (max 0 (now - l)) / 1000000000)"
      using r by (intro mult_left_mono divide_right_mono) simp_all
    also have "\<dots> \<le> rps c * rate_slack * (of_int (max 0 (now - l)) / 1000000000)"
      using r by (intro mult_right_mono) (simp_all add: rate_slack_def mult_le_cancel_left1)
    finally show ?thesis using assms(3) tok by (simp add: refilled_def)
  qed
  moreover have "0 \<le> b_tokens b"
    using assms(1) b by (auto simp: steady_limiter_def bucket_ok_def dest: buckets_uptoD)
  ultimately show ?thesis using gone b by (simp add: potential_def split: option.splits)
qed simp

text \<open>The time of an operation; reading the fail-open flag takes none.\<close>

primrec op_at :: "rl_op \<Rightarrow> instant \<Rightarrow> instant" where
  "op_at (OpAllow now k) t = now"
| "op_at (OpUsage now k) t = now"
| "op_at (OpReset k) t = t"
| "op_at (OpTick now) t = now"
| "op_at (OpLoadConfig c) t = t"
| "op_at OpFailOpen t = t"

lemma window_Cons:
  assumes "window t (opn # ops) t'"
  shows "t \<le> op_at opn t" "window (op_at opn t) ops t'" "window t [opn] (op_at opn t)"
  using assms by (cases opn; simp)+

lemma window_le: "window t ops t' \<Longrightarrow> t \<le> t'"
  by (induction t ops t' rule: window.induct) auto

lemma potential_step:
  assumes "steady_limiter pf env M c ttl st" and "1 \<le> M" and "M < 2 ^ 52" and "cfg_ok M c"
    and "M \<le> rps c * (of_int ttl / 1000000000)" and "window t [opn] t'"
  defines "now \<equiv> op_at opn t"
  shows "of_bool (lets_through pf env k opn st) + potential M c (buckets (rl_step pf env opn st) k) now
    \<le> potential M c (buckets st k) now + of_bool (calls_for k opn) * refill_slack M"
proof (cases opn)
  case (OpAllow now' k')
  have "buckets (snd (Allow pf env now' k' st)) k = buckets st k" if "k \<noteq> k'"
    using Allow_local_step(5) [where env = env and st = st and k = k' and k' = k and pf = pf and now = now'] that assms(1) by (simp add: steady_limiter_def)
  then show ?thesis
    using potential_Allow [OF assms(1-4), of now' k] by (cases "k' = k") (simp_all add: OpAllow now_def)
next
  case (OpUsage now' k')
  have "potential M c (buckets (rl_step pf env opn st) k) now = potential M c (buckets st k) now"
    by (simp add: OpUsage GetUsage_def split_beta Let_def getBucket_buckets fst_getBucket potential_def split: option.splits)
  then show ?thesis by (simp add: OpUsage)
next
  case (OpTick now')
  then show ?thesis using potential_tick [OF assms(1,4,5), of now' k] by (simp add: now_def)
next
  case OpFailOpen
  then show ?thesis by (simp add: ShouldFailOpen_def Let_def)
qed (use assms(6) in auto)

lemma passed_potential:
  assumes "steady_limiter pf env M c ttl st" and "1 \<le> M" and "M < 2 ^ 52" and "cfg_ok M c"
    and "M \<le> rps c * (of_int ttl / 1000000000)" and "window t ops t'"
  shows "of_nat (passed pf env k ops st) \<le>
    potential M c (buckets st k) t + refilled c t t' + of_nat (length (filter (calls_for k) ops)) * refill_slack M"
  using assms(1,6)
proof (induction ops arbitrary: st t)
  case Nil
  have r: "0 \<le> rps c" using assms(4) by (simp add: cfg_ok_def)
  moreover have "0 \<le> potential M c (buckets st k) t"
    using assms(2) refilled_nonneg [OF r] Nil.prems(1)
    by (auto simp: potential_def steady_limiter_def bucket_ok_def intro!: add_nonneg_nonneg dest: buckets_uptoD split: option.splits)
  ultimately show ?case by (simp add: refilled_nonneg)
next
  case (Cons opn ops)
  let ?now = "op_at opn t" and ?st = "rl_step pf env opn st"
  let ?N = "of_nat (length (filter (calls_for k) ops)) * refill_slack M"
  note w = window_Cons [OF Cons.prems(2)]
  have "of_nat (passed pf env k ops ?st) \<le> potential M c (buckets ?st k) ?now + refilled c ?now t' + ?N"
    by (rule Cons.IH [OF steady_step [OF Cons.prems(1) assms(2,4) w(3)] w(2)])
  moreover note potential_step [OF Cons.prems(1) assms(2-5) w(3), of k]
  moreover note potential_later [OF assms(4) w(1), of "buckets st k"]
  moreover note refilled_simps(2) [OF w(1) window_le [OF w(2)], of c]
  ultimately show ?case by (auto simp: distrib_right)
qed

text \<open>
  A limiter in use: its configuration is made of float64 values with a burst from 1 to below \<open>2 ^ 52\<close>, and no bucket holds
  more than the burst.
\<close>

definition limiter_fits :: "(string \<Rightarrow> rat option) \<Rightarrow> (string \<Rightarrow> string) \<Rightarrow> rl_state \<Rightarrow> bool" where
  "limiter_fits pf env st \<longleftrightarrow>
     (let c = fst (loadCfg pf env st)
      in 0 < rps c \<and> is_f64 (burst c) \<and> 1 \<le> burst c \<and> burst c < 2 ^ 52 \<and> buckets_upto (burst c) st)"

text \<open>The eviction TTL is long enough for an empty bucket to fill up.\<close>

definition ttl_refills :: "(string \<Rightarrow> rat option) \<Rightarrow> (string \<Rightarrow> string) \<Rightarrow> rl_state \<Rightarrow> bool" where
  "ttl_refills pf env st \<longleftrightarrow>
     (let c = fst (loadCfg pf env st) in burst c \<le> rps c * (of_int (bucket_ttl env st) / 1000000000))"

text \<open>The bound on the calls for a key that are allowed in a window.\<close>

lemma rate_bound:
  assumes "local_env env st" and "limiter_fits pf env st" and "ttl_refills pf env st" and "window t ops t'"
  shows "of_nat (passed pf env k ops st) \<le>
    burst (fst (loadCfg pf env st))
      + rps (fst (loadCfg pf env st)) * (1 + 1 / 2 ^ 50) * (of_int (t' - t) / 1000000000)
      + of_nat (length (filter (calls_for k) ops)) * (burst (fst (loadCfg pf env st)) / 2 ^ 52)"
proof -
  let ?c = "fst (loadCfg pf env st)" and ?M = "burst (fst (loadCfg pf env st))"
  have f: "0 < rps ?c" "is_f64 ?M" "1 \<le> ?M" "?M < 2 ^ 52" "buckets_upto ?M st"
    using assms(2) by (simp_all add: limiter_fits_def Let_def)
  then have "steady_limiter pf env ?M ?c (bucket_ttl env st) st" "cfg_ok ?M ?c"
    using assms(1) by (simp_all add: steady_limiter_def cfg_ok_def)
  moreover have "?M \<le> rps ?c * (of_int (bucket_ttl env st) / 1000000000)"
    using assms(3) by (simp add: ttl_refills_def Let_def)
  ultimately have b: "of_nat (passed pf env k ops st) \<le>
      potential ?M ?c (buckets st k) t + refilled ?c t t' + of_nat (length (filter (calls_for k) ops)) * refill_slack ?M"
    using passed_potential f(3,4) assms(4) by blast
  have "refilled ?c t t' = rps ?c * (1 + 1 / 2 ^ 50) * (of_int (t' - t) / 1000000000)"
    using window_le [OF assms(4)] by (simp add: refilled_def rate_slack_def)
  moreover have "potential ?M ?c (buckets st k) t \<le> ?M" by (simp add: potential_def split: option.splits)
  ultimately show ?thesis using b by (simp add: refill_slack_def)
qed

section \<open>Properties\<close>

text \<open>
  C8: The rate limit holds over time. Outside prod and staging, of \<open>n\<close> calls of \<open>Allow\<close> for a key in any window of time at
  most \<open>burst + rps * T + (slack)\<close> are allowed, where \<open>burst\<close> and \<open>rps\<close> are the configured values and \<open>T\<close> is the length of
  the window in seconds. Calls for other keys, readings of the usage and evictions may come in between; buckets are
  not reset and the limiter is not reconfigured. The slack of the float64 arithmetic is a factor of
  \<open>1 + 2 ^ -50\<close> on the rate and \<open>burst / 2 ^ 52\<close> tokens per call. The rate is positive, the burst is at least 1 and below \<open>2 ^ 52\<close>, no bucket
  holds more than the burst to begin with, and the eviction TTL is long enough to fill a bucket up
  (\<open>burst \<le> rps * TTL\<close>): with a shorter one an eviction gives the key a new burst.
\<close>
theorem rate_over_window:
  assumes "local_env env st" and "limiter_fits pf env st" and "ttl_refills pf env st" and "window t ops t'"
  shows "of_nat (passed pf env k ops st) \<le>
    burst (fst (loadCfg pf env st))
      + rps (fst (loadCfg pf env st)) * (1 + 1 / 2 ^ 50) * (of_int (t' - t) / 1000000000)
      + of_nat (length (filter (calls_for k) ops)) * (burst (fst (loadCfg pf env st)) / 2 ^ 52)"
  using assms by (rule rate_bound)

text \<open>A limiter configured with a burst of 5: of 40 calls within a second at most 15 are allowed.\<close>

definition burst_five :: rl_state where
  "burst_five = rl_init\<lparr>cfgPtr := Some \<lparr>rps = 10, burst = 5\<rparr>\<rparr>"

lemma burst_five_simps:
  "local_env (\<lambda>_. []) burst_five" "limiter_fits pf (\<lambda>_. []) burst_five" "ttl_refills pf (\<lambda>_. []) burst_five"
  "fst (loadCfg pf (\<lambda>_. []) burst_five) = \<lparr>rps = 10, burst = 5\<rparr>"
proof -
  show c: "fst (loadCfg pf (\<lambda>_. []) burst_five) = \<lparr>rps = 10, burst = 5\<rparr>" for pf
    by (simp add: loadCfg_def burst_five_def rl_init_def)
  have "fl (5 :: rat) = 5" using fl_of_int [of 5] by simp
  then have f: "is_f64 5" by (metis is_f64_fl)
  show "limiter_fits pf (\<lambda>_. []) burst_five"
    unfolding limiter_fits_def c Let_def using f by (simp add: buckets_upto_def) (simp add: burst_five_def rl_init_def)
  have "bucket_ttl (\<lambda>_. []) burst_five = 300 * Second"
    by (simp add: bucket_ttl_def burst_five_def rl_init_def startBucketEvictor_def loadEnv_def TrimSpace_def wrap64_def Second_def)
  then show "ttl_refills pf (\<lambda>_. []) burst_five" unfolding ttl_refills_def c by (simp add: Second_def)
  show "local_env (\<lambda>_. []) burst_five"
    by (simp add: local_env_def burst_five_def rl_init_def loadEnv_def TrimSpace_def ToLower_def)
qed

theorem rate_over_window_witness:
  "passed (\<lambda>_. None) (\<lambda>_. []) ''a'' (replicate 40 (OpAllow 1000000000 ''a'')) burst_five \<le> 15"
proof -
  let ?ops = "replicate 40 (OpAllow 1000000000 ''a'')"
  have w: "window 0 ?ops 1000000000" by (simp add: numeral_eq_Suc)
  have n: "length (filter (calls_for ''a'') ?ops) = 40" by (simp add: filter_replicate)
  have "(of_nat (passed (\<lambda>_. None) (\<lambda>_. []) ''a'' ?ops burst_five) :: rat) < of_nat 16"
    using rate_over_window [OF burst_five_simps(1-3) w, of "\<lambda>_. None" "''a''"] unfolding n burst_five_simps(4) by simp
  then show ?thesis unfolding of_nat_less_iff by simp
qed

end
