(* ===== verification/Routes.thy ===== *)
theory Routes
  imports Contexts RateWindow "HOL-Library.Sublist"
begin

text \<open>
  Services: a route (a handler behind a chain of middlewares) serving one request after the other. A middleware that
  admits requests by the state it keeps is an \<open>admission_control\<close>; behind it the handler is reached at most as often as the
  component admits, whatever other middlewares the chain has. The rate limiter and the idempotency middleware are
  such admissions.
\<close>

section \<open>Serving requests\<close>

text \<open>
  What happens to a process: requests that arrive, and the passes of the evictors of its components (no request), each at
  its time.
\<close>

type_synonym event = "instant \<times> request option"
type_synonym arrival = "instant \<times> request"

primrec serve ::
  "(instant \<Rightarrow> 'a proc_scheme \<Rightarrow> 'a proc_scheme) \<Rightarrow> ('a proc_scheme) handler \<Rightarrow> event list \<Rightarrow> 'a proc_scheme \<Rightarrow> writer list" where
  "serve evict h [] s = []"
| "serve evict h (a # xs) s =
     (case snd a of
        None \<Rightarrow> serve evict h xs (evict (fst a) s)
      | Some req \<Rightarrow> (case h req fresh_writer (s\<lparr>p_now := fst a\<rparr>) of (w, s') \<Rightarrow> w # serve evict h xs s'))"

text \<open>The same run, with the times and the requests with which the handler is called.\<close>

primrec handled ::
  "(instant \<Rightarrow> 'a proc_scheme \<Rightarrow> 'a proc_scheme) \<Rightarrow> ('a proc_scheme) decision list \<Rightarrow> ('a proc_scheme) handler
     \<Rightarrow> event list \<Rightarrow> 'a proc_scheme \<Rightarrow> arrival list" where
  "handled evict ds f [] s = []"
| "handled evict ds f (a # xs) s =
     (case snd a of
        None \<Rightarrow> handled evict ds f xs (evict (fst a) s)
      | Some req \<Rightarrow>
          (case chain_decide ds req fresh_writer (s\<lparr>p_now := fst a\<rparr>) of
             Respond w s' \<Rightarrow> handled evict ds f xs s'
           | Continue r w s' \<Rightarrow> (fst a, r) # handled evict ds f xs (snd (f r w s'))))"

text \<open>A handler that leaves a mark on its answers shows how often it has been called.\<close>

lemma handled_marks:
  assumes "\<And>r w s. mark (fst (f r w s))"
    and "\<And>r s w' s'. chain_decide ds r fresh_writer s = Respond w' s' \<Longrightarrow> \<not> mark w'"
  shows "length (handled evict ds f xs s) = length (filter mark (serve evict (Chain f (map middleware_of ds)) xs s))"
proof (induction xs arbitrary: s)
  case (Cons a xs)
  show ?case
  proof (cases "snd a")
    case (Some req)
    show ?thesis
    proof (cases "chain_decide ds req fresh_writer (s\<lparr>p_now := fst a\<rparr>)")
      case (Respond w' s')
      then show ?thesis using Cons.IH assms(2) [OF Respond] Some by (simp add: chain_decided)
    next
      case (Continue r' w' s')
      obtain w'' s'' where f: "f r' w' s' = (w'', s'')" by fastforce
      then have "mark w''" using assms(1) by (metis fst_conv)
      with f Continue Some show ?thesis using Cons.IH by (simp add: chain_decided)
    qed
  qed (simp add: Cons.IH)
qed simp

text \<open>The evictors of the SDK: the one of the idempotency store and the one of the rate limiter.\<close>

definition sdk_evict :: "instant \<Rightarrow> ('r, 'a) sdk_scheme \<Rightarrow> ('r, 'a) sdk_scheme" where
  "sdk_evict t s = s\<lparr>sdk_store := Store_evict t (sdk_store s), sdk_rl := evict_tick t (sdk_rl s)\<rparr>"

section \<open>Admission\<close>

text \<open>The arrivals that are admitted, in order; \<open>idle\<close> is what an evictor does to the state.\<close>

primrec admitted ::
  "(instant \<Rightarrow> 'k \<Rightarrow> 'v \<Rightarrow> bool \<times> 'v) \<Rightarrow> (instant \<Rightarrow> 'v \<Rightarrow> 'v) \<Rightarrow> (instant \<times> 'k option) list \<Rightarrow> 'v \<Rightarrow> (instant \<times> 'k) list" where
  "admitted admit idle [] v = []"
| "admitted admit idle (x # xs) v =
     (case snd x of
        None \<Rightarrow> admitted admit idle xs (idle (fst x) v)
      | Some k \<Rightarrow>
          (case admit (fst x) k v of
             (ok, v') \<Rightarrow> if ok then (fst x, k) # admitted admit idle xs v' else admitted admit idle xs v'))"

text \<open>
  A decision that admits the requests it is meant for (\<open>subject\<close>) by a part of the process (\<open>view\<close>), in the states \<open>ok\<close>,
  and passes the others on. It may also refuse a request without looking at that state.
\<close>

locale admission_control =
  fixes decide :: "('a proc_scheme) decision" and ok :: "'a proc_scheme \<Rightarrow> bool" and view :: "'a proc_scheme \<Rightarrow> 'v"
    and subject :: "request \<Rightarrow> bool" and key :: "request \<Rightarrow> 'k" and admit :: "instant \<Rightarrow> 'k \<Rightarrow> 'v \<Rightarrow> bool \<times> 'v"
    and evict :: "instant \<Rightarrow> 'a proc_scheme \<Rightarrow> 'a proc_scheme" and idle :: "instant \<Rightarrow> 'v \<Rightarrow> 'v"
  assumes clock: "ok (s\<lparr>p_now := t\<rparr>) = ok s" "view (s\<lparr>p_now := t\<rparr>) = view s"
    and passes: "ok s \<Longrightarrow> decide req w s = Continue r' w' s' \<Longrightarrow> ok s' \<and> subject r' = subject req \<and> key r' = key req \<and>
      (if subject req then admit (p_now s) (key req) (view s) = (True, view s') else view s' = view s)"
    and refuses: "ok s \<Longrightarrow> decide req w s = Respond w' s' \<Longrightarrow>
      ok s' \<and> (view s' = view s \<or> admit (p_now s) (key req) (view s) = (False, view s'))"
    and evicts: "ok s \<Longrightarrow> ok (evict t s) \<and> view (evict t s) = idle t (view s)"
begin

text \<open>
  Middlewares and handlers that do not interfere with it; those behind it must also pass the request on as one of the same
  kind.
\<close>

definition neutral :: "('a proc_scheme) decision \<Rightarrow> bool" where
  "neutral d \<longleftrightarrow> (\<forall>req w s. ok s \<longrightarrow>
     (case d req w s of
        Respond w' s' \<Rightarrow> ok s' \<and> view s' = view s
      | Continue r' w' s' \<Rightarrow> ok s' \<and> view s' = view s \<and> p_now s' = p_now s))"

definition transparent :: "('a proc_scheme) decision \<Rightarrow> bool" where
  "transparent d \<longleftrightarrow> (\<forall>req w s r' w' s'. d req w s = Continue r' w' s' \<longrightarrow> subject r' = subject req \<and> key r' = key req)"

definition leaves :: "('a proc_scheme) handler \<Rightarrow> bool" where
  "leaves f \<longleftrightarrow> (\<forall>req w s. ok s \<longrightarrow> ok (snd (f req w s)) \<and> view (snd (f req w s)) = view s)"

lemma neutral_cases:
  assumes "neutral d" "ok s"
  obtains w' s' where "d req w s = Respond w' s'" "ok s'" "view s' = view s"
  | r' w' s' where "d req w s = Continue r' w' s'" "ok s'" "view s' = view s" "p_now s' = p_now s"
proof -
  have "case d req w s of Respond w' s' \<Rightarrow> ok s' \<and> view s' = view s
      | Continue r' w' s' \<Rightarrow> ok s' \<and> view s' = view s \<and> p_now s' = p_now s"
    using assms by (simp add: neutral_def)
  with that show thesis by (cases "d req w s") auto
qed

lemma neutral_chain: "list_all neutral ds \<Longrightarrow> neutral (chain_decide ds)"
proof (induction ds)
  case Nil
  then show ?case by (simp add: neutral_def)
next
  case (Cons d ds)
  then have d: "neutral d" and ds: "neutral (chain_decide ds)" by simp_all
  show ?case
    unfolding neutral_def
  proof (intro allI impI)
    fix req w and s :: "'a proc_scheme"
    assume s: "ok s"
    show "case chain_decide (d # ds) req w s of Respond w' s' \<Rightarrow> ok s' \<and> view s' = view s
        | Continue r' w' s' \<Rightarrow> ok s' \<and> view s' = view s \<and> p_now s' = p_now s"
    proof (cases rule: neutral_cases [OF d s, of req w])
      case (2 r' w' s')
      then show ?thesis by (cases rule: neutral_cases [OF ds 2(2), of r' w']) simp_all
    qed simp
  qed
qed

lemma transparent_chain: "list_all transparent ds \<Longrightarrow> transparent (chain_decide ds)"
proof (induction ds)
  case (Cons d ds)
  then have d: "transparent d" and ds: "transparent (chain_decide ds)" by simp_all
  show ?case
    unfolding transparent_def
  proof (intro allI impI)
    fix req w s r' w' s'
    assume "chain_decide (d # ds) req w s = Continue r' w' s'"
    then obtain r1 w1 s1 where "d req w s = Continue r1 w1 s1" "chain_decide ds r1 w1 s1 = Continue r' w' s'"
      by (auto split: verdict.splits)
    then show "subject r' = subject req \<and> key r' = key req"
      using d ds unfolding transparent_def by metis
  qed
qed (simp add: transparent_def)

text \<open>
  The handler is called with a subsequence of what the component admits out of the arrivals that get to it.
\<close>

lemma handled_step:
  assumes "list_all neutral pre" and "list_all neutral post" and "list_all transparent post" and "leaves f" and "ok s"
  obtains s' where "ok s'" "view s' = view s" "handled evict (pre @ decide # post) f ((t, Some req) # xs) s = handled evict (pre @ decide # post) f xs s'"
  | r s' where "ok s'" "view s' = view s" "\<not> subject r"
      "handled evict (pre @ decide # post) f ((t, Some req) # xs) s = (t, r) # handled evict (pre @ decide # post) f xs s'"
  | k s' where "ok s'" "snd (admit t k (view s)) = view s'"
      "handled evict (pre @ decide # post) f ((t, Some req) # xs) s = handled evict (pre @ decide # post) f xs s'"
  | r s' where "ok s'" "admit t (key r) (view s) = (True, view s')"
      "handled evict (pre @ decide # post) f ((t, Some req) # xs) s = (t, r) # handled evict (pre @ decide # post) f xs s'"
proof -
  let ?s = "s\<lparr>p_now := t\<rparr>"
  have s: "ok ?s" "view ?s = view s" using assms(5) clock by simp_all
  note pre = neutral_chain [OF assms(1)] and post = neutral_chain [OF assms(2)]
  have tr: "subject r' = subject r \<and> key r' = key r" if "chain_decide post r w s1 = Continue r' w' s'" for r w s1 r' w' s'
    using transparent_chain [OF assms(3)] that unfolding transparent_def by metis
  show thesis
  proof (cases rule: neutral_cases [OF pre s(1), of req fresh_writer])
    case (1 w1 s1)
    with s that(1) [of s1] show thesis by (simp add: chain_decide_append)
  next
    case p: (2 r1 w1 s1)
    show thesis
    proof (cases "decide r1 w1 s1")
      case (Respond w2 s2)
      with refuses [OF p(2) Respond] p s that(1) [of s2] that(3) [of s2 "key r1"] show thesis
        by (auto simp: chain_decide_append)
    next
      case (Continue r2 w2 s2)
      note ad = passes [OF p(2) Continue]
      show thesis
      proof (cases rule: neutral_cases [OF post, of s2 r2 w2])
        case (2 w3 s3)
        with ad p s Continue that(1) [of s3] that(3) [of s3 "key r1"] show thesis
          by (cases "subject r1") (simp_all add: chain_decide_append)
      next
        case (3 r3 w3 s3)
        then have "ok (snd (f r3 w3 s3)) \<and> view (snd (f r3 w3 s3)) = view s2" using assms(4) by (simp add: leaves_def)
        with ad p s Continue 3 tr [OF 3(1)] that(2) [of "snd (f r3 w3 s3)" r3] that(4) [of "snd (f r3 w3 s3)" r3] show thesis
          by (cases "subject r1") (simp_all add: chain_decide_append)
      qed (use ad in simp)
    qed
  qed
qed

lemma handled_admitted:
  assumes "list_all neutral pre" and "list_all neutral post" and "list_all transparent post" and "leaves f" and "ok s"
  shows "\<exists>ys. subseq (map fst ys) (map fst xs) \<and>
    subseq (map (apsnd key) (filter (\<lambda>x. subject (snd x)) (handled evict (pre @ decide # post) f xs s))) (admitted admit idle ys (view s))"
  using assms(5)
proof (induction xs arbitrary: s)
  case Nil
  then show ?case by (intro exI [of _ "[]"]) simp
next
  case (Cons a xs)
  let ?h = "\<lambda>s. map (apsnd key) (filter (\<lambda>x. subject (snd x)) (handled evict (pre @ decide # post) f xs s))"
  obtain t e where a: "a = (t, e)" by (cases a)
  have IH: "\<exists>ys. subseq (map fst ys) (map fst xs) \<and> subseq (?h s') (admitted admit idle ys (view s'))" if "ok s'" for s'
    using Cons.IH [OF that] .
  have drop: "subseq (map fst ys) (map fst (a # xs))" if "subseq (map fst ys) (map fst xs)" for ys :: "(instant \<times> 'k option) list"
    using that by (simp add: list_emb_Cons)
  have keep: "subseq (map fst ((t, k) # ys)) (map fst (a # xs))" if "subseq (map fst ys) (map fst xs)" for k :: "'k option" and ys
    using that by (simp add: a)
  show ?case
  proof (cases e)
    case None
    obtain ys where ys: "subseq (map fst ys) (map fst xs)" "subseq (?h (evict t s)) (admitted admit idle ys (view (evict t s)))"
      using IH [of "evict t s"] evicts [OF Cons.prems] by blast
    have "subseq (?h (evict t s)) (admitted admit idle ((t, None) # ys) (view s))"
      using ys(2) evicts [OF Cons.prems, of t] by simp
    then show ?thesis using keep [OF ys(1), of None] None a by (intro exI [of _ "(t, None) # ys"]) simp
  next
    case (Some req)
    note a = a [unfolded Some]
    show ?thesis
    proof (cases rule: handled_step [OF assms(1-4) Cons.prems, of t req xs])
      case (1 s')
      obtain ys where "subseq (map fst ys) (map fst xs)" "subseq (?h s') (admitted admit idle ys (view s'))" using IH [OF 1(1)] by blast
      then show ?thesis unfolding a 1(3) 1(2) [symmetric] by (blast intro: drop [unfolded a])
    next
      case (2 r s')
      obtain ys where "subseq (map fst ys) (map fst xs)" "subseq (?h s') (admitted admit idle ys (view s'))" using IH [OF 2(1)] by blast
      then show ?thesis unfolding a 2(4) 2(2) [symmetric] using 2(3) by (intro exI [of _ ys] conjI drop [unfolded a]) simp_all
    next
      case (3 k s')
      obtain ys where ys: "subseq (map fst ys) (map fst xs)" "subseq (?h s') (admitted admit idle ys (view s'))" using IH [OF 3(1)] by blast
      have "subseq (?h s') (admitted admit idle ((t, Some k) # ys) (view s))"
        using ys(2) by (simp add: split_beta 3(2) list_emb_Cons)
      then show ?thesis unfolding a 3(3) using keep [OF ys(1), unfolded a] by blast
    next
      case (4 r s')
      obtain ys where ys: "subseq (map fst ys) (map fst xs)" "subseq (?h s') (admitted admit idle ys (view s'))" using IH [OF 4(1)] by blast
      have "subseq ((if subject r then [(t, key r)] else []) @ ?h s') (admitted admit idle ((t, Some (key r)) # ys) (view s))"
        using ys(2) by (simp add: 4(2) list_emb_Cons)
      then show ?thesis unfolding a 4(3) using keep [OF ys(1), of "Some (key r)", unfolded a]
        by (intro exI [of _ "(t, Some (key r)) # ys"]) (simp split: if_splits)
    qed
  qed
qed

end

lemma subseq_set: "subseq xs ys \<Longrightarrow> set xs \<subseteq> set ys"
  by (auto elim: list_emb_set)

lemma sorted_wrt_subseq: "subseq xs ys \<Longrightarrow> sorted_wrt R ys \<Longrightarrow> sorted_wrt R xs"
proof (induction rule: list_emb.induct)
  case (list_emb_Cons2 x y xs ys)
  then show ?case by (auto dest: list_emb_set)
qed auto

section \<open>The idempotency middleware\<close>

text \<open>The requests it looks at, and their keys.\<close>

definition needs_key :: "request \<Rightarrow> bool" where
  "needs_key req \<longleftrightarrow> req_method req \<notin> {''GET'', ''HEAD'', ''OPTIONS''} \<and> req_ctx req CLIENT_TYPE_KEY \<noteq> Some (CStr ''api'')"

definition idempotency_key :: "request \<Rightarrow> string" where
  "idempotency_key req = Header_Get (req_header req) ''Idempotency-Key''"

definition reserve :: "'r redis \<Rightarrow> instant \<Rightarrow> string \<Rightarrow> 'r Store \<Rightarrow> bool \<times> 'r Store" where
  "reserve rc t k st = (case Store_CheckAndSet rc t k st of (r, st') \<Rightarrow> (r = Inr True, st'))"

lemma reserve_accepts: "admitted (reserve rc) Store_evict xs st = accepted (Store_CheckAndSet rc) Store_evict xs st"
  by (induction xs arbitrary: st) (auto simp: reserve_def split: prod.splits option.splits)

interpretation idempotent: admission_control "Idempotency_decide rc j" "\<lambda>_. True" sdk_store needs_key idempotency_key "reserve rc"
  sdk_evict Store_evict
  for rc :: "'r redis" and j
proof
  fix req w and s :: "('r, 'a) sdk_scheme" and r' w' s'
  have ctx: "CLIENT_TYPE_KEY \<noteq> IDEMPOTENCY_VALID_KEY" by (simp add: key_defs)
  show "True \<and> needs_key r' = needs_key req \<and> idempotency_key r' = idempotency_key req \<and>
      (if needs_key req then reserve rc (p_now s) (idempotency_key req) (sdk_store s) = (True, sdk_store s')
       else sdk_store s' = sdk_store s)"
    if "Idempotency_decide rc j req w s = Continue r' w' s'"
    using that ctx
    by (auto simp: Idempotency_decide_def Let_def needs_key_def idempotency_key_def reserve_def
        split: if_splits prod.splits sum.splits)
  show "True \<and> (sdk_store s' = sdk_store s \<or> reserve rc (p_now s) (idempotency_key req) (sdk_store s) = (False, sdk_store s'))"
    if "Idempotency_decide rc j req w s = Respond w' s'"
    using that
    by (auto simp: Idempotency_decide_def Let_def idempotency_key_def reserve_def split: if_splits prod.splits sum.splits)
qed (simp_all add: sdk_evict_def)

text \<open>Middlewares that leave the store of the process and its clock alone.\<close>

definition keeps_store :: "('r, 'a) sdk_scheme decision \<Rightarrow> bool" where
  "keeps_store d \<longleftrightarrow> (\<forall>req w s.
     (case d req w s of
        Respond w' s' \<Rightarrow> sdk_store s' = sdk_store s
      | Continue r' w' s' \<Rightarrow> sdk_store s' = sdk_store s \<and> p_now s' = p_now s))"

lemma keeps_store_neutral: "idempotent.neutral = keeps_store"
  by (simp add: fun_eq_iff idempotent.neutral_def keeps_store_def cong: verdict.case_cong)

lemma same_identity_key: "same_identity req r' \<Longrightarrow> needs_key r' = needs_key req \<and> idempotency_key r' = idempotency_key req"
proof -
  assume "same_identity req r'"
  moreover have "CanonicalMIMEHeaderKey ''Idempotency-Key'' \<noteq> ''X-Request-Id''" by code_simp
  ultimately show ?thesis
    by (simp add: same_identity_def needs_key_def idempotency_key_def Header_Get_def)
qed

text \<open>All the others of the SDK do.\<close>

lemma sdk_keep_store:
  "keeps_store (auth_decide (jwks_verifier lib net dec dur))" "keeps_store (AuthMiddleware_decide validate)"
  "keeps_store RequireServiceScope_decide" "keeps_store (RequireAnyScope_decide scopes)" "keeps_store (RateLimiter_decide pf)"
  "keeps_store IPAccess_decide" "keeps_store (MaxContentLength_decide n)" "keeps_store SecurityHeaders_decide"
  "keeps_store ClientSource_decide" "keeps_store (validation_decide st b j decode)"
  "keeps_store (Sanitization_decide unmarshal marshal)" "keeps_store Normalization_decide" "keeps_store (Redaction_decide unm mar)"
  by (auto simp: keeps_store_def auth_decide_def jwks_verifier_def AuthMiddleware_decide_def RequireServiceScope_decide_def
      RequireAnyScope_decide_def RateLimiter_decide_def IPAccess_decide_def MaxContentLength_decide_def SecurityHeaders_decide_def
      ClientSource_decide_def validation_decide_def Sanitization_decide_def Normalization_decide_def Redaction_decide_def Let_def
      split: option.splits prod.splits sum.splits ctxval.splits if_splits verdict.splits bool.splits)

lemma rand_Read_keeps [simp]:
  "p_now (snd (rand_Read n p)) = p_now p" "sdk_store (snd (rand_Read n s)) = sdk_store s"
  by (simp_all add: rand_Read_def)

lemma random_keep_store: "keeps_store (CSRF_decide j)" "keeps_store RequestID_decide"
  by (auto simp: keeps_store_def CSRF_decide_def csrf_ensureToken_def csrf_GenerateToken_def token_Hex_def token_Bytes_def
      RequestID_decide_def GenerateRequestId_def rand_Read_def Let_def
      split: option.splits prod.splits if_splits verdict.splits)

text \<open>
  C3: Behind the idempotency middleware a request is handled once. Whatever other middlewares the chain has (before it, any
  that leave the store alone; behind it, any that also keep the caller's identity) and whatever a handler does that leaves
  the store alone, whatever is sent, one request after the other in the order of time, whenever the evictor makes a pass
  between two requests and whichever store is configured: two state-changing requests of non-API clients with the same
  idempotency key never both reach the handler while the reservation of the first one holds.
\<close>
theorem idempotent_route_once:
  assumes "redis_keys rc ex" and "sorted (map fst xs)"
    and "list_all keeps_store (pre @ post)" and "list_all keeps_identity post"
    and "\<forall>req w s. sdk_store (snd (f req w s)) = sdk_store s"
  shows "sorted_wrt (\<lambda>x y. idempotency_key (snd x) = idempotency_key (snd y) \<longrightarrow> \<not> store_holds (sdk_store s) (fst x) (fst y))
    (filter (\<lambda>x. needs_key (snd x)) (handled sdk_evict (pre @ Idempotency_decide rc j # post) f xs s))"
proof -
  have "list_all idempotent.neutral pre" "list_all idempotent.neutral post"
    using assms(3) by (simp_all add: keeps_store_neutral)
  moreover have "list_all idempotent.transparent post"
    using assms(4) same_identity_key unfolding list_all_iff idempotent.transparent_def keeps_identity_def by metis
  moreover have "idempotent.leaves f" using assms(5) by (simp add: idempotent.leaves_def)
  ultimately obtain ys where ys: "subseq (map fst ys) (map fst xs)"
    and sub: "subseq (map (apsnd idempotency_key) (filter (\<lambda>x. needs_key (snd x)) (handled sdk_evict (pre @ Idempotency_decide rc j # post) f xs s)))
      (accepted (Store_CheckAndSet rc) Store_evict ys (sdk_store s))"
    using idempotent.handled_admitted [where pre = pre and post = post and f = f and s = s and xs = xs and rc = rc and j = j] unfolding reserve_accepts by blast
  have "sorted (map fst ys)" by (rule sorted_wrt_subseq [OF ys assms(2)])
  from sorted_wrt_subseq [OF sub redis_keys.store_once [OF assms(1) this]] show ?thesis
    by (simp add: sorted_wrt_map)
qed

definition sample_keyed :: request where
  "sample_keyed = sample_request\<lparr>req_method := ''POST'', req_header := [''Idempotency-Key'' \<mapsto> [''order-0001'']]\<rparr>"

definition sample_mem_sdk :: "mem sdk" where
  "sample_mem_sdk = \<lparr>p_now = 0, p_env = (\<lambda>_. []), p_rand = (\<lambda>_ n. Some (replicate n CHR ''x'')), p_draws = 0,
     sdk_proxy = \<lparr>depthLoaded = True, trustedProxyDepth = 0\<rparr>, sdk_rl = rl_init,
     sdk_store = \<lparr>s_cache = LocalCache Map.empty, s_ttl = 300\<rparr>, sdk_ip = None, sdk_verifier = sample_verifier\<rparr>"

lemma sample_keyed_handled:
  "map fst (handled sdk_evict [SecurityHeaders_decide, Idempotency_decide mem_redis None] (\<lambda>r w s. (w, s))
     [(0, Some sample_keyed), (5, Some sample_keyed), (60000000000, None), (301000000000, Some sample_keyed)] sample_mem_sdk) = [0, 301000000000]"
proof -
  have k: "Header_Get (req_header sample_keyed) ''Idempotency-Key'' = ''order-0001''" by code_simp
  have v: "isValidIdempotencyKey (Header_Get (req_header sample_keyed) HEADER_IDEMPOTENCY)" by code_simp
  have r: "req_method sample_keyed = ''POST''" "req_ctx sample_keyed = Map.empty"
    by (simp_all add: sample_keyed_def sample_request_def)
  show ?thesis
    by (simp add: SecurityHeaders_decide_def Idempotency_decide_def k v r
        sample_mem_sdk_def Store_CheckAndSet_def cache_StoreIfAbsent_def Local_StoreIfAbsent_def Store_evict_def evictor_tick_def map_sweep_def sdk_evict_def Unix_def Second_def in_int64_def Let_def)
qed

theorem idempotent_route_once_witness:
  "sorted_wrt (\<lambda>x y. idempotency_key (snd x) = idempotency_key (snd y) \<longrightarrow> \<not> store_holds (sdk_store sample_mem_sdk) (fst x) (fst y))
     (filter (\<lambda>x. needs_key (snd x)) (handled sdk_evict ([SecurityHeaders_decide] @ Idempotency_decide mem_redis None # []) (\<lambda>r w s. (w, s))
       [(0, Some sample_keyed), (5, Some sample_keyed), (60000000000, None), (301000000000, Some sample_keyed)] sample_mem_sdk)) \<and>
   map fst (handled sdk_evict [SecurityHeaders_decide, Idempotency_decide mem_redis None] (\<lambda>r w s. (w, s))
     [(0, Some sample_keyed), (5, Some sample_keyed), (60000000000, None), (301000000000, Some sample_keyed)] sample_mem_sdk) = [0, 301000000000]"
proof
  show "sorted_wrt (\<lambda>x y. idempotency_key (snd x) = idempotency_key (snd y) \<longrightarrow> \<not> store_holds (sdk_store sample_mem_sdk) (fst x) (fst y))
     (filter (\<lambda>x. needs_key (snd x)) (handled sdk_evict ([SecurityHeaders_decide] @ Idempotency_decide mem_redis None # []) (\<lambda>r w s. (w, s))
       [(0, Some sample_keyed), (5, Some sample_keyed), (60000000000, None), (301000000000, Some sample_keyed)] sample_mem_sdk))"
    by (rule idempotent_route_once [OF mem.redis_keys_axioms]) (simp_all add: sdk_keep_store)
qed (rule sample_keyed_handled)

section \<open>The rate limiter\<close>

text \<open>The key under which the process counts the requests of a client.\<close>

definition client_of :: "('r, 'a) sdk_scheme \<Rightarrow> request \<Rightarrow> string" where
  "client_of s req = fst (GetClientKey (p_env s) (sdk_proxy s) req)"

lemma client_of_cong: "p_env s' = p_env s \<Longrightarrow> sdk_proxy s' = sdk_proxy s \<Longrightarrow> client_of s' = client_of s"
  by (intro ext) (simp add: client_of_def)

lemma GetClientKey_stable:
  "fst (GetClientKey env (snd (GetClientKey env px r)) r') = fst (GetClientKey env px r')"
proof -
  obtain d px' where "clientTrustDepth env px = (d, px')" by fastforce
  with clientTrustDepth_stable [OF this] show ?thesis by (simp add: GetClientKey_def Let_def)
qed

definition limiter_ok :: "(string \<Rightarrow> string) \<Rightarrow> (request \<Rightarrow> string) \<Rightarrow> ('r, 'a) sdk_scheme \<Rightarrow> bool" where
  "limiter_ok env kf s \<longleftrightarrow> p_env s = env \<and> client_of s = kf \<and> local_env env (sdk_rl s)"

definition take_token ::
  "(string \<Rightarrow> rat option) \<Rightarrow> (string \<Rightarrow> string) \<Rightarrow> instant \<Rightarrow> string \<Rightarrow> rl_state \<Rightarrow> bool \<times> rl_state" where
  "take_token pf env t k st = (case Allow pf env t k st of (r, st') \<Rightarrow> (fst r, st'))"

lemma RateLimiter_local:
  assumes "limiter_ok env kf s"
  shows "(\<exists>s'. RateLimiter_decide pf req w s = Continue req w s' \<and> limiter_ok env kf s' \<and>
            take_token pf env (p_now s) (kf req) (sdk_rl s) = (True, sdk_rl s')) \<or>
         (\<exists>w' s'. RateLimiter_decide pf req w s = Respond w' s' \<and> limiter_ok env kf s' \<and>
            take_token pf env (p_now s) (kf req) (sdk_rl s) = (False, sdk_rl s'))"
proof -
  obtain k px where g: "GetClientKey env (sdk_proxy s) req = (k, px)" by fastforce
  obtain ok wait err rl where a: "Allow pf env (p_now s) k (sdk_rl s) = ((ok, wait, err), rl)" by (metis prod.exhaust)
  have s: "p_env s = env" "client_of s = kf" "local_env env (sdk_rl s)" using assms by (simp_all add: limiter_ok_def)
  note step = Allow_local_step(1,2) [OF s(3), of pf "p_now s" k, unfolded a]
  have e: "err = None" and l: "local_env env rl" using step by simp_all
  have kf: "kf r = fst (GetClientKey env (sdk_proxy s) r)" for r
    by (simp add: s(2) [symmetric] client_of_def s(1))
  have "client_of (s\<lparr>sdk_proxy := px, sdk_rl := rl\<rparr>) = kf"
    using GetClientKey_stable [of env "sdk_proxy s" req] by (intro ext) (simp add: client_of_def s(1) g kf)
  moreover have "kf req = k" by (simp add: kf g)
  ultimately show ?thesis
    using s(1) g a e l by (cases ok) (auto simp: RateLimiter_decide_def Let_def limiter_ok_def take_token_def)
qed

lemma local_env_evict: "local_env env (evict_tick t st) = local_env env st"
  by (simp add: local_env_def evict_tick_def loadEnv_def Let_def split: option.splits)

interpretation limited: admission_control "RateLimiter_decide pf" "limiter_ok env kf" sdk_rl "\<lambda>_. True" kf "take_token pf env"
  sdk_evict evict_tick
  for pf env kf
proof (unfold_locales, goal_cases)
  case (1 s t)
  show ?case by (simp add: limiter_ok_def client_of_def fun_eq_iff)
next
  case (3 s req w r' w' s')
  then show ?case using RateLimiter_local [OF 3(1), of pf req w] by auto
next
  case (4 s req w w' s')
  then show ?case using RateLimiter_local [OF 4(1), of pf req w] by auto
next
  case (5 s t)
  then show ?case by (auto simp: limiter_ok_def sdk_evict_def local_env_evict client_of_def fun_eq_iff)
qed simp

text \<open>Middlewares and handlers that leave the limiter alone, and those that do not disguise the client.\<close>

definition keeps_limiter :: "('r, 'a) sdk_scheme decision \<Rightarrow> bool" where
  "keeps_limiter d \<longleftrightarrow> (\<forall>req w s.
     (case d req w s of
        Respond w' s' \<Rightarrow> sdk_rl s' = sdk_rl s \<and> p_env s' = p_env s \<and> client_of s' = client_of s
      | Continue r' w' s' \<Rightarrow>
          sdk_rl s' = sdk_rl s \<and> p_env s' = p_env s \<and> client_of s' = client_of s \<and> p_now s' = p_now s))"

definition keeps_client :: "('r, 'a) sdk_scheme decision \<Rightarrow> bool" where
  "keeps_client d \<longleftrightarrow> (\<forall>req w s r' w' s'. d req w s = Continue r' w' s' \<longrightarrow>
     (\<forall>env px. fst (GetClientKey env px r') = fst (GetClientKey env px req)))"

text \<open>Those of the SDK that do: \<open>IPAccess_decide\<close> loads the proxy depth, which leaves the keys as they are.\<close>

lemma IPAccess_keeps_limiter: "keeps_limiter IPAccess_decide"
proof -
  have "client_of (s\<lparr>sdk_proxy := snd (GetClientKey (p_env s) (sdk_proxy s) req)\<rparr>) = client_of s" for s :: "('a, 'b) sdk_scheme" and req
    by (intro ext) (simp add: client_of_def GetClientKey_stable)
  then show ?thesis
    by (auto simp: keeps_limiter_def IPAccess_decide_def Let_def split_beta split: option.splits if_splits verdict.splits)
qed

lemma sdk_keep_limiter:
  "keeps_limiter (auth_decide (jwks_verifier lib net dec dur))" "keeps_limiter (AuthMiddleware_decide validate)"
  "keeps_limiter RequireServiceScope_decide" "keeps_limiter (RequireAnyScope_decide scopes)" "keeps_limiter (Idempotency_decide rc j)"
  "keeps_limiter (MaxContentLength_decide n)" "keeps_limiter SecurityHeaders_decide" "keeps_limiter ClientSource_decide"
  "keeps_limiter (validation_decide st b j decode)" "keeps_limiter (Sanitization_decide unmarshal marshal)"
  "keeps_limiter Normalization_decide" "keeps_limiter (Redaction_decide unm mar)"
  by (auto simp: keeps_limiter_def auth_decide_def jwks_verifier_def AuthMiddleware_decide_def RequireServiceScope_decide_def
      RequireAnyScope_decide_def Idempotency_decide_def MaxContentLength_decide_def SecurityHeaders_decide_def
      ClientSource_decide_def validation_decide_def Sanitization_decide_def Normalization_decide_def Redaction_decide_def Let_def
      intro: client_of_cong split: option.splits prod.splits sum.splits ctxval.splits if_splits verdict.splits bool.splits)

lemma random_keep_limiter: "keeps_limiter (CSRF_decide j)" "keeps_limiter RequestID_decide"
  by (auto simp: keeps_limiter_def CSRF_decide_def csrf_ensureToken_def csrf_GenerateToken_def token_Hex_def token_Bytes_def
      RequestID_decide_def GenerateRequestId_def rand_Read_def Let_def
      intro: client_of_cong split: option.splits prod.splits if_splits verdict.splits)

lemma keeps_clientI:
  assumes "\<And>req w s r' w' s'. d req w s = Continue r' w' s' \<Longrightarrow> req_header r' = req_header req \<and> req_remoteAddr r' = req_remoteAddr req"
  shows "keeps_client d"
  unfolding keeps_client_def
proof (intro allI impI)
  fix req w s r' w' s' env px
  assume "d req w s = Continue r' w' s'"
  from assms [OF this] have "req_header r' = req_header req" "req_remoteAddr r' = req_remoteAddr req" by simp_all
  then show "fst (GetClientKey env px r') = fst (GetClientKey env px req)"
    by (simp only: GetClientKey_def peer_host_def)
qed

lemma sdk_keep_client:
  "keeps_client (auth_decide v)" "keeps_client (AuthMiddleware_decide validate)" "keeps_client RequireServiceScope_decide"
  "keeps_client (RequireAnyScope_decide scopes)" "keeps_client (Idempotency_decide rc j)" "keeps_client (CSRF_decide j)"
  "keeps_client (MaxContentLength_decide n)" "keeps_client SecurityHeaders_decide" "keeps_client ClientSource_decide"
  by (auto intro!: keeps_clientI simp: auth_decide_def AuthMiddleware_decide_def RequireServiceScope_decide_def
      RequireAnyScope_decide_def Idempotency_decide_def CSRF_decide_def MaxContentLength_decide_def SecurityHeaders_decide_def
      ClientSource_decide_def Let_def
      split: option.splits prod.splits sum.splits ctxval.splits if_splits)

lemma keeps_limiter_neutral: "keeps_limiter d \<Longrightarrow> limited.neutral env kf d"
proof -
  assume d: "keeps_limiter d"
  show ?thesis
    unfolding limited.neutral_def
  proof (intro allI impI)
    fix req w and s :: "('a, 'b) sdk_scheme"
    assume "limiter_ok env kf s"
    moreover have "case d req w s of
        Respond w' s' \<Rightarrow> sdk_rl s' = sdk_rl s \<and> p_env s' = p_env s \<and> client_of s' = client_of s
      | Continue r' w' s' \<Rightarrow> sdk_rl s' = sdk_rl s \<and> p_env s' = p_env s \<and> client_of s' = client_of s \<and> p_now s' = p_now s"
      using d by (simp add: keeps_limiter_def)
    ultimately show "case d req w s of Respond w' s' \<Rightarrow> limiter_ok env kf s' \<and> sdk_rl s' = sdk_rl s
        | Continue r' w' s' \<Rightarrow> limiter_ok env kf s' \<and> sdk_rl s' = sdk_rl s \<and> p_now s' = p_now s"
      by (auto simp: limiter_ok_def split: verdict.splits)
  qed
qed

text \<open>An arrival or a pass of the evictor, as an operation on the limiter.\<close>

definition limiter_op :: "instant \<times> string option \<Rightarrow> rl_op" where
  "limiter_op x = (case snd x of None \<Rightarrow> OpTick (fst x) | Some k \<Rightarrow> OpAllow (fst x) k)"

lemma admitted_passed:
  "length (filter (\<lambda>x. snd x = k) (admitted (take_token pf env) evict_tick ys st)) = passed pf env k (map limiter_op ys) st"
  by (induction ys arbitrary: st) (auto simp: take_token_def limiter_op_def split_beta split: option.splits)

lemma arrivals_window:
  "sorted (map fst ys) \<Longrightarrow> \<forall>x \<in> set ys. t \<le> fst x \<and> fst x \<le> t' \<Longrightarrow> t \<le> t' \<Longrightarrow> window t (map limiter_op ys) t'"
  by (induction ys arbitrary: t) (auto simp: limiter_op_def split: option.splits)

text \<open>
  C4: A client gets no more than its rate through a chain with the rate limiter. Outside prod and staging, whatever
  other middlewares the chain has (any that leave the limiter alone; behind it, any that do not change the client's key), and
  whatever a handler does that leaves the limiter, the environment and the proxy settings alone, requests being served
  one after the other, the handler is called for at most \<open>burst + rps * T + (slack)\<close> requests of one client in a window of \<open>T\<close> seconds, evictions
  included, where \<open>burst\<close> and \<open>rps\<close> are the configured values. The slack of the float64 arithmetic is a factor of
  \<open>1 + 2 ^ -50\<close> on the rate and \<open>burst / 2 ^ 52\<close> per event. As for \<open>Allow\<close> itself, the rate is positive, the burst is at least 1 and below
  \<open>2 ^ 52\<close>, no bucket holds more than the burst to begin with, and the eviction TTL is long enough to fill a
  bucket up (\<open>burst \<le> rps * TTL\<close>).
\<close>
theorem limited_route_rate:
  assumes "local_env (p_env s) (sdk_rl s)" and "limiter_fits pf (p_env s) (sdk_rl s)" and "ttl_refills pf (p_env s) (sdk_rl s)"
    and "sorted (map fst xs)" and "\<forall>x \<in> set xs. t \<le> fst x \<and> fst x \<le> t'" and "t \<le> t'"
    and "list_all keeps_limiter (pre @ post)" and "list_all keeps_client post"
    and "\<forall>req w s. sdk_rl (snd (f req w s)) = sdk_rl s \<and> p_env (snd (f req w s)) = p_env s \<and> sdk_proxy (snd (f req w s)) = sdk_proxy s"
  shows "of_nat (length (filter (\<lambda>x. client_of s (snd x) = k) (handled sdk_evict (pre @ RateLimiter_decide pf # post) f xs s))) \<le>
    burst (fst (loadCfg pf (p_env s) (sdk_rl s)))
      + rps (fst (loadCfg pf (p_env s) (sdk_rl s))) * (1 + 1 / 2 ^ 50) * (of_int (t' - t) / 1000000000)
      + of_nat (length xs) * (burst (fst (loadCfg pf (p_env s) (sdk_rl s))) / 2 ^ 52)"
proof -
  let ?env = "p_env s" and ?kf = "client_of s" and ?M = "burst (fst (loadCfg pf (p_env s) (sdk_rl s)))"
  let ?run = "handled sdk_evict (pre @ RateLimiter_decide pf # post) f xs s"
  have "list_all (limited.neutral ?env ?kf) pre" "list_all (limited.neutral ?env ?kf) post"
    using assms(7) by (auto simp: list_all_iff keeps_limiter_neutral)
  moreover have "list_all (limited.transparent ?kf) post"
    using assms(8) unfolding list_all_iff limited.transparent_def keeps_client_def client_of_def by simp
  moreover have "client_of (snd (f req w s')) = client_of s'" for req w s' using assms(9) by (intro client_of_cong) simp_all
  then have "limited.leaves ?env ?kf f" using assms(9) by (simp add: limited.leaves_def limiter_ok_def)
  moreover have "limiter_ok ?env ?kf s" using assms(1) by (simp add: limiter_ok_def)
  ultimately obtain ys where ys: "subseq (map fst ys) (map fst xs)"
    and sub: "subseq (map (apsnd ?kf) ?run) (admitted (take_token pf ?env) evict_tick ys (sdk_rl s))"
    using limited.handled_admitted [where pre = pre and post = post and f = f and s = s and xs = xs and pf = pf and env = ?env and kf = ?kf]
    by auto
  let ?ops = "map limiter_op ys"
  from subseq_set [OF ys] have "\<forall>x \<in> set ys. t \<le> fst x \<and> fst x \<le> t'" using assms(5) by fastforce
  note w = arrivals_window [OF sorted_wrt_subseq [OF ys assms(4)] this assms(6)]
  have "length (filter (\<lambda>x. snd x = k) (map (apsnd ?kf) ?run)) \<le> passed pf ?env k ?ops (sdk_rl s)"
    using list_emb_length [OF subseq_filter [OF sub, of "\<lambda>x. snd x = k"]] by (simp add: admitted_passed)
  then have "length (filter (\<lambda>x. ?kf (snd x) = k) ?run) \<le> passed pf ?env k ?ops (sdk_rl s)" by (simp add: filter_map o_def)
  moreover have "length (filter (calls_for k) ?ops) \<le> length xs"
    using length_filter_le [of "calls_for k" ?ops] list_emb_length [OF ys] unfolding length_map by (rule order_trans)
  moreover have "0 \<le> ?M" using assms(2) by (simp add: limiter_fits_def Let_def)
  ultimately have "of_nat (length (filter (calls_for k) ?ops)) * (?M / 2 ^ 52) \<le> of_nat (length xs) * (?M / 2 ^ 52)"
    by (intro mult_right_mono) simp_all
  moreover note rate_bound [OF assms(1-3) w, of k]
  moreover note \<open>length (filter (\<lambda>x. ?kf (snd x) = k) ?run) \<le> passed pf ?env k ?ops (sdk_rl s)\<close>
  ultimately show ?thesis by (meson add_left_mono of_nat_mono order_trans)
qed

text \<open>40 requests of a client within a second, with a burst of 5: at most 15 are handled.\<close>

theorem limited_route_rate_witness:
  "length (filter (\<lambda>x. client_of sample_sdk (snd x) = ''10.0.0.1'')
     (handled sdk_evict ([SecurityHeaders_decide] @ RateLimiter_decide (\<lambda>_. None) # []) (\<lambda>r w s. (w, s))
       ((0, None) # replicate 40 (1000000000, Some sample_request)) (sample_sdk\<lparr>sdk_rl := burst_five\<rparr>))) \<le> 15"
  (is "length ?h \<le> _")
proof -
  let ?s = "sample_sdk\<lparr>sdk_rl := burst_five\<rparr>" and ?xs = "(0, None) # replicate 40 (1000000000, Some sample_request) :: event list"
  have s: "p_env ?s = (\<lambda>_. [])" "sdk_rl ?s = burst_five" by (simp_all add: sample_sdk_def)
  have k: "client_of ?s = client_of sample_sdk" by (rule client_of_cong) simp_all
  have "of_nat (length ?h) \<le>
    burst (fst (loadCfg (\<lambda>_. None) (p_env ?s) (sdk_rl ?s)))
      + rps (fst (loadCfg (\<lambda>_. None) (p_env ?s) (sdk_rl ?s))) * (1 + 1 / 2 ^ 50) * (of_int (1000000000 - 0) / 1000000000)
      + of_nat (length ?xs) * (burst (fst (loadCfg (\<lambda>_. None) (p_env ?s) (sdk_rl ?s))) / 2 ^ 52)"
    unfolding k [symmetric] by (rule limited_route_rate) (simp_all only: s burst_five_simps, simp_all add: sdk_keep_limiter)
  then have "(of_nat (length ?h) :: rat) < of_nat 16" unfolding s burst_five_simps(4) by simp
  then show ?thesis unfolding of_nat_less_iff by simp
qed

end
