(* ===== verification/Outage.thy ===== *)
theory Outage
  imports HttpClient
begin

text \<open>
  The circuit breaker and the retry loop of \<open>http/client\<close> together: the load a client puts on a host that is down, over
  any sequence of calls with their retries and the pauses between them.
\<close>

section \<open>Runs of a client\<close>

text \<open>Calls one after the other, each after a pause.\<close>

primrec calls :: "(duration \<times> hreq) list \<Rightarrow> hclient \<Rightarrow> world \<Rightarrow> hclient \<times> world" where
  "calls [] c w = (c, w)"
| "calls (x # xs) c w = calls xs (fst (snd (client_Do (snd x) c (w\<lparr>hw_now := hw_now w + fst x\<rparr>))))
     (snd (snd (client_Do (snd x) c (w\<lparr>hw_now := hw_now w + fst x\<rparr>))))"

text \<open>An answer that the client reports to the breaker as a failure.\<close>

definition failing :: "(string, response) res \<Rightarrow> bool" where
  "failing r \<longleftrightarrow> (case r of Inl _ \<Rightarrow> True | Inr resp \<Rightarrow> StatusCode resp \<ge> 500)"

definition down :: "world \<Rightarrow> bool" where
  "down w \<longleftrightarrow> (\<forall>k. failing (hw_net w k) \<and> 0 \<le> hw_latency w k)"

section \<open>The breaker during an outage\<close>

text \<open>
  \<open>sent\<close> requests have failed since \<open>t0\<close>. A closed entry has counted them; once it has opened, each further one has cost a
  whole timeout. At rest an entry is half-open only if no probe is ever admitted.
\<close>

definition charged :: "BreakerConfig \<Rightarrow> nat \<Rightarrow> instant \<Rightarrow> bool" where
  "charged cfg sent d \<longleftrightarrow> (int sent - max 1 (FailureThreshold cfg)) * OpenTimeout cfg \<le> d"

definition outage_entry :: "BreakerConfig \<Rightarrow> instant \<Rightarrow> nat \<Rightarrow> instant \<Rightarrow> breakerEntry \<Rightarrow> bool" where
  "outage_entry cfg t0 sent now e \<longleftrightarrow> t0 \<le> now \<and>
     (case e_state e of
        BreakerClosed \<Rightarrow> e_failures e = int sent \<and> int sent < max 1 (FailureThreshold cfg)
      | BreakerOpen \<Rightarrow> charged cfg sent (e_openedAt e - t0) \<and> e_openedAt e \<le> now
      | BreakerHalfOpen \<Rightarrow> charged cfg sent (now - t0) \<and> MaxHalfOpenRequests cfg \<le> e_halfOpenInFlight e)"

lemma outage_entry_later: "outage_entry cfg t0 sent now e \<Longrightarrow> now \<le> now' \<Longrightarrow> outage_entry cfg t0 sent now' e"
  by (auto simp: outage_entry_def charged_def split: BreakerState.splits)

lemma outage_admit:
  assumes "outage_entry cfg t0 sent now e" and "admit cfg now e = (adm, e1, ch)" and "now \<le> now'"
  shows "if adm = Refused then outage_entry cfg t0 sent now e1
    else outage_entry cfg t0 (Suc sent) now' (fst (report cfg now' adm False e1))"
proof (cases "e_state e")
  case BreakerClosed
  then have a: "adm = AdmitClosed" "e1 = e" using assms(2) by (simp_all add: admit_def)
  have op: "charged cfg (Suc sent) (now' - t0)" if "FailureThreshold cfg \<le> int sent + 1"
  proof -
    have "int (Suc sent) = max 1 (FailureThreshold cfg)" using that assms(1) BreakerClosed by (auto simp: outage_entry_def)
    then show ?thesis using assms(1,3) by (simp add: charged_def outage_entry_def)
  qed
  with a BreakerClosed assms(1,3) show ?thesis
    by (auto simp: outage_entry_def report_def Let_def transition_def)
next
  case BreakerOpen
  show ?thesis
  proof (cases "Sub now (e_openedAt e) < OpenTimeout cfg")
    case True
    then show ?thesis using assms BreakerOpen by (auto simp: admit_def)
  next
    case False
    then have "OpenTimeout cfg \<le> now - e_openedAt e"
      using assms(1) BreakerOpen by (auto simp: outage_entry_def Sub_def)
    then have ch: "charged cfg (Suc sent) (now - t0)" "charged cfg sent (now - t0)"
      using assms(1) BreakerOpen by (auto simp: outage_entry_def charged_def algebra_simps)
    then have "charged cfg (Suc sent) (now' - t0)" using assms(3) by (simp add: charged_def)
    then show ?thesis
      using False assms BreakerOpen ch
      by (auto simp: admit_def admit_half_open_def transition_def report_def outage_entry_def Let_def split: if_splits)
  qed
next
  case BreakerHalfOpen
  then show ?thesis
    using assms by (auto simp: admit_def admit_half_open_def outage_entry_def)
qed

section \<open>The client during an outage\<close>

definition outage :: "BreakerConfig \<Rightarrow> string \<Rightarrow> instant \<Rightarrow> nat \<Rightarrow> hclient \<Rightarrow> world \<Rightarrow> bool" where
  "outage cfg host t0 n0 c w \<longleftrightarrow> down w \<and> n0 \<le> length (hw_sent w) \<and>
     (\<exists>b a b1. hc_breaker c = Some b \<and> entryFor host b = (Some a, b1) \<and> bk_cfg b1 = cfg \<and>
        outage_entry cfg t0 (length (hw_sent w) - n0) (hw_now w) (heap b1 a))"

lemma attempt_down:
  assumes "down w"
  shows "\<exists>e. attempt_fn bdy (x, w) = (Some e, (to_result (hw_net w (length (hw_sent w))), snd (http_Do bdy w)))"
  using assms by (auto simp: attempt_fn_def http_Do_def Let_def down_def failing_def split: sum.splits)

lemma down_http_Do: "down w \<Longrightarrow> down (snd (http_Do bdy w))"
  by (simp add: down_def http_Do_def Let_def)

lemma outage_client_do:
  assumes "outage cfg host t0 n0 c w" and "client_do host bdy c w = (res, c', w')"
  shows "outage cfg host t0 n0 c' w'"
proof -
  obtain b a b1 where b: "hc_breaker c = Some b" "entryFor host b = (Some a, b1)" "bk_cfg b1 = cfg"
    and e: "outage_entry cfg t0 (length (hw_sent w) - n0) (hw_now w) (heap b1 a)"
    and w: "down w" "n0 \<le> length (hw_sent w)"
    using assms(1) by (auto simp: outage_def)
  let ?now' = "hw_now w + hw_latency w (length (hw_sent w))"
  have t: "hw_now w \<le> ?now'" using w(1) by (simp add: down_def)
  obtain adm e1 ch where ad: "admit cfg (hw_now w) (heap b1 a) = (adm, e1, ch)" by (metis prod.exhaust)
  obtain err where f: "attempt_fn bdy ((None, None), w) = (Some err, (to_result (hw_net w (length (hw_sent w))), snd (http_Do bdy w)))"
    using attempt_down [OF w(1)] by blast
  note h = entryFor_again [OF b(2)] and step = outage_admit [OF e ad t]
  show ?thesis
  proof (cases "adm = Refused")
    case True
    then have "c' = c\<lparr>hc_breaker := Some (put_entry host a (e1, ch) b1)\<rparr>" "w' = w"
      using assms(2) b ad by (auto simp: client_do_def execute_def Let_def)
    then show ?thesis using w b(3) h step True by (simp add: outage_def)
  next
    case False
    let ?b = "put_entry host a (report cfg ?now' adm False e1) (put_entry host a (e1, ch) b1)"
    have "c' = c\<lparr>hc_breaker := Some ?b\<rparr>" "w' = snd (http_Do bdy w)"
      using assms(2) b ad f False by (auto simp: client_do_def execute_def Let_def)
    then show ?thesis
      using w b(3) h step False down_http_Do [OF w(1)] by (simp add: outage_def http_Do_def Let_def Suc_diff_le)
  qed
qed

lemma outage_later:
  assumes "outage cfg host t0 n0 c w" and "hw_now w \<le> hw_now w'"
    and "hw_sent w' = hw_sent w" and "hw_net w' = hw_net w" and "hw_latency w' = hw_latency w"
  shows "outage cfg host t0 n0 c w'"
  using assms outage_entry_later [of cfg t0 _ "hw_now w" _ "hw_now w'"] by (auto simp: outage_def down_def)

lemma outage_backoff:
  assumes "outage cfg host t0 n0 c w" and "backoff d w = (ok, w')"
  shows "outage cfg host t0 n0 c w'"
  by (rule outage_later [OF assms(1)]) (use assms(2) in \<open>auto simp: backoff_def split: option.splits if_splits\<close>)

lemma outage_retry_loop:
  assumes "outage cfg (rq_host req) t0 n0 c w" and "retry_loop rc req n bdy d c w = (res, c', w')"
  shows "outage cfg (rq_host req) t0 n0 c' w'"
  using assms
proof (induction n arbitrary: bdy d c w)
  case (Suc n)
  show ?case
  proof (cases bdy)
    case (Inr p)
    obtain r c1 w1 where d1: "client_do (rq_host req) p c w = (r, c1, w1)" by (metis prod.exhaust)
    note o1 = outage_client_do [OF Suc.prems(1) d1]
    obtain ok w2 where b: "backoff d w1 = (ok, w2)" by fastforce
    note o2 = outage_backoff [OF o1 b]
    show ?thesis
      using Suc.prems(2) Inr d1 b o1 o2 Suc.IH [OF o2] by (auto split: if_splits bool.splits)
  qed (use Suc.prems in simp)
qed simp

lemma outage_client_Do:
  assumes "outage cfg (rq_host req) t0 n0 c w"
  shows "outage cfg (rq_host req) t0 n0 (fst (snd (client_Do req c w))) (snd (snd (client_Do req c w)))"
proof -
  obtain res c' w' where r: "client_Do req c w = (res, c', w')" by (metis prod.exhaust)
  then have "outage cfg (rq_host req) t0 n0 c' w'"
    using outage_client_do [OF assms] outage_retry_loop [OF assms]
    by (auto simp: client_Do_def doWithRetry_def split: option.splits)
  then show ?thesis by (simp add: r)
qed

lemma outage_calls:
  assumes "outage cfg host t0 n0 c w" and "\<forall>x \<in> set xs. rq_host (snd x) = host \<and> 0 \<le> fst x"
  shows "outage cfg host t0 n0 (fst (calls xs c w)) (snd (calls xs c w))"
  using assms
proof (induction xs arbitrary: c w)
  case (Cons x xs)
  have h: "rq_host (snd x) = host" "0 \<le> fst x" using Cons.prems(2) by simp_all
  have "outage cfg host t0 n0 c (w\<lparr>hw_now := hw_now w + fst x\<rparr>)"
    by (rule outage_later [OF Cons.prems(1)]) (simp_all add: h)
  from outage_client_Do [of cfg "snd x" t0 n0, unfolded h(1), OF this] Cons.IH Cons.prems(2) show ?case by simp
qed simp

lemma outage_start:
  assumes "cc_CircuitBreaker cfg = Some bc" and "down w"
  shows "\<exists>cfg'. FailureThreshold cfg' = FailureThreshold bc \<and> OpenTimeout cfg' = OpenTimeout bc \<and>
    outage cfg' host (hw_now w) (length (hw_sent w)) (NewClient cfg) w"
proof -
  let ?b = "newBreaker bc"
  obtain a b1 where e: "entryFor host ?b = (Some a, b1)" "heap b1 a = new_entry" "bk_cfg b1 = bk_cfg ?b"
    by (auto simp: entryFor_def newBreaker_def DefaultMaxHosts_def Let_def)
  have "outage_entry (bk_cfg ?b) (hw_now w) 0 (hw_now w) new_entry" by (simp add: outage_entry_def new_entry_def)
  with e assms have "outage (bk_cfg ?b) host (hw_now w) (length (hw_sent w)) (NewClient cfg) w"
    by (simp add: outage_def NewClient_def)
  moreover have "FailureThreshold (bk_cfg ?b) = FailureThreshold bc" "OpenTimeout (bk_cfg ?b) = OpenTimeout bc"
    by (simp_all add: newBreaker_def)
  ultimately show ?thesis by blast
qed

lemma outage_entry_charged:
  assumes "outage_entry cfg t0 n now e" and "0 < OpenTimeout cfg"
  shows "charged cfg n (now - t0)"
proof (cases "e_state e")
  case BreakerClosed
  with assms have "int n < max 1 (FailureThreshold cfg)" "t0 \<le> now" by (simp_all add: outage_entry_def)
  with assms(2) show ?thesis unfolding charged_def by (intro order_trans [OF mult_nonpos_nonneg]) simp_all
qed (use assms(1) in \<open>auto simp: outage_entry_def charged_def\<close>)

lemma outage_charged:
  "outage cfg host t0 n0 c w \<Longrightarrow> 0 < OpenTimeout cfg \<Longrightarrow> charged cfg (length (hw_sent w) - n0) (hw_now w - t0)"
  unfolding outage_def using outage_entry_charged by blast

section \<open>Properties\<close>

text \<open>
  C6: A host that is down is spared. While every request to it fails (a transport error or a status from 500 on), a new
  client with a circuit breaker whose calls are made one after the other sends it at most \<open>FailureThreshold\<close> requests and
  one more for every full \<open>OpenTimeout\<close> (a positive one) that passes, however many such calls there are, with whatever
  retries, bodies and pauses; in particular no more than \<open>FailureThreshold\<close> (at least one) in less than a timeout. Calls
  that are in flight at the same time are outside of this: a closed breaker admits all of them.
\<close>
theorem outage_load_bounded:
  assumes "cc_CircuitBreaker cfg = Some bc" and "0 < OpenTimeout bc" and "down w"
    and "\<forall>x \<in> set xs. rq_host (snd x) = host \<and> 0 \<le> fst x"
    and "calls xs (NewClient cfg) w = (c', w')"
  defines "sent \<equiv> int (length (hw_sent w') - length (hw_sent w))"
  shows "(sent - max 1 (FailureThreshold bc)) * OpenTimeout bc \<le> hw_now w' - hw_now w \<and>
    (hw_now w' - hw_now w < OpenTimeout bc \<longrightarrow> sent \<le> max 1 (FailureThreshold bc))"
proof -
  obtain cfg' where c: "FailureThreshold cfg' = FailureThreshold bc" "OpenTimeout cfg' = OpenTimeout bc"
    and o: "outage cfg' host (hw_now w) (length (hw_sent w)) (NewClient cfg) w"
    using outage_start [OF assms(1,3)] by blast
  have "outage cfg' host (hw_now w) (length (hw_sent w)) c' w'" using outage_calls [OF o assms(4)] assms(5) by simp
  from outage_charged [OF this] assms(2) have ch: "(sent - max 1 (FailureThreshold bc)) * OpenTimeout bc \<le> hw_now w' - hw_now w"
    by (simp add: charged_def c sent_def)
  moreover have "sent \<le> max 1 (FailureThreshold bc)" if "hw_now w' - hw_now w < OpenTimeout bc"
  proof (rule ccontr)
    assume "\<not> sent \<le> max 1 (FailureThreshold bc)"
    then have "1 * OpenTimeout bc \<le> (sent - max 1 (FailureThreshold bc)) * OpenTimeout bc"
      using assms(2) by (intro mult_right_mono) simp_all
    with ch that show False by simp
  qed
  ultimately show ?thesis by blast
qed

text \<open>A client with retries, in front of a server that answers 503 at once.\<close>

definition sample_outage :: world where
  "sample_outage = \<lparr>hw_now = 0, hw_deadline = None, hw_net = (\<lambda>_. Inr \<lparr>StatusCode = 503, Body_bytes = []\<rparr>), hw_latency = (\<lambda>_. 1),
     hw_sent = [], hw_slept = []\<rparr>"

definition sample_guarded :: ClientConfig where
  "sample_guarded = \<lparr>cc_Timeout = 0, cc_CircuitBreaker = Some \<lparr>FailureThreshold = 2, SuccessThreshold = 1, OpenTimeout = 60 * Second,
     MaxHalfOpenRequests = 1, MaxHosts = 0\<rparr>,
     cc_Retry = Some \<lparr>MaxAttempts = 3, BaseDelay = 0, MaxDelay = 0, ShouldRetry = None\<rparr>, cc_MaxResponseBytes = 0\<rparr>"

theorem outage_load_bounded_witness:
  "let r = \<lparr>rq_host = ''h'', rq_body = [], rq_drained = [], rq_getBody = None\<rparr>;
       w' = snd (calls [(0, r), (1, r), (1, r)] (NewClient sample_guarded) sample_outage)
   in length (hw_sent w') = 2 \<and> hw_now w' < 60 * Second"
proof -
  let ?r = "\<lparr>rq_host = ''h'', rq_body = [], rq_drained = [], rq_getBody = None\<rparr>"
  let ?xs = "[(0, ?r), (1, ?r), (1, ?r)]"
  obtain c' w' where r: "calls ?xs (NewClient sample_guarded) sample_outage = (c', w')" by fastforce
  have d: "down sample_outage" by (simp add: down_def failing_def sample_outage_def)
  have "hw_now (snd (calls ?xs (NewClient sample_guarded) sample_outage)) < 60 * Second" by code_simp
  then have t: "hw_now w' < 60 * Second" by (simp only: r snd_conv)
  have u: "int (length (hw_sent w') - length (hw_sent sample_outage)) \<le> max 1 2"
    using outage_load_bounded [of sample_guarded _ sample_outage ?xs "''h''", OF _ _ d _ r] t
    by (simp add: sample_guarded_def Second_def sample_outage_def)
  have "2 \<le> length (hw_sent (snd (calls ?xs (NewClient sample_guarded) sample_outage)))" by code_simp
  then have "2 \<le> length (hw_sent w')" by (simp only: r snd_conv)
  with t u show ?thesis by (simp only: Let_def r snd_conv) (simp add: sample_outage_def)
qed

end
