(* ===== verification/ServiceAuth.thy ===== *)
theory ServiceAuth
  imports HttpClient
begin

text \<open>
  Service-to-service authentication of \<open>http/client/serviceauth.go\<close> over a history of calls: \<open>WithServiceAuth\<close> wraps
  a transport, and every request sent through it carries a token the Auth API issued for the configured credentials
  and that has not expired. The token endpoint and \<open>json.Unmarshal\<close> are arguments, as in \<open>HttpClient\<close>; calls are
  taken one after the other (concurrent callers share a fetch).
\<close>

section \<open>The transport\<close>

record 'a authTransport =
  at_base :: "header \<Rightarrow> 'a"
  at_src :: tokenSource

definition WithServiceAuth :: "(header \<Rightarrow> 'a) \<Rightarrow> (header \<Rightarrow> 'a) option \<Rightarrow> tokenSource \<Rightarrow> 'a authTransport" where
  "WithServiceAuth DefaultTransport base src =
     \<lparr>at_base = (case base of None \<Rightarrow> DefaultTransport | Some b \<Rightarrow> b), at_src = src\<rparr>"

text \<open>A call: when it reads the clock, when the answer of a fetch would be stored, the headers of the request.\<close>

record svc_call =
  sc_now :: instant
  sc_stored :: instant
  sc_header :: header

type_synonym token_post = "nat \<Rightarrow> string \<Rightarrow> (string \<times> string) list \<Rightarrow> (string, response) res option"
type_synonym token_decode = "string \<Rightarrow> tokenResponse option"

definition RoundTrip ::
  "token_post \<Rightarrow> token_decode \<Rightarrow> svc_call \<Rightarrow> 'a authTransport \<Rightarrow> (svc_error, 'a) res \<times> 'a authTransport" where
  "RoundTrip post decode c t =
     (let (tok, s') = Token post decode (sc_now c) (sc_stored c) (at_src t)
      in (auth_RoundTrip (at_base t) tok (sc_header c), t\<lparr>at_src := s'\<rparr>))"

primrec send_all ::
  "token_post \<Rightarrow> token_decode \<Rightarrow> svc_call list \<Rightarrow> 'a authTransport \<Rightarrow> (svc_error, 'a) res list \<times> 'a authTransport" where
  "send_all post decode [] t = ([], t)"
| "send_all post decode (c # cs) t =
     (let (r, t1) = RoundTrip post decode c t; (rs, t2) = send_all post decode cs t1 in (r # rs, t2))"

section \<open>What a token is worth\<close>

text \<open>The \<open>k\<close>-th token request, sent with the form of these credentials, was answered with \<open>tr\<close>.\<close>

definition issued :: "token_post \<Rightarrow> token_decode \<Rightarrow> ServiceAuthConfig \<Rightarrow> nat \<Rightarrow> tokenResponse \<Rightarrow> bool" where
  "issued post decode cfg k tr \<longleftrightarrow>
     (case post k (TokenURL cfg) (token_form cfg) of
        Some (Inr res) \<Rightarrow> 200 \<le> StatusCode res \<and> StatusCode res < 300 \<and>
          decode (take (nat DefaultMaxResponseBytes) (Body_bytes res)) = Some tr \<and> AccessToken tr \<noteq> []
      | _ \<Rightarrow> False)"

definition lifetime :: "tokenResponse \<Rightarrow> duration" where
  "lifetime tr = (if ExpiresIn tr > 0 then ExpiresIn tr * Second else DefaultTokenTTL)"

definition margin :: duration where "margin = 125000000"

text \<open>The token source after some calls, and the number of the token request the \<open>j\<close>-th call makes, if it makes one.\<close>

definition src_after :: "token_post \<Rightarrow> token_decode \<Rightarrow> 'a authTransport \<Rightarrow> svc_call list \<Rightarrow> tokenSource" where
  "src_after post decode t cs = at_src (snd (send_all post decode cs t))"

definition fetch_by :: "token_post \<Rightarrow> token_decode \<Rightarrow> 'a authTransport \<Rightarrow> svc_call list \<Rightarrow> nat \<Rightarrow> nat option" where
  "fetch_by post decode t calls j =
     (let n = ts_fetches (src_after post decode t (take j calls))
      in if ts_fetches (src_after post decode t (take (Suc j) calls)) = Suc n then Some n else None)"

text \<open>
  What the \<open>i\<close>-th of these calls may send: the token of a request made by the \<open>j\<close>-th call, which is that very call, or
  an earlier one whose token is still \<open>margin\<close> away from its expiry.
\<close>

definition valid_at ::
  "token_post \<Rightarrow> token_decode \<Rightarrow> ServiceAuthConfig \<Rightarrow> 'a authTransport \<Rightarrow> svc_call list \<Rightarrow> nat \<Rightarrow> string \<Rightarrow> bool" where
  "valid_at post decode cfg t calls i tok \<longleftrightarrow>
     (\<exists>j \<le> i. \<exists>k tr. fetch_by post decode t calls j = Some k \<and> issued post decode cfg k tr \<and> tok = AccessToken tr \<and>
        (j = i \<or> sc_now (calls ! i) + margin < sc_stored (calls ! j) + lifetime tr))"

text \<open>Lifetimes the endpoint issues, for which \<open>time.Duration(ExpiresIn) * time.Second\<close> does not overflow.\<close>

definition lifetimes_fit :: "token_post \<Rightarrow> token_decode \<Rightarrow> ServiceAuthConfig \<Rightarrow> bool" where
  "lifetimes_fit post decode cfg \<longleftrightarrow> (\<forall>k tr. issued post decode cfg k tr \<longrightarrow> ExpiresIn tr \<le> 9223372036)"

lemma token_fetch_cases:
  assumes "token_fetch post decode now s = (r, s')"
  obtains (failed) e where "r = Inl e" "s' = s\<lparr>ts_fetches := Suc (ts_fetches s)\<rparr>"
  | (stored) tr where "issued post decode (ts_cfg s) (ts_fetches s) tr" "r = Inr (AccessToken tr)"
      "s' = s\<lparr>ts_fetches := Suc (ts_fetches s), ts_token := AccessToken tr, ts_refreshAt := now + refresh_after (token_ttl tr)\<rparr>"
  using assms
  by (auto simp: token_fetch_def issued_def Let_def split: option.splits sum.splits if_splits)

lemma refresh_before_expiry:
  assumes "ExpiresIn tr \<le> 9223372036"
  shows "refresh_after (token_ttl tr) + margin \<le> lifetime tr"
proof -
  have ttl: "token_ttl tr = lifetime tr" and b: "Second \<le> lifetime tr" "lifetime tr < 2 ^ 63"
    using assms by (auto simp: token_ttl_def lifetime_def in_int64_def Second_def DefaultTokenTTL_def Minute_def)
  from refresh_margin [OF b] b show ?thesis
    by (simp add: refresh_after_def ttl margin_def in_int64_def Second_def)
qed

lemma send_all_snoc:
  "snd (send_all post decode (cs @ [c]) t) = snd (RoundTrip post decode c (snd (send_all post decode cs t)))"
  by (induction cs arbitrary: t) (auto simp: Let_def split_beta)

lemma src_after_Suc:
  assumes "n < length calls"
  shows "src_after post decode t (take (Suc n) calls) =
    snd (Token post decode (sc_now (calls ! n)) (sc_stored (calls ! n)) (src_after post decode t (take n calls)))"
  using assms by (simp add: src_after_def take_Suc_conv_app_nth send_all_snoc RoundTrip_def split_beta Let_def)

lemma send_all_nth:
  "i < length calls \<Longrightarrow> fst (send_all post decode calls t) ! i =
     auth_RoundTrip (at_base t)
       (fst (Token post decode (sc_now (calls ! i)) (sc_stored (calls ! i)) (src_after post decode t (take i calls))))
       (sc_header (calls ! i))"
proof (induction calls arbitrary: t i)
  case (Cons c calls)
  then show ?case by (cases i) (auto simp: RoundTrip_def src_after_def split_beta Let_def)
qed simp

lemma send_all_length: "length (fst (send_all post decode calls t)) = length calls"
  by (induction calls arbitrary: t) (auto simp: split_beta Let_def)

text \<open>The invariant: a stored token comes from a call made, and its refresh time lies \<open>margin\<close> before its expiry.\<close>

definition src_ok :: "token_post \<Rightarrow> token_decode \<Rightarrow> ServiceAuthConfig \<Rightarrow> 'a authTransport \<Rightarrow> svc_call list \<Rightarrow> nat \<Rightarrow> bool" where
  "src_ok post decode cfg t calls n \<longleftrightarrow>
     (let s = src_after post decode t (take n calls)
      in ts_cfg s = cfg \<and>
         (ts_token s = [] \<or>
          (\<exists>j < n. \<exists>k tr. fetch_by post decode t calls j = Some k \<and> issued post decode cfg k tr \<and> ts_token s = AccessToken tr \<and>
             ts_refreshAt s + margin \<le> sc_stored (calls ! j) + lifetime tr)))"

lemma Token_step:
  fixes calls :: "svc_call list" and t :: "'a authTransport"
  assumes life: "lifetimes_fit post decode cfg" and n: "n < length calls" and ok: "src_ok post decode cfg t calls n"
    and tok: "Token post decode (sc_now (calls ! n)) (sc_stored (calls ! n)) (src_after post decode t (take n calls)) = (r, s')"
  shows "src_ok post decode cfg t calls (Suc n) \<and> (\<forall>tok. r = Inr tok \<longrightarrow> valid_at post decode cfg t calls n tok)"
proof -
  let ?s = "src_after post decode t (take n calls)"
  have s': "src_after post decode t (take (Suc n) calls) = s'" using src_after_Suc [OF n, of post decode t] tok by (simp only: snd_conv)
  show ?thesis
  proof (cases "ts_token ?s \<noteq> [] \<and> sc_now (calls ! n) < ts_refreshAt ?s")
    case True
    with tok have r: "r = Inr (ts_token ?s)" "s' = ?s" by (auto simp: Token_def)
    from True ok obtain j k tr where j: "j < n" "fetch_by post decode t calls j = Some k" "issued post decode cfg k tr"
      "ts_token ?s = AccessToken tr" "ts_refreshAt ?s + margin \<le> sc_stored (calls ! j) + lifetime tr"
      by (auto simp: src_ok_def Let_def)
    then have "valid_at post decode cfg t calls n (ts_token ?s)" unfolding valid_at_def using True
      by (intro exI [of _ j] exI [of _ k] exI [of _ tr]) auto
    moreover have "src_ok post decode cfg t calls (Suc n)"
      using ok j r(2) s' unfolding src_ok_def Let_def by (metis less_Suc_eq)
    ultimately show ?thesis using r(1) by simp
  next
    case False
    with tok have "token_fetch post decode (sc_stored (calls ! n)) ?s = (r, s')" by (auto simp: Token_def split: if_splits)
    then show ?thesis
    proof (cases rule: token_fetch_cases)
      case (failed e)
      then show ?thesis using ok s' unfolding src_ok_def Let_def by (auto intro: less_SucI)
    next
      case (stored tr)
      have cfg: "ts_cfg ?s = cfg" using ok by (simp add: src_ok_def Let_def)
      have f: "fetch_by post decode t calls n = Some (ts_fetches ?s)" using stored(3) s' by (simp add: fetch_by_def)
      have i: "issued post decode cfg (ts_fetches ?s) tr" using stored(1) cfg by simp
      have "refresh_after (token_ttl tr) + margin \<le> lifetime tr"
        by (rule refresh_before_expiry) (use life i in \<open>simp add: lifetimes_fit_def\<close>)
      then have "src_ok post decode cfg t calls (Suc n)" unfolding src_ok_def Let_def s' using stored(3) cfg f i
        by (intro conjI disjI2 exI [of _ n] exI [of _ "ts_fetches ?s"] exI [of _ tr]) auto
      moreover have "valid_at post decode cfg t calls n (AccessToken tr)" unfolding valid_at_def using f i by blast
      ultimately show ?thesis using stored(2) by simp
    qed
  qed
qed

lemma src_ok_run:
  assumes "lifetimes_fit post decode cfg" and "NewClientCredentialsTokenSource cfg = Inr src" and "n \<le> length calls"
  shows "src_ok post decode cfg (WithServiceAuth dflt base src) calls n"
  using assms(3)
proof (induction n)
  case 0
  show ?case using assms(2)
    by (auto simp: NewClientCredentialsTokenSource_def WithServiceAuth_def src_ok_def src_after_def Let_def split: if_splits)
next
  case (Suc n)
  then show ?case using Token_step [OF assms(1)] by (metis Suc_leD Suc_le_lessD prod.collapse)
qed

section \<open>Every request is authenticated\<close>

text \<open>
  C19: A request sent through \<open>WithServiceAuth\<close> carries the Bearer token of an answer the Auth API gave to a token
  request with the configured client credentials. That token request was made by the very call that sends it, or
  by an earlier call, and then more than an eighth of a second of the token's lifetime, counted from when it was
  stored, is left when the token is taken from the cache. Without a token nothing is sent. Calls are made one
  after the other, and the lifetimes the endpoint issues are at most 9223372036 seconds, so that
  \<open>time.Duration(ExpiresIn) * time.Second\<close> does not overflow.
\<close>
theorem service_calls_authenticated:
  assumes "lifetimes_fit post decode cfg"
    and "NewClientCredentialsTokenSource cfg = Inr src"
    and "send_all post decode calls (WithServiceAuth dflt base src) = (outs, t')"
  shows "length outs = length calls \<and>
    (\<forall>i < length calls. \<forall>a. outs ! i = Inr a \<longrightarrow>
       (\<exists>tok. valid_at post decode cfg (WithServiceAuth dflt base src) calls i tok \<and>
          a = (case base of None \<Rightarrow> dflt | Some b \<Rightarrow> b)
                (Header_Set (sc_header (calls ! i)) ''Authorization'' (''Bearer '' @ tok))))"
proof (intro conjI allI impI)
  let ?t = "WithServiceAuth dflt base src"
  show "length outs = length calls" using send_all_length [of post decode calls ?t] assms(3) by simp
  fix i a assume i: "i < length calls" and a: "outs ! i = Inr a"
  obtain r s' where tok: "Token post decode (sc_now (calls ! i)) (sc_stored (calls ! i)) (src_after post decode ?t (take i calls)) = (r, s')"
    by fastforce
  have "auth_RoundTrip (at_base ?t) r (sc_header (calls ! i)) = Inr a"
    using send_all_nth [OF i, of post decode ?t] a assms(3) tok by simp
  then obtain k where "r = Inr k" "a = at_base ?t (Header_Set (sc_header (calls ! i)) ''Authorization'' (''Bearer '' @ k))"
    by (auto simp: auth_RoundTrip_def split: sum.splits)
  with Token_step [OF assms(1) i src_ok_run [OF assms(1,2) less_imp_le [OF i]] tok]
  show "\<exists>tok. valid_at post decode cfg ?t calls i tok \<and>
      a = (case base of None \<Rightarrow> dflt | Some b \<Rightarrow> b) (Header_Set (sc_header (calls ! i)) ''Authorization'' (''Bearer '' @ tok))"
    by (auto simp: WithServiceAuth_def)
qed

text \<open>Two calls half an hour apart use one token of an hour; a third call after it is about to expire fetches another.\<close>

definition sample_calls :: "svc_call list" where
  "sample_calls = map (\<lambda>m. \<lparr>sc_now = m * Minute, sc_stored = m * Minute + Second, sc_header = Map.empty\<rparr>) [0, 30, 59]"

definition sample_post :: token_post where
  "sample_post k url form = Some (Inr \<lparr>StatusCode = 200, Body_bytes = (if k = 0 then ''a'' else ''b'')\<rparr>)"

definition sample_decode :: token_decode where
  "sample_decode b = Some \<lparr>AccessToken = b, TokenType = ''Bearer'', ExpiresIn = 3600\<rparr>"

definition sample_auth :: ServiceAuthConfig where
  "sample_auth = \<lparr>TokenURL = ''u'', ClientID = ''i'', ClientSecret = ''s'', Scope = []\<rparr>"

lemma sample_refresh: "refresh_after (token_ttl \<lparr>AccessToken = b, TokenType = ''Bearer'', ExpiresIn = 3600\<rparr>) = 3060 * Second"
proof -
  have "refresh_after (3600 * Second) = 3060 * Second" by code_simp
  then show ?thesis by (simp add: token_ttl_def in_int64_def Second_def)
qed

definition sample_transport :: "string list option authTransport" where
  "sample_transport = WithServiceAuth (\<lambda>h. h ''Authorization'') None
     \<lparr>ts_cfg = sample_auth, ts_token = [], ts_refreshAt = 0, ts_fetches = 0\<rparr>"

theorem service_calls_authenticated_witness:
  "valid_at sample_post sample_decode sample_auth sample_transport sample_calls 1 ''a'' \<and>
   valid_at sample_post sample_decode sample_auth sample_transport sample_calls 2 ''b''"
proof -
  let ?src = "\<lparr>ts_cfg = sample_auth, ts_token = [], ts_refreshAt = 0, ts_fetches = 0\<rparr>"
  let ?t = "WithServiceAuth (\<lambda>h. h ''Authorization'') None ?src"
  let ?outs = "[Inr (Some [''Bearer a'']), Inr (Some [''Bearer a'']), Inr (Some [''Bearer b''])] :: (svc_error, string list option) res list"
  have key: "CanonicalMIMEHeaderKey ''Authorization'' = ''Authorization''" by code_simp
  have one: "take (nat DefaultMaxResponseBytes) [x] = [x]" for x :: char by (simp add: DefaultMaxResponseBytes_def take_Cons')
  have "fst (send_all sample_post sample_decode sample_calls ?t) = ?outs"
    by (simp add: sample_calls_def WithServiceAuth_def RoundTrip_def Token_def token_fetch_def sample_post_def sample_decode_def
        one sample_refresh auth_RoundTrip_def Header_Set_def key Let_def Minute_def Second_def)
  then obtain t' where run: "send_all sample_post sample_decode sample_calls ?t = (?outs, t')" by (metis prod.collapse)
  have n: "length sample_calls = 3" by (simp add: sample_calls_def)
  have life: "lifetimes_fit sample_post sample_decode sample_auth"
    by (auto simp: lifetimes_fit_def issued_def sample_post_def sample_decode_def)
  have src: "NewClientCredentialsTokenSource sample_auth = Inr ?src"
    by (simp add: NewClientCredentialsTokenSource_def sample_auth_def)
  have all: "\<forall>i < 3. \<forall>a. ?outs ! i = Inr a \<longrightarrow>
      (\<exists>tok. valid_at sample_post sample_decode sample_auth sample_transport sample_calls i tok \<and> a = Some [''Bearer '' @ tok])"
    using service_calls_authenticated [OF life src run] by (simp add: n Header_Set_def key sample_transport_def)
  from all [rule_format, of 1 "Some [''Bearer a'']"] all [rule_format, of 2 "Some [''Bearer b'']"] show ?thesis by simp
qed

end
