(* ===== verification/LogPipeline.thy ===== *)
theory LogPipeline
  imports Logger AsyncLog
begin

text \<open>
  The path of a log record from the text handler (\<open>logging/runtime/handler.go\<close>) through the asynchronous writer
  (\<open>logging/runtime/writer.go\<close>) to its destination, and what a reader who splits the destination into lines finds
  there: the records that were logged, whole and in order, and nothing else.
\<close>

section \<open>Reading a log\<close>

primrec lines_from :: "string \<Rightarrow> string \<Rightarrow> string list" where
  "lines_from l [] = []"
| "lines_from l (c # cs) = (if c = LF then l # lines_from [] cs else lines_from (l @ [c]) cs)"

definition log_lines :: "string \<Rightarrow> string list" where
  "log_lines = lines_from []"

lemma lines_from_line: "LF \<notin> set k \<Longrightarrow> lines_from l (k @ LF # rest) = (l @ k) # lines_from [] rest"
  by (induction k arbitrary: l) auto

lemma log_lines_concat:
  "\<forall>l \<in> set ls. LF \<notin> set l \<Longrightarrow> log_lines (concat (map (\<lambda>l. l @ [LF]) ls)) = ls"
  by (induction ls) (auto simp: log_lines_def lines_from_line)

section \<open>Records\<close>

text \<open>
  A logged record with the attributes its logger adds. \<open>fits_line\<close>: the parts that are written without quoting have no
  line break; there is no condition on the values of the other attributes.
\<close>

type_synonym logged = "attr list \<times> log_record"

definition fits_line :: "printers \<Rightarrow> logged \<Rightarrow> bool" where
  "fits_line pr lg \<longleftrightarrow>
     no_break (lr_Time (snd lg)) \<and> no_break (lr_Message (snd lg)) \<and>
     (\<forall>a \<in> set (fst lg @ lr_Attrs (snd lg)). plain_attr a \<and> (fst a = ''request_id'' \<longrightarrow> no_break (value_String pr (snd a))))"

definition written :: "printers \<Rightarrow> RedactMode \<Rightarrow> logged \<Rightarrow> bytes" where
  "written pr mode lg = text_Handle pr mode (fst lg) (snd lg)"

definition line_of :: "printers \<Rightarrow> RedactMode \<Rightarrow> logged \<Rightarrow> string" where
  "line_of pr mode lg = butlast (written pr mode lg)"

lemma written_line: "fits_line pr lg \<Longrightarrow> written pr mode lg = line_of pr mode lg @ [LF] \<and> LF \<notin> set (line_of pr mode lg)"
  using text_Handle_one_line [of "snd lg" "fst lg" pr mode] by (auto simp: fits_line_def written_def line_of_def no_break_def)

lemma log_lines_written:
  "\<forall>lg \<in> set lgs. fits_line pr lg \<Longrightarrow> log_lines (concat (map (written pr mode) lgs)) = map (line_of pr mode) lgs"
proof -
  assume fit: "\<forall>lg \<in> set lgs. fits_line pr lg"
  then have "map (written pr mode) lgs = map (\<lambda>l. l @ [LF]) (map (line_of pr mode) lgs)"
    by (auto simp: written_line)
  moreover have "\<forall>l \<in> set (map (line_of pr mode) lgs). LF \<notin> set l" using fit written_line by auto
  ultimately show ?thesis by (simp only: log_lines_concat)
qed

section \<open>The log is the records\<close>

text \<open>
  C27: Concurrent callers log records with the text handler; each line the queue accepted comes from one record. At any
  moment the lines of the destination are the lines of the first of these records, in the order of acceptance, one
  line per record and no other; when a flush has returned they include every record accepted before it was called,
  and when a close has returned, every record. No value of an attribute can forge, split or join lines; only the
  parts the handler writes unquoted (time, message, request ID, names) must be free of line breaks.
\<close>
theorem log_is_records:
  assumes "aw_step\<^sup>*\<^sup>* (newAsyncWriter cap) s" and "aw_accepted s = map (written pr mode) lgs"
    and "\<forall>lg \<in> set lgs. fits_line pr lg"
  shows "\<exists>n \<le> length lgs. log_lines (concat (aw_dst s)) = map (line_of pr mode) (take n lgs) \<and>
    (\<forall>i k. aw_callers s i = Flushed k \<longrightarrow> k \<le> n) \<and>
    (\<forall>i. aw_callers s i = ClosedWriter \<longrightarrow> n = length lgs)"
proof -
  have inv: "aw_inv s" using assms(1) by (rule reachable_inv)
  then obtain rest where rest: "map (written pr mode) lgs = aw_dst s @ rest" using assms(2) by (auto simp: aw_inv_def)
  let ?n = "length (aw_dst s)"
  have n: "?n \<le> length lgs" using arg_cong [OF rest, of length] by simp
  have "aw_dst s = map (written pr mode) (take ?n lgs)" using arg_cong [OF rest, of "take ?n"] by (simp add: take_map)
  then have "log_lines (concat (aw_dst s)) = map (line_of pr mode) (take ?n lgs)"
    using log_lines_written [of "take ?n lgs"] assms(3) by (metis in_set_takeD)
  moreover have "aw_callers s i = Flushed k \<Longrightarrow> k \<le> ?n" for i k using inv by (auto simp: aw_inv_def in_hand_def)
  moreover have "aw_callers s i = ClosedWriter \<Longrightarrow> ?n = length lgs" for i
    using inv assms(2) by (auto simp: aw_inv_def in_hand_def dest: arg_cong [of _ _ length])
  ultimately show ?thesis using n by blast
qed

text \<open>A record with a line break in a value, logged and flushed: the log has one line.\<close>

definition sample_printers :: printers where
  "sample_printers = \<lparr>pr_marshal = (\<lambda>_. None), pr_plusv = (\<lambda>_. []), pr_isPrint = (\<lambda>_. True)\<rparr>"

definition sample_logged :: logged where
  "sample_logged = ([], \<lparr>lr_Time = ''t'', lr_Level = 0, lr_Message = ''m'', lr_Attrs = [(''k'', VString ([CHR ''a'', LF] @ ''b''))]\<rparr>)"

theorem log_is_records_witness:
  "log_lines (concat (aw_dst (sample_written (written sample_printers RedactStrict sample_logged)))) =
     [line_of sample_printers RedactStrict sample_logged]"
proof -
  let ?s = "sample_written (written sample_printers RedactStrict sample_logged)"
  have "aw_accepted ?s = map (written sample_printers RedactStrict) [sample_logged]" "aw_callers ?s 0 = Flushed 1"
    by (simp_all add: sample_written_def)
  moreover have "fits_line sample_printers sample_logged"
    by (simp add: fits_line_def sample_logged_def plain_attr_def CR_def LF_def)
  ultimately show ?thesis
    using log_is_records [OF sample_written_reachable, of "written sample_printers RedactStrict sample_logged" sample_printers RedactStrict "[sample_logged]"]
    by fastforce
qed

end
