(* ===== verification/Platform.thy ===== *)
theory Platform
  imports Prelude
begin

text \<open>
  The packages that are not implemented yet (\<open>gcp\<close>, \<open>db/sql\<close>, \<open>db/opensearch\<close>, the Apple connectors) and the host settings
  of \<open>security/os/host\<close>. A client of an unimplemented package is its constructor and its methods, which ignore their
  arguments; a call ends with a result or with a panic. What a caller can rely on is the locale \<open>unavailable\<close>: the
  constructor fails, so a program that checks its error never reaches a method.
\<close>

section \<open>Calls\<close>

datatype ('e, 'a) outcome = Returns "('e, 'a) res" | Panics string

record 'm package =
  pk_New :: "(string, unit) outcome"
  pk_call :: "'m \<Rightarrow> (string, unit) outcome"

text \<open>A caller that creates the client, gives up on an error, and otherwise calls the methods it needs one by one.\<close>

fun call_all :: "('m \<Rightarrow> (string, unit) outcome) \<Rightarrow> 'm list \<Rightarrow> (string, unit) outcome" where
  "call_all call [] = Returns (Inr ())"
| "call_all call (m # ms) =
     (case call m of Returns (Inr _) \<Rightarrow> call_all call ms | bad \<Rightarrow> bad)"

definition use_client :: "(string, unit) outcome \<Rightarrow> ('m \<Rightarrow> (string, unit) outcome) \<Rightarrow> 'm list \<Rightarrow> (string, unit) outcome" where
  "use_client new call ms = (case new of Returns (Inr _) \<Rightarrow> call_all call ms | bad \<Rightarrow> bad)"

locale unavailable =
  fixes new :: "(string, unit) outcome" and call :: "'m \<Rightarrow> (string, unit) outcome" and reason :: string
  assumes new_fails: "new = Returns (Inl reason)"
    and call_fails: "(\<exists>t. call m = Panics t) \<or> call m = Returns (Inl reason)"
begin

lemma checked_caller_safe: "use_client new call ms = Returns (Inl reason)"
  by (simp add: use_client_def new_fails)

lemma never_succeeds: "call_all call ms = Returns (Inr u) \<longleftrightarrow> ms = []"
proof (cases ms)
  case (Cons m rest)
  show ?thesis using call_fails [of m] Cons by auto
qed simp

end

section \<open>Google Cloud\<close>

text \<open>\<open>WrapError\<close>, the same in every package: no error stays no error, others get the package and the operation.\<close>

definition gcp_WrapError :: "string \<Rightarrow> string option \<Rightarrow> string \<Rightarrow> string option" where
  "gcp_WrapError pkg err operation =
     (case err of None \<Rightarrow> None | Some e \<Rightarrow> Some (pkg @ '': '' @ operation @ '' failed: '' @ e))"

lemma gcp_WrapError_None: "gcp_WrapError pkg err operation = None \<longleftrightarrow> err = None"
  by (cases err) (simp_all add: gcp_WrapError_def)

lemma gcp_WrapError_inj: "gcp_WrapError pkg e operation = gcp_WrapError pkg e' operation \<longleftrightarrow> e = e'"
  by (cases e; cases e') (simp_all add: gcp_WrapError_def)

datatype ccaiinsights_API = ccaiinsights_AnalyzeConversation | ccaiinsights_GetAnalysis

definition ccaiinsights :: "ccaiinsights_API package" where
  "ccaiinsights = \<lparr>pk_New = Returns (Inl ''ccaiinsights: not implemented''), pk_call = (\<lambda>_. Panics ''ccaiinsights: not implemented'')\<rparr>"

interpretation ccaiinsights: unavailable "pk_New ccaiinsights" "pk_call ccaiinsights" "''ccaiinsights: not implemented''"
  by unfold_locales (simp_all add: ccaiinsights_def)

definition ccaiinsights_WrapError :: "string option \<Rightarrow> string \<Rightarrow> string option" where
  "ccaiinsights_WrapError = gcp_WrapError ''ccaiinsights''"

datatype cloudfunctions_API = cloudfunctions_Invoke

definition cloudfunctions :: "cloudfunctions_API package" where
  "cloudfunctions = \<lparr>pk_New = Returns (Inl ''cloudfunctions: not implemented''), pk_call = (\<lambda>_. Panics ''cloudfunctions: not implemented'')\<rparr>"

interpretation cloudfunctions: unavailable "pk_New cloudfunctions" "pk_call cloudfunctions" "''cloudfunctions: not implemented''"
  by unfold_locales (simp_all add: cloudfunctions_def)

definition cloudfunctions_WrapError :: "string option \<Rightarrow> string \<Rightarrow> string option" where
  "cloudfunctions_WrapError = gcp_WrapError ''cloudfunctions''"

datatype cloudlogging_API = cloudlogging_Write | cloudlogging_WriteBatch

definition cloudlogging :: "cloudlogging_API package" where
  "cloudlogging = \<lparr>pk_New = Returns (Inl ''cloudlogging: not implemented''), pk_call = (\<lambda>_. Panics ''cloudlogging: not implemented'')\<rparr>"

interpretation cloudlogging: unavailable "pk_New cloudlogging" "pk_call cloudlogging" "''cloudlogging: not implemented''"
  by unfold_locales (simp_all add: cloudlogging_def)

definition cloudlogging_WrapError :: "string option \<Rightarrow> string \<Rightarrow> string option" where
  "cloudlogging_WrapError = gcp_WrapError ''cloudlogging''"

datatype cloudmonitoring_API = cloudmonitoring_PutMetric | cloudmonitoring_PutMetrics

definition cloudmonitoring :: "cloudmonitoring_API package" where
  "cloudmonitoring = \<lparr>pk_New = Returns (Inl ''cloudmonitoring: not implemented''), pk_call = (\<lambda>_. Panics ''cloudmonitoring: not implemented'')\<rparr>"

interpretation cloudmonitoring: unavailable "pk_New cloudmonitoring" "pk_call cloudmonitoring" "''cloudmonitoring: not implemented''"
  by unfold_locales (simp_all add: cloudmonitoring_def)

definition cloudmonitoring_WrapError :: "string option \<Rightarrow> string \<Rightarrow> string option" where
  "cloudmonitoring_WrapError = gcp_WrapError ''cloudmonitoring''"

datatype cloudsql_API = cloudsql_DB | cloudsql_Ping | cloudsql_Close

definition cloudsql :: "cloudsql_API package" where
  "cloudsql = \<lparr>pk_New = Returns (Inl ''cloudsql: not implemented''), pk_call = (\<lambda>_. Panics ''cloudsql: not implemented'')\<rparr>"

interpretation cloudsql: unavailable "pk_New cloudsql" "pk_call cloudsql" "''cloudsql: not implemented''"
  by unfold_locales (simp_all add: cloudsql_def)

definition cloudsql_WrapError :: "string option \<Rightarrow> string \<Rightarrow> string option" where
  "cloudsql_WrapError = gcp_WrapError ''cloudsql''"

datatype dialogflow_API = dialogflow_DetectIntent

definition dialogflow :: "dialogflow_API package" where
  "dialogflow = \<lparr>pk_New = Returns (Inl ''dialogflow: not implemented''), pk_call = (\<lambda>_. Panics ''dialogflow: not implemented'')\<rparr>"

interpretation dialogflow: unavailable "pk_New dialogflow" "pk_call dialogflow" "''dialogflow: not implemented''"
  by unfold_locales (simp_all add: dialogflow_def)

definition dialogflow_WrapError :: "string option \<Rightarrow> string \<Rightarrow> string option" where
  "dialogflow_WrapError = gcp_WrapError ''dialogflow''"

datatype firestore_API = firestore_GetItem | firestore_GetItemAs | firestore_PutItem | firestore_PutItemFrom | firestore_UpdateItem | firestore_DeleteItem | firestore_Query | firestore_QueryAs

definition firestore :: "firestore_API package" where
  "firestore = \<lparr>pk_New = Returns (Inl ''firestore: not implemented''), pk_call = (\<lambda>_. Panics ''firestore: not implemented'')\<rparr>"

interpretation firestore: unavailable "pk_New firestore" "pk_call firestore" "''firestore: not implemented''"
  by unfold_locales (simp_all add: firestore_def)

definition firestore_WrapError :: "string option \<Rightarrow> string \<Rightarrow> string option" where
  "firestore_WrapError = gcp_WrapError ''firestore''"

datatype gcs_API = gcs_GetObject | gcs_GetObjectAs | gcs_PutObject | gcs_DeleteObject

definition gcs :: "gcs_API package" where
  "gcs = \<lparr>pk_New = Returns (Inl ''gcs: not implemented''), pk_call = (\<lambda>_. Panics ''gcs: not implemented'')\<rparr>"

interpretation gcs: unavailable "pk_New gcs" "pk_call gcs" "''gcs: not implemented''"
  by unfold_locales (simp_all add: gcs_def)

definition gcs_WrapError :: "string option \<Rightarrow> string \<Rightarrow> string option" where
  "gcs_WrapError = gcp_WrapError ''gcs''"

datatype memorystore_API = memorystore_Get | memorystore_Set | memorystore_Delete | memorystore_Exists

definition memorystore :: "memorystore_API package" where
  "memorystore = \<lparr>pk_New = Returns (Inl ''memorystore: not implemented''), pk_call = (\<lambda>_. Panics ''memorystore: not implemented'')\<rparr>"

interpretation memorystore: unavailable "pk_New memorystore" "pk_call memorystore" "''memorystore: not implemented''"
  by unfold_locales (simp_all add: memorystore_def)

definition memorystore_WrapError :: "string option \<Rightarrow> string \<Rightarrow> string option" where
  "memorystore_WrapError = gcp_WrapError ''memorystore''"

datatype pubsubpub_API = pubsubpub_Publish

definition pubsubpub :: "pubsubpub_API package" where
  "pubsubpub = \<lparr>pk_New = Returns (Inl ''pubsubpub: not implemented''), pk_call = (\<lambda>_. Panics ''pubsubpub: not implemented'')\<rparr>"

interpretation pubsubpub: unavailable "pk_New pubsubpub" "pk_call pubsubpub" "''pubsubpub: not implemented''"
  by unfold_locales (simp_all add: pubsubpub_def)

definition pubsubpub_WrapError :: "string option \<Rightarrow> string \<Rightarrow> string option" where
  "pubsubpub_WrapError = gcp_WrapError ''pubsubpub''"

datatype pubsubsub_API = pubsubsub_Receive | pubsubsub_Ack | pubsubsub_Nack

definition pubsubsub :: "pubsubsub_API package" where
  "pubsubsub = \<lparr>pk_New = Returns (Inl ''pubsubsub: not implemented''), pk_call = (\<lambda>_. Panics ''pubsubsub: not implemented'')\<rparr>"

interpretation pubsubsub: unavailable "pk_New pubsubsub" "pk_call pubsubsub" "''pubsubsub: not implemented''"
  by unfold_locales (simp_all add: pubsubsub_def)

definition pubsubsub_WrapError :: "string option \<Rightarrow> string \<Rightarrow> string option" where
  "pubsubsub_WrapError = gcp_WrapError ''pubsubsub''"

datatype secretmanager_API = secretmanager_GetSecret | secretmanager_GetSecrets

definition secretmanager :: "secretmanager_API package" where
  "secretmanager = \<lparr>pk_New = Returns (Inl ''secretmanager: not implemented''), pk_call = (\<lambda>_. Panics ''secretmanager: not implemented'')\<rparr>"

interpretation secretmanager: unavailable "pk_New secretmanager" "pk_call secretmanager" "''secretmanager: not implemented''"
  by unfold_locales (simp_all add: secretmanager_def)

definition secretmanager_WrapError :: "string option \<Rightarrow> string \<Rightarrow> string option" where
  "secretmanager_WrapError = gcp_WrapError ''secretmanager''"

datatype vertexai_API = vertexai_Invoke | vertexai_InvokeStream

definition vertexai :: "vertexai_API package" where
  "vertexai = \<lparr>pk_New = Returns (Inl ''vertexai: not implemented''), pk_call = (\<lambda>_. Panics ''vertexai: not implemented'')\<rparr>"

interpretation vertexai: unavailable "pk_New vertexai" "pk_call vertexai" "''vertexai: not implemented''"
  by unfold_locales (simp_all add: vertexai_def)

definition vertexai_WrapError :: "string option \<Rightarrow> string \<Rightarrow> string option" where
  "vertexai_WrapError = gcp_WrapError ''vertexai''"

datatype vertexsearch_API = vertexsearch_Search | vertexsearch_Index | vertexsearch_Delete

definition vertexsearch :: "vertexsearch_API package" where
  "vertexsearch = \<lparr>pk_New = Returns (Inl ''vertexsearch: not implemented''), pk_call = (\<lambda>_. Panics ''vertexsearch: not implemented'')\<rparr>"

interpretation vertexsearch: unavailable "pk_New vertexsearch" "pk_call vertexsearch" "''vertexsearch: not implemented''"
  by unfold_locales (simp_all add: vertexsearch_def)

definition vertexsearch_WrapError :: "string option \<Rightarrow> string \<Rightarrow> string option" where
  "vertexsearch_WrapError = gcp_WrapError ''vertexsearch''"

section \<open>Databases and connectors\<close>

datatype sqldb_API = sqldb_Query | sqldb_Exec

definition sqldb :: "sqldb_API package" where
  "sqldb = \<lparr>pk_New = Returns (Inl ''not yet implemented''), pk_call = (\<lambda>_. Returns (Inl ''not yet implemented''))\<rparr>"

interpretation sqldb: unavailable "pk_New sqldb" "pk_call sqldb" "''not yet implemented''"
  by unfold_locales (simp_all add: sqldb_def)

datatype opensearchdb_API = opensearchdb_Index | opensearchdb_Search | opensearchdb_Delete

definition opensearchdb :: "opensearchdb_API package" where
  "opensearchdb = \<lparr>pk_New = Returns (Inl ''not yet implemented''), pk_call = (\<lambda>_. Panics ''opensearch: not yet implemented'')\<rparr>"

interpretation opensearchdb: unavailable "pk_New opensearchdb" "pk_call opensearchdb" "''not yet implemented''"
  by unfold_locales (simp_all add: opensearchdb_def)

datatype AppleAuth = AppleAuth
datatype AppleMaps = AppleMaps

definition NewAppleAuthClient :: AppleAuth where "NewAppleAuthClient = AppleAuth"
definition NewAppleMapsClient :: AppleMaps where "NewAppleMapsClient = AppleMaps"

section \<open>Host settings\<close>

text \<open>
  The kernel is a record of system calls on a state, each giving its error. On other systems the three functions
  are built to do nothing, and report success.
\<close>

record 's unix =
  Setrlimit :: "string \<Rightarrow> nat \<times> nat \<Rightarrow> 's \<Rightarrow> string option \<times> 's"
  Prctl :: "string \<Rightarrow> nat list \<Rightarrow> 's \<Rightarrow> string option \<times> 's"
  Mlockall :: "string list \<Rightarrow> 's \<Rightarrow> string option \<times> 's"

definition DisableCoreDumps :: "'s unix \<Rightarrow> 's \<Rightarrow> string option \<times> 's" where
  "DisableCoreDumps unix s = Setrlimit unix ''RLIMIT_CORE'' (0, 0) s"

definition DisableTracing :: "'s unix \<Rightarrow> 's \<Rightarrow> string option \<times> 's" where
  "DisableTracing unix s = Prctl unix ''PR_SET_DUMPABLE'' [0, 0, 0, 0] s"

definition LockMemory :: "'s unix \<Rightarrow> 's \<Rightarrow> string option \<times> 's" where
  "LockMemory unix s = Mlockall unix [''MCL_CURRENT'', ''MCL_FUTURE''] s"

definition DisableCoreDumps_default :: "'s \<Rightarrow> string option \<times> 's" where "DisableCoreDumps_default s = (None, s)"
definition DisableTracing_default :: "'s \<Rightarrow> string option \<times> 's" where "DisableTracing_default s = (None, s)"
definition LockMemory_default :: "'s \<Rightarrow> string option \<times> 's" where "LockMemory_default s = (None, s)"

text \<open>The settings of a process.\<close>

record hardening =
  core_limit :: "nat \<times> nat"
  dumpable :: bool
  locked :: "string list"

text \<open>What the system calls promise of the settings; a call that fails changes nothing.\<close>

locale hardening_calls =
  fixes unix :: "'s unix" and settings :: "'s \<Rightarrow> hardening"
  assumes rlimit: "settings (snd (Setrlimit unix ''RLIMIT_CORE'' v s)) =
      (if fst (Setrlimit unix ''RLIMIT_CORE'' v s) = None then (settings s)\<lparr>core_limit := v\<rparr> else settings s)"
    and prctl: "settings (snd (Prctl unix ''PR_SET_DUMPABLE'' (d # ds) s)) =
      (if fst (Prctl unix ''PR_SET_DUMPABLE'' (d # ds) s) = None then (settings s)\<lparr>dumpable := (d \<noteq> 0)\<rparr> else settings s)"
    and mlockall: "settings (snd (Mlockall unix fl s)) =
      (if fst (Mlockall unix fl s) = None then (settings s)\<lparr>locked := fl\<rparr> else settings s)"
begin

lemma no_core_dumps: "DisableCoreDumps unix s = (None, s') \<Longrightarrow> settings s' = (settings s)\<lparr>core_limit := (0, 0)\<rparr>"
  using rlimit [of "(0, 0)" s] by (simp add: DisableCoreDumps_def)

lemma not_dumpable: "DisableTracing unix s = (None, s') \<Longrightarrow> settings s' = (settings s)\<lparr>dumpable := False\<rparr>"
  using prctl [of 0 "[0, 0, 0]" s] by (simp add: DisableTracing_def)

lemma memory_locked: "LockMemory unix s = (None, s') \<Longrightarrow> settings s' = (settings s)\<lparr>locked := [''MCL_CURRENT'', ''MCL_FUTURE'']\<rparr>"
  using mlockall [of "[''MCL_CURRENT'', ''MCL_FUTURE'']" s] by (simp add: LockMemory_def)

end

text \<open>A process that may do everything is such a kernel.\<close>

definition linux_process :: "hardening unix" where
  "linux_process = \<lparr>
     Setrlimit = (\<lambda>r v s. (None, if r = ''RLIMIT_CORE'' then s\<lparr>core_limit := v\<rparr> else s)),
     Prctl = (\<lambda>opt vs s. (None, if opt = ''PR_SET_DUMPABLE'' \<and> vs \<noteq> [] then s\<lparr>dumpable := (hd vs \<noteq> 0)\<rparr> else s)),
     Mlockall = (\<lambda>fl s. (None, s\<lparr>locked := fl\<rparr>))\<rparr>"

interpretation linux: hardening_calls linux_process "\<lambda>s. s"
  by unfold_locales (simp_all add: linux_process_def)

end
