(* ===== verification/Spec2Isabelle.thy ===== *)
theory Spec2Isabelle
  imports Middleware Secrets BannedCustomers Health Redis Idempotency Breaker HttpClient Dynamo CloudWatch Rules
    AsyncLog Normalization Security Events Rds AwsClients Ses Jwt Telemetry LogRuntime Websocket Otel Moxtox Tiers
    Routes Outage ServiceAuth LogPipeline Platform
begin

text \<open>
  A verification development for the Komodo Forge SDK (Go), a library of HTTP middlewares, an HTTP client, cloud
  clients, security helpers and logging. A service builds a handler with \<open>chain.Chain\<close> from the SDK's middlewares:
  request ID, client source, authentication, scope guards, rate limiting, IP rules, CSRF, idempotency, content length,
  security headers, rule validation, normalization, sanitization, redaction, telemetry. The middlewares share the
  request's context (\<open>http/context\<close>), answer errors through \<open>api/errors\<close>, and keep state of their own: token buckets,
  reservations, parsed IP lists, rule tables, cached keys. Outgoing calls go through \<open>http/client\<close> with its retries and
  its per-host circuit breaker, or through the AWS clients. Everything logs through \<open>logging/runtime\<close>.

  \<^bold>\<open>Conventions.\<close> Time is an integer number of nanoseconds, durations are 64-bit values kept as integers with
  the wrap-around written out (\<open>wrap64\<close>), strings are byte lists, maps are HOL maps or association lists in the order
  they are ranged over, errors are the left side of a sum, panics are \<open>None\<close> or a result of their own. A function that
  reads the clock takes the instants at which it does. Code outside the repository (the network, Redis, AWS,
  golang-jwt, the OpenTelemetry SDK, YAML, gorilla/websocket) is an argument; what the code relies on is a locale, and
  each locale is interpreted on definitions of the development.

  \<^bold>\<open>Theories.\<close>
  \<^item> \<open>Prelude\<close>, \<open>GoStrings\<close>, \<open>Http\<close>, \<open>Float64\<close>, \<open>Base64\<close>, \<open>GoChan\<close>, \<open>Regexp\<close>, \<open>UrlValues\<close>, \<open>Mime\<close>: the parts of Go and its
    standard library the SDK uses: 64-bit wrap-around, \<open>strings\<close>, \<open>strconv\<close>, headers, cookies, requests, response
    writers, IEEE 754 binary64 with round-to-nearest-even on rationals (without infinities and NaN), base64, buffered
    channels, leftmost-first regular expressions on ASCII text, query strings, quoted-printable and multipart writers.
  \<^item> \<open>HttpContext\<close> (\<open>http/context\<close>), \<open>HttpErrors\<close> (\<open>api/errors\<close>), \<open>Request\<close> (\<open>api/request\<close>): context values,
    error codes and responses, request IDs, API version, client key, request builder.
  \<^item> \<open>RateLimit\<close> (\<open>api/ratelimit/ratelimiter.go\<close>): the token buckets in float64 arithmetic: bounded tokens, the
    exact cut-off of bursts. \<open>RateWindow\<close>: what a key gets in any window of time, in terms of the configured burst and
    rate, however requests, usage queries and the evictor interleave, with the rounding errors of the float64 arithmetic
    bounded.
  \<^item> \<open>Redis\<close> (\<open>db/redis/client.go\<close>): the command wrappers and the Lua token bucket over a server given as a record
    of commands, with the locales \<open>redis_keys\<close> and \<open>redis_hashes\<close>.
  \<^item> \<open>Idempotency\<close> (\<open>api/idempotency/idempotency.go\<close>): both caches as instances of the locale of reservations, and
    a step relation over the atomic operations of concurrent callers and the evictor.
  \<^item> \<open>TtlCache\<close>, \<open>Secrets\<close>, \<open>BannedCustomers\<close>, \<open>Health\<close>: the locale of caches with a time to live and the three
    packages that implement it (\<open>aws/secretsmanager\<close>, \<open>security/bannedcustomers\<close>, \<open>api/handlers/health\<close>).
  \<^item> \<open>Breaker\<close>, \<open>HttpClient\<close> (\<open>http/client\<close>): the circuit breaker with its entries on a heap, sequentially and as a
    step relation; the client, the retry loop and the client-credentials token source. \<open>Outage\<close>: client, retries and
    breaker together bound the load on a host that is down, for calls made one after the other. \<open>ServiceAuth\<close>: every
    request of an authenticated client carries a token that the call itself fetched, or an earlier call whose token has
    not expired.
  \<^item> \<open>Jwks\<close> (\<open>auth/jwks.go\<close>), \<open>Jwt\<close> (\<open>security/jwt\<close>), \<open>IpAccess\<close> (\<open>api/ipaccess/ipaccess.go\<close>), \<open>Headers\<close>
    (\<open>api/headers\<close>): key cache and verification, signing and validation of tokens, address lists, header validation.
  \<^item> \<open>Middleware\<close>: the guarding middlewares as decisions (answer, or pass on), \<open>Chain\<close>, and the locales \<open>guard\<close> and
    \<open>identity_guard\<close> interpreted on each of them. \<open>Contexts\<close> (\<open>api/middleware/exports.go\<close>): any chain of the exported
    middlewares, the deciding ones, CORS and telemetry, hands the handler a context whose values have the documented
    types. \<open>Routes\<close>: a locale for middlewares that admit requests by the state they keep, interpreted on the idempotency
    and the rate limiting middleware inside a chain of others, in runs where the evictors clean up between the requests:
    how often the handler of a route runs.
  \<^item> \<open>Templates\<close> (\<open>rules/parser.go\<close>): the regular expression of a route template, its compilation and what it matches.
    \<open>Rules\<close> (\<open>rules\<close>, \<open>api/validation\<close>): rule files, the most specific rule, validation of requests.
  \<^item> \<open>Redaction\<close> (\<open>security/redaction\<close>), \<open>Rewriting\<close> (\<open>api/sanitization\<close>), \<open>Normalization\<close> (\<open>api/normalization\<close>,
    \<open>api/redaction\<close>): what a rewritten request or value can no longer contain, and what gets through.
  \<^item> \<open>Security\<close> (\<open>security/hashing\<close>, \<open>security/encryption\<close>, \<open>security/oauth\<close>): the encodings around Argon2 and AES-GCM with
    their round trips, scopes.
  \<^item> \<open>Batching\<close>, \<open>AwsConfig\<close>: chunking, page loops and client construction, shared by the AWS clients: \<open>Dynamo\<close>
    (\<open>aws/dynamodb\<close>, with a step relation for its parallel batches), \<open>CloudWatch\<close>, \<open>Rds\<close>, \<open>Ses\<close>, \<open>Events\<close>
    (\<open>aws/sqs\<close>, \<open>aws/sns\<close>, \<open>events\<close>) and \<open>AwsClients\<close> (connect, elasticache, opensearch, lambda, s3, bedrock).
  \<^item> \<open>AsyncLog\<close>, \<open>Logger\<close>, \<open>LogRuntime\<close> (\<open>logging/runtime\<close>), \<open>Otel\<close> (\<open>logging/otel\<close>): the asynchronous writer as a step
    relation (no line lost, closing returns), the HTTP sink, redaction and formatting of records, the life cycle of the
    process-wide logger, the file exporter. \<open>LogPipeline\<close>: handler and writer together, the log read back as lines is
    the sequence of the logged records.
  \<^item> \<open>Telemetry\<close> (\<open>api/response\<close>, \<open>api/telemetry\<close>, \<open>api/server\<close>), \<open>Websocket\<close> (\<open>http/websocket\<close>), \<open>Moxtox\<close>
    (\<open>testing/moxtox\<close>), \<open>Tiers\<close> (\<open>testing/testutil\<close>): response capture and panic recovery, hardened connections, mock
    answers, the order of the test tiers.
  \<^item> \<open>Platform\<close>: the packages that are not implemented yet (\<open>gcp\<close>, \<open>db/sql\<close>, \<open>db/opensearch\<close>, \<open>connectors/apple\<close>) and what a
    caller can rely on, and the host settings (\<open>security/os/host\<close>).
  This theory holds the properties that span components: what protects a service route, and what the rate
  limiter does over Redis.

  \<^bold>\<open>Bounds.\<close> Loops of the code are structural recursions (over checkers, keys, retry attempts) or functions with a
  termination proof; the loops that depend on a service (reading pages, polling a queue) are partial functions into
  \<open>option\<close>, and that they return is proved where the service makes progress. The burst theorem needs token counts
  below \<open>2 ^ 52\<close>, where subtracting 1 is exact. The bound over a window of time allows for a relative error of the
  refill and asks for a burst of at least 1 and that the evictor's time to live is long enough for a bucket to fill up
  (an evicted bucket starts again with the full burst). The theorems on token lifetimes need lifetimes of at most
  9223372036 seconds, where the conversion to a duration does not overflow. The theorems on the circuit breaker name the
  settings they need: a positive number of half-open requests, a limit on the tracked hosts that is not negative.

  \<^bold>\<open>Not modelled.\<close> The log calls inside the components; goroutine scheduling other than where a step relation or a
  schedule says so; decoding and encoding of JSON and YAML, user-supplied regular expressions and printed times, which
  are arguments; regular expressions a parameter key with a \<open>>\<close> smuggles into a route template; text outside ASCII in regular expressions; \<open>ResetForTesting\<close>; the empty files under \<open>connectors\<close>;
  constants no code reads (\<open>aws/constants.go\<close>); code generation.
\<close>

section \<open>Properties that span components\<close>

text \<open>
  C1: A handler behind the JWKS authentication middleware, any middlewares that keep the identity of the request
  and \<open>RequireServiceScope\<close> can influence the answer only if the request carries a bearer token whose signature
  verifies under a key the endpoint published for the token's key ID, whose audience and issuer are the
  configured ones, which has not expired, and which holds a scope starting with \<open>svc:\<close>. The verifier is one that
  \<open>NewJWKSVerifier\<close> built and that has verified any tokens before.
\<close>
theorem service_route_protected:
  assumes "jwt_parser lib sig_ok" and "NewJWKSVerifier cfg = Inr v0"
    and "sdk_verifier s = verify_all lib net decode earlier v0"
    and "\<forall>d' \<in> set ds. keeps_identity d'" and "req_ctx req SCOPES_KEY = None"
    and "Chain f (auth_Middleware (jwks_verifier lib net decode d) # map middleware_of ds @ [RequireServiceScope]) req w s \<noteq>
         Chain g (auth_Middleware (jwks_verifier lib net decode d) # map middleware_of ds @ [RequireServiceScope]) req w s"
  shows "\<exists>token kid k cl n. ExtractTokenFromRequest req = Some token \<and> extractKID lib token = Some kid \<and>
    fst (Verify lib net decode (p_now s) (p_now s + d) token (sdk_verifier s)) = Inr cl \<and> published net decode n kid k \<and> sig_ok token k \<and> ExpectedAudience cfg \<in> set (cl_Audience cl) \<and>
    cl_Issuer cl = ExpectedIssuer cfg \<and> (\<forall>e. cl_ExpiresAt cl = Some e \<longrightarrow> p_now s + d < e) \<and>
    (\<exists>x \<in> set (cl_Scopes cl). HasPrefix x ''svc:'')"
proof -
  let ?v = "jwks_verifier lib net decode d"
  let ?ds = "auth_decide ?v # ds @ [RequireServiceScope_decide]"
  have ch: "auth_Middleware ?v # map middleware_of ds @ [RequireServiceScope] = map middleware_of ?ds"
    by (simp add: auth_Middleware_def RequireServiceScope_def)
  obtain r' w' s' where "chain_decide ?ds req w s = Continue r' w' s'"
    by (rule Chain_differs [OF assms(6) [unfolded ch]])
  then obtain token cl s1 where t: "ExtractTokenFromRequest req = Some token" "?v token s = (Inr cl, s1)"
    "\<exists>x \<in> set (cl_Scopes cl). HasPrefix x ''svc:''"
    by (rule service_route_token [OF assms(4,5)])
  then obtain v' where v: "Verify lib net decode (p_now s) (p_now s + d) token (verify_all lib net decode earlier v0) = (Inr cl, v')"
    using assms(3) by (auto simp: jwks_verifier_def split: prod.splits)
  note ok = Verify_claims [OF assms(1,2) v]
  then obtain kid k where "extractKID lib token = Some kid" "published net decode (v_fetches v') kid k" "sig_ok token k"
    by blast
  with t ok v show ?thesis
    by (intro exI [of _ token] exI [of _ kid] exI [of _ k] exI [of _ cl] exI [of _ "v_fetches v'"]) (simp add: assms(3))
qed

lemma sample_service_route:
  "\<exists>req' w' s'. \<forall>f. Chain f (auth_Middleware (jwks_verifier sample_lib (\<lambda>_. Inr (200, ''{}'')) (\<lambda>_. Some sample_jwks) 1) #
       map middleware_of [SecurityHeaders_decide] @ [RequireServiceScope])
     (sample_request\<lparr>req_header := [''Authorization'' \<mapsto> [''Bearer tok'']]\<rparr>) fresh_writer sample_sdk = f req' w' s'"
proof -
  let ?req = "sample_request\<lparr>req_header := [''Authorization'' \<mapsto> [''Bearer tok'']]\<rparr>"
  let ?v = "jwks_verifier sample_lib (\<lambda>_. Inr (200, ''{}'')) (\<lambda>_. Some sample_jwks) 1 :: unit sdk verifier"
  obtain v' where "Verify sample_lib (\<lambda>_. Inr (200, ''{}'')) (\<lambda>_. Some sample_jwks) 0 1 ''tok'' sample_verifier
      = (Inr (mapClaims sample_claims), v')"
    using sample_Verify by blast
  then have v: "?v ''tok'' sample_sdk = (Inr (mapClaims sample_claims), sample_sdk\<lparr>sdk_verifier := v'\<rparr>)"
    by (simp add: jwks_verifier_def sample_sdk_def)
  have t: "ExtractTokenFromRequest ?req = Some ''tok''" by code_simp
  define r1 where "r1 = WithContext ?req (claims_ctx (mapClaims sample_claims) (req_ctx ?req))"
  have a: "auth_decide ?v ?req fresh_writer sample_sdk = Continue r1 fresh_writer (sample_sdk\<lparr>sdk_verifier := v'\<rparr>)"
    using v t by (simp add: auth_decide_def r1_def)
  have sc: "req_ctx r1 SCOPES_KEY = Some (CStrs [''svc:a''])"
    by (simp add: r1_def claims_ctx_scopes mapClaims_def sample_claims_def)
  have p: "HasPrefix ''svc:a'' ''svc:''" by code_simp
  have "RequireServiceScope_decide r1 w s = Continue r1 w s" for w :: writer and s :: "unit sdk"
    by (simp add: RequireServiceScope_decide_def sc p)
  note sc' = scope_guard.passes_on [OF this]
  show ?thesis
    by (intro exI allI) (simp add: Chain_Cons auth_guard.passes_on [OF a] middleware_of_def SecurityHeaders_decide_def sc')
qed

theorem service_route_protected_witness:
  "\<exists>token kid k. ExtractTokenFromRequest (sample_request\<lparr>req_header := [''Authorization'' \<mapsto> [''Bearer tok'']]\<rparr>) = Some token \<and>
     extractKID sample_lib token = Some kid \<and> token = ''tok'' \<and> k = \<lparr>rsa_N = 0, rsa_E = 0\<rparr>"
proof -
  let ?c = "\<lambda>f. Chain f (auth_Middleware (jwks_verifier sample_lib (\<lambda>_. Inr (200, ''{}'')) (\<lambda>_. Some sample_jwks) 1) #
       map middleware_of [SecurityHeaders_decide] @ [RequireServiceScope])
     (sample_request\<lparr>req_header := [''Authorization'' \<mapsto> [''Bearer tok'']]\<rparr>) fresh_writer sample_sdk"
  have d: "?c (\<lambda>r w s. (fresh_writer, s)) \<noteq> ?c (\<lambda>r w s. (wtr_WriteHeader fresh_writer 200, s))"
  proof -
    obtain r w s where "\<And>f. ?c f = f r w s" using sample_service_route by blast
    then show ?thesis by (simp only:) (simp add: fresh_writer_def wtr_WriteHeader_def)
  qed
  have s: "sdk_verifier sample_sdk = verify_all sample_lib (\<lambda>_. Inr (200, ''{}'')) (\<lambda>_. Some sample_jwks) [] sample_verifier"
    by (simp add: sample_sdk_def verify_all_def)
  from service_route_protected [OF sample_parser sample_verifier_new s _ _ d] show ?thesis
    by (auto simp: sdk_guards_keep_identity sample_request_def)
qed

text \<open>A token the client finds valid is one whose claims it accepts.\<close>

lemma ValidateToken_claims: "ValidateToken lib c now t = Inr True \<Longrightarrow> \<exists>cl. ValidateAndParseClaims lib c now t = Inr cl"
  by (auto simp: ValidateToken_def ValidateAndParseClaims_def bind_res_eq_Inr)

lemma rule_requires_bearer:
  assumes "header_ok env (Some validate) req (''Authorization'', spec)" and "fs_Required spec"
  shows "\<exists>token. ExtractTokenFromRequest req = Some token \<and> validate token = Inr True"
proof -
  have "ToLower ''Authorization'' = ''authorization''" by code_simp
  with assms show ?thesis
    by (auto simp: header_ok_def ValidateHeaderValue_def Let_def split: if_splits option.splits)
qed

text \<open>
  C2: A handler behind the rule validation middleware, on a route whose rule requires the \<open>Authorization\<close> header and
  is not switched off, can influence the answer only if the request carries a bearer token signed with the key of the
  JWT client, for its issuer and audience and within its time.
\<close>
theorem rule_route_needs_token:
  assumes "jwt_api_laws lib sig_ok" and "jwt_New lib cfg = Inr c"
    and "GetRule st (case req_url req of None \<Rightarrow> [] | Some u \<Rightarrow> u_path u) (req_method req) = Some (rule, params)"
    and "ru_Level rule \<noteq> LevelIgnore" and "(''Authorization'', spec) \<in> set (entries (ru_Headers rule))" and "fs_Required spec"
    and "RuleValidationMiddleware st (Some (ValidateToken lib c now)) decode f req w s \<noteq>
         RuleValidationMiddleware st (Some (ValidateToken lib c now)) decode g req w s"
  shows "\<exists>token cl. ExtractTokenFromRequest req = Some token \<and> ValidateAndParseClaims lib c now token = Inr cl \<and>
    sig_ok token (jk_publicKey c) cl \<and> cc_Issuer cl = jw_Issuer cfg \<and> jw_Audience cfg \<in> set (cc_Audience cl) \<and> in_time (jk_leeway c) now cl"
proof -
  let ?j = "Some (ValidateToken lib c now)"
  have "fst (IsRuleValid (p_env s) ?j decode req rule params)"
    using assms(3,7)
    by (auto simp: RuleValidationMiddleware_def validation_Middleware_def middleware_of_def validation_decide_def split: prod.splits bool.splits)
  then have "areValidHeaders (p_env s) ?j req rule" using assms(4) by (auto simp: IsRuleValid_def split: if_splits)
  then have "header_ok (p_env s) ?j req (''Authorization'', spec)" using assms(5) by (auto simp: areValidHeaders_def list_all_iff)
  from rule_requires_bearer [OF this assms(6)] obtain token
    where t: "ExtractTokenFromRequest req = Some token" "ValidateToken lib c now token = Inr True" by blast
  from ValidateToken_claims [OF t(2)] obtain cl where cl: "ValidateAndParseClaims lib c now token = Inr cl" by blast
  show ?thesis
    using t(1) cl jwt_api_laws.accepted [OF assms(1) cl] jwt_New_ok(1,2) [OF assms(2)] by auto
qed

text \<open>A route with such a rule, and a request with the token of the example client.\<close>

definition sample_auth_rule :: EvalRule where
  "sample_auth_rule = (sample_rule 1)\<lparr>ru_Headers := Some [(''Authorization'', \<lparr>fs_Type = ''string'', fs_Required = True, fs_Value = None,
     fs_Pattern = [], fs_Enum = [], fs_MinLen = 0, fs_MaxLen = 0, fs_compiled = None, fs_enumSet = None\<rparr>)]\<rparr>"

definition sample_auth_rules :: rules_state where
  "sample_auth_rules = \<lparr>rs_ruleMap = Some [(''/a'', [(''GET'', sample_auth_rule)])], rs_patternRoutes = [], rs_configLoaded = True\<rparr>"

definition sample_bearer :: request where
  "sample_bearer = sample_request\<lparr>req_url := Some \<lparr>u_path = ''/a'', u_rawQuery = [], u_host = []\<rparr>, req_header := [''Authorization'' \<mapsto> [''Bearer tok'']]\<rparr>"

theorem rule_route_needs_token_witness:
  "\<exists>cl. ExtractTokenFromRequest sample_bearer = Some ''tok'' \<and>
     ValidateAndParseClaims (one_token_api sample_jwt_claims) sample_jwt_client 0 ''tok'' = Inr cl \<and> cc_Issuer cl = ''iss''"
proof -
  let ?lib = "one_token_api sample_jwt_claims"
  let ?mw = "\<lambda>f. RuleValidationMiddleware sample_auth_rules (Some (ValidateToken ?lib sample_jwt_client 0)) (\<lambda>_. None) f sample_bearer fresh_writer sample_sdk"
  have t: "ExtractTokenFromRequest sample_bearer = Some ''tok''" by code_simp
  have np: "normalizePath ''/a'' = ''/a''" "Header_Get (req_header sample_bearer) ''Authorization'' = ''Bearer tok''"
    "ToLower ''Authorization'' = ''authorization''" by code_simp+
  have v: "ValidateToken ?lib sample_jwt_client 0 ''tok'' = Inr True"
    by (simp add: ValidateToken_def jwt_parse_def one_token_api_def parse_opts_def keyFunc_def sample_jwt_client_def
        in_time_def addressed_def sample_jwt_claims_def Second_def)
  have g: "GetRule sample_auth_rules (case req_url sample_bearer of None \<Rightarrow> [] | Some u \<Rightarrow> u_path u) (req_method sample_bearer) = Some (sample_auth_rule, None)"
    by (simp add: GetRule_def sample_auth_rules_def sample_bearer_def sample_request_def np)
  have h: "header_ok (p_env sample_sdk) (Some (ValidateToken ?lib sample_jwt_client 0)) sample_bearer x"
    if "x \<in> set (entries (ru_Headers sample_auth_rule))" for x
    using that np t v by (simp add: sample_auth_rule_def entries_def header_ok_def ValidateHeaderValue_def validateFieldValue_def)
  then have "areValidHeaders (p_env sample_sdk) (Some (ValidateToken ?lib sample_jwt_client 0)) sample_bearer sample_auth_rule"
    by (simp add: areValidHeaders_def list_all_iff)
  then have "fst (IsRuleValid (p_env sample_sdk) (Some (ValidateToken ?lib sample_jwt_client 0)) (\<lambda>_. None) sample_bearer sample_auth_rule None)"
    by (simp add: IsRuleValid_def sample_auth_rule_def sample_rule_def LevelLenient_def LevelIgnore_def isValidVersion_def
        areValidPathParams_def areValidQueryParams_def entries_def isValidBody_def)
  then obtain r where "IsRuleValid (p_env sample_sdk) (Some (ValidateToken ?lib sample_jwt_client 0)) (\<lambda>_. None) sample_bearer sample_auth_rule None = (True, r)"
    by (metis prod.collapse)
  then have "?mw f = f r fresh_writer sample_sdk" for f
    using g by (simp add: RuleValidationMiddleware_def validation_Middleware_def middleware_of_def validation_decide_def)
  then have d: "?mw (\<lambda>r w s. (fresh_writer, s)) \<noteq> ?mw (\<lambda>r w s. (wtr_WriteHeader fresh_writer 200, s))"
    by (simp only:) (simp add: fresh_writer_def wtr_WriteHeader_def)
  from rule_route_needs_token [OF one_token.jwt_api_laws_axioms sample_jwt_new g _ _ _ d] t show ?thesis
    by (auto simp: sample_auth_rule_def sample_rule_def LevelLenient_def LevelIgnore_def entries_def sample_jwt_cfg_def)
qed

text \<open>
  The limiter of a prod or staging process, over a Redis server: each call of \<open>Allow\<close> runs the script with the
  process's configuration, at the given times.
\<close>

definition redis_limiter :: "'r redis \<Rightarrow> lua \<Rightarrow> instant \<Rightarrow> 'r \<Rightarrow> AllowDistributed" where
  "redis_limiter rc l now srv k rate bst ttl =
     (case fst (AllowDistributed_redis rc l now k rate bst ttl srv) of
        Inl e \<Rightarrow> (False, 0, Some (StoreError e))
      | Inr (ok, wait) \<Rightarrow> (ok, wait, None))"

primrec prod_run ::
  "'r redis \<Rightarrow> lua \<Rightarrow> (string \<Rightarrow> rat option) \<Rightarrow> (string \<Rightarrow> string) \<Rightarrow> string \<Rightarrow> instant list \<Rightarrow> rl_state \<Rightarrow> 'r
     \<Rightarrow> allow_result list" where
  "prod_run rc l pf env k [] st srv = []"
| "prod_run rc l pf env k (t # ts) st srv =
     (let (r, st') = Allow pf env t k (SetRedisClient (redis_limiter rc l t srv) st);
          c = fst (loadCfg pf env st)
      in r # prod_run rc l pf env k ts st'
           (snd (AllowDistributed_redis rc l t k (rps c) (burst c) (ec_ttlSec (fst (loadEnv env st))) srv)))"

definition deployed :: "(string \<Rightarrow> rat option) \<Rightarrow> (string \<Rightarrow> string) \<Rightarrow> rl_state \<Rightarrow> bool" where
  "deployed pf env st \<longleftrightarrow>
     ec_env (fst (loadEnv env st)) \<in> {''prod'', ''staging''} \<and> ec_ttlSec (fst (loadEnv env st)) \<le> 0 \<and>
     1 \<le> burst (fst (loadCfg pf env st))"

lemma Allow_deployed:
  assumes "deployed pf env st"
  defines "c \<equiv> fst (loadCfg pf env st)"
  shows "fst (Allow pf env t k (SetRedisClient f st)) = f k (rps c) (burst c) (ec_ttlSec (fst (loadEnv env st)))"
    and "deployed pf env (snd (Allow pf env t k (SetRedisClient f st)))"
proof -
  let ?st0 = "SetRedisClient f st"
  let ?st1 = "snd (loadEnv env ?st0)"
  have env: "envPtr ?st1 = envPtr (snd (loadEnv env st))" by (simp add: SetRedisClient_def loadEnv_def Let_def)
  have cfg: "fst (loadCfg pf env ?st1) = c"
    unfolding c_def by (rule fst_loadCfg_cong) (simp_all add: SetRedisClient_def)
  have a: "Allow pf env t k ?st0 = (f k (rps c) (burst c) (ec_ttlSec (envPtr ?st1)), snd (loadCfg pf env ?st1))"
    using assms(1) env cfg
    by (auto simp: Allow_def deployed_def Let_def split_beta SetRedisClient_def [of f st, symmetric] split: option.splits)
      (simp_all add: SetRedisClient_def)
  show "fst (Allow pf env t k ?st0) = f k (rps c) (burst c) (ec_ttlSec (fst (loadEnv env st)))"
    by (simp add: a env)
  show "deployed pf env (snd (Allow pf env t k ?st0))"
    using assms(1) by (simp add: a deployed_def env loadCfg_stable cfg c_def)
qed

lemma prod_run_allows:
  assumes "redis_hashes rc gone" and "tostring l 0 = ''0''" and "deployed pf env st" and "gone srv k"
  shows "\<forall>r \<in> set (takeWhile (\<lambda>r. snd (snd r) = None) (prod_run rc l pf env k ts st srv)). r = (True, 0, None)"
  using assms(3,4)
proof (induction ts arbitrary: st srv)
  case Nil
  then show ?case by simp
next
  case (Cons t ts)
  let ?c = "fst (loadCfg pf env st)" and ?ttl = "ec_ttlSec (fst (loadEnv env st))"
  obtain x srv' where x: "AllowDistributed_redis rc l t k (rps ?c) (burst ?c) ?ttl srv = (x, srv')" by fastforce
  obtain r st' where r: "Allow pf env t k (SetRedisClient (redis_limiter rc l t srv) st) = (r, st')" by fastforce
  note a = Allow_deployed [OF Cons.prems(1), of t k "redis_limiter rc l t srv", unfolded r fst_conv snd_conv]
  have run: "prod_run rc l pf env k (t # ts) st srv = r # prod_run rc l pf env k ts st' srv'"
    using x by (simp add: r Let_def)
  show ?case
  proof (cases "snd (snd r) = None")
    case True
    with a(1) obtain y where y: "x = Inr y" "r = (fst y, snd y, None)"
      using x by (auto simp: redis_limiter_def split: sum.splits prod.splits)
    have ok: "y = (True, 0) \<and> gone srv' k"
      by (rule AllowDistributed_no_ttl [OF assms(1) Cons.prems(2) _ _ assms(2)])
        (use Cons.prems(1) x y in \<open>auto simp: deployed_def\<close>)
    with y Cons.IH [OF a(2) conjunct2 [OF ok]] show ?thesis unfolding run by simp
  next
    case False
    then show ?thesis unfolding run by (simp only: takeWhile.simps if_False list.set empty_iff ball_empty)
  qed
qed

text \<open>
  C37: In prod and staging, with \<open>RATE_LIMIT_BUCKET_TTL_SEC\<close> not set, the limiter passes a TTL of 0 to the Redis
  script, whose \<open>EXPIRE\<close> then deletes the bucket: starting with no bucket for the client in Redis, however many
  calls the client makes, at whatever times, every one of them up to the first that fails (with an error of Redis)
  is allowed without wait. The distributed limiter does not limit. After a failed call nothing is claimed: one that
  fails between the script's two writes leaves a bucket behind.
\<close>
theorem prod_limiter_never_limits:
  assumes "redis_hashes rc gone" and "tostring l 0 = ''0''" and "gone srv k"
    and "ToLower (TrimSpace (env ''ENV'')) \<in> {''prod'', ''staging''}"
    and "TrimSpace (env ''RATE_LIMIT_BUCKET_TTL_SEC'') = []"
  shows "\<forall>r \<in> set (takeWhile (\<lambda>r. snd (snd r) = None) (prod_run rc l pf env k ts rl_init srv)). r = (True, 0, None)"
proof (rule prod_run_allows [OF assms(1,2) _ assms(3)])
  show "deployed pf env rl_init"
    using assms(4,5) by (auto simp: deployed_def loadEnv_def loadCfg_def rl_init_def Let_def)
qed

theorem prod_limiter_never_limits_witness:
  "prod_run mem_redis \<lparr>tonumber = (\<lambda>_. None), tostring = (\<lambda>x. ''0'')\<rparr> (\<lambda>_. None)
      (\<lambda>n. if n = ''ENV'' then ''prod'' else []) ''ip'' [0, 0, 0] rl_init Map.empty = replicate 3 (True, 0, None)"
  (is "?run = _")
proof -
  have first: "\<forall>r \<in> set (takeWhile (\<lambda>r. snd (snd r) = None) ?run). r = (True, 0, None)"
  proof (rule prod_limiter_never_limits [where gone = "\<lambda>s k. s k = None"])
    show "redis_hashes mem_redis (\<lambda>s k. s k = None)" ..
  qed (simp, simp, code_simp, code_simp)
  have "\<forall>r \<in> set ?run. snd (snd r) = None" by code_simp
  then have "takeWhile (\<lambda>r. snd (snd r) = None) ?run = ?run" by (rule takeWhile_eq_all_conv [THEN iffD2])
  with first have "\<forall>r \<in> set ?run. r = (True, 0, None)" by (rule subst [where P = "\<lambda>x. \<forall>r \<in> set x. r = (True, 0, None)", rotated])
  moreover have "length ?run = 3" by (simp add: split_beta Let_def)
  ultimately show ?thesis by (metis replicate_length_same)
qed

end
